(* ===== verification/Prelude.thy ===== *)
theory Prelude
  imports Main "HOL-Library.Sublist"
begin

text \<open>
  Shared vocabulary of the development: Rust strings and the string operations the
  controller uses, 64-bit signed saturating arithmetic, and effects that may fail over an
  explicit state with the rules that run them.
\<close>

named_theorems act_simps "unfolding rules of the effect combinators"
named_theorems text_simps "unfolding rules of the text operations"

section \<open>Text\<close>

text \<open>
  A Rust \<open>str\<close> is a sequence of UTF-8 bytes and \<open>len\<close> counts bytes. A HOL
  \<open>string\<close> is a list of 8-bit characters, so \<open>length\<close> is \<open>len\<close>.
\<close>

definition starts_with :: "string \<Rightarrow> string \<Rightarrow> bool" where
  [text_simps]: "starts_with p s \<longleftrightarrow> take (length p) s = p"

definition strip_prefix :: "string \<Rightarrow> string \<Rightarrow> string option" where
  [text_simps]: "strip_prefix p s = (if starts_with p s then Some (drop (length p) s) else None)"

fun split_once :: "char \<Rightarrow> string \<Rightarrow> (string \<times> string) option" where
  "split_once c [] = None"
| "split_once c (x # xs) =
     (if x = c then Some ([], xs)
      else (case split_once c xs of None \<Rightarrow> None | Some (a, b) \<Rightarrow> Some (x # a, b)))"

fun split_on :: "char \<Rightarrow> string \<Rightarrow> string list" where
  "split_on c [] = [[]]"
| "split_on c (x # xs) =
     (if x = c then [] # split_on c xs
      else (case split_on c xs of [] \<Rightarrow> [[x]] | p # ps \<Rightarrow> (x # p) # ps))"

definition text_contains :: "string \<Rightarrow> string \<Rightarrow> bool" where
  "text_contains needle s \<longleftrightarrow>
     list_ex (\<lambda>i. take (length needle) (drop i s) = needle) [0..<Suc (length s)]"

definition is_ascii_lower :: "char \<Rightarrow> bool" where
  [text_simps]: "is_ascii_lower c \<longleftrightarrow> (97::nat) \<le> of_char c \<and> (of_char c :: nat) \<le> 122"

definition is_ascii_upper :: "char \<Rightarrow> bool" where
  [text_simps]: "is_ascii_upper c \<longleftrightarrow> (65::nat) \<le> of_char c \<and> (of_char c :: nat) \<le> 90"

definition is_ascii_digit :: "char \<Rightarrow> bool" where
  [text_simps]: "is_ascii_digit c \<longleftrightarrow> (48::nat) \<le> of_char c \<and> (of_char c :: nat) \<le> 57"

definition is_ascii_graphic :: "char \<Rightarrow> bool" where
  [text_simps]: "is_ascii_graphic c \<longleftrightarrow> (33::nat) \<le> of_char c \<and> (of_char c :: nat) \<le> 126"

definition ascii_lower :: "char \<Rightarrow> char" where
  "ascii_lower c = (if is_ascii_upper c then char_of ((of_char c :: nat) + 32) else c)"

definition to_ascii_lowercase :: "string \<Rightarrow> string" where
  "to_ascii_lowercase s = map ascii_lower s"

text \<open>White space in ASCII.\<close>

definition is_space :: "char \<Rightarrow> bool" where
  "is_space c \<longleftrightarrow> c = CHR 0x20 \<or> ((9::nat) \<le> of_char c \<and> (of_char c :: nat) \<le> 13)"

text \<open>Decimal text of a natural number, as \<open>format!("{n}")\<close> writes it.\<close>

fun decimal :: "nat \<Rightarrow> string" where
  "decimal n = (if n < 10 then [char_of (48 + n)]
                else decimal (n div 10) @ [char_of (48 + n mod 10)])"

declare decimal.simps [simp del]

definition decimal_int :: "int \<Rightarrow> string" where
  "decimal_int x = (if x < 0 then ''-'' @ decimal (nat (- x)) else decimal (nat x))"

definition digit_value :: "char \<Rightarrow> nat" where
  "digit_value c = of_char c - 48"

text \<open>Reading decimal text back, as \<open>str::parse\<close> does for an unsigned integer.\<close>

definition parse_decimal :: "string \<Rightarrow> nat option" where
  "parse_decimal s =
     (if s \<noteq> [] \<and> list_all is_ascii_digit s
      then Some (foldl (\<lambda>n c. 10 * n + digit_value c) 0 s) else None)"

text \<open>\<open>str::parse::<u64>()\<close>: an optional plus sign, digits, and no overflow.\<close>

definition u64_max :: nat where "u64_max = 2 ^ 64 - 1"

definition parse_u64 :: "string \<Rightarrow> nat option" where
  "parse_u64 s =
     (let digits = (case s of c # cs \<Rightarrow> if c = CHR ''+'' then cs else s | [] \<Rightarrow> s)
      in case parse_decimal digits of
           None \<Rightarrow> None
         | Some n \<Rightarrow> if n \<le> u64_max then Some n else None)"

definition rsplit_once :: "char \<Rightarrow> string \<Rightarrow> (string \<times> string) option" where
  "rsplit_once c s = map_option (\<lambda>(a, b). (rev b, rev a)) (split_once c (rev s))"

text \<open>
  \<open>chars()\<close> over UTF-8 bytes: a scalar value starts at each byte that is not a
  continuation byte.
\<close>

definition is_continuation :: "char \<Rightarrow> bool" where
  "is_continuation c \<longleftrightarrow> (128::nat) \<le> of_char c \<and> (of_char c :: nat) \<le> 191"

definition char_count :: "string \<Rightarrow> nat" where
  "char_count s = length (filter (\<lambda>c. \<not> is_continuation c) s)"

fun take_chars :: "nat \<Rightarrow> string \<Rightarrow> string" where
  "take_chars n [] = []"
| "take_chars n (c # cs) =
     (if is_continuation c then c # take_chars n cs
      else (case n of 0 \<Rightarrow> [] | Suc m \<Rightarrow> c # take_chars m cs))"

text \<open>An index is a character boundary at either end and before a byte that starts a character.\<close>

definition is_char_boundary :: "string \<Rightarrow> nat \<Rightarrow> bool" where
  "is_char_boundary s i \<longleftrightarrow> i = 0 \<or> i = length s \<or> (i < length s \<and> \<not> is_continuation (s ! i))"

fun boundary_below :: "string \<Rightarrow> nat \<Rightarrow> nat" where
  "boundary_below s i = (if is_char_boundary s i \<or> i = 0 then i else boundary_below s (i - 1))"

declare boundary_below.simps [simp del]

lemma boundary_below_le: "boundary_below s i \<le> i"
proof (induction s i rule: boundary_below.induct)
  case (1 s i)
  then show ?case by (subst boundary_below.simps) (auto intro: le_trans)
qed

text \<open>
  The scalar values of a text, each as its bytes, and \<open>char::is_whitespace\<close> on them: the
  ASCII spaces, U+0085, U+00A0, U+1680, U+2000 to U+200A, U+2028, U+2029, U+202F, U+205F and
  U+3000.
\<close>

fun scalars :: "string \<Rightarrow> string list" where
  "scalars [] = []"
| "scalars (c # cs) =
     (case scalars cs of
        [] \<Rightarrow> [[c]]
      | p # ps \<Rightarrow> if is_continuation (hd p) then (c # p) # ps else [c] # p # ps)"

definition is_whitespace :: "string \<Rightarrow> bool" where
  "is_whitespace p \<longleftrightarrow>
     (case p of
        [c] \<Rightarrow> is_space c
      | [c, d] \<Rightarrow> c = CHR 0xC2 \<and> (d = CHR 0x85 \<or> d = CHR 0xA0)
      | [c, d, e] \<Rightarrow>
          (c, d, e) = (CHR 0xE1, CHR 0x9A, CHR 0x80) \<or>
          (c, d) = (CHR 0xE2, CHR 0x80) \<and>
            ((128::nat) \<le> of_char e \<and> (of_char e :: nat) \<le> 138 \<or> e = CHR 0xA8 \<or> e = CHR 0xA9 \<or> e = CHR 0xAF) \<or>
          (c, d, e) = (CHR 0xE2, CHR 0x81, CHR 0x9F) \<or>
          (c, d, e) = (CHR 0xE3, CHR 0x80, CHR 0x80)
      | _ \<Rightarrow> False)"

text \<open>\<open>str::trim\<close> removes white space at both ends.\<close>

definition text_trim :: "string \<Rightarrow> string" where
  "text_trim s = concat (rev (dropWhile is_whitespace (rev (dropWhile is_whitespace (scalars s)))))"

lemma concat_scalars [simp]: "concat (scalars s) = s"
  by (induction s) (auto split: list.splits)

lemma scalars_not_Nil: "p \<in> set (scalars s) \<Longrightarrow> p \<noteq> []"
  by (induction s arbitrary: p) (auto split: list.splits if_splits)

text \<open>\<open>char::is_control\<close>: below U+0020, U+007F, and U+0080 to U+009F (bytes C2 80 to C2 9F).\<close>

fun has_control :: "string \<Rightarrow> bool" where
  "has_control [] \<longleftrightarrow> False"
| "has_control (c # cs) \<longleftrightarrow>
     (of_char c :: nat) < 32 \<or> (of_char c :: nat) = 127 \<or>
     ((of_char c :: nat) = 194 \<and> (case cs of [] \<Rightarrow> False
        | d # _ \<Rightarrow> (128::nat) \<le> of_char d \<and> (of_char d :: nat) \<le> 159)) \<or>
     has_control cs"

definition is_ascii_alnum :: "char \<Rightarrow> bool" where
  "is_ascii_alnum c \<longleftrightarrow> is_ascii_lower c \<or> is_ascii_upper c \<or> is_ascii_digit c"

definition hex_digit :: "nat \<Rightarrow> char" where
  "hex_digit n = ''0123456789abcdef'' ! (n mod 16)"

definition hex_text :: "string \<Rightarrow> string" where
  "hex_text bytes = concat (map (\<lambda>b. [hex_digit (of_char b div 16), hex_digit (of_char b mod 16)]) bytes)"

fun join_text :: "string \<Rightarrow> string list \<Rightarrow> string" where
  "join_text sep [] = []"
| "join_text sep [s] = s"
| "join_text sep (s # t # ss) = s @ sep @ join_text sep (t # ss)"

text \<open>\<open>Vec::dedup\<close>: drops repeated neighbours.\<close>

definition dedup :: "'a list \<Rightarrow> 'a list" where
  "dedup = remdups_adj"

lemma starts_with_append [simp]: "starts_with p (p @ s)"
  by (simp add: starts_with_def)

lemma starts_with_iff: "starts_with p s \<longleftrightarrow> (\<exists>t. s = p @ t)"
  by (metis append_take_drop_id starts_with_append starts_with_def)

lemma strip_prefix_append [simp]: "strip_prefix p (p @ s) = Some s"
  by (simp add: strip_prefix_def)

lemma strip_prefix_Some: "strip_prefix p s = Some t \<longleftrightarrow> s = p @ t"
  by (auto simp: strip_prefix_def starts_with_def) (metis append_take_drop_id)

lemma split_once_Some:
  "split_once c s = Some (a, b) \<longleftrightarrow> s = a @ c # b \<and> c \<notin> set a"
proof (induction s arbitrary: a)
  case Nil
  then show ?case by simp
next
  case (Cons x xs)
  show ?case
  proof (cases a)
    case Nil
    then show ?thesis by (auto split: option.splits)
  next
    case (Cons y ys)
    then show ?thesis using Cons.IH [of ys] by (auto split: option.splits)
  qed
qed

lemma split_once_append: "c \<notin> set a \<Longrightarrow> split_once c (a @ c # b) = Some (a, b)"
  by (simp add: split_once_Some)

lemma split_once_None: "split_once c s = None \<longleftrightarrow> c \<notin> set s"
  by (induction s) (auto split: option.splits)

lemma split_on_not_Nil [simp]: "split_on c s \<noteq> []"
  by (cases s) (auto split: list.splits)

lemma split_on_pieces: "p \<in> set (split_on c s) \<Longrightarrow> c \<notin> set p"
  by (induction s arbitrary: p) (auto split: list.splits if_splits)

lemma split_on_no_sep: "c \<notin> set s \<Longrightarrow> split_on c s = [s]"
  by (induction s) auto

lemma split_on_append: "c \<notin> set a \<Longrightarrow> split_on c (a @ c # b) = a # split_on c b"
  by (induction a) auto

lemma text_contains_iff: "text_contains needle s \<longleftrightarrow> (\<exists>a b. s = a @ needle @ b)"
proof
  assume "text_contains needle s"
  then obtain i where "take (length needle) (drop i s) = needle"
    by (auto simp: text_contains_def list_ex_iff)
  then have "s = take i s @ needle @ drop (length needle) (drop i s)"
    by (metis append_take_drop_id)
  then show "\<exists>a b. s = a @ needle @ b" by blast
next
  assume "\<exists>a b. s = a @ needle @ b"
  then obtain a b where s: "s = a @ needle @ b" by blast
  then have "length a \<in> set [0..<Suc (length s)]" by simp
  moreover have "take (length needle) (drop (length a) s) = needle" by (simp add: s)
  ultimately show "text_contains needle s"
    unfolding text_contains_def list_ex_iff by blast
qed

lemma is_ascii_digit_digit [simp]: "(n::nat) < 10 \<Longrightarrow> is_ascii_digit (char_of (48 + n))"
  by (simp add: is_ascii_digit_def)

lemma digit_value_digit [simp]: "(n::nat) < 10 \<Longrightarrow> digit_value (char_of (48 + n)) = n"
  by (simp add: digit_value_def)

lemma decimal_digits: "list_all is_ascii_digit (decimal n)"
  by (induction n rule: decimal.induct) (subst decimal.simps, auto)

lemma decimal_not_Nil [simp]: "decimal n \<noteq> []"
  by (subst decimal.simps) simp

lemma decimal_value: "foldl (\<lambda>n c. 10 * n + digit_value c) 0 (decimal n) = n"
proof (induction n rule: decimal.induct)
  case (1 n)
  show ?case
  proof (cases "n < 10")
    case True
    then show ?thesis by (subst decimal.simps) simp
  next
    case False
    with "1.IH" show ?thesis by (subst decimal.simps) simp
  qed
qed

lemma parse_decimal_decimal [simp]: "parse_decimal (decimal n) = Some n"
  by (simp add: parse_decimal_def decimal_digits decimal_value)

lemma decimal_inject [simp]: "decimal m = decimal n \<longleftrightarrow> m = n"
  by (metis decimal_value)

lemma decimal_no_colon: "CHR '':'' \<notin> set (decimal n)"
  using decimal_digits [of n] by (auto simp: list_all_iff is_ascii_digit_def)

lemma parse_u64_decimal: "n \<le> u64_max \<Longrightarrow> parse_u64 (decimal n) = Some n"
proof -
  obtain c cs where d: "decimal n = c # cs" by (metis decimal_not_Nil list.exhaust)
  have "is_ascii_digit c" using decimal_digits [of n] d by simp
  then have "c \<noteq> CHR ''+''" by (auto simp: is_ascii_digit_def)
  with d have "(case decimal n of c # cs \<Rightarrow> if c = CHR ''+'' then cs else decimal n | [] \<Rightarrow> decimal n)
      = decimal n" by simp
  moreover assume "n \<le> u64_max"
  ultimately show ?thesis by (simp add: parse_u64_def)
qed

lemma rsplit_once_append: "c \<notin> set b \<Longrightarrow> rsplit_once c (a @ c # b) = Some (a, b)"
  using split_once_append [of c "rev b" "rev a"] by (simp add: rsplit_once_def)

lemma length_hex_text [simp]: "length (hex_text bytes) = 2 * length bytes"
  by (induction bytes) (simp_all add: hex_text_def)

lemma hex_digit_shape: "is_ascii_digit (hex_digit n) \<or> (97::nat) \<le> of_char (hex_digit n) \<and> (of_char (hex_digit n) :: nat) \<le> 102"
proof -
  have "hex_digit n \<in> set ''0123456789abcdef''"
    unfolding hex_digit_def by (rule nth_mem) simp
  then show ?thesis by (auto simp: is_ascii_digit_def)
qed

text \<open>
  \<open>format!("{text:?}")\<close>: quoted, with the escapes of ASCII text. Bytes outside ASCII are
  kept, as the formatter keeps printable characters. \<open>escape_debug\<close> escapes the single
  quote too.
\<close>

definition escape_char :: "char \<Rightarrow> string" where
  "escape_char c =
     (if c = CHR 0x22 then [CHR 0x5C, CHR 0x22]
      else if c = CHR 0x5C then [CHR 0x5C, CHR 0x5C]
      else if c = CHR 0x0A then [CHR 0x5C, CHR ''n'']
      else if c = CHR 0x0D then [CHR 0x5C, CHR ''r'']
      else if c = CHR 0x09 then [CHR 0x5C, CHR ''t'']
      else if c = CHR 0x00 then [CHR 0x5C, CHR ''0'']
      else if (of_char c :: nat) < 16 then [CHR 0x5C] @ ''u{'' @ [hex_digit (of_char c)] @ ''}''
      else if (of_char c :: nat) < 32 \<or> (of_char c :: nat) = 127
      then [CHR 0x5C] @ ''u{'' @ [hex_digit (of_char c div 16), hex_digit (of_char c mod 16)] @ ''}''
      else [c])"

definition debug_str :: "string \<Rightarrow> string" where
  "debug_str s = [CHR 0x22] @ concat (map escape_char s) @ [CHR 0x22]"

definition escape_debug_str :: "string \<Rightarrow> string" where
  "escape_debug_str s = concat (map (\<lambda>c. if c = CHR 0x27 then [CHR 0x5C, CHR 0x27] else escape_char c) s)"

text \<open>\<open>split\<close> at each character of a set, and \<open>split_once\<close> at a text.\<close>

fun split_when :: "(char \<Rightarrow> bool) \<Rightarrow> string \<Rightarrow> string list" where
  "split_when P [] = [[]]"
| "split_when P (x # xs) =
     (if P x then [] # split_when P xs
      else (case split_when P xs of [] \<Rightarrow> [[x]] | p # ps \<Rightarrow> (x # p) # ps))"

fun split_once_text :: "string \<Rightarrow> string \<Rightarrow> (string \<times> string) option" where
  "split_once_text sep s =
     (if starts_with sep s then Some ([], drop (length sep) s)
      else (case s of [] \<Rightarrow> None
            | c # cs \<Rightarrow> (case split_once_text sep cs of None \<Rightarrow> None | Some (a, b) \<Rightarrow> Some (c # a, b))))"

declare split_once_text.simps [simp del]

definition ends_with :: "string \<Rightarrow> string \<Rightarrow> bool" where
  [text_simps]: "ends_with p s \<longleftrightarrow> length p \<le> length s \<and> drop (length s - length p) s = p"

text \<open>The first check of a list that fails.\<close>

fun first_error :: "('e + unit) list \<Rightarrow> 'e + unit" where
  "first_error [] = Inr ()"
| "first_error (r # rs) = (case r of Inl e \<Rightarrow> Inl e | Inr _ \<Rightarrow> first_error rs)"

lemma first_error_Inr: "first_error rs = Inr u \<longleftrightarrow> list_all (\<lambda>r. r = Inr ()) rs"
  by (induction rs) (auto split: sum.splits)

definition refuse_when :: "bool \<Rightarrow> 'e \<Rightarrow> 'e + unit" where
  "refuse_when b e = (if b then Inl e else Inr ())"

lemma refuse_when_Inr [simp]: "refuse_when b e = Inr u \<longleftrightarrow> \<not> b"
  by (simp add: refuse_when_def)

section \<open>64-bit signed integers\<close>

text \<open>
  An \<open>i64\<close> is an \<open>int\<close>; the operations that matter in the code saturate, which is
  written out.
\<close>

definition i64_min :: int where "i64_min = - (2 ^ 63)"
definition i64_max :: int where "i64_max = 2 ^ 63 - 1"

definition in_i64 :: "int \<Rightarrow> bool" where
  "in_i64 x \<longleftrightarrow> i64_min \<le> x \<and> x \<le> i64_max"

definition sat_i64 :: "int \<Rightarrow> int" where
  "sat_i64 x = max i64_min (min i64_max x)"

text \<open>\<open>checked_add\<close>, \<open>checked_mul\<close> and \<open>try_from\<close>: the exact result when it fits.\<close>

definition checked_i64 :: "int \<Rightarrow> int option" where
  "checked_i64 x = (if in_i64 x then Some x else None)"

definition saturating_sub :: "int \<Rightarrow> int \<Rightarrow> int" where
  "saturating_sub a b = sat_i64 (a - b)"

definition saturating_add :: "int \<Rightarrow> int \<Rightarrow> int" where
  "saturating_add a b = sat_i64 (a + b)"

lemma sat_i64_in [simp]: "in_i64 (sat_i64 x)"
  by (simp add: sat_i64_def in_i64_def i64_min_def i64_max_def)

lemma sat_i64_id [simp]: "in_i64 x \<Longrightarrow> sat_i64 x = x"
  by (simp add: sat_i64_def in_i64_def)

lemma sat_i64_mono: "x \<le> y \<Longrightarrow> sat_i64 x \<le> sat_i64 y"
  by (simp add: sat_i64_def)

lemma saturating_sub_mono: "a \<le> b \<Longrightarrow> saturating_sub a c \<le> saturating_sub b c"
  by (simp add: saturating_sub_def sat_i64_mono)

lemma saturating_sub_le: "in_i64 a \<Longrightarrow> 0 \<le> b \<Longrightarrow> saturating_sub a b \<le> a"
  by (simp add: saturating_sub_def sat_i64_def in_i64_def)

section \<open>Effects: explicit state, errors as values\<close>

text \<open>
  An operation of the code takes the state and answers an error or a value together with
  the state it leaves. An early return on an error keeps every change made before it.
\<close>

type_synonym ('s, 'e, 'a) act = "'s \<Rightarrow> ('e + 'a) \<times> 's"

definition ret :: "'a \<Rightarrow> ('s, 'e, 'a) act" where
  [act_simps]: "ret x = (\<lambda>s. (Inr x, s))"

definition fail :: "'e \<Rightarrow> ('s, 'e, 'a) act" where
  [act_simps]: "fail e = (\<lambda>s. (Inl e, s))"

definition andthen :: "('s, 'e, 'a) act \<Rightarrow> ('a \<Rightarrow> ('s, 'e, 'b) act) \<Rightarrow> ('s, 'e, 'b) act" where
  [act_simps]: "andthen m f =
     (\<lambda>s. case m s of (Inl e, t) \<Rightarrow> (Inl e, t) | (Inr x, t) \<Rightarrow> f x t)"

definition map_err :: "('e \<Rightarrow> 'f) \<Rightarrow> ('s, 'e, 'a) act \<Rightarrow> ('s, 'f, 'a) act" where
  [act_simps]: "map_err g m =
     (\<lambda>s. case m s of (Inl e, t) \<Rightarrow> (Inl (g e), t) | (Inr x, t) \<Rightarrow> (Inr x, t))"

text \<open>A check without an effect, and a call whose error the caller looks at.\<close>

definition lift :: "'e + 'a \<Rightarrow> ('s, 'e, 'a) act" where
  [act_simps]: "lift r = (\<lambda>s. (r, s))"

definition attempt :: "('s, 'e, 'a) act \<Rightarrow> ('s, 'f, 'e + 'a) act" where
  [act_simps]: "attempt m = (\<lambda>s. case m s of (r, t) \<Rightarrow> (Inr r, t))"

definition asks :: "('s \<Rightarrow> 'a) \<Rightarrow> ('s, 'e, 'a) act" where
  [act_simps]: "asks f = (\<lambda>s. (Inr (f s), s))"

definition modify :: "('s \<Rightarrow> 's) \<Rightarrow> ('s, 'e, unit) act" where
  [act_simps]: "modify f = (\<lambda>s. (Inr (), f s))"

text \<open>A check on plain values, chained: the first error wins.\<close>

definition check_then :: "'e + 'a \<Rightarrow> ('a \<Rightarrow> 'e + 'b) \<Rightarrow> 'e + 'b" where
  "check_then r f = (case r of Inl e \<Rightarrow> Inl e | Inr x \<Rightarrow> f x)"

lemma check_then_Inr: "check_then r f = Inr y \<longleftrightarrow> (\<exists>x. r = Inr x \<and> f x = Inr y)"
  by (cases r) (auto simp: check_then_def)

lemma andthen_Inr:
  "andthen m f s = (Inr y, u) \<longleftrightarrow> (\<exists>x t. m s = (Inr x, t) \<and> f x t = (Inr y, u))"
  by (auto simp: andthen_def split: prod.splits sum.splits)

lemma map_err_Inr: "map_err g m s = (Inr x, t) \<longleftrightarrow> m s = (Inr x, t)"
  by (auto simp: map_err_def split: prod.splits sum.splits)

lemma ret_Inr: "ret x s = (Inr y, t) \<longleftrightarrow> x = y \<and> t = s"
  by (auto simp: ret_def)

lemma fail_Inr: "\<not> fail e s = (Inr y, t)"
  by (simp add: fail_def)

lemma lift_Inr: "lift r s = (Inr y, t) \<longleftrightarrow> r = Inr y \<and> t = s"
  by (auto simp: lift_def)

lemma asks_Inr: "asks f s = (Inr y, t) \<longleftrightarrow> f s = y \<and> t = s"
  by (auto simp: asks_def)

lemma modify_Inr: "modify f s = (Inr y, t) \<longleftrightarrow> t = f s"
  by (auto simp: modify_def)

lemma attempt_Inr: "attempt m s = (Inr r, t) \<longleftrightarrow> m s = (r, t)"
  by (auto simp: attempt_def split: prod.splits)

lemma cond_fail_Inr:
  "(if b then fail e else m) s = (Inr y, t) \<longleftrightarrow> \<not> b \<and> m s = (Inr y, t)"
  "(if b then m else fail e) s = (Inr y, t) \<longleftrightarrow> b \<and> m s = (Inr y, t)"
  by (auto simp: fail_def)

lemma option_fail_Inr:
  "(case v of None \<Rightarrow> fail e | Some x \<Rightarrow> f x) s = (Inr y, t) \<longleftrightarrow> (\<exists>x. v = Some x \<and> f x s = (Inr y, t))"
  by (cases v) (auto simp: fail_def)

lemma sum_fail_Inr:
  "(case v of Inl e \<Rightarrow> fail (g e) | Inr x \<Rightarrow> f x) s = (Inr y, t) \<longleftrightarrow> (\<exists>x. v = Inr x \<and> f x s = (Inr y, t))"
  by (cases v) (auto simp: fail_def)

lemma sum_map_Inr:
  "(case v of Inl e \<Rightarrow> Inl (g e) | Inr x \<Rightarrow> Inr x) = Inr y \<longleftrightarrow> v = Inr y"
  by (cases v) auto

lemma sum_pair_Inr:
  "(case v of Inl e \<Rightarrow> (Inl (g e), h e) | Inr x \<Rightarrow> f x) = (Inr y, t) \<longleftrightarrow> (\<exists>x. v = Inr x \<and> f x = (Inr y, t))"
  by (cases v) auto

lemmas act_Inr = andthen_Inr map_err_Inr ret_Inr fail_Inr lift_Inr asks_Inr modify_Inr attempt_Inr
  cond_fail_Inr option_fail_Inr sum_fail_Inr sum_map_Inr
  sum_pair_Inr

lemma find_Some_in: "find P xs = Some x \<Longrightarrow> x \<in> set xs \<and> P x"
  by (auto simp: find_Some_iff)

lemma andthen_lift [simp]:
  "andthen (lift r) f s = (case r of Inl e \<Rightarrow> (Inl e, s) | Inr x \<Rightarrow> f x s)"
  by (simp add: act_simps split: sum.splits)

lemma andthen_ret [simp]: "andthen (ret x) f = f x"
  by (simp add: act_simps)

lemma andthen_fail [simp]: "andthen (fail e) f = fail e"
  by (simp add: act_simps)

lemma hex_digit_inject: "m < 16 \<Longrightarrow> n < 16 \<Longrightarrow> hex_digit m = hex_digit n \<longleftrightarrow> m = n"
  unfolding hex_digit_def
  using nth_eq_iff_index_eq [of "''0123456789abcdef''" m n] by simp

lemma hex_text_inject: "hex_text a = hex_text b \<longleftrightarrow> a = b"
proof (induction a arbitrary: b)
  case Nil
  then show ?case by (cases b) (simp_all add: hex_text_def)
next
  case (Cons x a)
  have byte: "(of_char x :: nat) div 16 = of_char y div 16 \<and> (of_char x :: nat) mod 16 = of_char y mod 16 \<longleftrightarrow> x = y" for y
    by (metis div_mod_decomp of_char_eq_iff)
  have small: "(of_char y :: nat) div 16 < 16" for y
    using nat_of_char_less_256 [of y] by (simp only: less_mult_imp_div_less)
  show ?case
  proof (cases b)
    case (Cons y c)
    have "hex_text (x # a) = hex_text (y # c) \<longleftrightarrow>
        (of_char x :: nat) div 16 = of_char y div 16 \<and> (of_char x :: nat) mod 16 = of_char y mod 16 \<and> hex_text a = hex_text c"
      using small by (auto simp: hex_text_def hex_digit_inject)
    with Cons.IH byte Cons show ?thesis by auto
  qed (simp add: hex_text_def)
qed

lemma append_separator_inject:
  "a @ c # x = b @ c # y \<Longrightarrow> c \<notin> set a \<Longrightarrow> c \<notin> set b \<Longrightarrow> a = b \<and> x = y"
  by (induction a arbitrary: b) (auto simp: Cons_eq_append_conv append_eq_Cons_conv)

lemma andthen_step: "m s = (Inr y, u) \<Longrightarrow> andthen m f s = f y u"
  and andthen_stop: "m s = (Inl e, u) \<Longrightarrow> andthen m f s = (Inl e, u)"
  and map_err_step: "m s = (Inr y, u) \<Longrightarrow> map_err g m s = (Inr y, u)"
  and map_err_stop: "m s = (Inl e, u) \<Longrightarrow> map_err g m s = (Inl (g e), u)"
  and lift_step: "lift r s = (r, s)"
  by (simp_all add: act_simps)

lemmas run_steps = andthen_step andthen_stop map_err_step map_err_stop lift_step

lemma lift_Inr_D: "lift x s = (Inr y, t) \<Longrightarrow> x = Inr y \<and> t = s"
  by (simp add: lift_Inr)

lemma map_err_Inr_D: "map_err g m s = (Inr y, t) \<Longrightarrow> m s = (Inr y, t)"
  by (simp add: map_err_Inr)

lemma andthen_Inr_E:
  assumes "andthen m f s = (Inr x, t)"
  obtains y u where "m s = (Inr y, u)" "f y u = (Inr x, t)"
  using assms by (auto simp: andthen_Inr)

end
