(* ===== verification/Interfaces.thy ===== *)
theory Interfaces
  imports Prelude
begin

text \<open>
  The contracts several components share, as locales. Each is interpreted on the model's
  own definitions in the theory that provides them: the enumerations with a stable text
  id, the life cycles whose runs end, the relations an effect stays within (invariants,
  terminal states that are kept, counters that only grow), and the compare-and-set stores
  of which of several competing updates exactly one wins.
\<close>

section \<open>Enumerations with a stable text id\<close>

locale text_ids =
  fixes text_of :: "'a \<Rightarrow> string" and all :: "'a list"
  assumes complete: "x \<in> set all"
    and distinct_texts: "distinct (map text_of all)"
begin

lemma text_of_eq: "text_of x = text_of y \<longleftrightarrow> x = y"
  using distinct_texts complete by (auto simp: distinct_map inj_on_def)

lemma distinct_all: "distinct all"
  using distinct_texts by (simp add: distinct_map)

end

locale text_enum = text_ids +
  fixes of_text :: "string \<Rightarrow> 'a option"
  assumes roundtrip: "of_text (text_of x) = Some x"
    and exact: "of_text s = Some x \<Longrightarrow> s = text_of x"
begin

lemma of_text_iff: "of_text s = Some x \<longleftrightarrow> s = text_of x"
  using roundtrip exact by auto

lemma of_text_None: "of_text s = None \<longleftrightarrow> s \<notin> set (map text_of all)"
proof -
  have "(\<exists>x. of_text s = Some x) \<longleftrightarrow> s \<in> set (map text_of all)"
    using complete by (auto simp: of_text_iff)
  then show ?thesis by auto
qed

end

section \<open>Life cycles\<close>

locale lifecycle =
  fixes can :: "'s \<Rightarrow> 's \<Rightarrow> bool" and terminal :: "'s \<Rightarrow> bool" and rank :: "'s \<Rightarrow> nat"
  assumes terminal_stuck: "terminal a \<Longrightarrow> \<not> can a b"
    and live_moves: "\<not> terminal a \<Longrightarrow> \<exists>b. can a b"
    and rank_less: "can a b \<Longrightarrow> rank b < rank a"
begin

lemma no_self_step: "\<not> can a a"
  using rank_less by blast

lemma terminal_final: "can\<^sup>*\<^sup>* a b \<Longrightarrow> terminal a \<Longrightarrow> b = a"
  by (erule converse_rtranclpE) (auto simp: terminal_stuck)

lemma rank_tranclp: "can\<^sup>+\<^sup>+ a b \<Longrightarrow> rank b < rank a"
  by (induction rule: tranclp_induct) (auto dest: rank_less)

lemma never_returns: "can\<^sup>+\<^sup>+ a b \<Longrightarrow> a \<noteq> b"
  using rank_tranclp by blast

lemma run_length: "successively can (a # xs) \<Longrightarrow> length xs \<le> rank a"
proof (induction xs arbitrary: a)
  case Nil
  then show ?case by simp
next
  case (Cons b xs)
  then have "can a b" and "length xs \<le> rank b" by auto
  with rank_less show ?case by fastforce
qed

lemma reaches_terminal: "\<exists>b. can\<^sup>*\<^sup>* a b \<and> terminal b"
proof (induction "rank a" arbitrary: a rule: less_induct)
  case less
  show ?case
  proof (cases "terminal a")
    case True
    then show ?thesis by blast
  next
    case False
    then obtain c where "can a c" using live_moves by blast
    moreover from this obtain b where "can\<^sup>*\<^sup>* c b" "terminal b"
      using less rank_less by blast
    ultimately show ?thesis by (meson converse_rtranclp_into_rtranclp)
  qed
qed

end

section \<open>Effects that stay within a relation\<close>

definition within :: "('s \<Rightarrow> 's \<Rightarrow> bool) \<Rightarrow> ('s, 'e, 'a) act \<Rightarrow> bool" where
  "within R m \<longleftrightarrow> (\<forall>s. R s (snd (m s)))"

lemma withinI: "(\<And>s. R s (snd (m s))) \<Longrightarrow> within R m"
  by (simp add: within_def)

lemma withinD: "within R m \<Longrightarrow> m s = (r, t) \<Longrightarrow> R s t"
  by (metis snd_conv within_def)

lemma within_snd: "within R m \<Longrightarrow> R s (snd (m s))"
  by (simp add: within_def)

locale effect_relation =
  fixes R :: "'s \<Rightarrow> 's \<Rightarrow> bool"
  assumes refl: "R s s"
    and trans: "R s t \<Longrightarrow> R t u \<Longrightarrow> R s u"
begin

lemma ret: "within R (ret x)"
  and fail: "within R (fail e)"
  and lift: "within R (lift r)"
  and asks: "within R (asks f)"
  by (simp_all add: within_def act_simps refl)

lemma andthen: "within R m \<Longrightarrow> (\<And>x. within R (f x)) \<Longrightarrow> within R (andthen m f)"
  unfolding within_def andthen_def
  by (auto split: prod.splits sum.splits) (metis snd_conv, metis snd_conv trans)

lemma map_err: "within R m \<Longrightarrow> within R (map_err g m)"
  unfolding within_def map_err_def by (auto split: prod.splits sum.splits) (metis snd_conv)+

lemma attempt: "within R m \<Longrightarrow> within R (attempt m)"
  unfolding within_def attempt_def by (auto split: prod.splits) (metis snd_conv)

lemma lift_then: "(\<And>y. r = Inr y \<Longrightarrow> within R (f y)) \<Longrightarrow> within R (andthen (lift r) f)"
  by (cases r) (auto simp: within_def act_simps refl)

lemma cond: "within R m \<Longrightarrow> within R n \<Longrightarrow> within R (if b then m else n)"
  by simp

lemma case_option: "within R m \<Longrightarrow> (\<And>x. within R (f x)) \<Longrightarrow>
    within R (case v of None \<Rightarrow> m | Some x \<Rightarrow> f x)"
  by (cases v) auto

lemma case_sum: "(\<And>e. within R (g e)) \<Longrightarrow> (\<And>x. within R (f x)) \<Longrightarrow>
    within R (case v of Inl e \<Rightarrow> g e | Inr x \<Rightarrow> f x)"
  by (cases v) auto

lemma case_prod: "(\<And>x y. within R (f x y)) \<Longrightarrow> within R (case p of (x, y) \<Rightarrow> f x y)"
  by (cases p) auto

lemmas intros = ret fail lift asks andthen map_err attempt cond case_option case_sum case_prod

end

text \<open>An invariant is kept when it holds after the effect whenever it held before.\<close>

definition preserves :: "('s \<Rightarrow> bool) \<Rightarrow> 's \<Rightarrow> 's \<Rightarrow> bool" where
  "preserves I s t \<longleftrightarrow> (I s \<longrightarrow> I t)"

interpretation kept: effect_relation "preserves I"
  for I :: "'s \<Rightarrow> bool"
  by unfold_locales (auto simp: preserves_def)

section \<open>Compare-and-set\<close>

text \<open>A list of competing updates, applied in the order the store serialises them.\<close>

fun cas_run :: "('k \<Rightarrow> 'u \<Rightarrow> 'w \<Rightarrow> bool \<times> 'w) \<Rightarrow> 'k \<Rightarrow> 'u list \<Rightarrow> 'w \<Rightarrow> bool list \<times> 'w" where
  "cas_run f k [] w = ([], w)"
| "cas_run f k (u # us) w =
     (case f k u w of (b, w') \<Rightarrow> (case cas_run f k us w' of (bs, w'') \<Rightarrow> (b # bs, w'')))"

definition winners :: "bool list \<Rightarrow> nat" where
  "winners bs = length (filter id bs)"

locale compare_and_set =
  fixes ok :: "'w \<Rightarrow> bool"
    and look :: "'w \<Rightarrow> 'k \<Rightarrow> 's option"
    and cas :: "'k \<Rightarrow> 'u \<Rightarrow> 'w \<Rightarrow> bool \<times> 'w"
    and source :: "'u \<Rightarrow> 's" and target :: "'u \<Rightarrow> 's"
  assumes ok_kept: "ok w \<Longrightarrow> ok (snd (cas k u w))"
    and won: "ok w \<Longrightarrow> cas k u w = (True, w') \<Longrightarrow> look w k = Some (source u) \<and> look w' k = Some (target u)"
    and lost: "ok w \<Longrightarrow> cas k u w = (False, w') \<Longrightarrow> look w' k = look w k"
begin

lemma loses: "ok w \<Longrightarrow> look w k \<noteq> Some (source u) \<Longrightarrow> \<not> fst (cas k u w)"
  using won by (metis (full_types) prod.collapse)

lemma ok_after: "ok w \<Longrightarrow> cas k u w = (b, w') \<Longrightarrow> ok w'"
  using ok_kept by (metis snd_conv)

lemma no_winner:
  assumes "ok w" and "look w k \<noteq> Some a" and "\<forall>u \<in> set us. source u = a"
  shows "winners (fst (cas_run cas k us w)) = 0"
  using assms
proof (induction us arbitrary: w)
  case Nil
  then show ?case by (simp add: winners_def)
next
  case (Cons u us)
  obtain b w' where c: "cas k u w = (b, w')" by fastforce
  with loses [of w k u] Cons.prems have b: "b = False" by auto
  with c have "cas k u w = (False, w')" by simp
  then have "look w' k = look w k" using lost Cons.prems(1) by blast
  then have "look w' k \<noteq> Some a" using Cons.prems by simp
  with Cons ok_after [OF Cons.prems(1) c] have "winners (fst (cas_run cas k us w')) = 0" by simp
  with b c show ?case by (simp add: winners_def split_beta)
qed

lemma at_most_one:
  assumes "ok w" and "\<forall>u \<in> set us. source u = a \<and> target u \<noteq> a"
  shows "winners (fst (cas_run cas k us w)) \<le> 1"
  using assms
proof (induction us arbitrary: w)
  case Nil
  then show ?case by (simp add: winners_def)
next
  case (Cons u us)
  obtain b w' where c: "cas k u w = (b, w')" by fastforce
  note ok' = ok_after [OF Cons.prems(1) c]
  show ?case
  proof (cases b)
    case True
    with c have "cas k u w = (True, w')" by simp
    then have "look w' k = Some (target u)" using won Cons.prems(1) by blast
    with Cons.prems ok' have "winners (fst (cas_run cas k us w')) = 0"
      by (intro no_winner [where a = a]) auto
    with True c show ?thesis by (simp add: winners_def split_beta)
  next
    case False
    from Cons ok' have "winners (fst (cas_run cas k us w')) \<le> 1" by simp
    with False c show ?thesis by (simp add: winners_def split_beta)
  qed
qed

text \<open>With a stored state the updates start from, the first one to be serialised wins.\<close>

lemma second_loses:
  "ok w \<Longrightarrow> cas k u w = (True, w') \<Longrightarrow> source v = source u \<Longrightarrow> target u \<noteq> source u \<Longrightarrow> \<not> fst (cas k v w')"
  using won loses ok_after by (metis option.inject)

end

end
