(* ===== verification/Authz.thy ===== *)
theory Authz
  imports Interfaces
begin

text \<open>
  The permission catalog and the single authorization funnel of
  \<open>crates/fleet-application/src/authz.rs\<close>: the actions with their stable ids, the
  resource rule, decisions and their reasons, and the ownership identity of delegated
  credentials.
\<close>

section \<open>The permission catalog\<close>

datatype (plugins only:) permission =
    SystemRead | EventsRead | OperationRead | OperationCreate | OperationCancel | SecretList
    | SecretRead | SecretWrite | SecretDelete | AuditRead | MachineRead | MachineReadSensitive
    | MachineCreate | MachineUpdate | MachineLinkGuest | MachineDelete | NodeEnroll | NodeRead
    | NodeRevoke | TailnetRead | TailnetConfig | ProjectsRead | ProjectsCreate
    | ProjectsUpdate | ProjectsDelete | ProjectsDiscover | ProjectsGitWrite
    | ProjectsFileWrite | SkillsRead | SkillsDeploy | SkillsModify | FrogenvRead
    | FrogenvOperate | ToolsRead | MiseOperate | ProjectsReady | ApplyExecute | SourceFetch
    | SourceActivate | SourceSettings | ProxmoxRead | ProxmoxConfig | ProxmoxOperate
    | ProxmoxDestructive | ProxmoxConsole | ExternalAccountRead | ExternalAccountConfig
    | ImagesRead | ImagesConfig | LabRead | LabConfig | LabProvision | LabLease | LabExtend
    | LabKeep | LabExec | LabArtifacts | CredentialRead | CredentialIssue | CredentialRevoke
    | LabTemplateUse | LabLeaseRead | LabArtifactRead | LabLeaseProvision | LabPut
    | LabExecRead | MachineExec | MachinePut | MachineCollect | MachineTerminal
    | ProxmoxGuestConfig | MachineProvision | RegistryRead | ActionRequest | ActionApprove
    | ActionDeny | ActionRead | DnsRead | RegistryObserve | HardwareRead | HardwareRefresh
    | HardwareOverrideRelease | LabHardwareAttach | LabHardwareDetach | MachineUsbAttach
    | MachineUsbDetach

definition all_permissions :: "permission list" where
  "all_permissions =
     [SystemRead, EventsRead, OperationRead, OperationCreate, OperationCancel, SecretList,
      SecretRead, SecretWrite, SecretDelete, AuditRead, MachineRead, MachineReadSensitive,
      MachineCreate, MachineUpdate, MachineLinkGuest, MachineDelete, NodeEnroll, NodeRead,
      NodeRevoke, TailnetRead, TailnetConfig, ProjectsRead, ProjectsCreate, ProjectsUpdate,
      ProjectsDelete, ProjectsDiscover, ProjectsGitWrite, ProjectsFileWrite, SkillsRead,
      SkillsDeploy, SkillsModify, FrogenvRead, FrogenvOperate, ToolsRead, MiseOperate,
      ProjectsReady, ApplyExecute, SourceFetch, SourceActivate, SourceSettings, ProxmoxRead,
      ProxmoxConfig, ProxmoxOperate, ProxmoxDestructive, ProxmoxConsole, ExternalAccountRead,
      ExternalAccountConfig, ImagesRead, ImagesConfig, LabRead, LabConfig, LabProvision,
      LabLease, LabExtend, LabKeep, LabExec, LabArtifacts, CredentialRead, CredentialIssue,
      CredentialRevoke, LabTemplateUse, LabLeaseRead, LabArtifactRead, LabLeaseProvision,
      LabPut, LabExecRead, RegistryRead, ActionRequest, ActionApprove, ActionDeny, ActionRead,
      DnsRead, RegistryObserve, MachineExec, MachinePut, MachineTerminal, MachineCollect,
      ProxmoxGuestConfig, MachineProvision, HardwareRead, HardwareRefresh,
      HardwareOverrideRelease, LabHardwareAttach, LabHardwareDetach, MachineUsbAttach,
      MachineUsbDetach]"

primrec permission_id :: "permission \<Rightarrow> string" where
  "permission_id SystemRead = ''system.read''"
| "permission_id EventsRead = ''events.read''"
| "permission_id OperationRead = ''operation.read''"
| "permission_id OperationCreate = ''operation.create''"
| "permission_id OperationCancel = ''operation.cancel''"
| "permission_id SecretList = ''secret.list''"
| "permission_id SecretRead = ''secret.read''"
| "permission_id SecretWrite = ''secret.write''"
| "permission_id SecretDelete = ''secret.delete''"
| "permission_id AuditRead = ''audit.read''"
| "permission_id MachineRead = ''machine.read''"
| "permission_id MachineReadSensitive = ''machine.read.sensitive''"
| "permission_id MachineCreate = ''machine.create''"
| "permission_id MachineUpdate = ''machine.update''"
| "permission_id MachineLinkGuest = ''machine.link.guest''"
| "permission_id MachineDelete = ''machine.delete''"
| "permission_id NodeEnroll = ''node.enroll''"
| "permission_id NodeRead = ''node.read''"
| "permission_id NodeRevoke = ''node.revoke''"
| "permission_id TailnetRead = ''tailscale.read''"
| "permission_id TailnetConfig = ''tailscale.config''"
| "permission_id ProjectsRead = ''projects.read''"
| "permission_id ProjectsCreate = ''projects.create''"
| "permission_id ProjectsUpdate = ''projects.update''"
| "permission_id ProjectsDelete = ''projects.delete''"
| "permission_id ProjectsDiscover = ''projects.discover''"
| "permission_id ProjectsGitWrite = ''projects.git.write''"
| "permission_id ProjectsFileWrite = ''projects.file.write''"
| "permission_id SkillsRead = ''skills.read''"
| "permission_id SkillsDeploy = ''skills.deploy''"
| "permission_id SkillsModify = ''skills.modify''"
| "permission_id FrogenvRead = ''frogenv.read''"
| "permission_id FrogenvOperate = ''frogenv.operate''"
| "permission_id ToolsRead = ''tools.read''"
| "permission_id MiseOperate = ''mise.operate''"
| "permission_id ProjectsReady = ''projects.ready''"
| "permission_id ApplyExecute = ''apply.execute''"
| "permission_id SourceFetch = ''source.fetch''"
| "permission_id SourceActivate = ''source.activate''"
| "permission_id SourceSettings = ''source.settings''"
| "permission_id ProxmoxRead = ''proxmox.read''"
| "permission_id ProxmoxConfig = ''proxmox.config''"
| "permission_id ProxmoxOperate = ''proxmox.operate''"
| "permission_id ProxmoxDestructive = ''proxmox.destructive''"
| "permission_id ProxmoxConsole = ''proxmox.console''"
| "permission_id ExternalAccountRead = ''external_account.read''"
| "permission_id ExternalAccountConfig = ''external_account.config''"
| "permission_id ImagesRead = ''images.read''"
| "permission_id ImagesConfig = ''images.config''"
| "permission_id LabRead = ''lab.read''"
| "permission_id LabConfig = ''lab.config''"
| "permission_id LabProvision = ''lab.provision''"
| "permission_id LabLease = ''lab.lease''"
| "permission_id LabExtend = ''lab.extend''"
| "permission_id LabKeep = ''lab.keep''"
| "permission_id LabExec = ''lab.exec''"
| "permission_id LabArtifacts = ''lab.artifacts''"
| "permission_id CredentialRead = ''credential.read''"
| "permission_id CredentialIssue = ''credential.issue''"
| "permission_id CredentialRevoke = ''credential.revoke''"
| "permission_id LabTemplateUse = ''lab.template.use''"
| "permission_id LabLeaseRead = ''lab.lease.read''"
| "permission_id LabArtifactRead = ''lab.artifacts.read''"
| "permission_id LabLeaseProvision = ''lab.lease.provision''"
| "permission_id LabPut = ''lab.put''"
| "permission_id LabExecRead = ''lab.exec.read''"
| "permission_id RegistryRead = ''registry.read''"
| "permission_id ActionRequest = ''action.request''"
| "permission_id ActionApprove = ''action.approve''"
| "permission_id ActionDeny = ''action.deny''"
| "permission_id ActionRead = ''action.read''"
| "permission_id DnsRead = ''dns.read''"
| "permission_id RegistryObserve = ''registry.observe''"
| "permission_id MachineExec = ''machines.exec''"
| "permission_id MachinePut = ''machines.put''"
| "permission_id MachineTerminal = ''machines.terminal''"
| "permission_id MachineCollect = ''machines.collect''"
| "permission_id ProxmoxGuestConfig = ''proxmox.guest.config''"
| "permission_id MachineProvision = ''machines.provision''"
| "permission_id HardwareRead = ''hardware.read''"
| "permission_id HardwareRefresh = ''hardware.refresh''"
| "permission_id HardwareOverrideRelease = ''hardware.override-release''"
| "permission_id LabHardwareAttach = ''lab.hardware.attach''"
| "permission_id LabHardwareDetach = ''lab.hardware.detach''"
| "permission_id MachineUsbAttach = ''machines.usb.attach''"
| "permission_id MachineUsbDetach = ''machines.usb.detach''"

definition is_risky :: "permission \<Rightarrow> bool" where
  "is_risky p \<longleftrightarrow> p \<notin>
     {SystemRead, EventsRead, OperationRead, SecretList, AuditRead, MachineRead, NodeRead,
      ProjectsRead, ImagesRead, LabRead, LabLeaseRead, RegistryRead, LabArtifactRead,
      ActionRead}"

definition requires_resource :: "permission \<Rightarrow> bool" where
  "requires_resource p \<longleftrightarrow> p \<notin>
     {SystemRead, EventsRead, OperationRead, OperationCreate, SecretList, SecretWrite,
      AuditRead, MachineRead, MachineCreate, TailnetRead, TailnetConfig, ProjectsRead,
      ProjectsCreate, SourceFetch, SourceActivate, SourceSettings, ProxmoxRead, ProxmoxConfig,
      ProxmoxOperate, ProxmoxDestructive, ProxmoxConsole, ExternalAccountRead,
      ExternalAccountConfig, ImagesRead, ImagesConfig, LabRead, LabConfig, LabLease,
      CredentialRead, CredentialIssue, LabLeaseRead, RegistryRead, LabArtifactRead,
      ActionRead, DnsRead, ProxmoxGuestConfig, MachineProvision, HardwareRead,
      HardwareRefresh, RegistryObserve}"

section \<open>Requests and decisions\<close>

datatype reason_id =
    PolicyAllow | UnknownPrincipal | MissingResource | UnknownAction | ActionNotDelegated
  | OutOfScope | CredentialInactive | RiskClassDeny

definition reason_ids :: "reason_id list" where
  "reason_ids = [PolicyAllow, UnknownPrincipal, MissingResource, UnknownAction,
     ActionNotDelegated, OutOfScope, CredentialInactive, RiskClassDeny]"

fun reason_text :: "reason_id \<Rightarrow> string" where
  "reason_text PolicyAllow = ''policy.allow''"
| "reason_text UnknownPrincipal = ''policy.unknown_principal''"
| "reason_text MissingResource = ''policy.missing_resource''"
| "reason_text UnknownAction = ''policy.unknown_action''"
| "reason_text ActionNotDelegated = ''policy.action_not_delegated''"
| "reason_text OutOfScope = ''policy.out_of_scope''"
| "reason_text CredentialInactive = ''policy.credential_inactive''"
| "reason_text RiskClassDeny = ''policy.risk_class_deny''"

record access_request =
  ar_principal :: string
  ar_action :: permission
  ar_resource :: "string option"

record decision =
  allowed :: bool
  reason :: reason_id

definition decision_allow :: decision where
  "decision_allow = \<lparr>allowed = True, reason = PolicyAllow\<rparr>"

definition decision_deny :: "reason_id \<Rightarrow> decision" where
  "decision_deny r = \<lparr>allowed = False, reason = r\<rparr>"

definition decision_text :: "decision \<Rightarrow> string" where
  "decision_text d = reason_text (reason d) @ '' '' @ (if allowed d then ''allowed'' else ''denied'')"

type_synonym authorizer = "access_request \<Rightarrow> decision"

text \<open>The one funnel: the catalog's resource rule, then the active authorizer.\<close>

definition authorize :: "authorizer \<Rightarrow> access_request \<Rightarrow> decision + decision" where
  "authorize az request =
     (if requires_resource (ar_action request) \<and> ar_resource request = None
      then Inl (decision_deny MissingResource)
      else let d = az request in if allowed d then Inr d else Inl d)"

abbreviation access :: "string \<Rightarrow> permission \<Rightarrow> string option \<Rightarrow> access_request" where
  "access who p r \<equiv> \<lparr>ar_principal = who, ar_action = p, ar_resource = r\<rparr>"

section \<open>Delegated principals and resource ownership\<close>

definition delegated_principal_prefix :: string where
  "delegated_principal_prefix = ''credential:''"

definition delegated_principal_id :: "string \<Rightarrow> string \<Rightarrow> string" where
  "delegated_principal_id owner credential_id =
     delegated_principal_prefix @ owner @ '':'' @ credential_id"

definition delegated_owner_identity :: "string \<Rightarrow> string option" where
  "delegated_owner_identity who =
     (case strip_prefix delegated_principal_prefix who of
        None \<Rightarrow> None
      | Some rest \<Rightarrow>
          (case split_once (CHR '':'') rest of
             None \<Rightarrow> None
           | Some (owner, credential_id) \<Rightarrow>
               if owner = [] \<or> credential_id = [] then None
               else Some (take (length delegated_principal_prefix + length owner) who)))"

definition is_delegated_principal :: "string \<Rightarrow> bool" where
  "is_delegated_principal who \<longleftrightarrow> delegated_owner_identity who \<noteq> None"

definition resource_owner :: "string \<Rightarrow> string" where
  "resource_owner who =
     (case delegated_owner_identity who of None \<Rightarrow> who | Some identity \<Rightarrow> identity)"

definition owner_scope_permits :: "string \<Rightarrow> string \<Rightarrow> bool" where
  "owner_scope_permits who owner =
     (case delegated_owner_identity who of None \<Rightarrow> True | Some identity \<Rightarrow> identity = owner)"

section \<open>Contracts of the catalog\<close>

interpretation perm_ids: text_ids permission_id all_permissions
proof unfold_locales
  fix x show "x \<in> set all_permissions" by (cases x) (simp_all add: all_permissions_def)
next
  show "distinct (map permission_id all_permissions)" by (simp add: all_permissions_def)
qed

interpretation reasons: text_ids reason_text reason_ids
proof unfold_locales
  fix x show "x \<in> set reason_ids" by (cases x) (simp_all add: reason_ids_def)
next
  show "distinct (map reason_text reason_ids)" by (simp add: reason_ids_def)
qed

lemma authorize_Inr:
  "authorize az q = Inr d \<longleftrightarrow>
     d = az q \<and> allowed (az q) \<and> \<not> (requires_resource (ar_action q) \<and> ar_resource q = None)"
  by (auto simp: authorize_def Let_def)

lemma authorize_Inl_denied: "authorize az q = Inl d \<Longrightarrow> \<not> allowed d \<or> d = az q"
  by (auto simp: authorize_def Let_def decision_deny_def split: if_splits)

lemma authorize_Inl_not_allowed: "authorize az q = Inl d \<Longrightarrow> \<not> allowed d"
  by (auto simp: authorize_def Let_def decision_deny_def split: if_splits)

lemma delegated_identity_Some:
  "delegated_owner_identity who = Some i \<longleftrightarrow>
     (\<exists>owner cred. who = delegated_principal_id owner cred \<and> owner \<noteq> [] \<and> cred \<noteq> [] \<and>
        CHR '':'' \<notin> set owner \<and> i = delegated_principal_prefix @ owner)"
  (is "?l \<longleftrightarrow> ?r")
proof
  assume ?l
  then show ?r
    by (auto simp: delegated_owner_identity_def delegated_principal_id_def strip_prefix_Some
        split_once_Some split: option.splits if_splits)
next
  assume ?r
  then show ?l
    by (auto simp: delegated_owner_identity_def delegated_principal_id_def split_once_append)
qed

lemma delegated_identity_of:
  "owner \<noteq> [] \<Longrightarrow> cred \<noteq> [] \<Longrightarrow> CHR '':'' \<notin> set owner \<Longrightarrow>
   delegated_owner_identity (delegated_principal_id owner cred) =
     Some (delegated_principal_prefix @ owner)"
  by (auto simp: delegated_identity_Some)

lemma resource_owner_permits: "owner_scope_permits who (resource_owner who)"
  by (simp add: owner_scope_permits_def resource_owner_def split: option.splits)

section \<open>Properties\<close>

text \<open>
  The catalog is complete and its ids are stable names: the list of all actions names
  every action exactly once, and no two actions share an id, so an audit record's action
  id determines the action.
\<close>

theorem catalog_complete:
  "set all_permissions = UNIV \<and> distinct all_permissions \<and> length all_permissions = 86 \<and>
   (\<forall>p q. permission_id p = permission_id q \<longleftrightarrow> p = q)"
proof (intro conjI allI)
  show "set all_permissions = UNIV" using perm_ids.complete by auto
  show "distinct all_permissions" by (rule perm_ids.distinct_all)
  show "length all_permissions = 86" by (simp add: all_permissions_def)
  show "permission_id p = permission_id q \<longleftrightarrow> p = q" for p q by (rule perm_ids.text_of_eq)
qed

text \<open>
  Ownership scope of delegated credentials: a credential of one owner may see a
  resource recorded for another credential exactly when both belong to the same owner,
  whatever their credential ids are, so rotating a token keeps access and no other owner
  gains it.
\<close>

theorem delegated_owner_scope:
  assumes "owner \<noteq> []" "cred \<noteq> []" "CHR '':'' \<notin> set owner"
    and "owner' \<noteq> []" "cred' \<noteq> []" "CHR '':'' \<notin> set owner'"
  shows "owner_scope_permits (delegated_principal_id owner cred)
           (resource_owner (delegated_principal_id owner' cred')) \<longleftrightarrow> owner = owner'"
  using assms by (auto simp: owner_scope_permits_def resource_owner_def delegated_identity_of)

theorem delegated_owner_scope_witness:
  "owner_scope_permits (delegated_principal_id ''ci'' ''1'')
     (resource_owner (delegated_principal_id ''ci'' ''2'')) \<longleftrightarrow> ''ci'' = ''ci''"
  by (rule delegated_owner_scope) simp_all

end
