(* ===== verification/Values.thy ===== *)
theory Values
  imports Interfaces "HOL-Library.Word"
begin

text \<open>
  The value types of \<open>crates/fleet-core\<close>: wall-clock instants, clocks and deadlines
  (\<open>src/time.rs\<close>), slugs and revisions (\<open>src/value.rs\<close>), and the caller-scoped
  idempotency keys of \<open>crates/fleet-application/src/idempotency.rs\<close>.
\<close>

section \<open>Time\<close>

datatype timestamp = Timestamp (unix_millis: int)

instantiation timestamp :: linorder
begin

definition less_eq_timestamp :: "timestamp \<Rightarrow> timestamp \<Rightarrow> bool" where
  "a \<le> b \<longleftrightarrow> unix_millis a \<le> unix_millis b"

definition less_timestamp :: "timestamp \<Rightarrow> timestamp \<Rightarrow> bool" where
  "a < b \<longleftrightarrow> unix_millis a < unix_millis b"

instance
  by intro_classes (auto simp: less_eq_timestamp_def less_timestamp_def intro: timestamp.expand)

end

text \<open>
  \<open>SystemTime::now().duration_since(UNIX_EPOCH)\<close> is \<open>None\<close> before the epoch, else whole
  milliseconds.
\<close>

definition now_unix_millis :: "nat option \<Rightarrow> int" where
  "now_unix_millis since_epoch =
     (let millis = (case since_epoch of None \<Rightarrow> 0 | Some d \<Rightarrow> int d)
      in if millis \<le> i64_max then millis else i64_max)"

record fixed_clock =
  fc_now :: int

definition fixed_clock_set :: "timestamp \<Rightarrow> fixed_clock \<Rightarrow> fixed_clock" where
  "fixed_clock_set now c = c\<lparr>fc_now := unix_millis now\<rparr>"

definition fixed_clock_now :: "fixed_clock \<Rightarrow> timestamp" where
  "fixed_clock_now c = Timestamp (fc_now c)"

text \<open>A deadline is asked against the instant its clock shows.\<close>

datatype deadline = Deadline (deadline_timestamp: timestamp)

definition is_expired :: "deadline \<Rightarrow> timestamp \<Rightarrow> bool" where
  "is_expired d now \<longleftrightarrow> now \<ge> deadline_timestamp d"

definition remaining_millis :: "deadline \<Rightarrow> timestamp \<Rightarrow> int" where
  "remaining_millis d now =
     max (saturating_sub (unix_millis (deadline_timestamp d)) (unix_millis now)) 0"

lemma now_unix_millis_range: "in_i64 (now_unix_millis d)"
  by (auto simp: now_unix_millis_def in_i64_def i64_min_def i64_max_def Let_def split: option.splits)

lemma fixed_clock_set_now: "fixed_clock_now (fixed_clock_set t c) = t"
  by (simp add: fixed_clock_now_def fixed_clock_set_def)

lemma remaining_zero_iff:
  "remaining_millis d now = 0 \<longleftrightarrow> is_expired d now"
  by (auto simp: remaining_millis_def is_expired_def saturating_sub_def sat_i64_def
      less_eq_timestamp_def i64_min_def i64_max_def)

section \<open>Slugs\<close>

definition max_slug_len :: nat where "max_slug_len = 63"

definition slug_char :: "char \<Rightarrow> bool" where
  "slug_char c \<longleftrightarrow> is_ascii_lower c \<or> is_ascii_digit c"

definition parse_slug :: "string \<Rightarrow> string option" where
  "parse_slug value =
     (let valid_len = value \<noteq> [] \<and> length value \<le> max_slug_len;
          valid_parts = list_all (\<lambda>part. part \<noteq> [] \<and> list_all slug_char part)
                          (split_on (CHR ''-'') value)
      in if valid_len \<and> valid_parts then Some value else None)"

text \<open>\<open>Slug::replace\<close> keeps the old label when the new one does not parse.\<close>

definition slug_replace :: "string \<Rightarrow> string \<Rightarrow> string option \<times> string" where
  "slug_replace old value =
     (case parse_slug value of None \<Rightarrow> (None, old) | Some s \<Rightarrow> (Some s, s))"

text \<open>
  The reference reading of the slug rule: only slug characters and hyphens, no hyphen at
  either end, no two hyphens in a row.
\<close>

fun slug_shape :: "bool \<Rightarrow> string \<Rightarrow> bool" where
  "slug_shape after_char [] = after_char"
| "slug_shape after_char (c # cs) =
     (if c = CHR ''-'' then after_char \<and> slug_shape False cs
      else slug_char c \<and> slug_shape True cs)"

lemma slug_char_no_hyphen: "\<not> slug_char (CHR ''-'')"
  by (simp add: slug_char_def text_simps)

lemma slug_parts_shape:
  "list_all (\<lambda>p. p \<noteq> [] \<and> list_all slug_char p) (tl (split_on (CHR ''-'') s)) \<and>
     (hd (split_on (CHR ''-'') s) \<noteq> [] \<or> b) \<and> list_all slug_char (hd (split_on (CHR ''-'') s))
   \<longleftrightarrow> slug_shape b s"
proof (induction s arbitrary: b)
  case Nil
  then show ?case by simp
next
  case (Cons c s)
  obtain p ps where sp: "split_on (CHR ''-'') s = p # ps"
    by (metis list.exhaust split_on_not_Nil)
  show ?case
  proof (cases "c = CHR ''-''")
    case True
    with Cons.IH [of False] sp show ?thesis by auto
  next
    case False
    with Cons.IH [of True] sp show ?thesis by auto
  qed
qed

lemma parse_slug_shape:
  "parse_slug s = Some t \<longleftrightarrow> t = s \<and> slug_shape False s \<and> length s \<le> max_slug_len"
proof -
  obtain p ps where sp: "split_on (CHR ''-'') s = p # ps"
    by (metis list.exhaust split_on_not_Nil)
  have "slug_shape False s \<Longrightarrow> s \<noteq> []" by (cases s) auto
  with slug_parts_shape [of s False] sp show ?thesis
    by (auto simp: parse_slug_def Let_def)
qed

section \<open>Revisions\<close>

type_synonym revision = "64 word"

definition checked_next :: "revision \<Rightarrow> revision option" where
  "checked_next r = (if unat r + 1 < 2 ^ 64 then Some (r + 1) else None)"

lemma checked_next_Some: "checked_next r = Some r' \<Longrightarrow> unat r' = unat r + 1 \<and> r < r'"
proof -
  assume a: "checked_next r = Some r'"
  then have lt: "unat r + 1 < 2 ^ 64" and r': "r' = r + 1"
    by (auto simp: checked_next_def split: if_splits)
  then have "unat r' = unat r + 1" by (simp add: unat_word_ariths)
  then show ?thesis by (simp add: word_less_nat_alt)
qed

lemma checked_next_None: "checked_next r = None \<longleftrightarrow> r = - 1"
proof -
  have "unat r < 2 ^ 64" using unsigned_less [of r] by simp
  moreover have "unat (- 1 :: revision) = 2 ^ 64 - 1" by (simp add: unsigned_minus_1_eq_mask mask_eq_exp_minus_1)
  ultimately show ?thesis
    by (auto simp: checked_next_def word_unat_eq_iff split: if_splits)
qed

section \<open>Caller-scoped idempotency keys\<close>

definition caller_key :: string where "caller_key = ''caller''"

definition length_prefixed :: "string \<Rightarrow> string" where
  "length_prefixed part = '':'' @ decimal (length part) @ '':'' @ part"

text \<open>\<open>None\<close> is the panic on an empty list of parts.\<close>

definition scoped_key :: "string \<Rightarrow> string \<Rightarrow> string list \<Rightarrow> string option" where
  "scoped_key kind principal_id parts =
     (if parts = [] then None
      else Some (kind @ length_prefixed principal_id @
             concat (map length_prefixed (butlast parts)) @ '':'' @ last parts))"

lemma length_prefixed_inject:
  assumes "length_prefixed a @ r = length_prefixed b @ r'"
  shows "a = b \<and> r = r'"
proof -
  let ?c = "CHR '':''"
  from assms have "decimal (length a) @ ?c # a @ r = decimal (length b) @ ?c # b @ r'"
    by (simp add: length_prefixed_def)
  then have "split_once ?c (decimal (length a) @ ?c # a @ r)
      = split_once ?c (decimal (length b) @ ?c # b @ r')" by simp
  then have "decimal (length a) = decimal (length b)" and e: "a @ r = b @ r'"
    by (simp_all add: split_once_append decimal_no_colon)
  then have "length a = length b" by simp
  with e show ?thesis by simp
qed

lemma length_prefixed_parts:
  assumes "concat (map length_prefixed ps) @ r = concat (map length_prefixed qs) @ r'"
    and "length ps = length qs"
  shows "ps = qs \<and> r = r'"
  using assms(2,1)
proof (induction ps qs rule: list_induct2)
  case Nil
  then show ?case by simp
next
  case (Cons p ps q qs)
  from Cons.prems have "p = q \<and> concat (map length_prefixed ps) @ r = concat (map length_prefixed qs) @ r'"
    by (intro length_prefixed_inject) simp
  with Cons.IH show ?case by simp
qed

lemma length_prefixed_Cons: "\<exists>t. length_prefixed p @ r = CHR '':'' # t"
  by (simp add: length_prefixed_def)

lemma scoped_key_inject:
  assumes "scoped_key kind p ps = Some s" and "scoped_key kind' q qs = Some s"
    and "CHR '':'' \<notin> set kind" and "CHR '':'' \<notin> set kind'"
    and "length ps = length qs"
  shows "kind = kind' \<and> p = q \<and> ps = qs"
proof -
  let ?tail = "\<lambda>p ps. length_prefixed p @ concat (map length_prefixed (butlast ps)) @ '':'' @ last ps"
  from assms(1,2) have ne: "ps \<noteq> []" "qs \<noteq> []"
    and s: "s = kind @ ?tail p ps" "s = kind' @ ?tail q qs"
    by (auto simp: scoped_key_def split: if_splits)
  obtain t t' where t: "?tail p ps = CHR '':'' # t" and t': "?tail q qs = CHR '':'' # t'"
    using length_prefixed_Cons by blast
  from s t t' have "kind @ CHR '':'' # t = kind' @ CHR '':'' # t'" by simp
  then have k: "kind = kind'" and "t = t'"
    using assms(3,4) split_once_append by (metis option.inject prod.inject)+
  with t t' have "?tail p ps = ?tail q qs" by simp
  from length_prefixed_inject [OF this] have "p = q" and
    "concat (map length_prefixed (butlast ps)) @ '':'' @ last ps
      = concat (map length_prefixed (butlast qs)) @ '':'' @ last qs" by simp_all
  with length_prefixed_parts [OF this(2)] assms(5)
  have "p = q" "butlast ps = butlast qs" "last ps = last qs" by simp_all
  with ne k show ?thesis by (metis append_butlast_last_id)
qed

section \<open>Properties\<close>

text \<open>
  Idempotency scopes never collide: two scoped keys that spell the same text, built for
  kinds without a colon and the same number of parts, have the same kind, the same
  principal and the same parts, so no principal can replay another one's key.
\<close>

theorem scoped_key_separates:
  assumes "scoped_key kind p ps = Some s" and "scoped_key kind' q qs = Some s"
    and "CHR '':'' \<notin> set kind" and "CHR '':'' \<notin> set kind'"
    and "length ps = length qs"
  shows "kind = kind' \<and> p = q \<and> ps = qs"
  using assms by (rule scoped_key_inject)

theorem scoped_key_separates_witness:
  "scoped_key ''lab-exec'' ''p'' [''lease:x'', ''k''] = Some ''lab-exec:1:p:7:lease:x:k'' \<and>
   ''lab-exec'' = ''lab-exec'' \<and> ''p'' = ''p'' \<and> [''lease:x'', ''k''] = [''lease:x'', ''k'']"
proof -
  have k: "scoped_key ''lab-exec'' ''p'' [''lease:x'', ''k''] = Some ''lab-exec:1:p:7:lease:x:k''"
    by code_simp
  show ?thesis using k scoped_key_separates [OF k k] by simp
qed

text \<open>
  Slug validation: parsing accepts exactly the labels of 1 to 63 bytes made of lower
  case letters and digits separated by single hyphens, and returns them unchanged.
\<close>

theorem parse_slug_exact:
  "parse_slug s = Some t \<longleftrightarrow> t = s \<and> slug_shape False s \<and> length s \<le> max_slug_len"
  by (rule parse_slug_shape)

end
