(* ===== verification/Audit_Ledger.thy ===== *)
theory Audit_Ledger
  imports Authz Values "HOL-Library.List_Lexorder" "HOL-Library.Char_ord"
begin

text \<open>
  The audit trail: the metadata guard and event types of
  \<open>crates/fleet-application/src/audit.rs\<close> and the append-only ledger of
  \<open>crates/fleet-storage-sqlite/src/audit.rs\<close>, together with the part of the state every
  service shares: the wall clock, the identifier source, and the faults of external calls.
\<close>

section \<open>Metadata\<close>

definition max_metadata_value_bytes :: nat where "max_metadata_value_bytes = 2048"
definition max_metadata_entries :: nat where "max_metadata_entries = 32"

definition forbidden_key_parts :: "string list" where
  "forbidden_key_parts =
     [''authorization'', ''cookie'', ''password'', ''passwd'', ''secret'', ''token'', ''api-key'',
      ''private-key'', ''forwarded'', ''real-ip'', ''remote-addr'']"

definition forbidden_exact_keys :: "string list" where
  "forbidden_exact_keys = [''headers'', ''env'', ''environment'', ''query'']"

datatype metadata_error =
    ForbiddenKey string
  | ValueTooLarge string nat nat
  | TooManyEntries nat

definition metadata_error_text :: "metadata_error \<Rightarrow> string" where
  "metadata_error_text e =
     (case e of
        ForbiddenKey key \<Rightarrow>
          ''audit metadata key '' @ debug_str key @
          '' is forbidden; raw request or credential material must never be recorded''
      | ValueTooLarge key sz limit \<Rightarrow>
          ''audit metadata value for '' @ debug_str key @ '' is '' @ decimal sz @
          '' bytes, over the '' @ decimal limit @ ''-byte bound''
      | TooManyEntries limit \<Rightarrow> ''audit metadata exceeds '' @ decimal limit @ '' entries'')"

type_synonym metadata = "(string \<times> string) list"

definition forbidden_key :: "string \<Rightarrow> bool" where
  "forbidden_key key \<longleftrightarrow>
     (let normalized = to_ascii_lowercase key
      in normalized \<in> set forbidden_exact_keys \<or>
         list_ex (\<lambda>part. text_contains part normalized) forbidden_key_parts)"

text \<open>A \<open>BTreeMap\<close> of entries: in key order, a key occurs once.\<close>

fun entry_insert :: "string \<Rightarrow> string \<Rightarrow> metadata \<Rightarrow> metadata" where
  "entry_insert k v [] = [(k, v)]"
| "entry_insert k v ((k', v') # m) =
     (if k < k' then (k, v) # (k', v') # m
      else if k = k' then (k, v) # m else (k', v') # entry_insert k v m)"

definition metadata_insert :: "string \<Rightarrow> string \<Rightarrow> metadata \<Rightarrow> metadata_error + metadata" where
  "metadata_insert key value entries =
     (if forbidden_key key then Inl (ForbiddenKey key)
      else if length value > max_metadata_value_bytes
      then Inl (ValueTooLarge key (length value) max_metadata_value_bytes)
      else if length entries \<ge> max_metadata_entries then Inl (TooManyEntries max_metadata_entries)
      else Inr (entry_insert key value entries))"

text \<open>The \<open>for (key, value) in facts\<close> loops of the services.\<close>

fun metadata_insert_all :: "(string \<times> string) list \<Rightarrow> metadata \<Rightarrow> metadata_error + metadata" where
  "metadata_insert_all [] entries = Inr entries"
| "metadata_insert_all ((k, v) # facts) entries =
     (case metadata_insert k v entries of
        Inl e \<Rightarrow> Inl e
      | Inr entries' \<Rightarrow> metadata_insert_all facts entries')"

section \<open>Event types\<close>

datatype audit_outcome =
  OutcomeSucceeded | OutcomeFailed | OutcomeCancelled | OutcomeBlockedManualApproval

definition audit_outcomes :: "audit_outcome list" where
  "audit_outcomes = [OutcomeSucceeded, OutcomeFailed, OutcomeCancelled, OutcomeBlockedManualApproval]"

fun outcome_id :: "audit_outcome \<Rightarrow> string" where
  "outcome_id OutcomeSucceeded = ''succeeded''"
| "outcome_id OutcomeFailed = ''failed''"
| "outcome_id OutcomeCancelled = ''cancelled''"
| "outcome_id OutcomeBlockedManualApproval = ''blocked_manual_approval''"

definition outcome_from_id :: "string \<Rightarrow> audit_outcome option" where
  "outcome_from_id s =
     (if s = ''succeeded'' then Some OutcomeSucceeded
      else if s = ''failed'' then Some OutcomeFailed
      else if s = ''cancelled'' then Some OutcomeCancelled
      else if s = ''blocked_manual_approval'' then Some OutcomeBlockedManualApproval
      else None)"

record audit_intent =
  ai_actor :: string
  ai_action :: string
  ai_resource :: "string option"
  ai_decision :: decision
  ai_correlation :: "string option"
  ai_operation :: "string option"
  ai_metadata :: metadata

record audit_event =
  ae_seq :: nat
  ae_id :: string
  ae_occurred_at :: int
  ae_actor :: string
  ae_action :: string
  ae_resource :: "string option"
  ae_allowed :: bool
  ae_reason :: string
  ae_correlation :: "string option"
  ae_operation :: "string option"
  ae_outcome :: "audit_outcome option"
  ae_metadata :: metadata
  ae_intent_seq :: "nat option"

section \<open>The state every service shares\<close>

text \<open>
  \<open>w_faults\<close> is the schedule of the external calls to come (SQL statements, begins and
  commits): \<open>None\<close> is a call that succeeds, \<open>Some d\<close> one that fails with detail \<open>d\<close>, and
  an exhausted schedule means that every further call succeeds. \<open>w_uuid\<close> is the stream of
  identifiers \<open>Uuid::now_v7\<close> yields.
\<close>

record world =
  w_now :: int
  w_faults :: "string option list"
  w_uuid :: "nat \<Rightarrow> string"
  w_uuid_no :: nat
  w_ledger :: "audit_event list"
  w_pending_since :: nat

definition external :: "('z world_scheme, string, unit) act" where
  "external = (\<lambda>s. case w_faults s of
      [] \<Rightarrow> (Inr (), s)
    | None # fs \<Rightarrow> (Inr (), s\<lparr>w_faults := fs\<rparr>)
    | Some d # fs \<Rightarrow> (Inl d, s\<lparr>w_faults := fs\<rparr>))"

definition fresh_uuid :: "('z world_scheme, 'e, string) act" where
  "fresh_uuid = (\<lambda>s. (Inr (w_uuid s (w_uuid_no s)), s\<lparr>w_uuid_no := Suc (w_uuid_no s)\<rparr>))"

text \<open>A transaction: an error undoes what the body wrote to the tables.\<close>

definition atomically :: "('s \<Rightarrow> 's \<Rightarrow> 's) \<Rightarrow> ('s, 'e, 'a) act \<Rightarrow> ('s, 'e, 'a) act" where
  "atomically undo m = (\<lambda>s. case m s of (Inl e, t) \<Rightarrow> (Inl e, undo s t) | (Inr x, t) \<Rightarrow> (Inr x, t))"

definition undo_ledger :: "'z world_scheme \<Rightarrow> 'z world_scheme \<Rightarrow> 'z world_scheme" where
  "undo_ledger s t = t\<lparr>w_ledger := w_ledger s\<rparr>"

section \<open>Appending to the ledger\<close>

record audit_error =
  aq_context :: string
  aq_detail :: string

definition audit_error_text :: "audit_error \<Rightarrow> string" where
  "audit_error_text e = ''audit '' @ aq_context e @ '' failed: '' @ aq_detail e"

abbreviation aq :: "string \<Rightarrow> string \<Rightarrow> audit_error" where
  "aq c d \<equiv> \<lparr>aq_context = c, aq_detail = d\<rparr>"

text \<open>\<open>INTEGER PRIMARY KEY AUTOINCREMENT\<close> on a table that is never deleted from.\<close>

definition next_seq :: "audit_event list \<Rightarrow> nat" where
  "next_seq ledger = (if ledger = [] then 1 else Suc (ae_seq (last ledger)))"

definition intent_event :: "audit_intent \<Rightarrow> nat \<Rightarrow> string \<Rightarrow> int \<Rightarrow> audit_event" where
  "intent_event i seq eid now =
     \<lparr>ae_seq = seq, ae_id = eid, ae_occurred_at = now, ae_actor = ai_actor i,
      ae_action = ai_action i, ae_resource = ai_resource i, ae_allowed = allowed (ai_decision i),
      ae_reason = reason_text (reason (ai_decision i)), ae_correlation = ai_correlation i,
      ae_operation = ai_operation i, ae_outcome = None, ae_metadata = ai_metadata i,
      ae_intent_seq = None\<rparr>"

definition append_intent_tx :: "audit_intent \<Rightarrow> ('z world_scheme, string, string) act" where
  "append_intent_tx i =
     andthen fresh_uuid (\<lambda>id.
     andthen external (\<lambda>_.
     andthen (modify (\<lambda>s. s\<lparr>w_ledger := w_ledger s @
         [intent_event i (next_seq (w_ledger s)) id (w_now s)]\<rparr>)) (\<lambda>_.
     ret id)))"

definition append_intent :: "audit_intent \<Rightarrow> ('z world_scheme, audit_error, string) act" where
  "append_intent i = atomically undo_ledger
     (andthen (map_err (aq ''append_intent'') external) (\<lambda>_.
      andthen (map_err (aq ''append_intent'') (append_intent_tx i)) (\<lambda>id.
      andthen (map_err (aq ''append_intent_commit'') external) (\<lambda>_.
      ret id))))"

text \<open>An intent is open while it has no outcome of its own and no event completes it.\<close>

definition is_open :: "audit_event list \<Rightarrow> audit_event \<Rightarrow> bool" where
  "is_open ledger e \<longleftrightarrow>
     ae_outcome e = None \<and> \<not> list_ex (\<lambda>c. ae_intent_seq c = Some (ae_seq e)) ledger"

definition outcome_event :: "audit_event \<Rightarrow> audit_outcome \<Rightarrow> nat \<Rightarrow> string \<Rightarrow> int \<Rightarrow> audit_event" where
  "outcome_event intent outcome seq eid now =
     intent\<lparr>ae_seq := seq, ae_id := eid, ae_occurred_at := now, ae_outcome := Some outcome,
            ae_intent_seq := Some (ae_seq intent)\<rparr>"

text \<open>The insert: a unique index on \<open>intent_seq\<close> refuses a second completion of an intent.\<close>

definition outcome_insert :: "audit_event \<Rightarrow> audit_outcome \<Rightarrow> ('z world_scheme, audit_error, string) act" where
  "outcome_insert intent outcome =
     andthen fresh_uuid (\<lambda>event_id.
     andthen (map_err (aq ''append_outcome'') external) (\<lambda>_.
     andthen (asks (\<lambda>s. list_ex (\<lambda>c. ae_intent_seq c = Some (ae_seq intent)) (w_ledger s))) (\<lambda>completed.
     if completed then fail (aq ''append_outcome'' ''UNIQUE constraint failed: audit_events.intent_seq'')
     else andthen (modify (\<lambda>s. s\<lparr>w_ledger := w_ledger s @
            [outcome_event intent outcome (next_seq (w_ledger s)) event_id (w_now s)]\<rparr>)) (\<lambda>_.
          ret event_id))))"

definition append_outcome :: "string \<Rightarrow> audit_outcome \<Rightarrow> ('z world_scheme, audit_error, string) act" where
  "append_outcome intent_id outcome =
     andthen (map_err (aq ''outcome_select'') external) (\<lambda>_.
     andthen (asks (\<lambda>s. find (\<lambda>e. ae_id e = intent_id \<and> is_open (w_ledger s) e) (w_ledger s))) (\<lambda>found.
     case found of
       None \<Rightarrow> fail (aq ''outcome_select'' (''no audit intent '' @ debug_str intent_id))
     | Some intent \<Rightarrow> outcome_insert intent outcome))"

text \<open>The sink of the operation use cases (\<open>AuditSink\<close>).\<close>

definition record_intent :: "audit_intent \<Rightarrow> ('z world_scheme, string, unit) act" where
  "record_intent i = andthen (map_err audit_error_text (append_intent i)) (\<lambda>_. ret ())"

definition record_outcome :: "string \<Rightarrow> audit_outcome \<Rightarrow> ('z world_scheme, string, unit) act" where
  "record_outcome operation_id outcome =
     andthen (map_err (\<lambda>d. ''audit outcome select failed: '' @ d) external) (\<lambda>_.
     andthen (asks (\<lambda>s. find (\<lambda>e. ae_operation e = Some operation_id \<and> is_open (w_ledger s) e)
                          (rev (sort_key ae_seq (w_ledger s))))) (\<lambda>found.
     case found of
       None \<Rightarrow> fail (''no audit intent for operation '' @ debug_str operation_id)
     | Some e \<Rightarrow> andthen (map_err audit_error_text (append_outcome (ae_id e) outcome)) (\<lambda>_. ret ())))"

section \<open>Reading the ledger\<close>

record audit_filter =
  af_after_seq :: "nat option"
  af_limit :: nat
  af_actor :: "string option"
  af_action :: "string option"
  af_resource :: "string option"
  af_outcome :: "string option"
  af_from :: "int option"
  af_to :: "int option"
  af_correlation :: "string option"

record audit_page =
  ap_events :: "audit_event list"
  ap_next_seq :: "nat option"

definition max_page_size :: nat where "max_page_size = 200"

definition opt_all :: "('a \<Rightarrow> bool) \<Rightarrow> 'a option \<Rightarrow> bool" where
  "opt_all P o' = (case o' of None \<Rightarrow> True | Some x \<Rightarrow> P x)"

definition outcome_matches :: "nat \<Rightarrow> audit_event list \<Rightarrow> string option \<Rightarrow> audit_event \<Rightarrow> bool" where
  "outcome_matches since ledger want e =
     (case want of
        None \<Rightarrow> True
      | Some o' \<Rightarrow>
          if o' = ''allowed'' then ae_allowed e
          else if o' = ''denied'' then \<not> ae_allowed e
          else if o' = ''pending'' then ae_seq e > since \<and> ae_allowed e \<and> is_open ledger e
          else map_option outcome_id (ae_outcome e) = Some o')"

definition filter_matches :: "nat \<Rightarrow> audit_event list \<Rightarrow> audit_filter \<Rightarrow> audit_event \<Rightarrow> bool" where
  "filter_matches since ledger q e \<longleftrightarrow>
     opt_all (\<lambda>x. ae_actor e = x) (af_actor q) \<and>
     opt_all (\<lambda>x. ae_action e = x) (af_action q) \<and>
     opt_all (\<lambda>x. ae_resource e = Some x) (af_resource q) \<and>
     outcome_matches since ledger (af_outcome q) e \<and>
     opt_all (\<lambda>x. ae_occurred_at e \<ge> x) (af_from q) \<and>
     opt_all (\<lambda>x. ae_occurred_at e \<le> x) (af_to q) \<and>
     opt_all (\<lambda>x. ae_correlation e = Some x) (af_correlation q)"

definition page_limit :: "audit_filter \<Rightarrow> nat" where
  "page_limit q = max 1 (min (af_limit q) max_page_size)"

definition select_page :: "nat \<Rightarrow> audit_event list \<Rightarrow> audit_filter \<Rightarrow> audit_page" where
  "select_page since ledger q =
     (let events = take (page_limit q)
            (sort_key ae_seq (filter (\<lambda>e. opt_all (\<lambda>c. ae_seq e > c) (af_after_seq q) \<and>
               filter_matches since ledger q e) ledger))
      in \<lparr>ap_events = events,
          ap_next_seq = (if length events = page_limit q then Some (ae_seq (last events)) else None)\<rparr>)"

definition ledger_query :: "audit_filter \<Rightarrow> ('z world_scheme, audit_error, audit_page) act" where
  "ledger_query q =
     andthen (map_err (aq ''query'') external) (\<lambda>_.
     asks (\<lambda>s. select_page (w_pending_since s) (w_ledger s) q))"

datatype audit_query_error = QueryDenied decision | QueryInvalid string | QueryBackend string

definition known_outcome_filters :: "string list" where
  "known_outcome_filters =
     [''allowed'', ''denied'', ''pending'', ''succeeded'', ''failed'', ''cancelled'', ''blocked_manual_approval'']"

definition audit_list ::
    "authorizer \<Rightarrow> string \<Rightarrow> audit_filter \<Rightarrow> ('z world_scheme, audit_query_error, audit_page) act" where
  "audit_list az who q =
     (case authorize az (access who AuditRead None) of
        Inl d \<Rightarrow> fail (QueryDenied d)
      | Inr _ \<Rightarrow>
          if (case (af_from q, af_to q) of (Some f, Some t) \<Rightarrow> f > t | _ \<Rightarrow> False)
          then fail (QueryInvalid ''from must be less than or equal to to'')
          else if \<not> opt_all (\<lambda>o'. o' \<in> set known_outcome_filters) (af_outcome q)
          then fail (QueryInvalid ''unknown audit outcome'')
          else map_err (\<lambda>e. QueryBackend (audit_error_text e)) (ledger_query q))"

section \<open>The ledger invariant\<close>

text \<open>
  Positions grow; an event that completes an intent carries an outcome and refers to an
  earlier event without one; no intent is completed twice.
\<close>

definition completes :: "audit_event list \<Rightarrow> nat list" where
  "completes ledger = concat (map (\<lambda>e. case ae_intent_seq e of None \<Rightarrow> [] | Some n \<Rightarrow> [n]) ledger)"

definition ledger_wf :: "audit_event list \<Rightarrow> bool" where
  "ledger_wf L \<longleftrightarrow> sorted_wrt (<) (map ae_seq L) \<and> distinct (completes L) \<and>
     (\<forall>c \<in> set L. \<forall>n. ae_intent_seq c = Some n \<longrightarrow>
        ae_outcome c \<noteq> None \<and> (\<exists>i \<in> set L. ae_seq i = n \<and> ae_outcome i = None \<and> n < ae_seq c))"

definition ledger_grows :: "'z world_scheme \<Rightarrow> 'z world_scheme \<Rightarrow> bool" where
  "ledger_grows s t \<longleftrightarrow> (\<exists>new. w_ledger t = w_ledger s @ new) \<and>
     (ledger_wf (w_ledger s) \<longrightarrow> ledger_wf (w_ledger t))"

interpretation grows: effect_relation "ledger_grows :: 'z world_scheme \<Rightarrow> 'z world_scheme \<Rightarrow> bool"
  by unfold_locales (auto simp: ledger_grows_def)

interpretation outcomes: text_enum outcome_id audit_outcomes outcome_from_id
proof unfold_locales
  fix x :: audit_outcome and s
  show "x \<in> set audit_outcomes" by (cases x) (simp_all add: audit_outcomes_def)
  show "distinct (map outcome_id audit_outcomes)" by (simp add: audit_outcomes_def)
  show "outcome_from_id (outcome_id x) = Some x" by (cases x) (simp_all add: outcome_from_id_def)
  show "outcome_from_id s = Some x \<Longrightarrow> s = outcome_id x"
    by (auto simp: outcome_from_id_def split: if_splits)
qed

lemma completes_append [simp]: "completes (xs @ ys) = completes xs @ completes ys"
  by (simp add: completes_def)

lemma set_completes: "n \<in> set (completes L) \<longleftrightarrow> (\<exists>e \<in> set L. ae_intent_seq e = Some n)"
  by (force simp: completes_def split: option.splits)

lemma sorted_below_last: "sorted_wrt (<) (map ae_seq L) \<Longrightarrow> e \<in> set L \<Longrightarrow> ae_seq e < next_seq L"
proof (induction L rule: rev_induct)
  case (snoc x L)
  then show ?case
    by (auto simp: next_seq_def sorted_wrt_append)
qed simp

lemma ledger_wf_append:
  assumes "ledger_wf L" and "ae_seq e = next_seq L"
    and "\<And>n. ae_intent_seq e = Some n \<Longrightarrow> ae_outcome e \<noteq> None \<and> n \<notin> set (completes L) \<and>
           (\<exists>i \<in> set L. ae_seq i = n \<and> ae_outcome i = None)"
  shows "ledger_wf (L @ [e])"
proof -
  have below: "\<forall>i \<in> set L. ae_seq i < ae_seq e"
    using assms(1,2) sorted_below_last by (simp add: ledger_wf_def)
  have "sorted_wrt (<) (map ae_seq (L @ [e]))"
    using assms(1) below by (simp add: ledger_wf_def sorted_wrt_append)
  moreover have "distinct (completes (L @ [e]))"
    using assms(1,3) by (cases "ae_intent_seq e") (auto simp: ledger_wf_def completes_def)
  moreover have "ae_outcome c \<noteq> None \<and> (\<exists>i \<in> set (L @ [e]). ae_seq i = n \<and> ae_outcome i = None \<and> n < ae_seq c)"
    if "c \<in> set (L @ [e])" "ae_intent_seq c = Some n" for c n
  proof (cases "c = e")
    case True
    with that assms(3) below show ?thesis by fastforce
  next
    case False
    with that assms(1) show ?thesis by (fastforce simp: ledger_wf_def)
  qed
  ultimately show ?thesis unfolding ledger_wf_def by blast
qed

lemma is_open_not_completed: "is_open L e \<longleftrightarrow> ae_outcome e = None \<and> ae_seq e \<notin> set (completes L)"
  by (auto simp: is_open_def list_ex_iff set_completes)

lemma external_ledger: "w_ledger (snd (external s)) = w_ledger s"
  by (auto simp: external_def split: list.splits option.splits)

lemma external_eq: "external s = (r, t) \<Longrightarrow> \<exists>fs. t = s\<lparr>w_faults := fs\<rparr>"
  by (auto simp: external_def split: list.splits option.splits intro: exI [of _ "w_faults s"])

lemma external_grows: "within ledger_grows external"
  by (simp add: within_def ledger_grows_def external_ledger)

lemma fresh_uuid_grows: "within ledger_grows fresh_uuid"
  by (simp add: within_def ledger_grows_def fresh_uuid_def)

lemma append_intent_tx_grows: "within ledger_grows (append_intent_tx i)"
  unfolding append_intent_tx_def
  by (intro grows.andthen grows.ret fresh_uuid_grows external_grows)
     (auto simp: within_def modify_def ledger_grows_def intent_event_def intro!: ledger_wf_append)

lemma atomically_grows: "within ledger_grows m \<Longrightarrow> within ledger_grows (atomically undo_ledger m)"
  by (auto simp: within_def atomically_def undo_ledger_def ledger_grows_def split: prod.splits sum.splits)
     (metis snd_conv)+

lemma append_intent_grows: "within ledger_grows (append_intent i)"
  unfolding append_intent_def
  by (intro atomically_grows grows.andthen grows.map_err grows.ret external_grows append_intent_tx_grows)

lemma outcome_insert_grows:
  assumes "e \<in> set (w_ledger s)" and "ae_outcome e = None"
  shows "ledger_grows s (snd (outcome_insert e out s))"
proof -
  have wf: "ledger_wf (w_ledger s @ [outcome_event e out (next_seq (w_ledger s)) eid now])"
    if "ledger_wf (w_ledger s)" "\<not> list_ex (\<lambda>c. ae_intent_seq c = Some (ae_seq e)) (w_ledger s)" for eid now
    using that assms by (intro ledger_wf_append) (auto simp: outcome_event_def list_ex_iff set_completes)
  show ?thesis
    using wf by (auto simp: outcome_insert_def act_simps ledger_grows_def fresh_uuid_def
        split: prod.splits sum.splits dest!: external_eq)
qed

lemma append_outcome_grows: "within ledger_grows (append_outcome k out)"
proof (rule withinI)
  fix s :: "'z world_scheme"
  obtain r u where x: "external s = (r, u)" by fastforce
  have su: "ledger_grows s u" using external_grows x by (rule withinD)
  show "ledger_grows s (snd (append_outcome k out s))"
  proof (cases r)
    case (Inl d)
    with x su show ?thesis by (simp add: append_outcome_def act_simps)
  next
    case (Inr z)
    let ?found = "find (\<lambda>e. ae_id e = k \<and> is_open (w_ledger u) e) (w_ledger u)"
    have "ledger_grows u (snd (case ?found of None \<Rightarrow> (Inl (aq ''outcome_select'' (''no audit intent '' @ debug_str k)), u)
        | Some intent \<Rightarrow> outcome_insert intent out u))"
    proof (cases ?found)
      case (Some e)
      then have "e \<in> set (w_ledger u)" "ae_outcome e = None" by (auto simp: find_Some_iff is_open_def)
      with Some show ?thesis by (simp add: outcome_insert_grows)
    qed (simp add: grows.refl)
    with su have "ledger_grows s (snd (case ?found of None \<Rightarrow> (Inl (aq ''outcome_select'' (''no audit intent '' @ debug_str k)), u)
        | Some intent \<Rightarrow> outcome_insert intent out u))" by (rule grows.trans)
    with x Inr show ?thesis by (cases ?found) (simp_all add: append_outcome_def act_simps)
  qed
qed

text \<open>
  What the audit calls leave alone: the state a service adds to the shared part, the clock
  and the identifier source (identifiers are only consumed).
\<close>

definition world_frame :: "'z world_scheme \<Rightarrow> 'z world_scheme \<Rightarrow> bool" where
  "world_frame s t \<longleftrightarrow> world.more t = world.more s \<and> w_now t = w_now s \<and> w_uuid t = w_uuid s \<and>
     w_uuid_no s \<le> w_uuid_no t"

interpretation frame: effect_relation "world_frame :: 'z world_scheme \<Rightarrow> 'z world_scheme \<Rightarrow> bool"
  by unfold_locales (auto simp: world_frame_def)

lemma world_frame_more: "world_frame s t \<Longrightarrow> world.more t = world.more s"
  by (simp add: world_frame_def)

lemma external_frame: "within world_frame external"
  by (auto simp: within_def world_frame_def external_def split: list.splits option.splits)

lemma fresh_uuid_frame: "within world_frame fresh_uuid"
  by (simp add: within_def world_frame_def fresh_uuid_def)

lemma modify_ledger_frame: "within world_frame (modify (\<lambda>s. s\<lparr>w_ledger := f s\<rparr>))"
  by (simp add: within_def world_frame_def modify_def)

lemma atomically_frame: "within world_frame m \<Longrightarrow> within world_frame (atomically undo_ledger m)"
  by (auto simp: within_def atomically_def undo_ledger_def world_frame_def split: prod.splits sum.splits)
     (metis snd_conv)+

lemma append_intent_frame: "within world_frame (append_intent i)"
  unfolding append_intent_def append_intent_tx_def
  by (intro atomically_frame frame.intros external_frame fresh_uuid_frame modify_ledger_frame)

lemma append_outcome_frame: "within world_frame (append_outcome k out)"
  unfolding append_outcome_def outcome_insert_def
  by (intro frame.intros external_frame fresh_uuid_frame modify_ledger_frame)

lemma record_intent_frame: "within world_frame (record_intent i)"
  unfolding record_intent_def by (intro frame.intros append_intent_frame)

lemma record_outcome_frame: "within world_frame (record_outcome k out)"
  unfolding record_outcome_def
  by (intro frame.intros external_frame append_outcome_frame)

lemma atomically_Inr: "atomically undo m s = (Inr x, t) \<longleftrightarrow> m s = (Inr x, t)"
  by (auto simp: atomically_def split: prod.splits sum.splits)

lemma atomically_ledger_Inl: "atomically undo_ledger m s = (Inl e, t) \<Longrightarrow> w_ledger t = w_ledger s"
  by (auto simp: atomically_def undo_ledger_def split: prod.splits sum.splits)

lemma record_intent_Inr:
  assumes "record_intent i s = (Inr u, t)"
  shows "\<exists>eid. w_ledger t = w_ledger s @ [intent_event i (next_seq (w_ledger s)) eid (w_now s)]"
  using assms
  by (auto simp: record_intent_def append_intent_def append_intent_tx_def atomically_Inr act_Inr
      fresh_uuid_def dest!: external_eq)

lemma record_intent_Inl:
  assumes "record_intent i s = (Inl e, t)"
  shows "w_ledger t = w_ledger s"
proof (cases "append_intent i s")
  case (Pair r u)
  with assms have "t = u" "isl r"
    by (auto simp: record_intent_def act_simps split: sum.splits)
  with Pair show ?thesis by (cases r) (auto simp: append_intent_def dest: atomically_ledger_Inl)
qed

lemma record_intent_ok:
  "w_faults s = [] \<Longrightarrow> record_intent i s = (Inr (),
     s\<lparr>w_uuid_no := Suc (w_uuid_no s),
       w_ledger := w_ledger s @ [intent_event i (next_seq (w_ledger s)) (w_uuid s (w_uuid_no s)) (w_now s)]\<rparr>)"
  by (simp add: record_intent_def append_intent_def append_intent_tx_def atomically_def act_simps
      fresh_uuid_def external_def)

lemma record_intent_grows: "within ledger_grows (record_intent i)"
  unfolding record_intent_def by (intro grows.andthen grows.map_err grows.ret append_intent_grows)

lemma record_outcome_grows: "within ledger_grows (record_outcome k out)"
  unfolding record_outcome_def
  by (intro grows.andthen grows.map_err grows.ret grows.asks grows.case_option grows.fail
      external_grows append_outcome_grows)

section \<open>Paging\<close>

text \<open>A reader that follows \<open>next_seq\<close> until it is absent, for at most \<open>fuel\<close> pages.\<close>

fun read_pages :: "nat \<Rightarrow> nat \<Rightarrow> audit_event list \<Rightarrow> audit_filter \<Rightarrow> audit_event list" where
  "read_pages 0 since L q = []"
| "read_pages (Suc fuel) since L q =
     (let p = select_page since L q
      in ap_events p @
         (case ap_next_seq p of
            None \<Rightarrow> []
          | Some c \<Rightarrow> read_pages fuel since L (q\<lparr>af_after_seq := Some c\<rparr>)))"

definition after_cursor :: "audit_filter \<Rightarrow> audit_event \<Rightarrow> bool" where
  "after_cursor q e \<longleftrightarrow> opt_all (\<lambda>c. ae_seq e > c) (af_after_seq q)"

lemma filter_matches_cursor [simp]:
  "filter_matches since L (q\<lparr>af_after_seq := c\<rparr>) e = filter_matches since L q e"
  by (simp add: filter_matches_def)

lemma sorted_strict_filter: "sorted_wrt (<) (map ae_seq L) \<Longrightarrow> sorted_wrt (<) (map ae_seq (filter P L))"
  by (induction L) auto

lemma sort_key_sorted: "sorted_wrt (<) (map ae_seq L) \<Longrightarrow> sort_key ae_seq L = L"
  by (rule sort_key_id_if_sorted) (simp add: strict_sorted_imp_sorted)

lemma drop_is_filter:
  assumes "sorted_wrt (<) (map ae_seq M)" and "0 < n" and "n \<le> length M"
  shows "filter (\<lambda>e. ae_seq e > ae_seq (last (take n M))) M = drop n M"
proof -
  let ?c = "ae_seq (last (take n M))"
  have split: "M = take n M @ drop n M" by simp
  have "sorted_wrt (<) (map ae_seq (take n M @ drop n M))" using assms(1) by simp
  then have srt: "sorted_wrt (<) (map ae_seq (take n M))"
    and above: "\<forall>x \<in> set (take n M). \<forall>y \<in> set (drop n M). ae_seq x < ae_seq y"
    by (auto simp only: map_append sorted_wrt_append set_map ball_simps)
  have ne: "take n M \<noteq> []" using assms(2,3) by auto
  have "ae_seq e \<le> ?c" if "e \<in> set (take n M)" for e
  proof -
    have "sorted (map ae_seq (take n M))"
      using srt by (rule strict_sorted_imp_sorted)
    then have "sorted (map ae_seq (butlast (take n M)) @ [?c])"
      using ne by (metis append_butlast_last_id list.simps(8,9) map_append)
    moreover have "e \<in> set (butlast (take n M)) \<or> e = last (take n M)"
      using that ne by (metis UnE append_butlast_last_id empty_iff insertE list.set(1,2) set_append)
    ultimately show ?thesis by (auto simp: sorted_append)
  qed
  moreover have "?c < ae_seq e" if "e \<in> set (drop n M)" for e
    using above that last_in_set [OF ne] by blast
  ultimately have "filter (\<lambda>e. ?c < ae_seq e) (take n M) = []"
    "filter (\<lambda>e. ?c < ae_seq e) (drop n M) = drop n M"
    by (auto simp: filter_empty_conv filter_id_conv leD)
  then show ?thesis using split by (metis append_Nil filter_append)
qed

lemma select_page_sorted:
  assumes "ledger_wf L"
  shows "ap_events (select_page since L q) =
           take (page_limit q) (filter (after_cursor q) (filter (filter_matches since L q) L))"
proof -
  have "sort_key ae_seq (filter (\<lambda>e. after_cursor q e \<and> filter_matches since L q e) L)
      = filter (\<lambda>e. after_cursor q e \<and> filter_matches since L q e) L"
    using assms by (intro sort_key_sorted sorted_strict_filter) (simp add: ledger_wf_def)
  then show ?thesis by (simp add: select_page_def Let_def after_cursor_def conj_commute)
qed

lemma page_limit_pos [simp]: "0 < page_limit q" "page_limit (q\<lparr>af_after_seq := c\<rparr>) = page_limit q"
  by (simp_all add: page_limit_def)

lemma read_pages_all:
  assumes "ledger_wf L"
    and "length (filter (after_cursor q) (filter (filter_matches since L q) L)) < fuel"
  shows "read_pages fuel since L q = filter (after_cursor q) (filter (filter_matches since L q) L)"
  using assms(2)
proof (induction fuel arbitrary: q)
  case 0
  then show ?case by simp
next
  case (Suc fuel)
  let ?M = "filter (after_cursor q) (filter (filter_matches since L q) L)"
  let ?n = "page_limit q"
  have ev: "ap_events (select_page since L q) = take ?n ?M"
    using assms(1) by (rule select_page_sorted)
  have nx: "ap_next_seq (select_page since L q) =
      (if length (take ?n ?M) = ?n then Some (ae_seq (last (take ?n ?M))) else None)"
    using ev by (simp add: select_page_def Let_def)
  show ?case
  proof (cases "length (take ?n ?M) = ?n")
    case False
    then have "length ?M < ?n" by simp
    then show ?thesis using ev nx False by simp
  next
    case True
    let ?c = "ae_seq (last (take ?n ?M))"
    let ?q = "q\<lparr>af_after_seq := Some ?c\<rparr>"
    have srt: "sorted_wrt (<) (map ae_seq ?M)"
      using assms(1) by (intro sorted_strict_filter) (simp add: ledger_wf_def)
    have le: "?n \<le> length ?M" using True by simp
    have ne: "take ?n ?M \<noteq> []"
      using le page_limit_pos(1) [of q] by (metis True list.size(3) less_irrefl)
    have lastM: "after_cursor q (last (take ?n ?M))"
      using in_set_takeD [OF last_in_set [OF ne]] by simp
    have "filter (after_cursor ?q) (filter (filter_matches since L ?q) L)
        = filter (\<lambda>e. ?c < ae_seq e) ?M"
      using lastM by (simp only: filter_filter filter_matches_cursor)
        (auto simp: after_cursor_def opt_all_def intro!: filter_cong split: option.splits)
    also have "\<dots> = drop ?n ?M" using srt le by (intro drop_is_filter) simp_all
    finally have rest: "filter (after_cursor ?q) (filter (filter_matches since L ?q) L) = drop ?n ?M" .
    have "length (drop ?n ?M) < fuel"
      using Suc.prems le page_limit_pos(1) [of q] unfolding length_drop by arith
    then have "read_pages fuel since L ?q = drop ?n ?M" using Suc.IH [of ?q] rest by simp
    then show ?thesis using ev nx True by (simp add: Let_def)
  qed
qed

section \<open>Metadata safety\<close>

definition metadata_ok :: "metadata \<Rightarrow> bool" where
  "metadata_ok m \<longleftrightarrow> sorted_wrt (<) (map fst m) \<and> length m \<le> max_metadata_entries \<and>
     (\<forall>(k, v) \<in> set m. \<not> forbidden_key k \<and> length v \<le> max_metadata_value_bytes)"

lemma insert_entries: "(k', v') \<in> set (entry_insert k v m) \<Longrightarrow> (k', v') = (k, v) \<or> (k', v') \<in> set m"
  by (induction m) (auto split: if_splits)

lemma insert_keys: "set (map fst (entry_insert k v m)) = insert k (set (map fst m))"
proof (induction m)
  case (Cons e m)
  then show ?case by (cases e) (simp add: insert_commute)
qed simp

lemma length_insert: "length (entry_insert k v m) \<le> Suc (length m)"
  by (induction m) auto

lemma sorted_insert: "sorted_wrt (<) (map fst m) \<Longrightarrow> sorted_wrt (<) (map fst (entry_insert k v m))"
proof (induction m)
  case (Cons e m)
  obtain a b where e: "e = (a, b)" by fastforce
  have "sorted_wrt (<) (map fst (entry_insert k v m))" "\<forall>x \<in> set (map fst m). a < x"
    using Cons e by auto
  then show ?case using Cons.prems e insert_keys [of k v m] by auto
qed simp

lemma metadata_insert_ok: "metadata_insert k v m = Inr m' \<Longrightarrow> metadata_ok m \<Longrightarrow> metadata_ok m'"
  using length_insert [of k v m] sorted_insert [of m k v]
  by (fastforce simp: metadata_insert_def metadata_ok_def dest!: insert_entries split: if_splits)

lemma metadata_insert_all_ok: "metadata_insert_all facts m = Inr m' \<Longrightarrow> metadata_ok m \<Longrightarrow> metadata_ok m'"
  by (induction facts m rule: metadata_insert_all.induct)
     (auto split: sum.splits dest: metadata_insert_ok)

section \<open>Properties\<close>

text \<open>
  What can happen to the ledger, in any order: intents and outcomes are recorded, the insert of
  an outcome lands whose select came before other writes, and everything else leaves it alone.
\<close>

inductive ledger_step :: "'z world_scheme \<Rightarrow> 'z world_scheme \<Rightarrow> bool" where
  LedgerIntent: "ledger_step s (snd (record_intent i s))"
| LedgerOutcome: "ledger_step s (snd (record_outcome k out s))"
| LedgerLateInsert: "e \<in> set (w_ledger s) \<Longrightarrow> ae_outcome e = None \<Longrightarrow> ledger_step s (snd (outcome_insert e out s))"
| LedgerOther: "w_ledger t = w_ledger s \<Longrightarrow> ledger_step s t"

lemma ledger_step_grows: "ledger_step s t \<Longrightarrow> ledger_grows s t"
proof (induction rule: ledger_step.induct)
  case (LedgerIntent s i)
  show ?case by (rule within_snd [OF record_intent_grows])
next
  case (LedgerOutcome s k out)
  show ?case by (rule within_snd [OF record_outcome_grows])
next
  case (LedgerLateInsert e s out)
  then show ?case by (rule outcome_insert_grows)
qed (simp add: ledger_grows_def)

text \<open>
  C23. The ledger is append-only and consistent: along any sequence of recorded intents and
  outcomes, whatever external calls fail, and even when the insert of an outcome lands long after
  the select that found its intent open, every earlier event stays in place, positions increase,
  every outcome is tied to an earlier intent and no intent is completed twice.
\<close>

theorem ledger_append_only:
  assumes "ledger_step\<^sup>*\<^sup>* s t" and "ledger_wf (w_ledger s)"
  shows "(\<exists>new. w_ledger t = w_ledger s @ new) \<and> sorted_wrt (<) (map ae_seq (w_ledger t)) \<and>
    distinct (completes (w_ledger t)) \<and>
    (\<forall>c \<in> set (w_ledger t). case ae_intent_seq c of None \<Rightarrow> True
       | Some n \<Rightarrow> ae_outcome c \<noteq> None \<and> (\<exists>i \<in> set (w_ledger t). ae_seq i = n \<and> ae_outcome i = None \<and> n < ae_seq c))"
proof -
  have "ledger_grows s t" using assms(1)
    by (induction rule: rtranclp_induct) (auto intro: grows.refl grows.trans ledger_step_grows)
  with assms(2) have "(\<exists>new. w_ledger t = w_ledger s @ new) \<and> ledger_wf (w_ledger t)" by (simp add: ledger_grows_def)
  then show ?thesis by (auto simp: ledger_wf_def split: option.split)
qed

definition demo_intent :: audit_intent where
  "demo_intent = \<lparr>ai_actor = ''anonymous-lan-admin'', ai_action = ''operation.create'',
     ai_resource = Some ''op1'', ai_decision = decision_allow, ai_correlation = None,
     ai_operation = Some ''op1'', ai_metadata = [(''kind'', ''noop'')]\<rparr>"

definition demo_world :: world where
  "demo_world = \<lparr>w_now = 10, w_faults = [], w_uuid = (\<lambda>n. ''u'' @ decimal n), w_uuid_no = 0,
     w_ledger = [], w_pending_since = 0\<rparr>"

text \<open>Two recorders that both found the intent open: the second insert is refused.\<close>

theorem ledger_append_only_witness:
  "\<exists>t. ledger_step\<^sup>*\<^sup>* demo_world t \<and> length (w_ledger t) = 2 \<and> distinct (completes (w_ledger t))"
proof -
  define s1 where "s1 = snd (record_intent demo_intent demo_world)"
  define e where "e = intent_event demo_intent 1 (''u'' @ decimal 0) 10"
  define s2 where "s2 = snd (outcome_insert e OutcomeSucceeded s1)"
  define s3 where "s3 = snd (outcome_insert e OutcomeFailed s2)"
  have l1: "w_ledger s1 = [e]" "w_faults s1 = []"
    by (simp_all add: s1_def e_def record_intent_ok demo_world_def next_seq_def)
  have o': "ae_outcome e = None" "ae_intent_seq e = None" by (simp_all add: e_def intent_event_def)
  have l2: "\<exists>x. w_ledger s2 = [e, x] \<and> ae_intent_seq x = Some (ae_seq e)" "w_faults s2 = []"
    using l1 o' by (simp_all add: s2_def outcome_insert_def act_simps fresh_uuid_def external_def outcome_event_def)
  then have l3: "length (w_ledger s3) = 2"
    by (auto simp: s3_def outcome_insert_def act_simps fresh_uuid_def external_def)
  have a: "ledger_step demo_world s1" unfolding s1_def by (rule LedgerIntent)
  have b: "ledger_step s1 s2" unfolding s2_def by (rule LedgerLateInsert) (simp_all add: l1 o')
  have c: "ledger_step s2 s3" unfolding s3_def by (rule LedgerLateInsert) (use l2 o' in auto)
  have steps: "ledger_step\<^sup>*\<^sup>* demo_world s3"
    using a b c by (meson converse_rtranclp_into_rtranclp rtranclp.rtrancl_refl)
  have w: "ledger_wf (w_ledger demo_world)" by (simp add: demo_world_def ledger_wf_def completes_def)
  from ledger_append_only [OF steps w] steps l3 show ?thesis by blast
qed

text \<open>
  Paging is complete and exact: a reader that follows the cursors of a filtered query
  over a consistent ledger gets every matching event exactly once, in append order, and
  stops, with one page more than there are matching events as enough fuel.
\<close>

theorem audit_paging_complete:
  assumes "ledger_wf L" and "af_after_seq q = None"
    and "length (filter (filter_matches since L q) L) < fuel"
  shows "read_pages fuel since L q = filter (filter_matches since L q) L"
proof -
  have all: "filter (after_cursor q) xs = xs" for xs
    using assms(2) by (simp add: after_cursor_def opt_all_def)
  show ?thesis using read_pages_all [of L q since fuel] assms(1,3) by (simp only: all)
qed

definition demo_filter :: audit_filter where
  "demo_filter = \<lparr>af_after_seq = None, af_limit = 1, af_actor = None, af_action = None,
     af_resource = None, af_outcome = Some ''pending'', af_from = None, af_to = None,
     af_correlation = None\<rparr>"

theorem audit_paging_complete_witness:
  "read_pages 3 0 [intent_event demo_intent 1 ''a'' 5, intent_event demo_intent 2 ''b'' 6] demo_filter
   = [intent_event demo_intent 1 ''a'' 5, intent_event demo_intent 2 ''b'' 6]"
proof -
  let ?L = "[intent_event demo_intent 1 ''a'' 5, intent_event demo_intent 2 ''b'' 6]"
  have wf: "ledger_wf ?L" by (simp add: ledger_wf_def completes_def intent_event_def)
  have c: "af_after_seq demo_filter = None" by (simp add: demo_filter_def)
  have f: "filter (filter_matches 0 ?L demo_filter) ?L = ?L"
    by (simp add: filter_matches_def demo_filter_def opt_all_def outcome_matches_def is_open_def
        intent_event_def demo_intent_def decision_allow_def del: One_nat_def)
  have l: "length (filter (filter_matches 0 ?L demo_filter) ?L) < 3" unfolding f by simp
  show ?thesis by (rule trans [OF audit_paging_complete [OF wf c l] f])
qed

text \<open>
  No secret-bearing metadata reaches the ledger: whatever facts a service inserts, the
  metadata it obtains has its keys in order and once each, no forbidden key in any letter
  case, no value above 2048 bytes and at most 32 entries.
\<close>

theorem metadata_guard:
  assumes "metadata_insert_all facts [] = Inr m"
  shows "sorted_wrt (<) (map fst m) \<and> length m \<le> max_metadata_entries \<and>
    list_all (\<lambda>(k, v). \<not> forbidden_key k \<and> length v \<le> max_metadata_value_bytes) m"
  using metadata_insert_all_ok [OF assms] by (auto simp: metadata_ok_def list_all_iff)

theorem metadata_guard_witness:
  "metadata_insert_all [(''kind'', ''noop''), (''kind'', ''ssh.exec'')] [] = Inr [(''kind'', ''ssh.exec'')] \<and>
   length [(''kind'', ''ssh.exec'')] \<le> max_metadata_entries \<and>
   metadata_insert_all [(''X-Authorization-Token'', ''v'')] [] = Inl (ForbiddenKey ''X-Authorization-Token'')"
proof -
  have a: "metadata_insert_all [(''kind'', ''noop''), (''kind'', ''ssh.exec'')] [] = Inr [(''kind'', ''ssh.exec'')]"
    by code_simp
  have b: "metadata_insert_all [(''X-Authorization-Token'', ''v'')] [] = Inl (ForbiddenKey ''X-Authorization-Token'')"
    by code_simp
  show ?thesis using a b metadata_guard [OF a] by simp
qed

definition max_metadata_total_bytes :: nat where "max_metadata_total_bytes = 32 * 1024"

lemma plain_key: "\<not> forbidden_key ''a''" "\<not> forbidden_key ''b''" "\<not> forbidden_key ''c''" "\<not> forbidden_key ''d''"
    "\<not> forbidden_key ''e''" "\<not> forbidden_key ''f''" "\<not> forbidden_key ''g''" "\<not> forbidden_key ''h''"
    "\<not> forbidden_key ''i''" "\<not> forbidden_key ''j''" "\<not> forbidden_key ''k''" "\<not> forbidden_key ''l''"
    "\<not> forbidden_key ''m''" "\<not> forbidden_key ''n''" "\<not> forbidden_key ''o''" "\<not> forbidden_key ''p''"
    "\<not> forbidden_key ''q''"
  by code_simp+

text \<open>
  The declared total bound of 32 KiB per event is not a bound: seventeen values of 2048
  bytes under harmless keys are accepted, one after the other, and together exceed it.
\<close>

theorem metadata_total_unbounded:
  "\<exists>facts m. metadata_insert_all facts [] = Inr m \<and>
     sum_list (map (\<lambda>(k, v). length k + length v) m) > max_metadata_total_bytes"
proof -
  let ?v = "replicate 2048 (CHR ''x'')"
  let ?m = "map (\<lambda>c. ([c], ?v)) ''abcdefghijklmnopq''"
  have "metadata_insert_all ?m [] = Inr ?m"
    by (simp add: metadata_insert_def plain_key max_metadata_value_bytes_def max_metadata_entries_def
        less_char_def less_list_code)
  moreover have "sum_list (map (\<lambda>(k, v). length k + length v) ?m) > max_metadata_total_bytes"
    by (simp add: max_metadata_total_bytes_def)
  ultimately show ?thesis by blast
qed

end
