(* ===== verification/Credentials.thy ===== *)
theory Credentials
  imports Audit_Ledger "HOL-Library.Word" "HOL-Library.Product_Lexorder"
begin

unbundle bit_operations_syntax

text \<open>
  Delegated credentials: the use cases of \<open>crates/fleet-application/src/credentials.rs\<close>
  (issue, authenticate, list, revoke and the grant book), the repository of
  \<open>crates/fleet-storage-sqlite/src/credentials.rs\<close> and the token format of
  \<open>crates/fleet-auth/src/delegated.rs\<close>. SHA-256 and the JSON text of a list of strings are
  parameters; the random source is a stream of the state.
\<close>

section \<open>Tokens\<close>

definition token_prefix :: string where "token_prefix = ''fmdc1''"
definition token_bytes :: nat where "token_bytes = 32"

definition make_token :: "string \<Rightarrow> string" where
  "make_token random = token_prefix @ ''.'' @ hex_text random"

definition is_token_shaped :: "string \<Rightarrow> bool" where
  "is_token_shaped token \<longleftrightarrow>
     (case strip_prefix token_prefix token of
        None \<Rightarrow> False
      | Some rest \<Rightarrow>
          (case strip_prefix ''.'' rest of
             None \<Rightarrow> False
           | Some hex \<Rightarrow> length hex = token_bytes * 2 \<and>
               list_all (\<lambda>b. is_ascii_digit b \<or> ((97::nat) \<le> of_char b \<and> (of_char b :: nat) \<le> 102)) hex))"

text \<open>The comparison looks at every byte: the differences are accumulated, then tested.\<close>

definition hashes_equal :: "string \<Rightarrow> string \<Rightarrow> bool" where
  "hashes_equal left right \<longleftrightarrow>
     length left = length right \<and>
     fold (\<lambda>(a, b) diff. diff OR (of_char a XOR of_char b)) (zip left right) (0 :: 8 word) = 0"

lemma fold_diff_zero:
  "fold (\<lambda>(a, b) diff. diff OR (of_char a XOR of_char b)) ps (d :: 8 word) = 0 \<longleftrightarrow>
     d = 0 \<and> (\<forall>(a, b) \<in> set ps. (of_char a :: 8 word) = of_char b)"
proof (induction ps arbitrary: d)
  case Nil
  then show ?case by simp
next
  case (Cons p ps)
  have or0: "x OR y = 0 \<longleftrightarrow> x = 0 \<and> y = 0" for x y :: "8 word"
    by (metis or_eq_0_iff)
  have xor0: "x XOR y = 0 \<longleftrightarrow> x = y" for x y :: "8 word"
    by (metis xor.left_commute xor.right_neutral xor_self_eq)
  show ?case using Cons by (cases p) (auto simp: or0 xor0)
qed

lemma of_char_8word: "(of_char a :: 8 word) = of_char b \<longleftrightarrow> a = b"
proof
  have small: "(of_char c :: nat) < 256" for c by (rule nat_of_char_less_256)
  assume "(of_char a :: 8 word) = of_char b"
  then have "unat (word_of_nat (of_char a) :: 8 word) = unat (word_of_nat (of_char b) :: 8 word)"
    by (simp only: of_nat_of_char)
  then have "(of_char a :: nat) = of_char b"
    using small [of a] small [of b] by (simp only: unat_of_nat) (simp add: take_bit_eq_mod)
  then show "a = b" by simp
qed simp

lemma hashes_equal_iff: "hashes_equal left right \<longleftrightarrow> left = right"
  by (auto simp: hashes_equal_def fold_diff_zero of_char_8word list_eq_iff_zip_eq)

section \<open>Credentials and grants\<close>

definition max_ttl_seconds :: nat where "max_ttl_seconds = 86400"
definition min_ttl_seconds :: nat where "min_ttl_seconds = 60"
definition max_allow_entries :: nat where "max_allow_entries = 32"
definition max_owner_len :: nat where "max_owner_len = 63"
definition max_label_len :: nat where "max_label_len = 128"
definition max_entry_len :: nat where "max_entry_len = 128"

record credential =
  cr_id :: string
  cr_owner :: string
  cr_label :: string
  cr_templates :: "string list"
  cr_versions :: "string list"
  cr_issued_by :: string
  cr_issued_at :: int
  cr_expires_at :: int
  cr_revoked_at :: "int option"
  cr_revoked_by :: "string option"

datatype credential_status = CredActive | CredExpired | CredRevoked

definition credential_statuses :: "credential_status list" where
  "credential_statuses = [CredActive, CredExpired, CredRevoked]"

fun credential_status_id :: "credential_status \<Rightarrow> string" where
  "credential_status_id CredActive = ''active''"
| "credential_status_id CredExpired = ''expired''"
| "credential_status_id CredRevoked = ''revoked''"

definition credential_status :: "int \<Rightarrow> credential \<Rightarrow> credential_status" where
  "credential_status now c =
     (if cr_revoked_at c \<noteq> None then CredRevoked
      else if now \<ge> cr_expires_at c then CredExpired else CredActive)"

definition credential_principal :: "credential \<Rightarrow> string" where
  "credential_principal c = delegated_principal_id (cr_owner c) (cr_id c)"

record grant =
  gr_templates :: "string list"
  gr_versions :: "string list"

definition credential_grant :: "credential \<Rightarrow> grant" where
  "credential_grant c = \<lparr>gr_templates = cr_templates c, gr_versions = cr_versions c\<rparr>"

definition allows_version :: "grant \<Rightarrow> string \<Rightarrow> string \<Rightarrow> bool" where
  "allows_version g template_id version_id \<longleftrightarrow>
     template_id \<in> set (gr_templates g) \<or> version_id \<in> set (gr_versions g)"

definition template_use_resource :: "string \<Rightarrow> string \<Rightarrow> string" where
  "template_use_resource template_id version_id = template_id @ ''/'' @ version_id"

text \<open>The grant book: a hash map from principal ids to grants.\<close>

type_synonym grant_book = "string \<rightharpoonup> grant"

section \<open>The repository\<close>

text \<open>
  A row keeps the two lists as JSON text. What is not in the repository's sources: the
  digest, the JSON text of a string list and its parser, and the text of a constraint
  failure of the database.
\<close>

record cred_row =
  rw_cred :: credential
  rw_hash :: string
  rw_templates_text :: string
  rw_versions_text :: string

record cred_ports =
  cp_digest :: "string \<Rightarrow> string"
  cp_encode :: "string list \<Rightarrow> string"
  cp_decode :: "string \<Rightarrow> string + string list"
  cp_constraint :: string

record cred_world = world +
  cw_rows :: "cred_row list"
  cw_grants :: grant_book
  cw_random :: "nat \<Rightarrow> string"
  cw_random_no :: nat

definition hash_token :: "cred_ports \<Rightarrow> string \<Rightarrow> string" where
  "hash_token cp token = hex_text (cp_digest cp token)"

definition generate_token :: "('z cred_world_scheme, 'e, string) act" where
  "generate_token = (\<lambda>s. (Inr (make_token (cw_random s (cw_random_no s))),
     s\<lparr>cw_random_no := Suc (cw_random_no s)\<rparr>))"

definition decode_list :: "cred_ports \<Rightarrow> string \<Rightarrow> string \<Rightarrow> string + string list" where
  "decode_list cp column t =
     (case cp_decode cp t of
        Inl e \<Rightarrow> Inl (''a credential's '' @ column @ '' are unreadable: '' @ e)
      | Inr xs \<Rightarrow> Inr xs)"

definition row_to_credential :: "cred_ports \<Rightarrow> cred_row \<Rightarrow> string + credential" where
  "row_to_credential cp r =
     check_then (decode_list cp ''templates'' (rw_templates_text r)) (\<lambda>ts.
     check_then (decode_list cp ''versions'' (rw_versions_text r)) (\<lambda>vs.
     Inr ((rw_cred r)\<lparr>cr_templates := ts, cr_versions := vs\<rparr>)))"

text \<open>The CHECK, PRIMARY KEY and UNIQUE constraints of the table.\<close>

definition row_admitted :: "cred_row list \<Rightarrow> cred_row \<Rightarrow> bool" where
  "row_admitted rows r \<longleftrightarrow>
     1 \<le> char_count (cr_id (rw_cred r)) \<and> char_count (cr_id (rw_cred r)) \<le> 128 \<and>
     char_count (rw_hash r) = 64 \<and>
     1 \<le> char_count (cr_owner (rw_cred r)) \<and> char_count (cr_owner (rw_cred r)) \<le> 63 \<and>
     char_count (cr_label (rw_cred r)) \<le> 512 \<and>
     cr_id (rw_cred r) \<notin> set (map (cr_id \<circ> rw_cred) rows) \<and>
     rw_hash r \<notin> set (map rw_hash rows)"

definition creds_insert :: "cred_ports \<Rightarrow> credential \<Rightarrow> string \<Rightarrow> ('z cred_world_scheme, string, unit) act" where
  "creds_insert cp c token_hash =
     (let row = \<lparr>rw_cred = c\<lparr>cr_revoked_at := None, cr_revoked_by := None\<rparr>, rw_hash = token_hash,
                 rw_templates_text = cp_encode cp (cr_templates c),
                 rw_versions_text = cp_encode cp (cr_versions c)\<rparr>
      in andthen (map_err (\<lambda>e. ''credential insert failed: '' @ e) external) (\<lambda>_.
         andthen (asks (\<lambda>s. row_admitted (cw_rows s) row)) (\<lambda>ok.
         if ok then modify (\<lambda>s. s\<lparr>cw_rows := cw_rows s @ [row]\<rparr>)
         else fail (''credential insert failed: '' @ cp_constraint cp))))"

fun read_rows :: "cred_ports \<Rightarrow> cred_row list \<Rightarrow> string + credential list" where
  "read_rows cp [] = Inr []"
| "read_rows cp (r # rs) =
     check_then (row_to_credential cp r) (\<lambda>c. check_then (read_rows cp rs) (\<lambda>cs. Inr (c # cs)))"

definition creds_list_rows :: "cred_ports \<Rightarrow> ('z cred_world_scheme, string, credential list) act" where
  "creds_list_rows cp =
     andthen (map_err (\<lambda>e. ''credential list failed: '' @ e) external) (\<lambda>_.
     andthen (asks (\<lambda>s. rev (sort_key (\<lambda>r. (cr_issued_at (rw_cred r), cr_id (rw_cred r))) (cw_rows s)))) (\<lambda>rows.
     lift (read_rows cp rows)))"

definition creds_get :: "cred_ports \<Rightarrow> string \<Rightarrow> ('z cred_world_scheme, string, credential option) act" where
  "creds_get cp i =
     andthen (map_err (\<lambda>e. ''credential read failed: '' @ e) external) (\<lambda>_.
     andthen (asks (\<lambda>s. find (\<lambda>r. cr_id (rw_cred r) = i) (cw_rows s))) (\<lambda>found.
     case found of
       None \<Rightarrow> ret None
     | Some r \<Rightarrow> andthen (lift (row_to_credential cp r)) (\<lambda>c. ret (Some c))))"

definition find_by_hash :: "cred_ports \<Rightarrow> string \<Rightarrow> ('z cred_world_scheme, string, (credential \<times> string) option) act" where
  "find_by_hash cp token_hash =
     andthen (map_err (\<lambda>e. ''credential lookup failed: '' @ e) external) (\<lambda>_.
     andthen (asks (\<lambda>s. find (\<lambda>r. rw_hash r = token_hash) (cw_rows s))) (\<lambda>found.
     case found of
       None \<Rightarrow> ret None
     | Some r \<Rightarrow> andthen (lift (row_to_credential cp r)) (\<lambda>c. ret (Some (c, rw_hash r)))))"

definition revoke_row :: "string \<Rightarrow> string \<Rightarrow> int \<Rightarrow> cred_row \<Rightarrow> cred_row" where
  "revoke_row i revoked_by now r =
     (if cr_id (rw_cred r) = i \<and> cr_revoked_at (rw_cred r) = None
      then r\<lparr>rw_cred := (rw_cred r)\<lparr>cr_revoked_at := Some now, cr_revoked_by := Some revoked_by\<rparr>\<rparr>
      else r)"

definition creds_revoke_row ::
    "cred_ports \<Rightarrow> string \<Rightarrow> string \<Rightarrow> int \<Rightarrow> ('z cred_world_scheme, string, credential option) act" where
  "creds_revoke_row cp i revoked_by now =
     andthen (map_err (\<lambda>e. ''credential revoke failed: '' @ e) external) (\<lambda>_.
     andthen (modify (\<lambda>s. s\<lparr>cw_rows := map (revoke_row i revoked_by now) (cw_rows s)\<rparr>)) (\<lambda>_.
     creds_get cp i))"

section \<open>The use cases\<close>

record issue_request =
  is_owner :: string
  is_ttl_seconds :: nat
  is_templates :: "string list"
  is_versions :: "string list"
  is_label :: string

datatype credential_error =
    CredDenied decision
  | CredInvalid string
  | CredNotFound string
  | CredBackend string string

definition credential_error_text :: "credential_error \<Rightarrow> string" where
  "credential_error_text e =
     (case e of
        CredDenied d \<Rightarrow> ''denied: '' @ decision_text d
      | CredInvalid detail \<Rightarrow> ''invalid: '' @ detail
      | CredNotFound what \<Rightarrow> what @ '' was not found''
      | CredBackend context detail \<Rightarrow> context @ '' failed: '' @ detail)"

datatype authentication_failure =
    AuthUnknown
  | AuthInactive credential_status
  | AuthBackend string

definition owner_char :: "char \<Rightarrow> bool" where
  "owner_char c \<longleftrightarrow> is_ascii_lower c \<or> is_ascii_digit c \<or> c \<in> set ''._-''"

definition valid_owner :: "string \<Rightarrow> bool" where
  "valid_owner owner \<longleftrightarrow>
     (case owner of [] \<Rightarrow> False | f # _ \<Rightarrow> is_ascii_lower f \<or> is_ascii_digit f) \<and>
     length owner \<le> max_owner_len \<and> list_all owner_char owner"

definition valid_entry :: "string \<Rightarrow> bool" where
  "valid_entry entry \<longleftrightarrow>
     entry \<noteq> [] \<and> length entry \<le> max_entry_len \<and>
     list_all (\<lambda>c. is_ascii_alnum c \<or> c \<in> set ''._-@'') entry"

definition validate_issue :: "issue_request \<Rightarrow> credential_error + int" where
  "validate_issue q =
     (if \<not> valid_owner (is_owner q) then
        Inl (CredInvalid (''the owner must be 1..='' @ decimal max_owner_len @
          '' characters of a-z, 0-9, '.', '_' or '-', starting with a letter or digit''))
      else if \<not> (min_ttl_seconds \<le> is_ttl_seconds q \<and> is_ttl_seconds q \<le> max_ttl_seconds) then
        Inl (CredInvalid (''the ttl must be '' @ decimal min_ttl_seconds @ ''..='' @
          decimal max_ttl_seconds @ '' seconds''))
      else if is_templates q = [] \<and> is_versions q = [] then
        Inl (CredInvalid ''the allow-list needs at least one template or template version'')
      else if length (is_templates q) + length (is_versions q) > max_allow_entries \<or>
              list_ex (\<lambda>entry. \<not> valid_entry entry) (is_templates q @ is_versions q) then
        Inl (CredInvalid (''the allow-list takes at most '' @ decimal max_allow_entries @
          '' ids of 1..='' @ decimal max_entry_len @ '' letters, digits, '.', '_', '-' or '@'' @ [CHR 0x27]))
      else if length (join_text '','' (is_templates q)) > 2000 \<or>
              length (join_text '','' (is_versions q)) > 2000 then
        Inl (CredInvalid ''the allow-list is too long'')
      else if char_count (is_label q) > max_label_len \<or> has_control (is_label q) then
        Inl (CredInvalid (''the label must be at most '' @ decimal max_label_len @ '' printable characters''))
      else (case checked_i64 (int (is_ttl_seconds q)) of
              None \<Rightarrow> Inl (CredInvalid ''the ttl is out of range'')
            | Some seconds \<Rightarrow>
                (case checked_i64 (seconds * 1000) of
                   None \<Rightarrow> Inl (CredInvalid ''the ttl is out of range'')
                 | Some ms \<Rightarrow> Inr ms)))"

definition cred_intent :: "string \<Rightarrow> string \<Rightarrow> string \<Rightarrow> decision \<Rightarrow> metadata \<Rightarrow> audit_intent" where
  "cred_intent actor action resource d m =
     \<lparr>ai_actor = actor, ai_action = action, ai_resource = Some resource, ai_decision = d,
      ai_correlation = None, ai_operation = None, ai_metadata = m\<rparr>"

definition issue ::
    "cred_ports \<Rightarrow> authorizer \<Rightarrow> string \<Rightarrow> issue_request \<Rightarrow> int \<Rightarrow>
     ('z cred_world_scheme, credential_error, credential \<times> string) act" where
  "issue cp az who q now =
     (case authorize az (access who CredentialIssue None) of
        Inl d \<Rightarrow> fail (CredDenied d)
      | Inr _ \<Rightarrow>
     andthen (lift (validate_issue q)) (\<lambda>ttl_millis.
     andthen fresh_uuid (\<lambda>new_id.
     let c = \<lparr>cr_id = new_id, cr_owner = is_owner q, cr_label = is_label q,
              cr_templates = dedup (sort (is_templates q)), cr_versions = dedup (sort (is_versions q)),
              cr_issued_by = who, cr_issued_at = now, cr_expires_at = saturating_add now ttl_millis,
              cr_revoked_at = None, cr_revoked_by = None\<rparr> in
     andthen generate_token (\<lambda>token.
     let token_hash = hash_token cp token in
     andthen (lift (case metadata_insert_all
         [(''owner'', cr_owner c), (''expiresAt'', decimal_int (cr_expires_at c)),
          (''templates'', join_text '','' (cr_templates c)),
          (''versions'', join_text '','' (cr_versions c))] []
         of Inl e \<Rightarrow> Inl (CredBackend ''audit'' (metadata_error_text e)) | Inr m \<Rightarrow> Inr m)) (\<lambda>metadata.
     andthen (map_err (CredBackend ''audit'')
         (record_intent (cred_intent who (permission_id CredentialIssue) (cr_id c) decision_allow metadata))) (\<lambda>_.
     andthen (map_err (CredBackend ''credentials'') (creds_insert cp c token_hash)) (\<lambda>_.
     ret (c, token))))))))"

definition grants_register :: "string \<Rightarrow> grant \<Rightarrow> ('z cred_world_scheme, 'e, unit) act" where
  "grants_register who g = modify (\<lambda>s. s\<lparr>cw_grants := (cw_grants s)(who \<mapsto> g)\<rparr>)"

definition grants_forget :: "string \<Rightarrow> ('z cred_world_scheme, 'e, unit) act" where
  "grants_forget who = modify (\<lambda>s. s\<lparr>cw_grants := (cw_grants s)(who := None)\<rparr>)"

definition authenticate ::
    "cred_ports \<Rightarrow> string \<Rightarrow> string \<Rightarrow> string \<Rightarrow> int \<Rightarrow>
     ('z cred_world_scheme, authentication_failure, credential \<times> string) act" where
  "authenticate cp token meth path now =
     (let presented_hash = hash_token cp token in
     andthen (map_err AuthBackend (find_by_hash cp presented_hash)) (\<lambda>found.
     case (case found of None \<Rightarrow> None
           | Some (c, stored_hash) \<Rightarrow> if hashes_equal stored_hash presented_hash then Some c else None) of
       None \<Rightarrow> fail AuthUnknown
     | Some c \<Rightarrow>
         let who = credential_principal c; status = credential_status now c;
             active = (status = CredActive) in
         andthen (lift (case metadata_insert_all
             [(''method'', take_chars 16 meth), (''path'', take_chars 256 path),
              (''credentialId'', cr_id c)] []
             of Inl e \<Rightarrow> Inl (AuthBackend (metadata_error_text e)) | Inr m \<Rightarrow> Inr m)) (\<lambda>metadata.
         andthen (map_err AuthBackend (record_intent (cred_intent who ''credential.use'' (cr_id c)
             (if active then decision_allow else decision_deny CredentialInactive) metadata))) (\<lambda>_.
         if \<not> active
         then andthen (grants_forget who) (\<lambda>_. fail (AuthInactive status))
         else andthen (grants_register who (credential_grant c)) (\<lambda>_. ret (c, who))))))"

definition list_credentials ::
    "cred_ports \<Rightarrow> authorizer \<Rightarrow> string \<Rightarrow> ('z cred_world_scheme, credential_error, credential list) act" where
  "list_credentials cp az who =
     (case authorize az (access who CredentialRead None) of
        Inl d \<Rightarrow> fail (CredDenied d)
      | Inr _ \<Rightarrow> map_err (CredBackend ''credentials'') (creds_list_rows cp))"

definition revoke ::
    "cred_ports \<Rightarrow> authorizer \<Rightarrow> string \<Rightarrow> string \<Rightarrow> int \<Rightarrow>
     ('z cred_world_scheme, credential_error, credential) act" where
  "revoke cp az who i now =
     (case authorize az (access who CredentialRevoke (Some i)) of
        Inl d \<Rightarrow> fail (CredDenied d)
      | Inr _ \<Rightarrow>
     andthen (map_err (CredBackend ''credentials'') (creds_get cp i)) (\<lambda>found.
     case found of
       None \<Rightarrow> fail (CredNotFound (''credential '' @ i))
     | Some existing \<Rightarrow>
     andthen (lift (case metadata_insert ''owner'' (cr_owner existing) []
         of Inl e \<Rightarrow> Inl (CredBackend ''audit'' (metadata_error_text e)) | Inr m \<Rightarrow> Inr m)) (\<lambda>metadata.
     andthen (map_err (CredBackend ''audit'')
         (record_intent (cred_intent who (permission_id CredentialRevoke) i decision_allow metadata))) (\<lambda>_.
     andthen (map_err (CredBackend ''credentials'') (creds_revoke_row cp i who now)) (\<lambda>revoked.
     case revoked of
       None \<Rightarrow> fail (CredNotFound (''credential '' @ i))
     | Some c \<Rightarrow> andthen (grants_forget (credential_principal c)) (\<lambda>_. ret c))))))"

text \<open>A client's calls, applied in the order the store serialises them.\<close>

datatype cred_call =
    IssueCall authorizer string issue_request int
  | AuthenticateCall string string string int
  | RevokeCall authorizer string string int
  | ListCall authorizer string

fun run_call :: "cred_ports \<Rightarrow> cred_call \<Rightarrow> 'z cred_world_scheme \<Rightarrow> 'z cred_world_scheme" where
  "run_call cp (IssueCall az who q now) s = snd (issue cp az who q now s)"
| "run_call cp (AuthenticateCall token meth path now) s = snd (authenticate cp token meth path now s)"
| "run_call cp (RevokeCall az who i now) s = snd (revoke cp az who i now s)"
| "run_call cp (ListCall az who) s = snd (list_credentials cp az who s)"

section \<open>What every call keeps\<close>

text \<open>
  A row is never deleted, keeps its identity, token hash, owner, lists and expiry, and once
  revoked never changes again. Ids and hashes stay unique.
\<close>

definition row_kept :: "cred_row \<Rightarrow> cred_row \<Rightarrow> bool" where
  "row_kept r r' \<longleftrightarrow> rw_hash r' = rw_hash r \<and> rw_templates_text r' = rw_templates_text r \<and>
     rw_versions_text r' = rw_versions_text r \<and>
     (rw_cred r')\<lparr>cr_revoked_at := None, cr_revoked_by := None\<rparr> =
       (rw_cred r)\<lparr>cr_revoked_at := None, cr_revoked_by := None\<rparr> \<and>
     (cr_revoked_at (rw_cred r) \<noteq> None \<longrightarrow> r' = r)"

definition rows_wf :: "cred_row list \<Rightarrow> bool" where
  "rows_wf rows \<longleftrightarrow> distinct (map (cr_id \<circ> rw_cred) rows) \<and> distinct (map rw_hash rows)"

definition creds_grow :: "'z cred_world_scheme \<Rightarrow> 'z cred_world_scheme \<Rightarrow> bool" where
  "creds_grow s t \<longleftrightarrow>
     (\<exists>old new. cw_rows t = old @ new \<and> list_all2 row_kept (cw_rows s) old) \<and>
     (rows_wf (cw_rows s) \<longrightarrow> rows_wf (cw_rows t))"

lemma row_kept_refl: "row_kept r r"
  by (simp add: row_kept_def)

lemma row_kept_trans: "row_kept a b \<Longrightarrow> row_kept b c \<Longrightarrow> row_kept a c"
  by (auto simp: row_kept_def)

lemma row_kept_id: "row_kept r r' \<Longrightarrow> cr_id (rw_cred r') = cr_id (rw_cred r)"
  unfolding row_kept_def by (cases "rw_cred r"; cases "rw_cred r'") simp

lemma rows_kept_refl: "list_all2 row_kept rs rs"
  by (simp add: list.rel_refl row_kept_refl)

lemma creds_grow_rows: "cw_rows t = cw_rows s \<Longrightarrow> creds_grow s t"
  using rows_kept_refl by (auto simp: creds_grow_def)

interpretation cgrow: effect_relation "creds_grow :: 'z cred_world_scheme \<Rightarrow> 'z cred_world_scheme \<Rightarrow> bool"
proof unfold_locales
  fix s :: "'z cred_world_scheme"
  show "creds_grow s s" by (rule creds_grow_rows) simp
next
  fix s t u :: "'z cred_world_scheme"
  assume st: "creds_grow s t" and tu: "creds_grow t u"
  from st obtain o1 n1 where 1: "cw_rows t = o1 @ n1" "list_all2 row_kept (cw_rows s) o1"
    by (auto simp: creds_grow_def)
  from tu obtain o2 n2 where 2: "cw_rows u = o2 @ n2" "list_all2 row_kept (cw_rows t) o2"
    by (auto simp: creds_grow_def)
  from 1 2 obtain x y where 3: "o2 = x @ y" "list_all2 row_kept o1 x"
    by (auto simp: list_all2_append1)
  have "list_all2 row_kept (cw_rows s) x"
    using list_all2_trans [OF _ 1(2) 3(2)] row_kept_trans by blast
  with 2 3 st tu show "creds_grow s u" by (auto simp: creds_grow_def)
qed

lemma more_creds:
  "world.more t = world.more s \<Longrightarrow>
     cw_rows t = cw_rows s \<and> cw_grants t = cw_grants s \<and> cw_random t = cw_random s \<and>
     cw_random_no t = cw_random_no s"
  by (cases s; cases t) simp

lemma frame_rows: "within world_frame m \<Longrightarrow> m s = (r, t) \<Longrightarrow>
     cw_rows t = cw_rows s \<and> cw_grants t = cw_grants s \<and> cw_random t = cw_random s \<and>
     cw_random_no t = cw_random_no s"
  by (rule more_creds, rule world_frame_more, rule withinD)

lemma frame_grow: "within world_frame m \<Longrightarrow> within creds_grow m"
  by (rule withinI, rule creds_grow_rows)
     (rule more_creds [THEN conjunct1], rule world_frame_more, rule within_snd)

lemma find_kept:
  assumes "list_all2 row_kept rs old" and "find (\<lambda>r. cr_id (rw_cred r) = i) rs = Some r"
  shows "\<exists>r'. find (\<lambda>r. cr_id (rw_cred r) = i) (old @ new) = Some r' \<and> row_kept r r'"
  using assms by (induction rule: list_all2_induct) (auto dest: row_kept_id split: if_splits)

lemma external_cgrow: "within creds_grow external"
  by (rule frame_grow, rule external_frame)

lemma creds_insert_cgrow: "within creds_grow (creds_insert cp c h)"
proof (rule withinI)
  fix s :: "'z cred_world_scheme"
  obtain r t where e: "external s = (r, t)" by fastforce
  have rows: "cw_rows t = cw_rows s" using frame_rows [OF external_frame e] by simp
  have "rows_wf (cw_rows s @ [row])" if "row_admitted (cw_rows s) row" "rows_wf (cw_rows s)" for row
    using that by (auto simp: row_admitted_def rows_wf_def)
  then show "creds_grow s (snd (creds_insert cp c h s))" using rows_kept_refl e rows
    by (auto simp: creds_insert_def Let_def act_simps creds_grow_def split: sum.splits)
qed

lemma creds_get_frame: "within world_frame (creds_get cp i)"
  unfolding creds_get_def by (intro frame.intros external_frame)

lemma find_by_hash_frame: "within world_frame (find_by_hash cp h)"
  unfolding find_by_hash_def by (intro frame.intros external_frame)

lemma revoke_row_kept: "row_kept r (revoke_row i who now r)"
  by (auto simp: row_kept_def revoke_row_def)

lemma revoke_row_keys [simp]: "cr_id (rw_cred (revoke_row i who now r)) = cr_id (rw_cred r)"
  "rw_hash (revoke_row i who now r) = rw_hash r"
  by (simp_all add: revoke_row_def)

lemma revoke_row_revoked: "cr_id (rw_cred x) = i \<Longrightarrow> cr_revoked_at (rw_cred (revoke_row i who now x)) \<noteq> None"
  by (simp add: revoke_row_def)

lemma revoke_rows_cgrow: "within creds_grow (modify (\<lambda>s. s\<lparr>cw_rows := map (revoke_row i who now) (cw_rows s)\<rparr>))"
proof -
  have "list_all2 row_kept rs (map (revoke_row i who now) rs)" for rs
    by (simp add: list_all2_map2 list.rel_refl revoke_row_kept)
  moreover have "rows_wf (map (revoke_row i who now) rs) = rows_wf rs" for rs
    by (simp add: rows_wf_def comp_def)
  ultimately show ?thesis by (auto simp: within_def modify_def creds_grow_def)
qed

lemma creds_revoke_row_cgrow: "within creds_grow (creds_revoke_row cp i who now)"
  unfolding creds_revoke_row_def
  by (intro cgrow.intros external_cgrow revoke_rows_cgrow frame_grow [OF creds_get_frame])

lemma grants_cgrow: "within creds_grow (grants_register who g)" "within creds_grow (grants_forget who)"
  "within creds_grow generate_token"
  by (simp_all add: within_def grants_register_def grants_forget_def generate_token_def modify_def creds_grow_rows)

lemma issue_cgrow: "within creds_grow (issue cp az who q now)"
  unfolding issue_def Let_def
  by (intro cgrow.intros grants_cgrow creds_insert_cgrow frame_grow [OF fresh_uuid_frame]
      frame_grow [OF record_intent_frame])

lemma authenticate_cgrow: "within creds_grow (authenticate cp token meth path now)"
  unfolding authenticate_def Let_def
  by (intro cgrow.intros grants_cgrow frame_grow [OF find_by_hash_frame] frame_grow [OF record_intent_frame])

lemma revoke_cgrow: "within creds_grow (revoke cp az who i now)"
  unfolding revoke_def
  by (intro cgrow.intros grants_cgrow creds_revoke_row_cgrow frame_grow [OF creds_get_frame]
      frame_grow [OF record_intent_frame])

lemma list_cgrow: "within creds_grow (list_credentials cp az who)"
  unfolding list_credentials_def creds_list_rows_def
  by (intro cgrow.intros external_cgrow)

lemma run_call_cgrow: "creds_grow s (run_call cp call s)"
  by (cases call) (simp_all add: within_snd [where R = creds_grow, OF issue_cgrow]
      within_snd [where R = creds_grow, OF authenticate_cgrow]
      within_snd [where R = creds_grow, OF revoke_cgrow]
      within_snd [where R = creds_grow, OF list_cgrow])

lemma run_calls_cgrow: "creds_grow s (fold (run_call cp) calls s)"
  by (induction calls arbitrary: s) (auto intro: cgrow.refl cgrow.trans run_call_cgrow)

section \<open>Properties\<close>

lemma find_by_hash_Inr:
  assumes "find_by_hash cp h s = (Inr v, t)"
  shows "v = (case find (\<lambda>r. rw_hash r = h) (cw_rows s) of None \<Rightarrow> None
       | Some r \<Rightarrow> (case row_to_credential cp r of Inl _ \<Rightarrow> None | Inr c \<Rightarrow> Some (c, rw_hash r)))"
proof -
  obtain u where e: "external s = (Inr (), u)"
    and u: "(case find (\<lambda>r. rw_hash r = h) (cw_rows u) of None \<Rightarrow> ret None
        | Some r \<Rightarrow> andthen (lift (row_to_credential cp r)) (\<lambda>c. ret (Some (c, rw_hash r)))) u = (Inr v, t)"
    using assms by (auto simp: find_by_hash_def act_Inr)
  have "cw_rows u = cw_rows s" using frame_rows [OF external_frame e] by simp
  with u show ?thesis by (auto simp: act_Inr split: option.splits sum.splits)
qed

lemma authenticate_Inr:
  assumes "authenticate cp token meth path now s = (Inr (c, who), t)"
  shows "\<exists>r. find (\<lambda>r. rw_hash r = hash_token cp token) (cw_rows s) = Some r \<and>
     row_to_credential cp r = Inr c \<and> credential_status now c = CredActive \<and>
     who = credential_principal c \<and> cw_grants t who = Some (credential_grant c)"
proof -
  obtain found u where f: "find_by_hash cp (hash_token cp token) s = (Inr found, u)"
    using assms by (auto simp: authenticate_def Let_def act_Inr)
  show ?thesis
  proof (cases found)
    case None
    with assms f show ?thesis by (simp add: authenticate_def Let_def act_simps)
  next
    case (Some p)
    obtain c' h where p: "p = (c', h)" by fastforce
    have "h = hash_token cp token \<and> c' = c \<and> credential_status now c = CredActive \<and>
        who = credential_principal c \<and> cw_grants t who = Some (credential_grant c)"
      using assms f Some p
      by (auto simp: authenticate_def Let_def act_Inr hashes_equal_iff grants_register_def
          grants_forget_def split: if_splits sum.splits)
    with find_by_hash_Inr [OF f] Some p show ?thesis by (auto split: option.splits sum.splits)
  qed
qed

lemma creds_get_Inr:
  assumes "creds_get cp i s = (Inr v, t)"
  shows "v = (case find (\<lambda>r. cr_id (rw_cred r) = i) (cw_rows s) of None \<Rightarrow> None
       | Some r \<Rightarrow> (case row_to_credential cp r of Inl _ \<Rightarrow> None | Inr c \<Rightarrow> Some c))"
proof -
  obtain u where e: "external s = (Inr (), u)"
    and u: "(case find (\<lambda>r. cr_id (rw_cred r) = i) (cw_rows u) of None \<Rightarrow> ret None
        | Some r \<Rightarrow> andthen (lift (row_to_credential cp r)) (\<lambda>c. ret (Some c))) u = (Inr v, t)"
    using assms by (auto simp: creds_get_def act_Inr)
  have "cw_rows u = cw_rows s" using frame_rows [OF external_frame e] by simp
  with u show ?thesis by (auto simp: act_Inr split: option.splits sum.splits)
qed

lemma revoke_Inr:
  assumes "revoke cp az who i at s = (Inr c, t)"
  shows "\<exists>r. find (\<lambda>r. cr_id (rw_cred r) = i) (cw_rows t) = Some r \<and>
     cr_revoked_at (rw_cred r) \<noteq> None \<and> row_to_credential cp r = Inr c \<and>
     cw_grants t (credential_principal c) = None"
proof -
  obtain u v w where x: "external u = (Inr (), v)"
    and g: "creds_get cp i (v\<lparr>cw_rows := map (revoke_row i who at) (cw_rows v)\<rparr>) = (Inr (Some c), w)"
    and t: "t = w\<lparr>cw_grants := (cw_grants w)(credential_principal c := None)\<rparr>"
    using assms
    by (auto simp: revoke_def act_Inr grants_forget_def creds_revoke_row_def)
  let ?v = "v\<lparr>cw_rows := map (revoke_row i who at) (cw_rows v)\<rparr>"
  have w: "cw_rows w = cw_rows ?v" using frame_rows [OF creds_get_frame g] by simp
  have "\<exists>r. find (\<lambda>r. cr_id (rw_cred r) = i) (cw_rows ?v) = Some r \<and> row_to_credential cp r = Inr c"
    using creds_get_Inr [OF g] by (auto split: option.splits sum.splits)
  then obtain r where r: "find (\<lambda>r. cr_id (rw_cred r) = i) (cw_rows ?v) = Some r" "row_to_credential cp r = Inr c"
    by blast
  from find_Some_in [OF r(1)] have "r \<in> revoke_row i who at ` set (cw_rows v)" and i: "cr_id (rw_cred r) = i"
    by simp_all
  then obtain x where "r = revoke_row i who at x" by blast
  then have "cr_revoked_at (rw_cred r) \<noteq> None" using revoke_row_revoked [of x i] i revoke_row_keys(1) by metis
  moreover have "cw_rows t = cw_rows ?v" using w t by simp
  moreover have "cw_grants t (credential_principal c) = None" using t by simp
  ultimately show ?thesis using r by metis
qed

text \<open>Once a row is revoked, the calls of anyone leave it as it is.\<close>

lemma revoked_row_stays:
  assumes "find (\<lambda>r. cr_id (rw_cred r) = i) (cw_rows s) = Some r" and "cr_revoked_at (rw_cred r) \<noteq> None"
  shows "find (\<lambda>r. cr_id (rw_cred r) = i) (cw_rows (fold (run_call cp) calls s)) = Some r"
proof -
  obtain old new where t: "cw_rows (fold (run_call cp) calls s) = old @ new" "list_all2 row_kept (cw_rows s) old"
    using run_calls_cgrow [of s cp calls] by (auto simp: creds_grow_def)
  with find_kept [OF t(2) assms(1), of new] assms(2) show ?thesis by (auto simp: row_kept_def)
qed

lemma find_by_unique_hash:
  assumes "rows_wf rows" and "r \<in> set rows"
  shows "find (\<lambda>x. rw_hash x = rw_hash r) rows = Some r"
proof -
  have "find (\<lambda>x. rw_hash x = rw_hash r) rows \<noteq> None" using assms(2) by (auto simp: find_None_iff)
  then obtain r' where f: "find (\<lambda>x. rw_hash x = rw_hash r) rows = Some r'" by blast
  then have "r' \<in> set rows" "rw_hash r' = rw_hash r" by (auto simp: find_Some_iff)
  with assms have "r' = r" by (auto simp: rows_wf_def distinct_map inj_on_def)
  with f show ?thesis by simp
qed

text \<open>
  C22. A presented token authenticates only as a live credential: the stored hash is the
  token's, the credential is neither revoked nor expired, the request acts as that
  credential's own principal, its allow-list is what the authorizer will see, and the use
  is on the audit ledger.
\<close>

theorem authenticate_sound:
  assumes "authenticate cp token meth path now s = (Inr (c, who), t)"
  shows "(\<exists>r. r \<in> set (cw_rows s) \<and> rw_hash r = hash_token cp token \<and> row_to_credential cp r = Inr c) \<and>
     cr_revoked_at c = None \<and> now < cr_expires_at c \<and> who = credential_principal c \<and>
     cw_grants t who = Some (credential_grant c) \<and>
     (\<exists>e. w_ledger t = w_ledger s @ [e] \<and> ae_actor e = who \<and> ae_action e = ''credential.use'' \<and> ae_allowed e)"
proof -
  have l: "w_ledger v = w_ledger u" if "find_by_hash cp h u = (r, v)" for h u r v
    using that by (auto simp: find_by_hash_def act_simps split: prod.splits sum.splits option.splits
        dest!: external_eq)
  have "\<exists>e. w_ledger t = w_ledger s @ [e] \<and> ae_actor e = who \<and> ae_action e = ''credential.use'' \<and> ae_allowed e"
    using assms
    by (auto simp: authenticate_def Let_def act_Inr grants_register_def grants_forget_def fail_Inr
        cred_intent_def intent_event_def decision_allow_def dest!: record_intent_Inr l
        split: if_splits sum.splits option.splits prod.splits)
  then show ?thesis
    using authenticate_Inr [OF assms]
    by (auto simp: credential_status_def dest!: find_Some_in split: if_splits)
qed

text \<open>
  C19. Revocation is final: after a successful revocation the credential's grant is gone,
  and whatever calls anyone makes afterwards (including revoking again), its row keeps the
  first revocation and its token never authenticates again.
\<close>

theorem revoked_never_again:
  assumes "rows_wf (cw_rows s)" and "find (\<lambda>r. cr_id (rw_cred r) = i) (cw_rows s) = Some r"
    and "revoke cp az who i at s = (Inr c, s1)" and "rw_hash r = hash_token cp token"
  shows "cw_grants s1 (credential_principal c) = None \<and>
     find (\<lambda>r. cr_id (rw_cred r) = i) (cw_rows (fold (run_call cp) calls s1)) =
       find (\<lambda>r. cr_id (rw_cred r) = i) (cw_rows s1) \<and>
     isl (fst (authenticate cp token meth path now (fold (run_call cp) calls s1)))"
proof -
  let ?t = "fold (run_call cp) calls s1"
  obtain r1 where r1: "find (\<lambda>r. cr_id (rw_cred r) = i) (cw_rows s1) = Some r1"
      "cr_revoked_at (rw_cred r1) \<noteq> None" "cw_grants s1 (credential_principal c) = None"
    using revoke_Inr [OF assms(3)] by blast
  have g: "creds_grow s s1" using withinD [OF revoke_cgrow assms(3)] .
  then obtain old new where o: "cw_rows s1 = old @ new" "list_all2 row_kept (cw_rows s) old"
    by (auto simp: creds_grow_def)
  with find_kept [OF o(2) assms(2), of new] r1 have "rw_hash r1 = rw_hash r"
    by (auto simp: row_kept_def)
  moreover have stay: "find (\<lambda>r. cr_id (rw_cred r) = i) (cw_rows ?t) = Some r1"
    using revoked_row_stays r1 by blast
  moreover have "rows_wf (cw_rows ?t)"
    using assms(1) g run_calls_cgrow [of s1 cp calls] by (simp add: creds_grow_def)
  moreover have "r1 \<in> set (cw_rows ?t)" using stay by (auto simp: find_Some_iff)
  ultimately have f: "find (\<lambda>x. rw_hash x = hash_token cp token) (cw_rows ?t) = Some r1"
    using find_by_unique_hash assms(4) by metis
  have "isl (fst (authenticate cp token meth path now ?t))"
  proof (rule ccontr)
    assume "\<not> isl (fst (authenticate cp token meth path now ?t))"
    then obtain d w v where "authenticate cp token meth path now ?t = (Inr (d, w), v)"
      by (metis isl_def obj_sumE prod.collapse surj_pair)
    from authenticate_Inr [OF this] f r1(2) show False
      by (auto simp: row_to_credential_def check_then_Inr credential_status_def)
  qed
  with r1 stay show ?thesis by simp
qed

lemma validate_issue_Inr:
  "validate_issue q = Inr ms \<Longrightarrow> valid_owner (is_owner q) \<and> ms = int (is_ttl_seconds q) * 1000 \<and>
     min_ttl_seconds \<le> is_ttl_seconds q \<and> is_ttl_seconds q \<le> max_ttl_seconds"
  by (auto simp: validate_issue_def checked_i64_def in_i64_def i64_min_def i64_max_def
      split: if_splits option.splits)

lemma creds_insert_Inr:
  assumes "creds_insert cp c h s = (Inr x, t)"
  shows "\<exists>r. cw_rows t = cw_rows s @ [r] \<and> h \<notin> set (map rw_hash (cw_rows s)) \<and>
     r = \<lparr>rw_cred = c\<lparr>cr_revoked_at := None, cr_revoked_by := None\<rparr>, rw_hash = h,
          rw_templates_text = cp_encode cp (cr_templates c), rw_versions_text = cp_encode cp (cr_versions c)\<rparr>"
proof -
  obtain u where e: "external s = (Inr (), u)"
    using assms by (auto simp: creds_insert_def Let_def act_Inr)
  have "cw_rows u = cw_rows s" using frame_rows [OF external_frame e] by simp
  with assms e show ?thesis by (auto simp: creds_insert_def Let_def act_Inr row_admitted_def)
qed

lemma issue_Inr:
  assumes "issue cp az who q now s = (Inr (c, token), t)"
  shows "\<exists>old r. cw_rows t = old @ [r] \<and> rw_hash r = hash_token cp token \<and>
     rw_hash r \<notin> set (map rw_hash old) \<and> rw_cred r = c \<and>
     rw_templates_text r = cp_encode cp (cr_templates c) \<and> rw_versions_text r = cp_encode cp (cr_versions c)"
    and "cr_owner c = is_owner q" and "cr_revoked_at c = None"
    and "cr_expires_at c = saturating_add now (int (is_ttl_seconds q) * 1000)"
    and "min_ttl_seconds \<le> is_ttl_seconds q \<and> is_ttl_seconds q \<le> max_ttl_seconds"
proof -
  obtain m u v n where v: "validate_issue q = Inr n"
    and i: "creds_insert cp c (hash_token cp token) u = (Inr m, v)" and t: "t = v"
    and c: "cr_owner c = is_owner q" "cr_revoked_at c = None" "cr_revoked_by c = None"
      "cr_expires_at c = saturating_add now n"
    using assms by (auto simp: issue_def Let_def act_Inr)
  show "\<exists>old r. cw_rows t = old @ [r] \<and> rw_hash r = hash_token cp token \<and>
     rw_hash r \<notin> set (map rw_hash old) \<and> rw_cred r = c \<and>
     rw_templates_text r = cp_encode cp (cr_templates c) \<and> rw_versions_text r = cp_encode cp (cr_versions c)"
    using creds_insert_Inr [OF i] t c by auto
  show "cr_owner c = is_owner q" "cr_revoked_at c = None"
    "cr_expires_at c = saturating_add now (int (is_ttl_seconds q) * 1000)"
    "min_ttl_seconds \<le> is_ttl_seconds q \<and> is_ttl_seconds q \<le> max_ttl_seconds"
    using c validate_issue_Inr [OF v] by auto
qed

lemma take_chars_length: "length (take_chars n s) \<le> length s"
  by (induction n s rule: take_chars.induct) (auto split: nat.splits)

lemma use_metadata_ok:
  assumes "length meth \<le> 2048" "length path \<le> 2048" "length i \<le> 2048"
  shows "metadata_insert_all [(''method'', take_chars 16 meth), (''path'', take_chars 256 path),
     (''credentialId'', i)] [] = Inr [(''credentialId'', i), (''method'', take_chars 16 meth),
     (''path'', take_chars 256 path)]"
proof -
  have f: "\<not> forbidden_key ''method''" "\<not> forbidden_key ''path''" "\<not> forbidden_key ''credentialId''"
    by code_simp+
  show ?thesis using assms take_chars_length [of 16 meth] take_chars_length [of 256 path]
    by (simp add: metadata_insert_def f max_metadata_value_bytes_def max_metadata_entries_def)
qed

text \<open>
  Issuing and authenticating fit together: an issued credential lives between a minute
  and a day, and until it expires its token authenticates as exactly that credential, when
  the store answers and the JSON codec reads back what it wrote.
\<close>

theorem issued_token_works:
  assumes "issue cp az who q now s = (Inr (c, token), t)" and "w_faults t = []"
    and "cp_decode cp (cp_encode cp (cr_templates c)) = Inr (cr_templates c)"
    and "cp_decode cp (cp_encode cp (cr_versions c)) = Inr (cr_versions c)"
    and "length (cr_id c) = 36" and "length meth \<le> 2048" and "length path \<le> 2048"
    and "at < cr_expires_at c" and "0 \<le> now" and "now + 86400000 \<le> i64_max"
  shows "fst (authenticate cp token meth path at t) = Inr (c, credential_principal c) \<and>
     now + 60000 \<le> cr_expires_at c \<and> cr_expires_at c \<le> now + 86400000"
proof -
  note i = issue_Inr [OF assms(1)]
  obtain old r where r: "cw_rows t = old @ [r]" "rw_hash r = hash_token cp token"
     "rw_hash r \<notin> set (map rw_hash old)" "rw_cred r = c"
     "rw_templates_text r = cp_encode cp (cr_templates c)" "rw_versions_text r = cp_encode cp (cr_versions c)"
    using i(1) by blast
  have "find (\<lambda>x. rw_hash x = hash_token cp token) old = None"
    using r(2,3) by (force simp: find_None_iff)
  then have "find (\<lambda>x. rw_hash x = hash_token cp token) (old @ [r]) = Some r"
    using r(2) by (induction old) (auto split: if_splits)
  with r(1) have f: "find (\<lambda>x. rw_hash x = hash_token cp token) (cw_rows t) = Some r" by simp
  have c: "row_to_credential cp r = Inr c"
    using r assms(3,4) by (simp add: row_to_credential_def decode_list_def check_then_def)
  have act: "credential_status at c = CredActive"
    using i(3) assms(8) by (simp add: credential_status_def)
  have e: "external t = (Inr (), t)" using assms(2) by (simp add: external_def)
  have h: "find_by_hash cp (hash_token cp token) t = (Inr (Some (c, rw_hash r)), t)"
    by (simp add: find_by_hash_def act_simps e f c)
  have "fst (authenticate cp token meth path at t) = Inr (c, credential_principal c)"
    using assms(5-7)
    by (simp add: authenticate_def Let_def act_simps h hashes_equal_iff r(2) act use_metadata_ok
        record_intent_ok assms(2) grants_register_def del: metadata_insert_all.simps)
  moreover have "now + 60000 \<le> cr_expires_at c \<and> cr_expires_at c \<le> now + 86400000"
    using i(4,5) assms(9,10)
    by (auto simp: saturating_add_def sat_i64_def min_ttl_seconds_def max_ttl_seconds_def i64_min_def)
  ultimately show ?thesis by simp
qed

lemma hex_digit_not_continuation: "\<not> is_continuation (hex_digit n)"
  using hex_digit_shape [of n] by (auto simp: is_continuation_def is_ascii_digit_def)

lemma char_count_hex_text [simp]: "char_count (hex_text bytes) = 2 * length bytes"
  by (induction bytes) (simp_all add: char_count_def hex_text_def hex_digit_not_continuation)

definition demo_ports :: cred_ports where
  "demo_ports = \<lparr>cp_digest = (\<lambda>t. replicate 32 (CHR ''d'')), cp_encode = concat,
     cp_decode = (\<lambda>t. Inr (if t = [] then [] else [t])), cp_constraint = ''UNIQUE constraint failed''\<rparr>"

definition demo_cred_world :: cred_world where
  "demo_cred_world = \<lparr>w_now = 0, w_faults = [], w_uuid = (\<lambda>n. replicate 36 (CHR ''0'')),
     w_uuid_no = 0, w_ledger = [], w_pending_since = 0, cw_rows = [], cw_grants = Map.empty,
     cw_random = (\<lambda>n. replicate 32 (CHR ''r'')), cw_random_no = 0\<rparr>"

lemma demo_cred_world_sel:
  "w_now demo_cred_world = 0" "w_faults demo_cred_world = []"
  "w_uuid demo_cred_world n = replicate 36 (CHR ''0'')" "cw_rows demo_cred_world = []"
  "cw_random demo_cred_world n = replicate 32 (CHR ''r'')"
  by (simp_all add: demo_cred_world_def)

definition demo_issue_request :: issue_request where
  "demo_issue_request = \<lparr>is_owner = ''ci'', is_ttl_seconds = 3600, is_templates = [''ubuntu''],
     is_versions = [], is_label = ''nightly''\<rparr>"

lemma demo_issue_request_sel:
  "is_owner demo_issue_request = ''ci''" "is_templates demo_issue_request = [''ubuntu'']"
  "is_versions demo_issue_request = []" "is_label demo_issue_request = ''nightly''"
  by (simp_all add: demo_issue_request_def)

definition demo_credential :: credential where
  "demo_credential = \<lparr>cr_id = replicate 36 (CHR ''0''), cr_owner = ''ci'', cr_label = ''nightly'',
     cr_templates = [''ubuntu''], cr_versions = [], cr_issued_by = ''anonymous-lan-admin'',
     cr_issued_at = 0, cr_expires_at = 3600000, cr_revoked_at = None, cr_revoked_by = None\<rparr>"

definition demo_token :: string where
  "demo_token = make_token (replicate 32 (CHR ''r''))"

lemma demo_validate: "validate_issue demo_issue_request = Inr 3600000"
  by (simp add: validate_issue_def demo_issue_request_def valid_owner_def valid_entry_def owner_char_def
      is_ascii_lower_def is_ascii_digit_def is_ascii_upper_def is_ascii_alnum_def char_count_def
      is_continuation_def max_ttl_seconds_def min_ttl_seconds_def max_allow_entries_def
      max_owner_len_def max_entry_len_def max_label_len_def checked_i64_def in_i64_def i64_min_def i64_max_def)

lemma demo_keys: "\<not> forbidden_key ''owner''" "\<not> forbidden_key ''expiresAt''"
    "\<not> forbidden_key ''templates''" "\<not> forbidden_key ''versions''"
  by code_simp+

lemma demo_chars: "char_count ''ci'' = 2" "char_count ''nightly'' = 7" "char_count (replicate 36 (CHR ''0'')) = 36"
  by (simp_all add: char_count_def is_continuation_def filter_replicate)

lemma demo_issue_ok:
  "\<exists>t. issue demo_ports (\<lambda>_. decision_allow) ''anonymous-lan-admin'' demo_issue_request 0 demo_cred_world
   = (Inr (demo_credential, demo_token), t) \<and> w_faults t = []"
  apply (simp add: issue_def authorize_def requires_resource_def decision_allow_def
    demo_validate act_simps Let_def fresh_uuid_def generate_token_def metadata_insert_def demo_keys
    max_metadata_value_bytes_def max_metadata_entries_def record_intent_ok
    demo_cred_world_sel demo_issue_request_sel saturating_add_def sat_i64_def i64_min_def i64_max_def dedup_def
    decimal_int_def decimal.simps creds_insert_def external_def demo_credential_def row_admitted_def
    hash_token_def demo_ports_def demo_token_def demo_chars)
  done

definition demo_row :: cred_row where
  "demo_row = \<lparr>rw_cred = demo_credential, rw_hash = hex_text (replicate 32 (CHR ''d'')),
     rw_templates_text = ''ubuntu'', rw_versions_text = []\<rparr>"

definition demo_row_world :: cred_world where
  "demo_row_world = demo_cred_world\<lparr>cw_rows := [demo_row]\<rparr>"

lemma demo_row_sel: "rw_cred demo_row = demo_credential" "rw_hash demo_row = hash_token demo_ports token"
  "row_to_credential demo_ports demo_row = Inr demo_credential"
  "row_to_credential demo_ports (demo_row\<lparr>rw_cred := demo_credential\<lparr>cr_revoked_at := a, cr_revoked_by := b\<rparr>\<rparr>)
     = Inr (demo_credential\<lparr>cr_revoked_at := a, cr_revoked_by := b\<rparr>)"
  by (simp_all add: demo_row_def hash_token_def demo_ports_def row_to_credential_def decode_list_def
      check_then_def demo_credential_def)

lemma demo_row_world_sel: "w_faults demo_row_world = []" "cw_rows demo_row_world = [demo_row]"
  by (simp_all add: demo_row_world_def demo_cred_world_def)

lemma demo_authenticates:
  assumes "now < 3600000"
  shows "\<exists>t. authenticate demo_ports demo_token ''GET'' ''/api'' now demo_row_world =
     (Inr (demo_credential, credential_principal demo_credential), t)"
proof -
  have f: "find_by_hash demo_ports (hash_token demo_ports demo_token) demo_row_world =
      (Inr (Some (demo_credential, hash_token demo_ports demo_token)), demo_row_world)"
    by (simp add: find_by_hash_def act_simps external_def demo_row_world_sel
        demo_row_sel(2) [of demo_token] demo_row_sel(3))
  have "credential_status now demo_credential = CredActive" "length (cr_id demo_credential) \<le> 2048"
    using assms by (simp_all add: credential_status_def demo_credential_def)
  then show ?thesis
    by (simp add: authenticate_def Let_def act_simps f hashes_equal_iff use_metadata_ok record_intent_ok
        grants_register_def demo_row_world_sel del: metadata_insert_all.simps take_chars.simps)
qed

lemma creds_get_ok:
  "w_faults s = [] \<Longrightarrow> find (\<lambda>r. cr_id (rw_cred r) = i) (cw_rows s) = Some r \<Longrightarrow>
   row_to_credential cp r = Inr c \<Longrightarrow> creds_get cp i s = (Inr (Some c), s)"
  by (simp add: creds_get_def act_simps external_def)

lemma demo_revokes:
  "\<exists>t. revoke demo_ports (\<lambda>_. decision_allow) ''anonymous-lan-admin'' (cr_id demo_credential) 7 demo_row_world =
     (Inr (demo_credential\<lparr>cr_revoked_at := Some 7, cr_revoked_by := Some ''anonymous-lan-admin''\<rparr>), t)"
proof -
  have o': "cr_owner demo_credential = ''ci''" "cr_revoked_at demo_credential = None"
    by (simp_all add: demo_credential_def)
  have g: "creds_get demo_ports (cr_id demo_credential) demo_row_world = (Inr (Some demo_credential), demo_row_world)"
    by (rule creds_get_ok [where r = demo_row]) (simp_all add: demo_row_world_sel demo_row_sel)
  have h: "creds_get demo_ports (cr_id demo_credential) s =
      (Inr (Some (demo_credential\<lparr>cr_revoked_at := a, cr_revoked_by := b\<rparr>)), s)"
    if "w_faults s = []"
      "cw_rows s = [demo_row\<lparr>rw_cred := demo_credential\<lparr>cr_revoked_at := a, cr_revoked_by := b\<rparr>\<rparr>]" for s :: cred_world and a b
    by (rule creds_get_ok [OF that(1) _ demo_row_sel(4)]) (simp add: that(2))
  show ?thesis
    by (simp add: revoke_def authorize_def decision_allow_def act_simps g h
       demo_row_world_sel demo_keys metadata_insert_def max_metadata_value_bytes_def max_metadata_entries_def
       record_intent_ok creds_revoke_row_def external_def grants_forget_def o' revoke_row_def demo_row_sel)
qed

theorem authenticate_sound_witness:
  "\<exists>t :: cred_world. cw_grants t (credential_principal demo_credential) = Some (credential_grant demo_credential) \<and>
     fst (authenticate demo_ports demo_token ''GET'' ''/api'' 5 demo_row_world) =
       Inr (demo_credential, credential_principal demo_credential)"
proof -
  obtain t where "authenticate demo_ports demo_token ''GET'' ''/api'' 5 demo_row_world =
     (Inr (demo_credential, credential_principal demo_credential), t)"
    using demo_authenticates [of 5] by auto
  from this authenticate_sound [OF this] show ?thesis by (intro exI [of _ t]) simp
qed

theorem revoked_never_again_witness:
  "\<exists>s1 :: cred_world. fst (revoke demo_ports (\<lambda>_. decision_allow) ''anonymous-lan-admin'' (cr_id demo_credential) 7 demo_row_world)
      = Inr (demo_credential\<lparr>cr_revoked_at := Some 7, cr_revoked_by := Some ''anonymous-lan-admin''\<rparr>) \<and>
    isl (fst (authenticate demo_ports demo_token ''GET'' ''/api'' 8
      (fold (run_call demo_ports) [AuthenticateCall demo_token ''GET'' ''/api'' 7] s1)))"
proof -
  obtain s1 where r: "revoke demo_ports (\<lambda>_. decision_allow) ''anonymous-lan-admin'' (cr_id demo_credential) 7 demo_row_world
      = (Inr (demo_credential\<lparr>cr_revoked_at := Some 7, cr_revoked_by := Some ''anonymous-lan-admin''\<rparr>), s1)"
    using demo_revokes by blast
  have w: "rows_wf (cw_rows demo_row_world)"
    and f: "find (\<lambda>r. cr_id (rw_cred r) = cr_id demo_credential) (cw_rows demo_row_world) = Some demo_row"
    by (simp_all add: demo_row_world_sel rows_wf_def demo_row_sel)
  have h: "rw_hash demo_row = hash_token demo_ports demo_token" by (rule demo_row_sel)
  have "isl (fst (authenticate demo_ports demo_token ''GET'' ''/api'' 8
      (fold (run_call demo_ports) [AuthenticateCall demo_token ''GET'' ''/api'' 7] s1)))"
    using revoked_never_again [OF w f r h] by blast
  then show ?thesis unfolding r fst_conv by blast
qed

theorem issued_token_works_witness:
  "\<exists>t. issue demo_ports (\<lambda>_. decision_allow) ''anonymous-lan-admin'' demo_issue_request 0 demo_cred_world
       = (Inr (demo_credential, demo_token), t) \<and>
     fst (authenticate demo_ports demo_token ''GET'' ''/api'' 5 t) =
       Inr (demo_credential, credential_principal demo_credential)"
proof -
  obtain t where t: "issue demo_ports (\<lambda>_. decision_allow) ''anonymous-lan-admin'' demo_issue_request 0 demo_cred_world
       = (Inr (demo_credential, demo_token), t)" "w_faults t = []"
    using demo_issue_ok by blast
  have "fst (authenticate demo_ports demo_token ''GET'' ''/api'' 5 t) =
       Inr (demo_credential, credential_principal demo_credential)"
    by (rule issued_token_works [OF t, THEN conjunct1])
       (simp_all add: demo_ports_def demo_credential_def i64_max_def)
  with t show ?thesis by blast
qed

end
