(* ===== verification/Caller_Auth.thy ===== *)
theory Caller_Auth
  imports Credentials
begin

text \<open>
  Who a request acts as and what that principal may do: the caller resolvers of
  \<open>crates/fleet-auth/src/lib.rs\<close> and \<open>delegated.rs\<close>, the two authorizers of
  \<open>adapter.rs\<close> and \<open>delegated.rs\<close>, the rejection gate of \<open>crates/fleet-api/src/auth.rs\<close>
  and the order in which \<open>crates/fleet-controller/src/lib.rs\<close> layers them. What the
  \<open>http\<close> crate decides about header values and the identity parser of correlation ids
  are parameters.
\<close>

section \<open>Principals\<close>

definition lan_principal_id :: string where "lan_principal_id = ''anonymous-lan-admin''"
definition tailscale_principal_prefix :: string where "tailscale_principal_prefix = ''tailscale:''"

definition proxy_evidence_headers :: "string list" where
  "proxy_evidence_headers = [''forwarded'', ''x-forwarded-for'', ''x-forwarded-proto'', ''x-real-ip'']"

definition tailscale_identity_headers :: "string list" where
  "tailscale_identity_headers = [''tailscale-user-login'', ''tailscale-user-name'', ''tailscale-user-profile-pic'']"

datatype principal_kind = AnonymousLanAdmin | TailscaleUser | DelegatedCredentialPrincipal

definition principal_kinds :: "principal_kind list" where
  "principal_kinds = [AnonymousLanAdmin, TailscaleUser, DelegatedCredentialPrincipal]"

fun principal_kind_id :: "principal_kind \<Rightarrow> string" where
  "principal_kind_id AnonymousLanAdmin = ''anonymous-lan-admin''"
| "principal_kind_id TailscaleUser = ''tailscale-user''"
| "principal_kind_id DelegatedCredentialPrincipal = ''delegated-credential''"

definition valid_tailscale_login :: "string \<Rightarrow> bool" where
  "valid_tailscale_login login \<longleftrightarrow>
     login \<noteq> [] \<and> length login \<le> 512 \<and> list_all is_ascii_graphic login \<and> CHR '','' \<notin> set login"

definition is_tailscale_principal_id :: "string \<Rightarrow> bool" where
  "is_tailscale_principal_id i \<longleftrightarrow>
     (case strip_prefix tailscale_principal_prefix i of
        None \<Rightarrow> False | Some login \<Rightarrow> valid_tailscale_login login)"

section \<open>The authorizers\<close>

definition lan_decide :: authorizer where
  "lan_decide q =
     (if ar_principal q \<noteq> lan_principal_id \<and> \<not> is_tailscale_principal_id (ar_principal q)
      then decision_deny UnknownPrincipal else decision_allow)"

datatype resource_rule =
    AnyResource
  | Named
  | NamedNot "string list"
  | OneOf "string list"
  | TemplateGrant

record delegated_action =
  da_action :: permission
  da_resource :: resource_rule

abbreviation row :: "permission \<Rightarrow> resource_rule \<Rightarrow> delegated_action" where
  "row p r \<equiv> \<lparr>da_action = p, da_resource = r\<rparr>"

definition delegated_lab_loop :: "delegated_action list" where
  "delegated_lab_loop =
     [row LabTemplateUse TemplateGrant,
      row LabLease Named,
      row LabLeaseProvision Named,
      row LabLeaseRead AnyResource,
      row LabExtend Named,
      row LabExec Named,
      row LabExecRead Named,
      row LabArtifacts (NamedNot [''retention'']),
      row LabPut Named,
      row LabArtifactRead AnyResource,
      row LabHardwareAttach Named,
      row LabHardwareDetach Named,
      row OperationCreate (OneOf [''lab.provision'', ''lab.exec'', ''lab.exec_detach'',
        ''lab.collect'', ''lab.put'', ''lab.cleanup'']),
      row OperationRead Named]"

definition in_scope :: "grant_book \<Rightarrow> string \<Rightarrow> resource_rule \<Rightarrow> string option \<Rightarrow> bool" where
  "in_scope grants who rule resource =
     (case rule of
        AnyResource \<Rightarrow> True
      | Named \<Rightarrow> (case resource of None \<Rightarrow> False | Some r \<Rightarrow> r \<noteq> [])
      | NamedNot reserved \<Rightarrow> (case resource of None \<Rightarrow> False | Some r \<Rightarrow> r \<noteq> [] \<and> r \<notin> set reserved)
      | OneOf permitted \<Rightarrow> (case resource of None \<Rightarrow> False | Some r \<Rightarrow> r \<in> set permitted)
      | TemplateGrant \<Rightarrow>
          (case resource of None \<Rightarrow> False
           | Some r \<Rightarrow>
               (case split_once (CHR ''/'') r of None \<Rightarrow> False
                | Some (template_id, version_id) \<Rightarrow>
                    (case grants who of None \<Rightarrow> False
                     | Some g \<Rightarrow> allows_version g template_id version_id))))"

definition decide_delegated :: "grant_book \<Rightarrow> delegated_action list \<Rightarrow> authorizer" where
  "decide_delegated grants catalog q =
     (case find (\<lambda>r. da_action r = ar_action q) catalog of
        None \<Rightarrow> decision_deny ActionNotDelegated
      | Some r \<Rightarrow>
          if in_scope grants (ar_principal q) (da_resource r) (ar_resource q)
          then decision_allow else decision_deny OutOfScope)"

definition scoped_authorizer :: "grant_book \<Rightarrow> delegated_action list \<Rightarrow> authorizer" where
  "scoped_authorizer grants catalog q =
     (if is_delegated_principal (ar_principal q) then decide_delegated grants catalog q
      else lan_decide q)"

section \<open>Requests\<close>

datatype ip_addr = IPv4 nat nat nat nat | IPv6 "nat list"

definition is_v4_localhost :: "ip_addr \<Rightarrow> bool" where
  "is_v4_localhost a \<longleftrightarrow> a = IPv4 127 0 0 1"

record http_ports =
  hp_to_str :: "string \<Rightarrow> string option"
  hp_correlation_ok :: "string \<Rightarrow> bool"

record caller_evidence =
  ev_remote :: "ip_addr option"
  ev_proxy :: "(string \<times> string) list"
  ev_identity :: "string list"

record caller =
  ca_principal :: principal_kind
  ca_principal_id :: string
  ca_evidence :: caller_evidence

datatype credential_rejection = RejMalformed | RejUnknown | RejInactive | RejUnavailable

text \<open>A request with the extensions the resolvers read and insert.\<close>

record request =
  rq_method :: string
  rq_path :: string
  rq_headers :: "(string \<times> string) list"
  rq_peer :: "ip_addr option"
  rq_caller :: "caller option"
  rq_acting :: "string option"
  rq_rejected :: "credential_rejection option"
  rq_unauthenticated :: bool
  rq_correlation :: "string option"

definition header_values :: "string \<Rightarrow> request \<Rightarrow> string list" where
  "header_values name q = map snd (filter (\<lambda>(n, v). n = name) (rq_headers q))"

definition header_first :: "string \<Rightarrow> request \<Rightarrow> string option" where
  "header_first name q = (case header_values name q of [] \<Rightarrow> None | v # _ \<Rightarrow> Some v)"

definition truncate_text :: "string \<Rightarrow> nat \<Rightarrow> string" where
  "truncate_text value m =
     (if length value \<le> m then value
      else take (boundary_below value m) value @ [CHR 0xE2, CHR 0x80, CHR 0xA6])"

definition identity_header_names :: "request \<Rightarrow> string list" where
  "identity_header_names q = filter (\<lambda>h. header_values h q \<noteq> []) tailscale_identity_headers"

definition proxy_header_evidence :: "http_ports \<Rightarrow> request \<Rightarrow> (string \<times> string) list" where
  "proxy_header_evidence hp q =
     concat (map (\<lambda>h. case header_first h q of None \<Rightarrow> []
        | Some v \<Rightarrow> (case hp_to_str hp v of None \<Rightarrow> [] | Some t \<Rightarrow> [(h, truncate_text t 256)]))
       proxy_evidence_headers)"

definition single_header_value :: "http_ports \<Rightarrow> string \<Rightarrow> request \<Rightarrow> string option" where
  "single_header_value hp name q =
     (case header_values name q of
        [] \<Rightarrow> None
      | v # rest \<Rightarrow> (case hp_to_str hp v of None \<Rightarrow> None | Some t \<Rightarrow> if rest = [] then Some t else None))"

section \<open>The resolvers\<close>

definition resolve_lan_caller :: "http_ports \<Rightarrow> request \<Rightarrow> request" where
  "resolve_lan_caller hp q =
     (if rq_caller q \<noteq> None then q
      else q\<lparr>rq_caller := Some \<lparr>ca_principal = AnonymousLanAdmin,
               ca_principal_id = principal_kind_id AnonymousLanAdmin,
               ca_evidence = \<lparr>ev_remote = rq_peer q, ev_proxy = proxy_header_evidence hp q,
                              ev_identity = identity_header_names q\<rparr>\<rparr>,
             rq_acting := Some (principal_kind_id AnonymousLanAdmin)\<rparr>)"

definition peer_is_localhost :: "request \<Rightarrow> bool" where
  "peer_is_localhost q \<longleftrightarrow> (case rq_peer q of None \<Rightarrow> False | Some a \<Rightarrow> is_v4_localhost a)"

definition tailscale_login :: "http_ports \<Rightarrow> request \<Rightarrow> string option" where
  "tailscale_login hp q =
     (if peer_is_localhost q then
        (case single_header_value hp ''tailscale-user-login'' q of
           None \<Rightarrow> None | Some l \<Rightarrow> if valid_tailscale_login l then Some l else None)
      else None)"

definition resolve_tailscale_serve_caller :: "http_ports \<Rightarrow> request \<Rightarrow> request" where
  "resolve_tailscale_serve_caller hp q =
     (if rq_caller q \<noteq> None then q
      else (case tailscale_login hp q of
              None \<Rightarrow> q\<lparr>rq_unauthenticated := True\<rparr>
            | Some login \<Rightarrow>
                let i = tailscale_principal_prefix @ login in
                q\<lparr>rq_caller := Some \<lparr>ca_principal = TailscaleUser, ca_principal_id = i,
                     ca_evidence = \<lparr>ev_remote = rq_peer q, ev_proxy = proxy_header_evidence hp q,
                                    ev_identity = identity_header_names q\<rparr>\<rparr>,
                  rq_acting := Some i\<rparr>))"

datatype presented = PresentedNothing | PresentedToken string | PresentedMalformed

definition mentions_tag :: "string \<Rightarrow> bool" where
  "mentions_tag v = text_contains (token_prefix @ ''.'') v"

definition presented_token :: "http_ports \<Rightarrow> request \<Rightarrow> presented" where
  "presented_token hp q =
     (let values = header_values ''authorization'' q in
      if \<not> list_ex mentions_tag values then PresentedNothing
      else (case values of
              [value] \<Rightarrow>
                (case hp_to_str hp value of
                   None \<Rightarrow> PresentedMalformed
                 | Some t \<Rightarrow>
                     (case split_once (CHR '' '') t of
                        None \<Rightarrow> PresentedMalformed
                      | Some (scheme, token) \<Rightarrow>
                          if to_ascii_lowercase scheme = ''bearer'' \<and> starts_with (token_prefix @ ''.'') token
                          then PresentedToken (text_trim token) else PresentedMalformed))
            | _ \<Rightarrow> PresentedMalformed))"

definition failure_rejection :: "authentication_failure \<Rightarrow> credential_rejection" where
  "failure_rejection f =
     (case f of AuthUnknown \<Rightarrow> RejUnknown | AuthInactive _ \<Rightarrow> RejInactive | AuthBackend _ \<Rightarrow> RejUnavailable)"

definition resolve_delegated_caller ::
    "http_ports \<Rightarrow> cred_ports \<Rightarrow> bool \<Rightarrow> request \<Rightarrow> 'z cred_world_scheme \<Rightarrow> request \<times> 'z cred_world_scheme" where
  "resolve_delegated_caller hp cp require_loopback_peer q s =
     (case presented_token hp q of
        PresentedNothing \<Rightarrow> (q, s)
      | PresentedMalformed \<Rightarrow> (q\<lparr>rq_rejected := Some RejMalformed\<rparr>, s)
      | PresentedToken token \<Rightarrow>
          if \<not> is_token_shaped token \<or> \<not> (\<not> require_loopback_peer \<or> peer_is_localhost q)
          then (q\<lparr>rq_rejected := Some RejMalformed\<rparr>, s)
          else (case authenticate cp token (rq_method q) (rq_path q) (w_now s) s of
                  (Inr (c, who), t) \<Rightarrow>
                    (q\<lparr>rq_caller := Some \<lparr>ca_principal = DelegatedCredentialPrincipal, ca_principal_id = who,
                         ca_evidence = \<lparr>ev_remote = rq_peer q, ev_proxy = [], ev_identity = []\<rparr>\<rparr>,
                       rq_acting := Some who\<rparr>, t)
                | (Inl failure, t) \<Rightarrow> (q\<lparr>rq_rejected := Some (failure_rejection failure)\<rparr>, t)))"

datatype gate_result =
    Served request
  | MalformedCorrelationId
  | Refused nat string string string

definition reject_unauthenticated_caller :: "http_ports \<Rightarrow> request \<Rightarrow> gate_result" where
  "reject_unauthenticated_caller hp q =
     (if rq_rejected q = None \<and> \<not> rq_unauthenticated q then Served q
      else
        let supplied_header = header_first ''x-correlation-id'' q;
            supplied = (case supplied_header of None \<Rightarrow> None
              | Some v \<Rightarrow> (case hp_to_str hp v of None \<Rightarrow> None
                  | Some t \<Rightarrow> if hp_correlation_ok hp t then Some t else None))
        in if rq_correlation q = None \<and> supplied_header \<noteq> None \<and> supplied = None
           then MalformedCorrelationId
           else (case rq_rejected q of
                   Some RejUnavailable \<Rightarrow>
                     Refused 503 ''authentication_unavailable''
                       ''the credential could not be checked; try again'' ''backoff''
                 | Some _ \<Rightarrow>
                     Refused 401 ''authentication_required'' ''the presented credential is not valid'' ''never''
                 | None \<Rightarrow>
                     Refused 401 ''authentication_required''
                       ''a valid Tailscale user identity is required on this listener'' ''never''))"

text \<open>
  The listener's layers, outermost first: the delegated resolver when credentials are
  configured, the listener's own resolver, the gate.
\<close>

definition listener ::
    "http_ports \<Rightarrow> cred_ports option \<Rightarrow> bool \<Rightarrow> request \<Rightarrow> 'z cred_world_scheme \<Rightarrow> gate_result \<times> 'z cred_world_scheme" where
  "listener hp credentials tailscale_identity q s =
     (let (q1, t) = (case credentials of None \<Rightarrow> (q, s)
            | Some cp \<Rightarrow> resolve_delegated_caller hp cp tailscale_identity q s);
          q2 = (if tailscale_identity then resolve_tailscale_serve_caller hp q1 else resolve_lan_caller hp q1)
      in (reject_unauthenticated_caller hp q2, t))"

text \<open>A request as it reaches the listener: no extension of the resolvers yet.\<close>

definition unresolved :: "request \<Rightarrow> bool" where
  "unresolved q \<longleftrightarrow> rq_caller q = None \<and> rq_acting q = None \<and> rq_rejected q = None \<and> \<not> rq_unauthenticated q"

section \<open>Lemmas\<close>

interpretation kinds: text_ids principal_kind_id principal_kinds
  by unfold_locales (auto simp: principal_kinds_def intro: principal_kind_id.cases)

lemma delegated_prefix: "is_delegated_principal who \<Longrightarrow> starts_with ''credential:'' who"
  by (auto simp: is_delegated_principal_def delegated_identity_Some delegated_principal_id_def
      delegated_principal_prefix_def starts_with_def)

lemma tailscale_prefix: "is_tailscale_principal_id who \<Longrightarrow> starts_with ''tailscale:'' who"
  by (auto simp: is_tailscale_principal_id_def strip_prefix_def tailscale_principal_prefix_def
      split: if_splits option.splits)

lemma delegated_not_administrator:
  assumes "is_delegated_principal who"
  shows "who \<noteq> lan_principal_id" and "\<not> is_tailscale_principal_id who"
  using delegated_prefix [OF assms] tailscale_prefix [of who]
  by (auto simp: lan_principal_id_def starts_with_iff)

lemma presented_nothing: "presented_token hp q = PresentedNothing \<longleftrightarrow>
    \<not> list_ex mentions_tag (header_values ''authorization'' q)"
  by (auto simp: presented_token_def Let_def split: list.splits option.splits)

lemma gate_served: "reject_unauthenticated_caller hp q = Served q' \<longleftrightarrow> q' = q \<and> rq_rejected q = None \<and> \<not> rq_unauthenticated q"
  by (auto simp: reject_unauthenticated_caller_def Let_def split: option.splits credential_rejection.splits if_splits)

lemma lan_resolver_keeps: "rq_rejected (resolve_lan_caller hp q) = rq_rejected q"
    "rq_unauthenticated (resolve_lan_caller hp q) = rq_unauthenticated q"
  by (simp_all add: resolve_lan_caller_def)

lemma tailscale_resolver_keeps: "rq_rejected (resolve_tailscale_serve_caller hp q) = rq_rejected q"
  by (simp add: resolve_tailscale_serve_caller_def Let_def split: option.splits)

text \<open>A token counts as presented only as the one Bearer credential of the request's one such header.\<close>

lemma presented_token_Some:
  assumes "presented_token hp q = PresentedToken token"
  shows "\<exists>value scheme rest. header_values ''authorization'' q = [value] \<and>
     hp_to_str hp value = Some (scheme @ '' '' @ rest) \<and> CHR '' '' \<notin> set scheme \<and>
     to_ascii_lowercase scheme = ''bearer'' \<and> starts_with (token_prefix @ ''.'') rest \<and> token = text_trim rest"
  using assms
  by (auto simp: presented_token_def Let_def split_once_Some split: list.splits option.splits if_splits) blast+

text \<open>What the delegated resolver leaves of a request that presents something.\<close>

lemma delegated_resolver:
  assumes "resolve_delegated_caller hp cp loopback q s = (q1, t)" and "unresolved q"
    and "presented_token hp q \<noteq> PresentedNothing"
  shows "rq_rejected q1 \<noteq> None \<or>
    (\<exists>token c. presented_token hp q = PresentedToken token \<and>
       authenticate cp token (rq_method q) (rq_path q) (w_now s) s = (Inr (c, credential_principal c), t) \<and>
       is_token_shaped token \<and> (loopback \<longrightarrow> peer_is_localhost q) \<and>
       rq_acting q1 = Some (credential_principal c) \<and> rq_caller q1 \<noteq> None \<and>
       rq_rejected q1 = None \<and> \<not> rq_unauthenticated q1)"
proof (cases "presented_token hp q")
  case (PresentedToken token)
  show ?thesis
  proof (cases "is_token_shaped token \<and> (\<not> loopback \<or> peer_is_localhost q)")
    case True
    obtain r u where a: "authenticate cp token (rq_method q) (rq_path q) (w_now s) s = (r, u)" by fastforce
    show ?thesis
    proof (cases r)
      case (Inl f)
      with assms a True PresentedToken show ?thesis by (auto simp: resolve_delegated_caller_def)
    next
      case (Inr p)
      obtain c who where p: "p = (c, who)" by fastforce
      from authenticate_Inr [OF a [unfolded Inr p]] have "who = credential_principal c" by blast
      with assms a True PresentedToken Inr p show ?thesis
        by (auto simp: resolve_delegated_caller_def unresolved_def)
    qed
  qed (use assms PresentedToken in \<open>auto simp: resolve_delegated_caller_def\<close>)
qed (use assms in \<open>auto simp: resolve_delegated_caller_def\<close>)

lemma own_resolver:
  assumes "unresolved q" and "reject_unauthenticated_caller hp
      (if tailscale then resolve_tailscale_serve_caller hp q else resolve_lan_caller hp q) = Served q'"
  shows "if tailscale then \<exists>login. rq_acting q' = Some (tailscale_principal_prefix @ login) \<and>
        peer_is_localhost q \<and> single_header_value hp ''tailscale-user-login'' q = Some login \<and>
        valid_tailscale_login login
      else rq_acting q' = Some lan_principal_id"
  using assms
  by (auto simp: gate_served unresolved_def resolve_tailscale_serve_caller_def resolve_lan_caller_def
      lan_principal_id_def Let_def tailscale_login_def split: option.splits if_splits)

lemma scoped_allows_Inr: "(\<exists>d. authorize (scoped_authorizer grants catalog) (access who p r) = Inr d) \<longleftrightarrow>
    \<not> (requires_resource p \<and> r = None) \<and> (if is_delegated_principal who
     then \<exists>rw. find (\<lambda>r. da_action r = p) catalog = Some rw \<and> in_scope grants who (da_resource rw) r
     else who = lan_principal_id \<or> is_tailscale_principal_id who)"
  by (simp add: authorize_Inr scoped_authorizer_def decide_delegated_def lan_decide_def decision_deny_def
      decision_allow_def split: option.split)

lemma template_grant_scope: "in_scope grants who TemplateGrant r \<longleftrightarrow>
    (\<exists>t v g. r = Some (template_use_resource t v) \<and> CHR ''/'' \<notin> set t \<and> grants who = Some g \<and>
       (t \<in> set (gr_templates g) \<or> v \<in> set (gr_versions g)))"
proof
  assume "in_scope grants who TemplateGrant r"
  then show "\<exists>t v g. r = Some (template_use_resource t v) \<and> CHR ''/'' \<notin> set t \<and> grants who = Some g \<and>
       (t \<in> set (gr_templates g) \<or> v \<in> set (gr_versions g))"
    by (auto simp: in_scope_def template_use_resource_def allows_version_def split_once_Some split: option.splits) blast+
next
  assume "\<exists>t v g. r = Some (template_use_resource t v) \<and> CHR ''/'' \<notin> set t \<and> grants who = Some g \<and>
       (t \<in> set (gr_templates g) \<or> v \<in> set (gr_versions g))"
  then obtain t v g where "r = Some (t @ CHR ''/'' # v)" "split_once (CHR ''/'') (t @ CHR ''/'' # v) = Some (t, v)"
      "grants who = Some g" "t \<in> set (gr_templates g) \<or> v \<in> set (gr_versions g)"
    by (auto simp: template_use_resource_def split_once_append)
  then show "in_scope grants who TemplateGrant r" by (auto simp: in_scope_def allows_version_def)
qed

section \<open>Properties\<close>

text \<open>
  C6. A delegated credential can do the Lab loop and nothing else: its principal is never one
  of the administrators, and what it is allowed is exactly the two Lab listings, nine further
  Lab actions and operation reads on any named resource, artifacts on any named resource but
  the reserved name retention, the creation of the six Lab operation kinds, and the use of a
  template through a grant that lists the template or the version. A principal of no known
  kind is allowed nothing, and the administrators every action that names the resource it needs.
\<close>

theorem delegated_confinement:
  "(\<exists>d. authorize (scoped_authorizer grants delegated_lab_loop) (access who p r) = Inr d) =
   (if is_delegated_principal who
    then who \<noteq> lan_principal_id \<and> \<not> is_tailscale_principal_id who \<and>
      (p \<in> {LabLeaseRead, LabArtifactRead} \<or>
       p \<in> {LabLease, LabLeaseProvision, LabExtend, LabExec, LabExecRead, LabPut, LabHardwareAttach,
         LabHardwareDetach, OperationRead} \<and> (\<exists>x. r = Some x \<and> x \<noteq> []) \<or>
       p = LabArtifacts \<and> (\<exists>x. r = Some x \<and> x \<noteq> [] \<and> x \<noteq> ''retention'') \<or>
       p = OperationCreate \<and> r \<in> Some ` {''lab.provision'', ''lab.exec'', ''lab.exec_detach'',
         ''lab.collect'', ''lab.put'', ''lab.cleanup''} \<or>
       p = LabTemplateUse \<and> (\<exists>t v g. r = Some (template_use_resource t v) \<and> CHR ''/'' \<notin> set t \<and>
         grants who = Some g \<and> (t \<in> set (gr_templates g) \<or> v \<in> set (gr_versions g))))
    else (who = lan_principal_id \<or> is_tailscale_principal_id who) \<and> \<not> (requires_resource p \<and> r = None))"
proof (cases "is_delegated_principal who")
  case True
  have t: "find (\<lambda>r. da_action r = LabTemplateUse) delegated_lab_loop = Some (row LabTemplateUse TemplateGrant)"
    by (simp add: delegated_lab_loop_def)
  show ?thesis
  proof (cases "p = LabTemplateUse")
    case True
    then show ?thesis using \<open>is_delegated_principal who\<close> delegated_not_administrator [of who] t
      by (auto simp: scoped_allows_Inr template_grant_scope)
  next
    case False
    then show ?thesis unfolding scoped_allows_Inr if_P [OF \<open>is_delegated_principal who\<close>]
      using delegated_not_administrator [OF \<open>is_delegated_principal who\<close>] False
      by (cases p) (simp_all add: delegated_lab_loop_def in_scope_def requires_resource_def image_iff split: option.split)
  qed
qed (auto simp: scoped_allows_Inr)

text \<open>
  C17. A presented token never falls back to another principal: a served request that
  mentions the delegated scheme has exactly one Authorization header, that header is one
  Bearer credential in the token's shape, and the request acts as the credential that this very
  token authenticated for this request, over loopback on the Tailscale listener; one that does
  not mention the scheme acts as the LAN administrator, or on the Tailscale listener as the
  single valid login of a loopback peer. Every other request is refused.
\<close>

theorem no_fallback:
  assumes "listener hp credentials tailscale q s = (Served q', t)" and "unresolved q"
  shows "if credentials \<noteq> None \<and> list_ex mentions_tag (header_values ''authorization'' q)
    then (\<exists>value scheme rest c. header_values ''authorization'' q = [value] \<and>
          hp_to_str hp value = Some (scheme @ '' '' @ rest) \<and> CHR '' '' \<notin> set scheme \<and>
          to_ascii_lowercase scheme = ''bearer'' \<and> is_token_shaped (text_trim rest) \<and>
          authenticate (the credentials) (text_trim rest) (rq_method q) (rq_path q) (w_now s) s =
            (Inr (c, credential_principal c), t) \<and>
          rq_acting q' = Some (credential_principal c) \<and> (tailscale \<longrightarrow> peer_is_localhost q))
    else t = s \<and> (if tailscale then \<exists>login. rq_acting q' = Some (tailscale_principal_prefix @ login) \<and>
          peer_is_localhost q \<and> single_header_value hp ''tailscale-user-login'' q = Some login \<and>
          valid_tailscale_login login
        else rq_acting q' = Some lan_principal_id)"
proof (cases "credentials \<noteq> None \<and> list_ex mentions_tag (header_values ''authorization'' q)")
  case False
  then have l: "listener hp credentials tailscale q s = (reject_unauthenticated_caller hp
      (if tailscale then resolve_tailscale_serve_caller hp q else resolve_lan_caller hp q), s)"
    by (auto simp: listener_def Let_def resolve_delegated_caller_def presented_nothing [THEN iffD2]
        split: option.splits)
  then have "reject_unauthenticated_caller hp
      (if tailscale then resolve_tailscale_serve_caller hp q else resolve_lan_caller hp q) = Served q'" "t = s"
    using assms(1) by auto
  from own_resolver [OF assms(2) this(1)] this(2) show ?thesis unfolding if_not_P [OF False] by blast
next
  case True
  then obtain cp where cp: "credentials = Some cp" by blast
  obtain q1 u where d: "resolve_delegated_caller hp cp tailscale q s = (q1, u)" by fastforce
  have n: "presented_token hp q \<noteq> PresentedNothing" using True by (simp add: presented_nothing)
  have g: "reject_unauthenticated_caller hp
      (if tailscale then resolve_tailscale_serve_caller hp q1 else resolve_lan_caller hp q1) = Served q'" "t = u"
    using assms(1) by (auto simp: listener_def cp d)
  then have "rq_rejected q1 = None"
    by (auto simp: gate_served lan_resolver_keeps tailscale_resolver_keeps split: if_splits)
  with delegated_resolver [OF d assms(2) n] obtain token c where
    p: "presented_token hp q = PresentedToken token" and
    c: "authenticate cp token (rq_method q) (rq_path q) (w_now s) s = (Inr (c, credential_principal c), t)"
      "is_token_shaped token" "tailscale \<longrightarrow> peer_is_localhost q" "rq_acting q1 = Some (credential_principal c)"
      "rq_caller q1 \<noteq> None"
    using g(2) by blast
  have a: "rq_acting q' = Some (credential_principal c)"
    using g(1) c(4,5)
    by (auto simp: gate_served resolve_lan_caller_def resolve_tailscale_serve_caller_def split: if_splits)
  from presented_token_Some [OF p] c a cp show ?thesis unfolding if_P [OF True] by auto
qed

definition demo_headers :: http_ports where
  "demo_headers = \<lparr>hp_to_str = Some, hp_correlation_ok = (\<lambda>_. True)\<rparr>"

definition demo_request :: request where
  "demo_request = \<lparr>rq_method = ''GET'', rq_path = ''/api'', rq_headers = [(''authorization'', ''Bearer '' @ demo_token)],
     rq_peer = None, rq_caller = None, rq_acting = None, rq_rejected = None, rq_unauthenticated = False,
     rq_correlation = None\<rparr>"

lemma demo_token_text: "is_token_shaped demo_token" "text_trim demo_token = demo_token"
    "mentions_tag (''Bearer '' @ demo_token)" "starts_with (token_prefix @ ''.'') demo_token"
  by code_simp+

lemma demo_request_presents: "presented_token demo_headers demo_request = PresentedToken demo_token"
proof -
  have "header_values ''authorization'' demo_request = [''Bearer '' @ demo_token]"
    by (simp add: header_values_def demo_request_def)
  moreover have "split_once (CHR '' '') (''Bearer '' @ demo_token) = Some (''Bearer'', demo_token)"
    using split_once_append [of "CHR '' ''" "''Bearer''" demo_token] by simp
  moreover have "to_ascii_lowercase ''Bearer'' = ''bearer''" by code_simp
  ultimately show ?thesis using demo_token_text
    by (simp add: presented_token_def demo_headers_def)
qed

theorem no_fallback_witness:
  "\<exists>q t. listener demo_headers (Some demo_ports) False demo_request demo_row_world = (Served q, t) \<and>
     rq_acting q = Some (credential_principal demo_credential)"
proof -
  have u: "unresolved demo_request" by (simp add: unresolved_def demo_request_def)
  obtain t where a: "authenticate demo_ports demo_token ''GET'' ''/api'' 0 demo_row_world =
      (Inr (demo_credential, credential_principal demo_credential), t)"
    using demo_authenticates [of 0] by auto
  have rq: "rq_method demo_request = ''GET''" "rq_path demo_request = ''/api''" "w_now demo_row_world = 0"
    by (simp_all add: demo_request_def demo_row_world_def demo_cred_world_def)
  obtain q where q: "listener demo_headers (Some demo_ports) False demo_request demo_row_world = (Served q, t)"
    using u by (simp add: listener_def resolve_delegated_caller_def demo_request_presents demo_token_text rq a
        resolve_lan_caller_def gate_served unresolved_def)
  have v: "header_values ''authorization'' demo_request = [''Bearer '' @ demo_token]"
    by (simp add: header_values_def demo_request_def)
  have m: "list_ex mentions_tag (header_values ''authorization'' demo_request)"
    using demo_token_text(3) by (simp add: v)
  have tx: "text_trim rest = demo_token"
    if "hp_to_str demo_headers (''Bearer '' @ demo_token) = Some (scheme @ '' '' @ rest)" "CHR '' '' \<notin> set scheme"
    for scheme rest
    using that split_once_append [of "CHR '' ''" scheme rest] split_once_append [of "CHR '' ''" "''Bearer''" demo_token]
    by (simp add: demo_headers_def demo_token_text)
  have "rq_acting q = Some (credential_principal demo_credential)"
  proof -
    from no_fallback [OF q u] m obtain v' scheme rest c where w: "[''Bearer '' @ demo_token] = [v']"
      "hp_to_str demo_headers v' = Some (scheme @ '' '' @ rest)" "CHR '' '' \<notin> set scheme"
      "authenticate demo_ports (text_trim rest) ''GET'' ''/api'' 0 demo_row_world = (Inr (c, credential_principal c), t)"
      "rq_acting q = Some (credential_principal c)"
      unfolding v rq by auto
    from w(1,2) have "hp_to_str demo_headers (''Bearer '' @ demo_token) = Some (scheme @ '' '' @ rest)" by simp
    from w(4) [unfolded tx [OF this w(3)] a] have "c = demo_credential" by blast
    with w(5) show ?thesis by simp
  qed
  with q show ?thesis by blast
qed

end
