(* ===== verification/Operation_State.thy ===== *)
theory Operation_State
  imports Values
begin

text \<open>
  The durable operation life cycle of \<open>crates/fleet-core/src/operation.rs\<close>: the states,
  their stable ids, the legal transitions and the deadline rule.
\<close>

section \<open>States and ids\<close>

datatype operation_state =
    Pending | Running | Cancelling | Succeeded | Failed | Cancelled | TimedOut
  | BlockedManualApproval

definition operation_states :: "operation_state list" where
  "operation_states =
     [Pending, Running, Cancelling, Succeeded, Failed, Cancelled, TimedOut, BlockedManualApproval]"

fun is_terminal :: "operation_state \<Rightarrow> bool" where
  "is_terminal Succeeded = True"
| "is_terminal Failed = True"
| "is_terminal Cancelled = True"
| "is_terminal TimedOut = True"
| "is_terminal BlockedManualApproval = True"
| "is_terminal _ = False"

fun state_id :: "operation_state \<Rightarrow> string" where
  "state_id Pending = ''pending''"
| "state_id Running = ''running''"
| "state_id Cancelling = ''cancelling''"
| "state_id Succeeded = ''succeeded''"
| "state_id Failed = ''failed''"
| "state_id Cancelled = ''cancelled''"
| "state_id TimedOut = ''timed_out''"
| "state_id BlockedManualApproval = ''blocked_manual_approval''"

record invalid_transition =
  it_from :: string
  it_to :: string

definition invalid_transition_text :: "invalid_transition \<Rightarrow> string" where
  "invalid_transition_text e =
     ''illegal operation transition from '' @ it_from e @ '' to '' @ it_to e"

definition state_from_id :: "string \<Rightarrow> invalid_transition + operation_state" where
  "state_from_id s =
     (if s = ''pending'' then Inr Pending
      else if s = ''running'' then Inr Running
      else if s = ''cancelling'' then Inr Cancelling
      else if s = ''succeeded'' then Inr Succeeded
      else if s = ''failed'' then Inr Failed
      else if s = ''cancelled'' then Inr Cancelled
      else if s = ''timed_out'' then Inr TimedOut
      else if s = ''blocked_manual_approval'' then Inr BlockedManualApproval
      else Inl \<lparr>it_from = ''<unknown>'', it_to = s\<rparr>)"

section \<open>Transitions\<close>

fun can_transition :: "operation_state \<Rightarrow> operation_state \<Rightarrow> bool" where
  "can_transition Pending to = (to \<in> {Running, Cancelled, TimedOut})"
| "can_transition Running to =
     (to \<in> {Succeeded, Failed, Cancelling, TimedOut, BlockedManualApproval})"
| "can_transition Cancelling to = (to \<in> {Cancelled, Succeeded, Failed, BlockedManualApproval})"
| "can_transition _ to = False"

definition validate_transition ::
    "operation_state \<Rightarrow> operation_state \<Rightarrow> invalid_transition + unit" where
  "validate_transition from to =
     (if can_transition from to then Inr ()
      else Inl \<lparr>it_from = state_id from, it_to = state_id to\<rparr>)"

fun deadline_passed :: "operation_state \<Rightarrow> timestamp option \<Rightarrow> timestamp \<Rightarrow> bool" where
  "deadline_passed state (Some deadline) now =
     (if state \<in> {Pending, Running, Cancelling} then unix_millis now \<ge> unix_millis deadline
      else False)"
| "deadline_passed state None now = False"

section \<open>The life cycle and id contracts\<close>

text \<open>How many transitions a state can still make.\<close>

fun op_rank :: "operation_state \<Rightarrow> nat" where
  "op_rank Pending = 3"
| "op_rank Running = 2"
| "op_rank Cancelling = 1"
| "op_rank _ = 0"

definition state_of_text :: "string \<Rightarrow> operation_state option" where
  "state_of_text s = (case state_from_id s of Inl _ \<Rightarrow> None | Inr x \<Rightarrow> Some x)"

interpretation op_cycle: lifecycle can_transition is_terminal op_rank
proof unfold_locales
  fix a b
  show "is_terminal a \<Longrightarrow> \<not> can_transition a b" by (cases a) auto
  show "\<not> is_terminal a \<Longrightarrow> \<exists>b. can_transition a b" by (cases a) auto
  show "can_transition a b \<Longrightarrow> op_rank b < op_rank a" by (cases a) auto
qed

interpretation op_ids: text_enum state_id operation_states state_of_text
proof unfold_locales
  fix x :: operation_state and s
  show "x \<in> set operation_states" by (cases x) (simp_all add: operation_states_def)
  show "distinct (map state_id operation_states)" by (simp add: operation_states_def)
  show "state_of_text (state_id x) = Some x"
    by (cases x) (simp_all add: state_of_text_def state_from_id_def)
  show "state_of_text s = Some x \<Longrightarrow> s = state_id x"
    by (auto simp: state_of_text_def state_from_id_def split: if_splits)
qed

lemma state_from_id_Inr: "state_from_id s = Inr x \<longleftrightarrow> s = state_id x"
  using op_ids.of_text_iff [of s x] by (auto simp: state_of_text_def split: sum.splits)

lemma state_from_id_state_id [simp]: "state_from_id (state_id x) = Inr x"
  by (simp add: state_from_id_Inr)

lemma validate_transition_Inr [simp]:
  "validate_transition a b = Inr u \<longleftrightarrow> can_transition a b"
  by (simp add: validate_transition_def)

lemma terminal_texts:
  "is_terminal x \<longleftrightarrow> state_id x \<in> {''succeeded'', ''failed'', ''cancelled'', ''timed_out'', ''blocked_manual_approval''}"
  by (cases x) auto

lemma live_texts: "\<not> is_terminal x \<longleftrightarrow> state_id x \<in> {''pending'', ''running'', ''cancelling''}"
  by (cases x) auto

lemma deadline_only_live: "deadline_passed st d now \<Longrightarrow> \<not> is_terminal st"
  by (cases d; cases st) auto

lemma into_cancelling: "can_transition a Cancelling \<longleftrightarrow> a = Running"
  by (cases a) auto

lemma into_timed_out: "can_transition a TimedOut \<longleftrightarrow> a = Pending \<or> a = Running"
  by (cases a) auto

section \<open>Properties\<close>

text \<open>
  The operation life cycle: terminal states are final under any number of legal
  transitions, no state is ever returned to, every run makes at most three transitions,
  and every state can still reach a terminal one.
\<close>

theorem operation_life_cycle:
  "(\<forall>a b. can_transition\<^sup>*\<^sup>* a b \<longrightarrow> is_terminal a \<longrightarrow> b = a) \<and>
   (\<forall>a b. can_transition\<^sup>+\<^sup>+ a b \<longrightarrow> a \<noteq> b) \<and>
   (\<forall>xs. successively can_transition xs \<longrightarrow> length xs \<le> 4) \<and>
   (\<forall>a. \<exists>b. can_transition\<^sup>*\<^sup>* a b \<and> is_terminal b)"
proof (intro conjI allI impI)
  fix xs :: "operation_state list"
  assume run: "successively can_transition xs"
  show "length xs \<le> 4"
  proof (cases xs)
    case (Cons a ys)
    have "op_rank a \<le> 3" by (cases a) auto
    with op_cycle.run_length run Cons show ?thesis by fastforce
  qed simp
qed (auto intro: op_cycle.terminal_final op_cycle.reaches_terminal dest: op_cycle.never_returns)

theorem operation_life_cycle_witness:
  "Collect (can_transition\<^sup>*\<^sup>* Succeeded) = {Succeeded} \<and>
   successively can_transition [Pending, Running, Cancelling, Cancelled] \<and>
   length [Pending, Running, Cancelling, Cancelled] \<le> 4"
proof -
  have s: "successively can_transition [Pending, Running, Cancelling, Cancelled]" by simp
  have "Collect (can_transition\<^sup>*\<^sup>* Succeeded) = {Succeeded}"
    using operation_life_cycle by auto
  with s operation_life_cycle show ?thesis by blast
qed

text \<open>
  State ids round-trip: the text of a state parses back to it, and a text that parses
  is exactly the id of the state it parses to, so no two states share an id and no other
  text is accepted.
\<close>

theorem state_ids_roundtrip: "state_from_id s = Inr x \<longleftrightarrow> s = state_id x"
  by (rule state_from_id_Inr)

end
