(* ===== verification/Events.thy ===== *)
theory Events
  imports Authz
begin

text \<open>
  The bounded change notifications of \<open>crates/fleet-application/src/events.rs\<close>: the hub
  with its replay window, publishing and resuming from a cursor. The live broadcast channel
  is tokio's and is not modelled; the replay window is.
\<close>

section \<open>The hub\<close>

datatype event_kind =
    MachineChanged | OperationChanged | LeaseChanged | OnboardingChanged | ProxmoxChanged
  | TailnetChanged | RequestChanged

fun event_name :: "event_kind \<Rightarrow> string" where
  "event_name MachineChanged = ''machine.changed''"
| "event_name OperationChanged = ''operation.changed''"
| "event_name LeaseChanged = ''lease.changed''"
| "event_name OnboardingChanged = ''onboarding.changed''"
| "event_name ProxmoxChanged = ''proxmox.changed''"
| "event_name TailnetChanged = ''tailnet.changed''"
| "event_name RequestChanged = ''request.changed''"

record fleet_event =
  fe_id :: string
  fe_kind :: event_kind

record event_hub =
  eh_epoch :: string
  eh_sequence :: nat
  eh_history :: "fleet_event list"
  eh_capacity :: nat

definition hub_new :: "string \<Rightarrow> nat \<Rightarrow> event_hub" where
  "hub_new epoch capacity =
     \<lparr>eh_epoch = epoch, eh_sequence = 0, eh_history = [], eh_capacity = max capacity 2\<rparr>"

definition u64_saturating_add :: "nat \<Rightarrow> nat \<Rightarrow> nat" where
  "u64_saturating_add a b = min (a + b) u64_max"

definition cursor_text :: "string \<Rightarrow> nat \<Rightarrow> string" where
  "cursor_text epoch n = epoch @ '':'' @ decimal n"

definition hub_publish :: "event_kind \<Rightarrow> event_hub \<Rightarrow> event_hub" where
  "hub_publish kind h =
     (let n = u64_saturating_add (eh_sequence h) 1;
          event = \<lparr>fe_id = cursor_text (eh_epoch h) n, fe_kind = kind\<rparr>;
          history = (if length (eh_history h) = eh_capacity h then tl (eh_history h) else eh_history h)
      in h\<lparr>eh_sequence := n, eh_history := history @ [event]\<rparr>)"

definition event_number :: "fleet_event \<Rightarrow> nat option" where
  "event_number e =
     (case rsplit_once (CHR '':'') (fe_id e) of None \<Rightarrow> None | Some (_, v) \<Rightarrow> parse_u64 v)"

record subscription =
  sub_replay :: "fleet_event list"
  sub_gap :: "string option"

definition hub_current_id :: "event_hub \<Rightarrow> string" where
  "hub_current_id h = cursor_text (eh_epoch h) (eh_sequence h)"

definition parse_cursor :: "string \<Rightarrow> (string \<times> nat) option" where
  "parse_cursor cursor =
     (case split_once (CHR '':'') cursor of
        None \<Rightarrow> None
      | Some (epoch, seq_text) \<Rightarrow> map_option (\<lambda>n. (epoch, n)) (parse_u64 seq_text))"

definition oldest_retained :: "event_hub \<Rightarrow> nat" where
  "oldest_retained h =
     (case eh_history h of
        [] \<Rightarrow> u64_saturating_add (eh_sequence h) 1
      | e # _ \<Rightarrow> (case event_number e of
                   None \<Rightarrow> u64_saturating_add (eh_sequence h) 1
                 | Some n \<Rightarrow> n))"

definition hub_subscribe :: "string option \<Rightarrow> event_hub \<Rightarrow> subscription" where
  "hub_subscribe last_event_id h =
     (case last_event_id of
        None \<Rightarrow> \<lparr>sub_replay = [], sub_gap = None\<rparr>
      | Some cursor \<Rightarrow>
          (case parse_cursor cursor of
             Some (epoch, n) \<Rightarrow>
               if epoch = eh_epoch h \<and> n \<le> eh_sequence h then
                 if u64_saturating_add n 1 < oldest_retained h
                 then \<lparr>sub_replay = [], sub_gap = Some (hub_current_id h)\<rparr>
                 else \<lparr>sub_replay =
                         filter (\<lambda>e. case event_number e of None \<Rightarrow> False | Some k \<Rightarrow> k > n) (eh_history h),
                       sub_gap = None\<rparr>
               else \<lparr>sub_replay = [], sub_gap = Some (hub_current_id h)\<rparr>
           | None \<Rightarrow> \<lparr>sub_replay = [], sub_gap = Some (hub_current_id h)\<rparr>))"

definition events_authorize :: "authorizer \<Rightarrow> string \<Rightarrow> decision + unit" where
  "events_authorize az who =
     (case authorize az (access who EventsRead None) of Inl d \<Rightarrow> Inl d | Inr _ \<Rightarrow> Inr ())"

definition events_subscribe ::
    "authorizer \<Rightarrow> string \<Rightarrow> string option \<Rightarrow> event_hub \<Rightarrow> decision + subscription" where
  "events_subscribe az who last_event_id h =
     (case events_authorize az who of Inl d \<Rightarrow> Inl d | Inr _ \<Rightarrow> Inr (hub_subscribe last_event_id h))"

section \<open>What the window holds\<close>

text \<open>All events ever published, numbered from 1.\<close>

definition numbered :: "string \<Rightarrow> event_kind list \<Rightarrow> fleet_event list" where
  "numbered epoch ks =
     map (\<lambda>(i, k). \<lparr>fe_id = cursor_text epoch i, fe_kind = k\<rparr>) (List.enumerate 1 ks)"

definition hub_holds :: "event_kind list \<Rightarrow> event_hub \<Rightarrow> bool" where
  "hub_holds ks h \<longleftrightarrow>
     eh_sequence h = length ks \<and> 2 \<le> eh_capacity h \<and>
     eh_history h = drop (length ks - eh_capacity h) (numbered (eh_epoch h) ks)"

lemma length_numbered [simp]: "length (numbered e ks) = length ks"
  by (simp add: numbered_def)

lemma numbered_snoc:
  "numbered e (ks @ [k]) = numbered e ks @ [\<lparr>fe_id = cursor_text e (Suc (length ks)), fe_kind = k\<rparr>]"
  by (simp add: numbered_def enumerate_append_eq)

lemma hub_new_holds: "hub_holds [] (hub_new epoch c)"
  by (simp add: hub_holds_def hub_new_def numbered_def)

lemma hub_publish_holds:
  assumes "hub_holds ks h" and "length ks < u64_max"
  shows "hub_holds (ks @ [k]) (hub_publish k h)"
proof (cases "length (eh_history h) = eh_capacity h")
  case True
  with assms have "eh_capacity h \<le> length ks" by (auto simp: hub_holds_def)
  with True assms show ?thesis
    by (simp add: hub_holds_def hub_publish_def Let_def u64_saturating_add_def numbered_snoc
        tl_drop Suc_diff_le drop_Suc)
next
  case False
  with assms have "length ks < eh_capacity h" by (auto simp: hub_holds_def)
  with False assms show ?thesis
    by (simp add: hub_holds_def hub_publish_def Let_def u64_saturating_add_def numbered_snoc)
qed

lemma hub_publish_epoch [simp]: "eh_epoch (hub_publish k h) = eh_epoch h"
  "eh_capacity (hub_publish k h) = eh_capacity h"
  by (simp_all add: hub_publish_def Let_def)

lemma published_holds:
  "length ks \<le> u64_max \<Longrightarrow> hub_holds ks (fold hub_publish ks (hub_new epoch c)) \<and>
     eh_epoch (fold hub_publish ks (hub_new epoch c)) = epoch \<and>
     eh_capacity (fold hub_publish ks (hub_new epoch c)) = max c 2"
proof (induction ks rule: rev_induct)
  case Nil
  then show ?case by (simp add: hub_new_holds) (simp add: hub_new_def)
next
  case (snoc k ks)
  then show ?case using hub_publish_holds by simp
qed

lemma event_number_cursor:
  "n \<le> u64_max \<Longrightarrow> event_number \<lparr>fe_id = cursor_text e n, fe_kind = k\<rparr> = Some n"
  by (simp add: event_number_def cursor_text_def rsplit_once_append decimal_no_colon parse_u64_decimal)

lemma parse_cursor_text:
  "CHR '':'' \<notin> set e \<Longrightarrow> n \<le> u64_max \<Longrightarrow> parse_cursor (cursor_text e n) = Some (e, n)"
  by (simp add: parse_cursor_def cursor_text_def split_once_append parse_u64_decimal)

lemma nth_numbered: "i < length ks \<Longrightarrow> numbered e ks ! i = \<lparr>fe_id = cursor_text e (Suc i), fe_kind = ks ! i\<rparr>"
  by (simp add: numbered_def nth_enumerate_eq)

lemma filter_numbered:
  assumes "length ks \<le> u64_max" and "m \<le> n"
  shows "filter (\<lambda>e. case event_number e of None \<Rightarrow> False | Some k \<Rightarrow> k > n) (drop m (numbered epoch ks))
       = drop n (numbered epoch ks)"
  using assms
proof (induction ks rule: rev_induct)
  case Nil
  then show ?case by (simp add: numbered_def)
next
  case (snoc k ks)
  have "event_number \<lparr>fe_id = cursor_text epoch (Suc (length ks)), fe_kind = k\<rparr> = Some (Suc (length ks))"
    using snoc.prems by (intro event_number_cursor) simp
  with snoc show ?case by (cases "n \<le> length ks"; cases "m - length ks") (simp_all add: numbered_snoc)
qed

lemma kinds_numbered: "map fe_kind (drop n (numbered e ks)) = drop n ks"
  by (simp add: numbered_def comp_def case_prod_unfold flip: drop_map)

lemma oldest_held:
  assumes "hub_holds ks h" and "length ks < u64_max"
  shows "oldest_retained h = Suc (length ks - eh_capacity h)"
proof (cases "ks = []")
  case True
  with assms show ?thesis
    by (simp add: hub_holds_def oldest_retained_def numbered_def u64_saturating_add_def)
next
  case False
  let ?m = "length ks - eh_capacity h"
  from False assms(1) have m: "?m < length ks" by (auto simp: hub_holds_def)
  then have "eh_history h = numbered (eh_epoch h) ks ! ?m # drop (Suc ?m) (numbered (eh_epoch h) ks)"
    using assms(1) by (simp add: hub_holds_def Cons_nth_drop_Suc)
  then show ?thesis using m assms(2)
    by (simp add: oldest_retained_def nth_numbered event_number_cursor)
qed

lemma subscribe_held:
  assumes h: "hub_holds ks h" and len: "length ks < u64_max"
    and e: "CHR '':'' \<notin> set (eh_epoch h)" and n: "n \<le> length ks"
  shows "hub_subscribe (Some (cursor_text (eh_epoch h) n)) h =
    (if n + eh_capacity h < length ks
     then \<lparr>sub_replay = [], sub_gap = Some (cursor_text (eh_epoch h) (length ks))\<rparr>
     else \<lparr>sub_replay = drop n (numbered (eh_epoch h) ks), sub_gap = None\<rparr>)"
proof -
  have p: "parse_cursor (cursor_text (eh_epoch h) n) = Some (eh_epoch h, n)"
    using e n len by (intro parse_cursor_text) simp_all
  have r: "n + eh_capacity h < length ks \<longleftrightarrow> u64_saturating_add n 1 < oldest_retained h"
    using n len by (auto simp: oldest_held [OF h len] u64_saturating_add_def)
  have f: "\<not> n + eh_capacity h < length ks \<Longrightarrow>
      filter (\<lambda>e. case event_number e of None \<Rightarrow> False | Some k \<Rightarrow> k > n) (eh_history h)
      = drop n (numbered (eh_epoch h) ks)"
    using h len by (simp add: hub_holds_def filter_numbered)
  show ?thesis using h n f
    by (simp add: hub_subscribe_def p r [symmetric] hub_current_id_def hub_holds_def del: One_nat_def)
qed

section \<open>Properties\<close>

text \<open>
  C24. A client that resumes from a cursor misses nothing silently: after any sequence of
  publications, the cursor of the n-th event yields exactly the kinds published since, in
  order, while they fit the window; otherwise nothing is replayed and a gap is announced
  with the current cursor.
\<close>

theorem resume_exact:
  assumes "length ks < u64_max" and "CHR '':'' \<notin> set epoch" and "n \<le> length ks"
  shows "map fe_kind (sub_replay (hub_subscribe (Some (cursor_text epoch n))
             (fold hub_publish ks (hub_new epoch c)))) =
           (if n + max c 2 < length ks then [] else drop n ks) \<and>
         sub_gap (hub_subscribe (Some (cursor_text epoch n)) (fold hub_publish ks (hub_new epoch c))) =
           (if n + max c 2 < length ks then Some (cursor_text epoch (length ks)) else None)"
proof -
  let ?h = "fold hub_publish ks (hub_new epoch c)"
  have h: "hub_holds ks ?h" "eh_epoch ?h = epoch" "eh_capacity ?h = max c 2"
    using published_holds [of ks epoch c] assms(1) by auto
  show ?thesis
    using subscribe_held [OF h(1) assms(1), of n] assms(2,3) by (simp add: h(2,3) kinds_numbered)
qed

theorem resume_exact_witness:
  "sub_gap (hub_subscribe (Some (cursor_text ''e'' 0))
     (fold hub_publish [MachineChanged, LeaseChanged, RequestChanged] (hub_new ''e'' 1))) = Some (cursor_text ''e'' 3) \<and>
   map fe_kind (sub_replay (hub_subscribe (Some (cursor_text ''e'' 1))
     (fold hub_publish [MachineChanged, LeaseChanged, RequestChanged] (hub_new ''e'' 1)))) = [LeaseChanged, RequestChanged]"
proof -
  let ?ks = "[MachineChanged, LeaseChanged, RequestChanged]"
  have l: "length ?ks < u64_max" by (simp add: u64_max_def)
  have c: "CHR '':'' \<notin> set ''e''" by simp
  have n: "0 \<le> length ?ks" "1 \<le> length ?ks" by simp_all
  show ?thesis
    using resume_exact [OF l c n(1), of 1] resume_exact [OF l c n(2), of 1] by (simp add: numeral_3_eq_3)
qed

end
