(* ===== verification/Operation_Store.thy ===== *)
theory Operation_Store
  imports Operation_State Audit_Ledger Events "HOL-Library.Product_Lexorder"
begin

text \<open>
  The durable operation records: the public view and failures of
  \<open>crates/fleet-application/src/operation.rs\<close> and the repository of
  \<open>crates/fleet-storage-sqlite/src/operations.rs\<close>. One SQL statement is one atomic step
  that may fail; the read and the write of \<open>transition\<close> and \<open>complete\<close> are two statements
  and are separate definitions, so their interleavings can be stated.
\<close>

section \<open>Records\<close>

record operation =
  op_id :: string
  op_kind :: string
  op_state :: string
  op_key :: "string option"
  op_progress_current :: "int option"
  op_progress_total :: "int option"
  op_progress_message :: "string option"
  op_deadline :: "int option"
  op_cancel_requested :: bool
  op_payload :: "string option"
  op_result :: "string option"
  op_error :: "string option"
  op_correlation :: "string option"
  op_created :: int
  op_updated :: int
  op_claimed :: "int option"
  op_worker :: "string option"

datatype port_failure = PortNotFound string | PortConflict string | PortBackend string

definition port_failure_text :: "port_failure \<Rightarrow> string" where
  "port_failure_text f =
     (case f of
        PortNotFound what \<Rightarrow> ''not found: '' @ what
      | PortConflict detail \<Rightarrow> ''conflict: '' @ detail
      | PortBackend detail \<Rightarrow> ''backend failure: '' @ detail)"

record queue_depths =
  qd_pending :: nat
  qd_running :: nat
  qd_cancelling :: nat

datatype operation_store_error =
    StoreNotFound string
  | StoreInvalidTransition invalid_transition
  | StoreTooLarge string nat nat
  | StoreQuery string string

definition store_error_text :: "operation_store_error \<Rightarrow> string" where
  "store_error_text e =
     (case e of
        StoreNotFound i \<Rightarrow> ''no operation '' @ debug_str i
      | StoreInvalidTransition error \<Rightarrow> invalid_transition_text error
      | StoreTooLarge field sz limit \<Rightarrow>
          field @ '' is '' @ decimal sz @ '' bytes, over the '' @ decimal limit @ ''-byte bound''
      | StoreQuery context detail \<Rightarrow> ''operation '' @ context @ '' failed: '' @ detail)"

definition max_result_json :: nat where "max_result_json = 8 * 1024"
definition max_progress_message :: nat where "max_progress_message = 256"

text \<open>The operations table and the notification hub, beside the shared state.\<close>

record op_world = world +
  ow_rows :: "operation list"
  ow_hub :: event_hub

type_synonym ('z, 'a) op_act = "('z op_world_scheme, port_failure, 'a) act"

section \<open>Statements\<close>

text \<open>A statement that fails is a backend failure that names it; \<open>update_rows\<close> counts the affected rows.\<close>

definition statement :: "string \<Rightarrow> ('z, unit) op_act" where
  "statement context = map_err (\<lambda>d. PortBackend (context @ '' failed: '' @ d)) external"

definition update_rows :: "(operation \<Rightarrow> bool) \<Rightarrow> (operation \<Rightarrow> operation) \<Rightarrow> ('z, nat) op_act" where
  "update_rows P f = (\<lambda>s. (Inr (length (filter P (ow_rows s))),
     s\<lparr>ow_rows := map (\<lambda>r. if P r then f r else r) (ow_rows s)\<rparr>))"

definition op_get :: "string \<Rightarrow> ('z, operation) op_act" where
  "op_get i =
     andthen (statement ''operation get'') (\<lambda>_.
     andthen (asks (\<lambda>s. find (\<lambda>r. op_id r = i) (ow_rows s))) (\<lambda>found.
     case found of
       None \<Rightarrow> fail (PortNotFound (''operation '' @ debug_str i))
     | Some r \<Rightarrow> ret r))"

definition find_by_idempotency :: "string \<Rightarrow> ('z, operation option) op_act" where
  "find_by_idempotency key =
     andthen (statement ''operation lookup'') (\<lambda>_.
     asks (\<lambda>s. find (\<lambda>r. op_key r = Some key) (ow_rows s)))"

definition unique_violation :: "operation list \<Rightarrow> string \<Rightarrow> string option \<Rightarrow> bool" where
  "unique_violation rows i key \<longleftrightarrow>
     list_ex (\<lambda>r. op_id r = i) rows \<or>
     (case key of None \<Rightarrow> False | Some k \<Rightarrow> list_ex (\<lambda>r. op_key r = Some k) rows)"

definition new_row ::
    "string \<Rightarrow> string \<Rightarrow> string option \<Rightarrow> int option \<Rightarrow> string option \<Rightarrow> string option \<Rightarrow> int \<Rightarrow> operation" where
  "new_row i kind key deadline correlation payload now =
     \<lparr>op_id = i, op_kind = kind, op_state = ''pending'', op_key = key, op_progress_current = None,
      op_progress_total = None, op_progress_message = None, op_deadline = deadline,
      op_cancel_requested = False, op_payload = payload, op_result = None, op_error = None,
      op_correlation = correlation, op_created = now, op_updated = now, op_claimed = None,
      op_worker = None\<rparr>"

definition raced :: port_failure where
  "raced = PortBackend ''the idempotency key raced and the winner could not be read''"

definition op_create ::
    "string \<Rightarrow> string option \<Rightarrow> int option \<Rightarrow> string option \<Rightarrow> string option \<Rightarrow> ('z, operation) op_act" where
  "op_create kind key deadline correlation payload =
     andthen fresh_uuid (\<lambda>i.
     andthen (asks w_now) (\<lambda>now.
     andthen (statement ''operation create'') (\<lambda>_.
     andthen (asks (\<lambda>s. unique_violation (ow_rows s) i key)) (\<lambda>violated.
     if \<not> violated
     then andthen (modify (\<lambda>s. s\<lparr>ow_rows := ow_rows s @ [new_row i kind key deadline correlation payload now]\<rparr>))
            (\<lambda>_. op_get i)
     else andthen (map_err (\<lambda>_. raced) external) (\<lambda>_.
          andthen (asks (\<lambda>s. case key of None \<Rightarrow> None
                              | Some k \<Rightarrow> find (\<lambda>r. op_key r = Some k) (ow_rows s))) (\<lambda>existing.
          case existing of None \<Rightarrow> fail raced | Some r \<Rightarrow> op_get (op_id r)))))))"

definition clamp :: "nat \<Rightarrow> nat \<Rightarrow> nat \<Rightarrow> nat" where
  "clamp lo hi n = max lo (min hi n)"

text \<open>\<open>ORDER BY created_at DESC, id DESC\<close>: descending on a unique key.\<close>

definition newest_first :: "operation list \<Rightarrow> operation list" where
  "newest_first rows = rev (sort_key (\<lambda>r. (op_created r, op_id r)) rows)"

definition op_list :: "nat \<Rightarrow> ('z, operation list) op_act" where
  "op_list limit =
     andthen (statement ''operation list'') (\<lambda>_.
     asks (\<lambda>s. take (clamp 1 200 limit) (newest_first (ow_rows s))))"

definition parse_state :: "string \<Rightarrow> port_failure + operation_state" where
  "parse_state t = (case state_from_id t of
     Inl e \<Rightarrow> Inl (PortBackend (invalid_transition_text e)) | Inr x \<Rightarrow> Inr x)"

definition checked_transition :: "operation_state \<Rightarrow> operation_state \<Rightarrow> port_failure + unit" where
  "checked_transition from to = (case validate_transition from to of
     Inl e \<Rightarrow> Inl (PortBackend (invalid_transition_text e)) | Inr x \<Rightarrow> Inr x)"

text \<open>The read half of \<open>transition\<close> and \<open>complete\<close>: the target state, when legal from the state read.\<close>

definition transition_check :: "string \<Rightarrow> string \<Rightarrow> ('z, operation_state) op_act" where
  "transition_check i target =
     andthen (op_get i) (\<lambda>record.
     andthen (lift (parse_state (op_state record))) (\<lambda>from.
     andthen (lift (parse_state target)) (\<lambda>to.
     andthen (lift (checked_transition from to)) (\<lambda>_.
     ret to))))"

definition transition_write :: "string \<Rightarrow> operation_state \<Rightarrow> ('z, operation) op_act" where
  "transition_write i to =
     andthen (asks w_now) (\<lambda>now.
     andthen (statement ''operation transition'') (\<lambda>_.
     andthen (update_rows (\<lambda>r. op_id r = i) (\<lambda>r. r\<lparr>op_state := state_id to, op_updated := now\<rparr>)) (\<lambda>_.
     op_get i)))"

definition op_transition :: "string \<Rightarrow> string \<Rightarrow> ('z, operation) op_act" where
  "op_transition i target = andthen (transition_check i target) (\<lambda>to. transition_write i to)"

definition op_request_cancel :: "string \<Rightarrow> ('z, operation) op_act" where
  "op_request_cancel i =
     andthen (op_get i) (\<lambda>record.
     andthen (asks w_now) (\<lambda>now.
     andthen (statement ''operation request_cancel'') (\<lambda>_.
     andthen (update_rows (\<lambda>r. op_id r = i) (\<lambda>r. r\<lparr>op_cancel_requested := True, op_updated := now\<rparr>)) (\<lambda>_.
     andthen (lift (parse_state (op_state record))) (\<lambda>from.
     andthen (if can_transition from Cancelling
              then andthen (op_transition i ''cancelling'') (\<lambda>_. ret ()) else ret ()) (\<lambda>_.
     op_get i))))))"

definition check_bound :: "string \<Rightarrow> nat \<Rightarrow> nat \<Rightarrow> operation_store_error + unit" where
  "check_bound field sz limit = (if sz > limit then Inl (StoreTooLarge field sz limit) else Inr ())"

definition check_optional :: "string \<Rightarrow> string option \<Rightarrow> nat \<Rightarrow> port_failure + unit" where
  "check_optional field value limit =
     (case value of
        None \<Rightarrow> Inr ()
      | Some t \<Rightarrow> (case check_bound field (length t) limit of
          Inl e \<Rightarrow> Inl (PortBackend (store_error_text e)) | Inr _ \<Rightarrow> Inr ()))"

definition complete_check ::
    "string \<Rightarrow> string \<Rightarrow> string option \<Rightarrow> string option \<Rightarrow> ('z, operation_state) op_act" where
  "complete_check i target result error =
     andthen (lift (check_optional ''result_json'' result max_result_json)) (\<lambda>_.
     andthen (lift (check_optional ''error_json'' error max_result_json)) (\<lambda>_.
     transition_check i target))"

definition complete_write ::
    "string \<Rightarrow> operation_state \<Rightarrow> string option \<Rightarrow> string option \<Rightarrow> ('z, operation) op_act" where
  "complete_write i to result error =
     andthen (asks w_now) (\<lambda>now.
     andthen (statement ''operation complete'') (\<lambda>_.
     andthen (update_rows (\<lambda>r. op_id r = i)
       (\<lambda>r. r\<lparr>op_state := state_id to, op_result := result, op_error := error, op_updated := now\<rparr>)) (\<lambda>_.
     op_get i)))"

definition op_complete ::
    "string \<Rightarrow> string \<Rightarrow> string option \<Rightarrow> string option \<Rightarrow> ('z, operation) op_act" where
  "op_complete i target result error =
     andthen (complete_check i target result error) (\<lambda>to. complete_write i to result error)"

definition op_record_progress ::
    "string \<Rightarrow> int option \<Rightarrow> int option \<Rightarrow> string option \<Rightarrow> ('z, unit) op_act" where
  "op_record_progress i current whole message =
     andthen (lift (check_optional ''progress_message'' message max_progress_message)) (\<lambda>_.
     andthen (asks w_now) (\<lambda>now.
     andthen (statement ''operation record_progress'') (\<lambda>_.
     andthen (update_rows (\<lambda>r. op_id r = i)
       (\<lambda>r. r\<lparr>op_progress_current := current, op_progress_total := whole,
              op_progress_message := message, op_updated := now\<rparr>)) (\<lambda>n.
     if n = 0 then fail (PortNotFound (''operation '' @ debug_str i)) else ret ()))))"

section \<open>Claims\<close>

definition claimable :: "int \<Rightarrow> operation \<Rightarrow> bool" where
  "claimable now r \<longleftrightarrow> op_state r = ''pending'' \<and> opt_all (\<lambda>d. d > now) (op_deadline r)"

definition claim_row :: "string \<Rightarrow> int \<Rightarrow> operation \<Rightarrow> operation" where
  "claim_row worker now r =
     r\<lparr>op_state := ''running'', op_worker := Some worker, op_claimed := Some now, op_updated := now\<rparr>"

definition oldest_first :: "operation list \<Rightarrow> operation list" where
  "oldest_first rows = sort_key (\<lambda>r. (op_created r, op_id r)) rows"

definition undo_rows :: "'z op_world_scheme \<Rightarrow> 'z op_world_scheme \<Rightarrow> 'z op_world_scheme" where
  "undo_rows s t = t\<lparr>ow_rows := ow_rows s\<rparr>"

definition claim_tx :: "string \<Rightarrow> int \<Rightarrow> ('z, string option) op_act" where
  "claim_tx worker now = atomically undo_rows
     (andthen (statement ''claim begin'') (\<lambda>_.
      andthen (statement ''claim select'') (\<lambda>_.
      andthen (asks (\<lambda>s. oldest_first (filter (claimable now) (ow_rows s)))) (\<lambda>candidates.
      case candidates of
        [] \<Rightarrow> ret None
      | r # _ \<Rightarrow>
          andthen (statement ''claim update'') (\<lambda>_.
          andthen (update_rows (\<lambda>x. op_id x = op_id r \<and> op_state x = ''pending'') (claim_row worker now)) (\<lambda>n.
          andthen (statement ''claim commit'') (\<lambda>_.
          ret (if n = 0 then None else Some (op_id r)))))))))"

definition op_claim_pending :: "string \<Rightarrow> int \<Rightarrow> ('z, operation option) op_act" where
  "op_claim_pending worker now =
     andthen (claim_tx worker now) (\<lambda>claimed.
     case claimed of
       None \<Rightarrow> ret None
     | Some i \<Rightarrow> andthen (op_get i) (\<lambda>r. ret (Some r)))"

definition claim_by_id_update :: "string \<Rightarrow> string \<Rightarrow> int \<Rightarrow> ('z, nat) op_act" where
  "claim_by_id_update i worker now =
     andthen (statement ''claim update'') (\<lambda>_.
     update_rows (\<lambda>r. op_id r = i \<and> claimable now r) (claim_row worker now))"

definition op_claim_pending_by_id :: "string \<Rightarrow> string \<Rightarrow> int \<Rightarrow> ('z, operation option) op_act" where
  "op_claim_pending_by_id i worker now =
     andthen (claim_by_id_update i worker now) (\<lambda>n.
     if n = 0 then ret None else andthen (op_get i) (\<lambda>r. ret (Some r)))"

definition live_claim :: "operation \<Rightarrow> bool" where
  "live_claim r \<longleftrightarrow> op_state r \<in> {''running'', ''cancelling''} \<and> op_claimed r \<noteq> None"

text \<open>\<open>ORDER BY claimed_at ASC\<close>, ties in row order.\<close>

definition op_expired_claims :: "int \<Rightarrow> int \<Rightarrow> ('z, operation list) op_act" where
  "op_expired_claims now lease_ms =
     andthen (statement ''expired claims select'') (\<lambda>_.
     asks (\<lambda>s. sort_key (\<lambda>r. the (op_claimed r))
       (filter (\<lambda>r. live_claim r \<and> the (op_claimed r) < saturating_sub now lease_ms) (ow_rows s))))"

definition op_renew_lease :: "string \<Rightarrow> string \<Rightarrow> int \<Rightarrow> int \<Rightarrow> ('z, bool) op_act" where
  "op_renew_lease i worker now lease_ms =
     andthen (statement ''lease renewal'') (\<lambda>_.
     andthen (update_rows (\<lambda>r. op_id r = i \<and> op_worker r = Some worker \<and> live_claim r \<and>
                           the (op_claimed r) \<ge> saturating_sub now lease_ms)
       (\<lambda>r. r\<lparr>op_claimed := Some now, op_updated := now\<rparr>)) (\<lambda>n.
     ret (n > 0)))"

definition op_fail_expired_claim :: "string \<Rightarrow> int \<Rightarrow> int \<Rightarrow> string \<Rightarrow> ('z, bool) op_act" where
  "op_fail_expired_claim i expected now error =
     andthen (statement ''expired-claim failure'') (\<lambda>_.
     andthen (update_rows (\<lambda>r. op_id r = i \<and> op_state r \<in> {''running'', ''cancelling''} \<and> op_claimed r = Some expected)
       (\<lambda>r. r\<lparr>op_state := ''failed'', op_error := Some error, op_updated := now\<rparr>)) (\<lambda>n.
     ret (n > 0)))"

definition op_sweep_deadlines :: "int \<Rightarrow> ('z, string list) op_act" where
  "op_sweep_deadlines now =
     andthen (statement ''sweep select'') (\<lambda>_.
     asks (\<lambda>s. map op_id (filter (\<lambda>r. op_state r \<in> {''pending'', ''running'', ''cancelling''} \<and>
        (case op_deadline r of None \<Rightarrow> False | Some d \<Rightarrow> d \<le> now)) (ow_rows s))))"

definition op_queue_depths :: "('z, queue_depths) op_act" where
  "op_queue_depths =
     andthen (statement ''queue depths'') (\<lambda>_.
     asks (\<lambda>s. let count = (\<lambda>t. length (filter (\<lambda>r. op_state r = t) (ow_rows s))) in
       \<lparr>qd_pending = count ''pending'', qd_running = count ''running'', qd_cancelling = count ''cancelling''\<rparr>))"

section \<open>What every call keeps\<close>

text \<open>
  Rows are never deleted and keep what was decided at creation. The state moves only along
  legal transitions, a cancel request is never withdrawn, and a terminal row keeps its
  state, result and error.
\<close>

definition row_follows :: "operation \<Rightarrow> operation \<Rightarrow> bool" where
  "row_follows r r' \<longleftrightarrow>
     op_id r' = op_id r \<and> op_kind r' = op_kind r \<and> op_key r' = op_key r \<and>
     op_deadline r' = op_deadline r \<and> op_payload r' = op_payload r \<and>
     op_correlation r' = op_correlation r \<and> op_created r' = op_created r \<and>
     (op_cancel_requested r \<longrightarrow> op_cancel_requested r') \<and>
     (\<exists>a b. state_of_text (op_state r) = Some a \<and> state_of_text (op_state r') = Some b \<and>
        can_transition\<^sup>*\<^sup>* a b \<and>
        (is_terminal a \<longrightarrow> op_state r' = op_state r \<and> op_result r' = op_result r \<and> op_error r' = op_error r))"

definition keys_of :: "operation list \<Rightarrow> string list" where
  "keys_of rows = concat (map (\<lambda>r. case op_key r of None \<Rightarrow> [] | Some k \<Rightarrow> [k]) rows)"

definition store_wf :: "operation list \<Rightarrow> bool" where
  "store_wf rows \<longleftrightarrow> distinct (map op_id rows) \<and> distinct (keys_of rows) \<and>
     (\<forall>r \<in> set rows. state_of_text (op_state r) \<noteq> None)"

definition store_grows :: "'z op_world_scheme \<Rightarrow> 'z op_world_scheme \<Rightarrow> bool" where
  "store_grows s t \<longleftrightarrow> (store_wf (ow_rows s) \<longrightarrow> store_wf (ow_rows t) \<and>
     (\<exists>old new. ow_rows t = old @ new \<and> list_all2 row_follows (ow_rows s) old))"

lemma row_follows_refl: "state_of_text (op_state r) \<noteq> None \<Longrightarrow> row_follows r r"
  by (auto simp: row_follows_def)

lemma row_follows_trans:
  assumes "row_follows a b" and "row_follows b c"
  shows "row_follows a c"
  using assms unfolding row_follows_def by (auto dest: op_cycle.terminal_final)

lemma rows_follow_refl: "store_wf rows \<Longrightarrow> list_all2 row_follows rows rows"
  by (auto simp: store_wf_def row_follows_refl intro: list_all2_all_nthI)

lemma store_grows_rows: "ow_rows t = ow_rows s \<Longrightarrow> store_grows s t"
  using rows_follow_refl by (auto simp: store_grows_def)

interpretation sgrow: effect_relation "store_grows :: 'z op_world_scheme \<Rightarrow> 'z op_world_scheme \<Rightarrow> bool"
proof unfold_locales
  fix s :: "'z op_world_scheme"
  show "store_grows s s" by (rule store_grows_rows) simp
next
  fix s t u :: "'z op_world_scheme"
  assume st: "store_grows s t" and tu: "store_grows t u"
  show "store_grows s u"
    unfolding store_grows_def
  proof
    assume wf: "store_wf (ow_rows s)"
    with st obtain o1 n1 where 1: "ow_rows t = o1 @ n1" "list_all2 row_follows (ow_rows s) o1" "store_wf (ow_rows t)"
      by (auto simp: store_grows_def)
    with tu obtain o2 n2 where 2: "ow_rows u = o2 @ n2" "list_all2 row_follows (ow_rows t) o2" "store_wf (ow_rows u)"
      by (auto simp: store_grows_def)
    from 1 2 obtain x y where 3: "o2 = x @ y" "list_all2 row_follows o1 x"
      by (auto simp: list_all2_append1)
    have "list_all2 row_follows (ow_rows s) x"
      using list_all2_trans [OF _ 1(2) 3(2)] row_follows_trans by blast
    with 2 3 show "store_wf (ow_rows u) \<and> (\<exists>old new. ow_rows u = old @ new \<and> list_all2 row_follows (ow_rows s) old)"
      by auto
  qed
qed

lemma more_ops: "world.more t = world.more s \<Longrightarrow> ow_rows t = ow_rows s \<and> ow_hub t = ow_hub s"
  by (cases s; cases t) simp

lemma frame_ops: "within world_frame m \<Longrightarrow> m s = (r, t) \<Longrightarrow> ow_rows t = ow_rows s \<and> ow_hub t = ow_hub s"
  by (rule more_ops, rule world_frame_more, rule withinD)

lemma frame_sgrow: "within world_frame m \<Longrightarrow> within store_grows m"
  by (rule withinI, rule store_grows_rows)
     (rule more_ops [THEN conjunct1], rule world_frame_more, rule within_snd)

lemma statement_frame: "within world_frame (statement c)"
  unfolding statement_def by (intro frame.intros external_frame)

lemma op_get_frame: "within world_frame (op_get i)"
  unfolding op_get_def by (intro frame.intros statement_frame)

lemma statement_rows: "statement c s = (r, t) \<Longrightarrow> ow_rows t = ow_rows s \<and> ow_hub t = ow_hub s"
  by (rule frame_ops [OF statement_frame])

lemma op_get_rows: "op_get i s = (r, t) \<Longrightarrow> ow_rows t = ow_rows s \<and> ow_hub t = ow_hub s"
  by (rule frame_ops [OF op_get_frame])

lemma op_get_Inr: "op_get i s = (Inr r, t) \<Longrightarrow> find (\<lambda>r. op_id r = i) (ow_rows s) = Some r"
  by (auto simp: op_get_def act_Inr dest!: statement_rows)

lemma keys_of_map: "(\<And>r. r \<in> set rows \<Longrightarrow> op_key (g r) = op_key r) \<Longrightarrow> keys_of (map g rows) = keys_of rows"
  by (induction rows) (simp_all add: keys_of_def)

lemma map_rows_grow:
  assumes "store_wf rows" and "\<And>r. r \<in> set rows \<Longrightarrow> row_follows r (g r)"
  shows "store_wf (map g rows) \<and> list_all2 row_follows rows (map g rows)"
proof -
  have k: "op_key (g r) = op_key r" "op_id (g r) = op_id r" "state_of_text (op_state (g r)) \<noteq> None"
    if "r \<in> set rows" for r using assms(2) [OF that] by (auto simp: row_follows_def)
  have ids: "map op_id (map g rows) = map op_id rows" using k(2) by simp
  have keys: "keys_of (map g rows) = keys_of rows" using k(1) by (rule keys_of_map)
  have "store_wf (map g rows)" unfolding store_wf_def ids keys
    using assms(1) k(3) by (simp add: store_wf_def)
  moreover have "list_all2 row_follows rows (map g rows)"
    using assms(2) by (simp add: list_all2_map2 list_all2_same)
  ultimately show ?thesis by simp
qed

lemma update_sgrow:
  assumes "\<And>r. state_of_text (op_state r) \<noteq> None \<Longrightarrow> P r \<Longrightarrow> row_follows r (f r)"
  shows "within store_grows (update_rows P f)"
proof (rule withinI)
  fix s :: "'z op_world_scheme"
  show "store_grows s (snd (update_rows P f s))"
  proof (cases "store_wf (ow_rows s)")
    case True
    then have "row_follows r (if P r then f r else r)" if "r \<in> set (ow_rows s)" for r
      using that assms row_follows_refl by (auto simp: store_wf_def)
    from map_rows_grow [OF True this] show ?thesis
      by (auto simp: store_grows_def update_rows_def intro: exI [of _ "[]"])
  qed (simp add: store_grows_def)
qed

lemma wf_unique: "store_wf rows \<Longrightarrow> r \<in> set rows \<Longrightarrow> r' \<in> set rows \<Longrightarrow> op_id r = op_id r' \<Longrightarrow> r = r'"
  by (auto simp: store_wf_def distinct_map inj_on_def)

lemma can_transition_live: "can_transition a b \<Longrightarrow> \<not> is_terminal a"
  using op_cycle.terminal_stuck by blast

lemma parse_state_Inr: "parse_state t = Inr a \<longleftrightarrow> state_of_text t = Some a"
  by (auto simp: parse_state_def state_of_text_def split: sum.splits)

lemma checked_transition_Inr: "checked_transition a b = Inr u \<longleftrightarrow> can_transition a b"
  by (auto simp: checked_transition_def validate_transition_def)

lemma state_of_text_id [simp]: "state_of_text (state_id a) = Some a"
  by (rule op_ids.roundtrip)

lemma transition_check_Inr:
  assumes "transition_check i target s = (Inr to, t)"
  shows "\<exists>r a. find (\<lambda>r. op_id r = i) (ow_rows s) = Some r \<and> state_of_text (op_state r) = Some a \<and>
     state_of_text target = Some to \<and> can_transition a to \<and> ow_rows t = ow_rows s"
  using assms
  by (auto simp: transition_check_def act_Inr parse_state_Inr checked_transition_Inr
      dest: op_get_Inr op_get_rows)

lemma transition_check_frame: "within world_frame (transition_check i target)"
  unfolding transition_check_def by (intro frame.intros op_get_frame)

lemma complete_check_frame: "within world_frame (complete_check i target result error)"
  unfolding complete_check_def by (intro frame.intros transition_check_frame)

text \<open>A write after a check that read the same rows.\<close>

lemma checked_write_sgrow:
  assumes r: "find (\<lambda>r. op_id r = i) (ow_rows s) = Some r" "state_of_text (op_state r) = Some a" "can_transition a to"
    and f: "\<And>r. op_state (f r) = state_id to"
      "\<And>r. op_id (f r) = op_id r \<and> op_kind (f r) = op_kind r \<and> op_key (f r) = op_key r \<and>
         op_deadline (f r) = op_deadline r \<and> op_payload (f r) = op_payload r \<and>
         op_correlation (f r) = op_correlation r \<and> op_created (f r) = op_created r \<and>
         op_cancel_requested (f r) = op_cancel_requested r"
  shows "store_grows s (s\<lparr>ow_rows := map (\<lambda>r. if op_id r = i then f r else r) (ow_rows s)\<rparr>)"
  unfolding store_grows_def
proof
  assume wf: "store_wf (ow_rows s)"
  have "row_follows x (if op_id x = i then f x else x)" if x: "x \<in> set (ow_rows s)" for x
  proof (cases "op_id x = i")
    case True
    with find_Some_in [OF r(1)] wf_unique [OF wf x] have "x = r" by auto
    with True r f can_transition_live [OF r(3)] show ?thesis by (auto simp: row_follows_def)
  next
    case False
    with wf x show ?thesis by (auto simp: store_wf_def row_follows_refl)
  qed
  from map_rows_grow [OF wf this]
  show "store_wf (ow_rows (s\<lparr>ow_rows := map (\<lambda>r. if op_id r = i then f r else r) (ow_rows s)\<rparr>)) \<and>
     (\<exists>old new. ow_rows (s\<lparr>ow_rows := map (\<lambda>r. if op_id r = i then f r else r) (ow_rows s)\<rparr>) = old @ new \<and>
       list_all2 row_follows (ow_rows s) old)"
    by (auto intro: exI [of _ "[]"])
qed

lemma transition_write_grow:
  assumes "find (\<lambda>r. op_id r = i) (ow_rows s) = Some r" "state_of_text (op_state r) = Some a" "can_transition a to"
  shows "store_grows s (snd (transition_write i to s))"
proof -
  obtain x t where e: "statement ''operation transition'' s = (x, t)" by fastforce
  have rows: "ow_rows t = ow_rows s" using statement_rows [OF e] by simp
  show ?thesis
  proof (cases x)
    case (Inl d)
    then show ?thesis using e rows by (simp add: transition_write_def act_simps store_grows_rows)
  next
    case (Inr u)
    let ?f = "\<lambda>r. r\<lparr>op_state := state_id to, op_updated := w_now s\<rparr>"
    let ?t = "t\<lparr>ow_rows := map (\<lambda>r. if op_id r = i then ?f r else r) (ow_rows t)\<rparr>"
    have "store_grows t ?t" using assms rows by (intro checked_write_sgrow) auto
    then have "store_grows s ?t" using rows store_grows_rows sgrow.trans by blast
    moreover have "store_grows ?t (snd (op_get i ?t))" by (rule within_snd, rule frame_sgrow, rule op_get_frame)
    ultimately have "store_grows s (snd (op_get i ?t))" by (rule sgrow.trans)
    then show ?thesis using e Inr by (simp add: transition_write_def act_simps update_rows_def)
  qed
qed

lemma complete_write_grow:
  assumes "find (\<lambda>r. op_id r = i) (ow_rows s) = Some r" "state_of_text (op_state r) = Some a" "can_transition a to"
  shows "store_grows s (snd (complete_write i to result error s))"
proof -
  obtain x t where e: "statement ''operation complete'' s = (x, t)" by fastforce
  have rows: "ow_rows t = ow_rows s" using statement_rows [OF e] by simp
  show ?thesis
  proof (cases x)
    case (Inl d)
    then show ?thesis using e rows by (simp add: complete_write_def act_simps store_grows_rows)
  next
    case (Inr u)
    let ?f = "\<lambda>r. r\<lparr>op_state := state_id to, op_result := result, op_error := error, op_updated := w_now s\<rparr>"
    let ?t = "t\<lparr>ow_rows := map (\<lambda>r. if op_id r = i then ?f r else r) (ow_rows t)\<rparr>"
    have "store_grows t ?t" using assms rows by (intro checked_write_sgrow) auto
    then have "store_grows s ?t" using rows store_grows_rows sgrow.trans by blast
    moreover have "store_grows ?t (snd (op_get i ?t))" by (rule within_snd, rule frame_sgrow, rule op_get_frame)
    ultimately have "store_grows s (snd (op_get i ?t))" by (rule sgrow.trans)
    then show ?thesis using e Inr by (simp add: complete_write_def act_simps update_rows_def)
  qed
qed

lemma checked_then_sgrow:
  fixes m :: "('z, 'b) op_act"
  assumes "within world_frame m"
    and "\<And>s to t. m s = (Inr to, t) \<Longrightarrow> store_grows t (snd (f to t))"
  shows "within store_grows (andthen m f)"
proof (rule withinI)
  fix s :: "'z op_world_scheme"
  obtain x t where m: "m s = (x, t)" by fastforce
  have st: "store_grows s t" using withinD [OF frame_sgrow [OF assms(1)] m] .
  show "store_grows s (snd (andthen m f s))"
  proof (cases x)
    case (Inr to)
    with assms(2) m have "store_grows t (snd (f to t))" by blast
    with st sgrow.trans Inr m show ?thesis by (auto simp: andthen_def)
  qed (use m st in \<open>simp add: andthen_def\<close>)
qed

lemma op_transition_sgrow: "within store_grows (op_transition i target)"
  unfolding op_transition_def
  by (rule checked_then_sgrow [OF transition_check_frame])
     (auto dest!: transition_check_Inr intro: transition_write_grow)

lemma complete_check_Inr: "complete_check i target result error s = (Inr to, t) \<Longrightarrow>
    transition_check i target s = (Inr to, t)"
  by (auto simp: complete_check_def act_Inr)

lemma op_complete_sgrow: "within store_grows (op_complete i target result error)"
  unfolding op_complete_def
  by (rule checked_then_sgrow [OF complete_check_frame])
     (auto dest!: complete_check_Inr transition_check_Inr intro: complete_write_grow)

lemma same_state_follows:
  assumes "state_of_text (op_state r) \<noteq> None" and "op_state r' = op_state r"
    and "op_id r' = op_id r \<and> op_kind r' = op_kind r \<and> op_key r' = op_key r \<and>
         op_deadline r' = op_deadline r \<and> op_payload r' = op_payload r \<and>
         op_correlation r' = op_correlation r \<and> op_created r' = op_created r \<and>
         op_result r' = op_result r \<and> op_error r' = op_error r"
    and "op_cancel_requested r \<longrightarrow> op_cancel_requested r'"
  shows "row_follows r r'"
  using assms by (auto simp: row_follows_def)

lemma live_moves_follow:
  assumes "state_of_text (op_state r) = Some a" and "can_transition a b" and "op_state r' = state_id b"
    and "op_id r' = op_id r \<and> op_kind r' = op_kind r \<and> op_key r' = op_key r \<and>
         op_deadline r' = op_deadline r \<and> op_payload r' = op_payload r \<and>
         op_correlation r' = op_correlation r \<and> op_created r' = op_created r \<and>
         op_cancel_requested r' = op_cancel_requested r"
  shows "row_follows r r'"
  using assms can_transition_live [OF assms(2)] by (auto simp: row_follows_def)

lemma op_record_progress_sgrow: "within store_grows (op_record_progress i c w m)"
  unfolding op_record_progress_def
  by (intro sgrow.intros frame_sgrow [OF statement_frame] update_sgrow) (rule same_state_follows, simp_all)

lemma op_request_cancel_sgrow: "within store_grows (op_request_cancel i)"
  unfolding op_request_cancel_def
  by (intro sgrow.intros frame_sgrow [OF statement_frame] frame_sgrow [OF op_get_frame] update_sgrow
      op_transition_sgrow) (rule same_state_follows, simp_all)

lemma state_of_live_texts: "state_of_text ''pending'' = Some Pending" "state_of_text ''running'' = Some Running"
    "state_of_text ''cancelling'' = Some Cancelling"
  by (simp_all add: state_of_text_def state_from_id_def)

lemma claim_row_follows: "op_state r = ''pending'' \<Longrightarrow> row_follows r (claim_row worker now r)"
  by (rule live_moves_follow [of _ Pending Running]) (simp_all add: claim_row_def state_of_live_texts)

lemma atomically_sgrow: "within store_grows m \<Longrightarrow> within store_grows (atomically undo_rows m)"
  unfolding within_def atomically_def undo_rows_def
  by (auto split: prod.splits sum.splits intro: store_grows_rows) (metis snd_conv)

lemma claim_tx_sgrow: "within store_grows (claim_tx worker now)"
proof -
  have u: "within store_grows (update_rows (\<lambda>x. op_id x = i \<and> op_state x = ''pending'') (claim_row worker now))" for i
    by (rule update_sgrow) (simp add: claim_row_follows)
  show ?thesis unfolding claim_tx_def
    by (intro atomically_sgrow sgrow.andthen frame_sgrow [OF statement_frame] sgrow.asks)
       (auto split: list.split intro!: sgrow.intros u frame_sgrow [OF statement_frame])
qed

lemma op_claim_pending_sgrow: "within store_grows (op_claim_pending worker now)"
  unfolding op_claim_pending_def
  by (intro sgrow.intros claim_tx_sgrow frame_sgrow [OF op_get_frame])

lemma claim_by_id_update_sgrow: "within store_grows (claim_by_id_update i worker now)"
  unfolding claim_by_id_update_def
  by (intro sgrow.intros frame_sgrow [OF statement_frame] update_sgrow)
     (simp add: claim_row_follows claimable_def)

lemma op_claim_pending_by_id_sgrow: "within store_grows (op_claim_pending_by_id i worker now)"
  unfolding op_claim_pending_by_id_def
  by (intro sgrow.intros claim_by_id_update_sgrow frame_sgrow [OF op_get_frame])

lemma op_renew_lease_sgrow: "within store_grows (op_renew_lease i worker now lease)"
  unfolding op_renew_lease_def
  by (intro sgrow.intros frame_sgrow [OF statement_frame] update_sgrow) (rule same_state_follows, simp_all)

lemma op_fail_expired_claim_sgrow: "within store_grows (op_fail_expired_claim i c now e)"
proof -
  have "row_follows r (r\<lparr>op_state := ''failed'', op_error := Some e, op_updated := now\<rparr>)"
    if "op_state r = ''running'' \<or> op_state r = ''cancelling''" for r
    using that live_moves_follow [of r Running Failed] live_moves_follow [of r Cancelling Failed]
    by (auto simp: state_of_live_texts)
  then show ?thesis unfolding op_fail_expired_claim_def
    by (intro sgrow.intros frame_sgrow [OF statement_frame] update_sgrow) auto
qed

lemma insert_row_grow:
  assumes "\<not> unique_violation (ow_rows s) i key"
  shows "store_grows s (s\<lparr>ow_rows := ow_rows s @ [new_row i kind key d c p now]\<rparr>)"
proof -
  have "store_wf (ow_rows s @ [new_row i kind key d c p now])" if "store_wf (ow_rows s)"
    using that assms
    by (auto simp: store_wf_def unique_violation_def new_row_def keys_of_def list_ex_iff state_of_live_texts
        split: option.splits)
  then show ?thesis using rows_follow_refl by (auto simp: store_grows_def)
qed

lemma op_create_sgrow: "within store_grows (op_create kind key d c p :: ('z, operation) op_act)"
  unfolding op_create_def
proof (rule sgrow.andthen [OF frame_sgrow [OF fresh_uuid_frame]], rule sgrow.andthen [OF sgrow.asks],
    rule sgrow.andthen [OF frame_sgrow [OF statement_frame]])
  fix i now u
  let ?ins = "\<lambda>s :: 'z op_world_scheme. s\<lparr>ow_rows := ow_rows s @ [new_row i kind key d c p now]\<rparr>"
  let ?lookup = "andthen (map_err (\<lambda>_. raced) external) (\<lambda>_.
     andthen (asks (\<lambda>s. case key of None \<Rightarrow> None | Some k \<Rightarrow> find (\<lambda>r. op_key r = Some k) (ow_rows s))) (\<lambda>existing.
     case existing of None \<Rightarrow> fail raced | Some r \<Rightarrow> op_get (op_id r)))"
  have b: "within store_grows ?lookup"
    by (intro sgrow.intros frame_sgrow [OF external_frame] frame_sgrow [OF op_get_frame])
  show "within store_grows (andthen (asks (\<lambda>s. unique_violation (ow_rows s) i key)) (\<lambda>violated.
      if \<not> violated then andthen (modify ?ins) (\<lambda>_. op_get i) else ?lookup))"
  proof (rule withinI)
    fix s :: "'z op_world_scheme"
    show "store_grows s (snd (andthen (asks (\<lambda>s. unique_violation (ow_rows s) i key)) (\<lambda>violated.
      if \<not> violated then andthen (modify ?ins) (\<lambda>_. op_get i) else ?lookup) s))"
    proof (cases "unique_violation (ow_rows s) i key")
      case True
      then show ?thesis using within_snd [OF b, of s] by (simp add: andthen_def asks_def)
    next
      case False
      have "store_grows (?ins s) (snd (op_get i (?ins s)))"
        by (rule within_snd, rule frame_sgrow, rule op_get_frame)
      with insert_row_grow [OF False, of kind d c p now] have "store_grows s (snd (op_get i (?ins s)))"
        by (rule sgrow.trans)
      then show ?thesis using False by (simp add: andthen_def asks_def modify_def)
    qed
  qed
qed

text \<open>The mutations of the store, in the order it serialises them; \<open>ClockCall\<close> is time passing.\<close>

datatype store_call =
    CreateCall string "string option" "int option" "string option" "string option"
  | CancelCall string
  | TransitionCall string string
  | CompleteCall string string "string option" "string option"
  | ProgressCall string "int option" "int option" "string option"
  | ClaimCall string int
  | ClaimByIdCall string string int
  | RenewCall string string int int
  | FailExpiredCall string int int string
  | ClockCall int

fun run_store :: "store_call \<Rightarrow> 'z op_world_scheme \<Rightarrow> 'z op_world_scheme" where
  "run_store (CreateCall kind key d c p) s = snd (op_create kind key d c p s)"
| "run_store (CancelCall i) s = snd (op_request_cancel i s)"
| "run_store (TransitionCall i target) s = snd (op_transition i target s)"
| "run_store (CompleteCall i target r e) s = snd (op_complete i target r e s)"
| "run_store (ProgressCall i c w m) s = snd (op_record_progress i c w m s)"
| "run_store (ClaimCall worker now) s = snd (op_claim_pending worker now s)"
| "run_store (ClaimByIdCall i worker now) s = snd (op_claim_pending_by_id i worker now s)"
| "run_store (RenewCall i worker now lease) s = snd (op_renew_lease i worker now lease s)"
| "run_store (FailExpiredCall i claimed now e) s = snd (op_fail_expired_claim i claimed now e s)"
| "run_store (ClockCall now) s = s\<lparr>w_now := now\<rparr>"

lemmas store_sgrow = op_create_sgrow op_request_cancel_sgrow op_transition_sgrow op_complete_sgrow
  op_record_progress_sgrow op_claim_pending_sgrow op_claim_pending_by_id_sgrow op_renew_lease_sgrow
  op_fail_expired_claim_sgrow

lemma run_store_sgrow: "store_grows s (run_store call s)"
  by (cases call) (simp_all add: store_grows_rows within_snd [where R = store_grows, OF op_create_sgrow]
      within_snd [where R = store_grows, OF op_request_cancel_sgrow]
      within_snd [where R = store_grows, OF op_transition_sgrow]
      within_snd [where R = store_grows, OF op_complete_sgrow]
      within_snd [where R = store_grows, OF op_record_progress_sgrow]
      within_snd [where R = store_grows, OF op_claim_pending_sgrow]
      within_snd [where R = store_grows, OF op_claim_pending_by_id_sgrow]
      within_snd [where R = store_grows, OF op_renew_lease_sgrow]
      within_snd [where R = store_grows, OF op_fail_expired_claim_sgrow])

lemma run_stores_sgrow: "store_grows s (fold run_store calls s)"
  by (induction calls arbitrary: s) (auto intro: sgrow.refl sgrow.trans run_store_sgrow)

section \<open>Claims as a compare-and-set\<close>

definition stored_state :: "'z op_world_scheme \<Rightarrow> string \<Rightarrow> string option" where
  "stored_state s i = map_option op_state (find (\<lambda>r. op_id r = i) (ow_rows s))"

definition ids_unique :: "'z op_world_scheme \<Rightarrow> bool" where
  "ids_unique s \<longleftrightarrow> distinct (map op_id (ow_rows s))"

text \<open>A worker's claim of one operation; a failed statement is a lost claim.\<close>

definition claim_cas :: "string \<Rightarrow> string \<times> int \<Rightarrow> 'z op_world_scheme \<Rightarrow> bool \<times> 'z op_world_scheme" where
  "claim_cas i u s = (case claim_by_id_update i (fst u) (snd u) s of
     (Inr n, t) \<Rightarrow> (n > 0, t) | (Inl _, t) \<Rightarrow> (False, t))"

lemma find_map_same: "(\<And>r. op_id (g r) = op_id r) \<Longrightarrow>
    find (\<lambda>r. op_id r = i) (map g rows) = map_option g (find (\<lambda>r. op_id r = i) rows)"
  by (induction rows) auto

lemma claim_update_cases:
  assumes "claim_by_id_update i worker now s = (x, t)"
  shows "(\<exists>d. x = Inl d \<and> ow_rows t = ow_rows s) \<or>
    (x = Inr (length (filter (\<lambda>r. op_id r = i \<and> claimable now r) (ow_rows s))) \<and>
     ow_rows t = map (\<lambda>r. if op_id r = i \<and> claimable now r then claim_row worker now r else r) (ow_rows s))"
  using assms
  by (auto simp: claim_by_id_update_def update_rows_def andthen_def dest!: statement_rows
      split: prod.splits sum.splits)

lemma claim_row_id [simp]: "op_id (claim_row worker now r) = op_id r" "op_state (claim_row worker now r) = ''running''"
  by (simp_all add: claim_row_def)

lemma find_unique:
  assumes "distinct (map op_id rows)" and "r \<in> set rows"
  shows "find (\<lambda>x. op_id x = op_id r) rows = Some r"
  using assms by (induction rows) auto

interpretation claims: compare_and_set ids_unique stored_state claim_cas "\<lambda>_. ''pending''" "\<lambda>_. ''running''"
proof unfold_locales
  fix w w' :: "'z op_world_scheme" and k and u :: "string \<times> int"
  assume ok: "ids_unique w"
  obtain x t where c: "claim_by_id_update k (fst u) (snd u) w = (x, t)" by fastforce
  let ?P = "\<lambda>r. op_id r = k \<and> claimable (snd u) r"
  let ?g = "\<lambda>r. if ?P r then claim_row (fst u) (snd u) r else r"
  have ids: "map op_id (map ?g rows) = map op_id rows" for rows by simp
  note cases = claim_update_cases [OF c]
  show "ids_unique (snd (claim_cas k u w))"
  proof -
    have "ow_rows t = ow_rows w \<or> ow_rows t = map ?g (ow_rows w)" using cases by blast
    then have "map op_id (ow_rows t) = map op_id (ow_rows w)" using ids by (elim disjE) simp_all
    moreover have "snd (claim_cas k u w) = t" by (simp add: claim_cas_def c split: sum.split)
    ultimately show ?thesis using ok by (simp add: ids_unique_def)
  qed
  show "claim_cas k u w = (True, w') \<Longrightarrow> stored_state w k = Some ''pending'' \<and> stored_state w' k = Some ''running''"
  proof -
    assume "claim_cas k u w = (True, w')"
    with cases have n: "filter ?P (ow_rows w) \<noteq> []" "ow_rows w' = map ?g (ow_rows w)"
      by (auto simp: claim_cas_def c split: sum.splits)
    from n(1) obtain r where r: "r \<in> set (ow_rows w)" "?P r" by (auto simp: filter_empty_conv)
    then have "find (\<lambda>x. op_id x = k) (ow_rows w) = Some r"
      using find_unique ok by (auto simp: ids_unique_def)
    moreover then have "find (\<lambda>x. op_id x = k) (ow_rows w') = Some (?g r)"
      unfolding n(2) by (subst find_map_same) auto
    ultimately show ?thesis using r by (simp add: stored_state_def claimable_def)
  qed
  show "claim_cas k u w = (False, w') \<Longrightarrow> stored_state w' k = stored_state w k"
  proof -
    assume "claim_cas k u w = (False, w')"
    with cases have "ow_rows w' = ow_rows w \<or> (filter ?P (ow_rows w) = [] \<and> ow_rows w' = map ?g (ow_rows w))"
      by (auto simp: claim_cas_def c split: sum.splits)
    moreover have "map ?g (ow_rows w) = ow_rows w" if "filter ?P (ow_rows w) = []"
      using that by (intro map_idI) (auto simp: filter_empty_conv)
    ultimately show ?thesis by (auto simp: stored_state_def)
  qed
qed

section \<open>Properties\<close>

text \<open>
  C4. The store's history: whatever calls are made, whatever statements fail and however
  time moves, ids and idempotency keys stay unique, every state stays a known one, and each
  row keeps its creation facts, moves only along legal transitions and, once terminal,
  keeps its state, result and error.
\<close>

theorem store_history:
  assumes "store_wf (ow_rows s)" and "t = fold run_store calls s"
  shows "store_wf (ow_rows t) \<and> length (ow_rows s) \<le> length (ow_rows t) \<and>
    list_all2 row_follows (ow_rows s) (take (length (ow_rows s)) (ow_rows t))"
proof -
  obtain old new where "ow_rows t = old @ new" "list_all2 row_follows (ow_rows s) old" "store_wf (ow_rows t)"
    using run_stores_sgrow [of s calls] assms by (auto simp: store_grows_def)
  moreover then have "length old = length (ow_rows s)" by (simp add: list_all2_lengthD)
  ultimately show ?thesis by simp
qed

lemma fresh_uuid_rows: "fresh_uuid s = (Inr i, t) \<Longrightarrow> ow_rows t = ow_rows s"
  by (auto simp: fresh_uuid_def)

lemma op_create_Inr:
  fixes s :: "'z op_world_scheme"
  assumes "op_create kind (Some k) d c p s = (Inr r, t)" and "store_wf (ow_rows s)"
  shows "op_key r = Some k \<and> r \<in> set (ow_rows t) \<and>
    (if k \<in> set (keys_of (ow_rows s)) then ow_rows t = ow_rows s
     else ow_rows t = ow_rows s @ [r] \<and> op_state r = ''pending'' \<and> op_kind r = kind \<and> op_payload r = p)"
proof -
  have key: "k \<in> set (keys_of rows) \<longleftrightarrow> (\<exists>r \<in> set rows. op_key r = Some k)" for rows
    by (force simp: keys_of_def split: option.splits)
  let ?ins = "\<lambda>i now v. v\<lparr>ow_rows := ow_rows v @ [new_row i kind (Some k) d c p now]\<rparr>"
  obtain i u v z where f: "(fresh_uuid :: ('z, string) op_act) s = (Inr i, u)" and st: "statement ''operation create'' u = (Inr z, v)"
    and rest: "(if \<not> unique_violation (ow_rows v) i (Some k)
      then andthen (modify (?ins i (w_now u))) (\<lambda>_. op_get i)
      else andthen (map_err (\<lambda>_. raced) external) (\<lambda>_.
          andthen (asks (\<lambda>s. case Some k of None \<Rightarrow> None
                              | Some k \<Rightarrow> find (\<lambda>r. op_key r = Some k) (ow_rows s))) (\<lambda>existing.
          case existing of None \<Rightarrow> fail raced | Some r \<Rightarrow> op_get (op_id r)))) v = (Inr r, t)"
    using assms(1) by (auto simp only: op_create_def andthen_Inr asks_Inr)
  have i: "ow_rows u = ow_rows s" "ow_rows v = ow_rows s"
    using fresh_uuid_rows [OF f] statement_rows [OF st] by simp_all
  have m: "if \<not> unique_violation (ow_rows s) i (Some k)
        then op_get i (v\<lparr>ow_rows := ow_rows v @ [new_row i kind (Some k) d c p (w_now u)]\<rparr>) = (Inr r, t)
        else \<exists>x w. external v = (x, w) \<and> (\<exists>q. find (\<lambda>r. op_key r = Some k) (ow_rows w) = Some q \<and> op_get (op_id q) w = (Inr r, t))"
    using rest i by (auto simp: act_Inr)
  show ?thesis
  proof (cases "unique_violation (ow_rows s) i (Some k)")
    case False
    let ?v = "v\<lparr>ow_rows := ow_rows v @ [new_row i kind (Some k) d c p (w_now u)]\<rparr>"
    from False m have g: "op_get i ?v = (Inr r, t)" by simp
    have none: "find (\<lambda>r. op_id r = i) (ow_rows s) = None"
      using False by (auto simp: unique_violation_def find_None_iff list_ex_iff)
    have "find (\<lambda>r. op_id r = i) (rows @ [x]) = Some x"
      if "find (\<lambda>r. op_id r = i) rows = None" "op_id x = i" for rows x
      using that by (induction rows) (auto split: if_splits)
    from this [OF none] op_get_Inr [OF g] i have "r = new_row i kind (Some k) d c p (w_now u)"
      by (simp add: new_row_def)
    moreover have "ow_rows t = ow_rows ?v" using op_get_rows [OF g] by simp
    moreover have "k \<notin> set (keys_of (ow_rows s))"
      using False by (auto simp: unique_violation_def list_ex_iff key)
    ultimately show ?thesis using i by (simp add: new_row_def)
  next
    case True
    then obtain x w q where w: "external v = (x, w)" "find (\<lambda>r. op_key r = Some k) (ow_rows w) = Some q"
      "op_get (op_id q) w = (Inr r, t)" using m by auto
    have rows: "ow_rows w = ow_rows s" using frame_ops [OF external_frame w(1)] i by simp
    have q: "q \<in> set (ow_rows s)" "op_key q = Some k" using find_Some_in [OF w(2)] rows by auto
    have "r \<in> set (ow_rows s)" "op_id r = op_id q" using find_Some_in [OF op_get_Inr [OF w(3)]] rows by auto
    then have "r = q" using wf_unique [OF assms(2)] q by blast
    then show ?thesis using q op_get_rows [OF w(3)] rows key by auto
  qed
qed

text \<open>
  Creation is idempotent in its key: a successful create answers the operation that
  holds the key; it adds a row exactly when the key was not in use, and then that row is
  pending with the requested kind and payload, otherwise the original is returned and no
  row changes.
\<close>

theorem create_idempotent:
  assumes "op_create kind (Some k) d c p s = (Inr r, t)" and "store_wf (ow_rows s)"
  shows "op_key r = Some k \<and> r \<in> set (ow_rows t) \<and>
    (if k \<in> set (keys_of (ow_rows s)) then ow_rows t = ow_rows s
     else ow_rows t = ow_rows s @ [r] \<and> op_state r = ''pending'' \<and> op_kind r = kind \<and> op_payload r = p)"
  using op_create_Inr [OF assms] .

text \<open>A claim that wins writes its worker and time into the row; one that loses leaves the table alone.\<close>

lemma claim_cas_rows:
  assumes "ids_unique s" and "claim_cas i u s = (b, t)"
  shows "if b then \<exists>r. find (\<lambda>r. op_id r = i) (ow_rows s) = Some r \<and> claimable (snd u) r \<and>
      find (\<lambda>r. op_id r = i) (ow_rows t) = Some (claim_row (fst u) (snd u) r)
    else ow_rows t = ow_rows s"
proof -
  obtain x t' where c: "claim_by_id_update i (fst u) (snd u) s = (x, t')" by fastforce
  let ?P = "\<lambda>r. op_id r = i \<and> claimable (snd u) r"
  let ?g = "\<lambda>r. if ?P r then claim_row (fst u) (snd u) r else r"
  note cases = claim_update_cases [OF c]
  show ?thesis
  proof (cases b)
    case True
    with cases assms(2) have n: "filter ?P (ow_rows s) \<noteq> []" "ow_rows t = map ?g (ow_rows s)"
      by (auto simp: claim_cas_def c split: sum.splits)
    from n(1) obtain r where r: "r \<in> set (ow_rows s)" "?P r" by (auto simp: filter_empty_conv)
    then have f: "find (\<lambda>x. op_id x = i) (ow_rows s) = Some r"
      using find_unique assms(1) by (auto simp: ids_unique_def)
    then have "find (\<lambda>x. op_id x = i) (ow_rows t) = Some (?g r)" unfolding n(2) by (subst find_map_same) auto
    with f r True show ?thesis by simp
  next
    case False
    have "map ?g (ow_rows s) = ow_rows s" if "filter ?P (ow_rows s) = []"
      using that by (intro map_idI) (auto simp: filter_empty_conv)
    with cases assms(2) False show ?thesis by (auto simp: claim_cas_def c split: sum.splits)
  qed
qed

lemma claim_race_rows:
  assumes "ids_unique s" and "cas_run claim_cas i workers s = (wins, t)"
  shows "if winners wins = 0 then ow_rows t = ow_rows s
    else \<exists>k r. k < length workers \<and> wins ! k \<and> find (\<lambda>r. op_id r = i) (ow_rows s) = Some r \<and>
      claimable (snd (workers ! k)) r \<and>
      find (\<lambda>r. op_id r = i) (ow_rows t) = Some (claim_row (fst (workers ! k)) (snd (workers ! k)) r)"
  using assms
proof (induction workers arbitrary: s wins)
  case Nil
  then show ?case by (simp add: winners_def)
next
  case (Cons u us)
  obtain b w bs where c: "claim_cas i u s = (b, w)" and rest: "cas_run claim_cas i us w = (bs, t)"
    and wins: "wins = b # bs" using Cons.prems(2) by (auto split: prod.splits)
  note row = claim_cas_rows [OF Cons.prems(1) c]
  have w: "ids_unique w" by (rule claims.ok_after [OF Cons.prems(1) c])
  note later = Cons.IH [OF w rest]
  show ?case
  proof (cases b)
    case True
    with row obtain r where r: "find (\<lambda>r. op_id r = i) (ow_rows s) = Some r" "claimable (snd u) r"
      "find (\<lambda>r. op_id r = i) (ow_rows w) = Some (claim_row (fst u) (snd u) r)" by auto
    then have "stored_state w i \<noteq> Some ''pending''" by (simp add: stored_state_def)
    from claims.no_winner [OF w this, of us] rest have "winners bs = 0" by simp
    with later have "ow_rows t = ow_rows w" by simp
    with r True show ?thesis unfolding wins by (simp add: winners_def) (rule exI [of _ 0], simp)
  next
    case False
    with row have same: "ow_rows w = ow_rows s" by simp
    show ?thesis
    proof (cases "winners bs = 0")
      case True
      with later same False show ?thesis unfolding wins by (simp add: winners_def)
    next
      case won: False
      with later same obtain k r where "k < length us" "bs ! k" "find (\<lambda>r. op_id r = i) (ow_rows s) = Some r"
        "claimable (snd (us ! k)) r"
        "find (\<lambda>r. op_id r = i) (ow_rows t) = Some (claim_row (fst (us ! k)) (snd (us ! k)) r)" by auto
      with won False show ?thesis unfolding wins
        by (simp add: winners_def) (intro exI [of _ "Suc k"], simp)
    qed
  qed
qed

text \<open>
  C7. An operation is claimed at most once: of any number of workers that race to claim one
  operation, in whatever order the store serialises their updates, at most one wins. Without a
  winner the table is as before; with one, the operation was pending and not past its deadline,
  and the stored row is the original, running, with the winner as its worker and the winner's
  claim time.
\<close>

theorem claim_exclusive:
  assumes "ids_unique s" and "cas_run claim_cas i workers s = (wins, t)"
  shows "winners wins \<le> 1 \<and>
    (if winners wins = 0 then ow_rows t = ow_rows s
     else \<exists>k worker now r. k < length workers \<and> wins ! k \<and> workers ! k = (worker, now) \<and>
       find (\<lambda>r. op_id r = i) (ow_rows s) = Some r \<and> op_state r = ''pending'' \<and> opt_all (\<lambda>d. d > now) (op_deadline r) \<and>
       find (\<lambda>r. op_id r = i) (ow_rows t) =
         Some (r\<lparr>op_state := ''running'', op_worker := Some worker, op_claimed := Some now, op_updated := now\<rparr>))"
proof -
  have "winners wins \<le> 1" using claims.at_most_one [OF assms(1), of workers "''pending''" i] assms(2) by simp
  moreover have "\<exists>k worker now r. k < length workers \<and> wins ! k \<and> workers ! k = (worker, now) \<and>
       find (\<lambda>r. op_id r = i) (ow_rows s) = Some r \<and> op_state r = ''pending'' \<and> opt_all (\<lambda>d. d > now) (op_deadline r) \<and>
       find (\<lambda>r. op_id r = i) (ow_rows t) =
         Some (r\<lparr>op_state := ''running'', op_worker := Some worker, op_claimed := Some now, op_updated := now\<rparr>)"
    if "winners wins \<noteq> 0"
  proof -
    from claim_race_rows [OF assms] that obtain k r where "k < length workers" "wins ! k"
      "find (\<lambda>r. op_id r = i) (ow_rows s) = Some r" "claimable (snd (workers ! k)) r"
      "find (\<lambda>r. op_id r = i) (ow_rows t) = Some (claim_row (fst (workers ! k)) (snd (workers ! k)) r)" by auto
    then show ?thesis
      by (intro exI [of _ k] exI [of _ "fst (workers ! k)"] exI [of _ "snd (workers ! k)"] exI [of _ r])
         (simp add: claimable_def claim_row_def)
  qed
  ultimately show ?thesis using claim_race_rows [OF assms] by simp
qed

lemma guarded_update_Inr:
  assumes "andthen (statement c) (\<lambda>_. andthen (update_rows P f) (\<lambda>n. ret (g n))) s = (Inr x, t)"
  shows "x = g (length (filter P (ow_rows s))) \<and> ow_rows t = map (\<lambda>r. if P r then f r else r) (ow_rows s)"
  using assms by (auto simp: act_Inr update_rows_def dest!: statement_rows)

lemma renew_Inr:
  "op_renew_lease i w now lease s = (Inr b, t) \<Longrightarrow>
    b = list_ex (\<lambda>r. op_id r = i \<and> op_worker r = Some w \<and> live_claim r \<and>
                           the (op_claimed r) \<ge> saturating_sub now lease) (ow_rows s) \<and>
    ow_rows t = map (\<lambda>r. if op_id r = i \<and> op_worker r = Some w \<and> live_claim r \<and>
                           the (op_claimed r) \<ge> saturating_sub now lease
       then r\<lparr>op_claimed := Some now, op_updated := now\<rparr> else r) (ow_rows s)"
  unfolding op_renew_lease_def
  by (drule guarded_update_Inr) (auto simp: list_ex_iff filter_empty_conv)

lemma fail_expired_Inr:
  "op_fail_expired_claim i c now e s = (Inr b, t) \<Longrightarrow>
    b = list_ex (\<lambda>r. op_id r = i \<and> op_state r \<in> {''running'', ''cancelling''} \<and> op_claimed r = Some c) (ow_rows s) \<and>
    ow_rows t = map (\<lambda>r. if op_id r = i \<and> op_state r \<in> {''running'', ''cancelling''} \<and> op_claimed r = Some c
       then r\<lparr>op_state := ''failed'', op_error := Some e, op_updated := now\<rparr> else r) (ow_rows s)"
  unfolding op_fail_expired_claim_def
  by (drule guarded_update_Inr) (auto simp: list_ex_iff filter_empty_conv)

lemma find_op: "ids_unique s \<Longrightarrow> find (\<lambda>r. op_id r = i) (ow_rows s) = Some r \<Longrightarrow>
    x \<in> set (ow_rows s) \<Longrightarrow> op_id x = i \<Longrightarrow> x = r"
  using find_unique [of "ow_rows s" x] by (simp add: ids_unique_def)

lemma map_no_match: "\<not> list_ex P xs \<Longrightarrow> map (\<lambda>x. if P x then f x else x) xs = xs"
  by (intro map_idI) (auto simp: list_ex_iff)

text \<open>
  A heartbeat that wins protects the claim: a renewal succeeds only for the worker
  that owns a claim within its lease, and then a recovery that had read the old claim time
  changes nothing.
\<close>

theorem heartbeat_protects:
  assumes "ids_unique s" and "find (\<lambda>r. op_id r = i) (ow_rows s) = Some r" and "op_claimed r = Some c"
    and "op_renew_lease i w now lease s = (Inr True, t)" and "c \<noteq> now"
    and "op_fail_expired_claim i c at e t = (Inr b, u)"
  shows "op_worker r = Some w \<and> c \<ge> saturating_sub now lease \<and> \<not> b \<and> ow_rows u = ow_rows t"
proof -
  note same = find_op [OF assms(1,2)]
  note n = renew_Inr [OF assms(4)] and f = fail_expired_Inr [OF assms(6)]
  have r: "op_worker r = Some w" "c \<ge> saturating_sub now lease" "live_claim r"
    using n assms(3) same by (auto simp: list_ex_iff)
  have "\<not> b"
  proof
    assume b
    with f obtain x where x: "x \<in> set (ow_rows t)" "op_id x = i" "op_claimed x = Some c" by (auto simp: list_ex_iff)
    from x(1) n obtain y where y: "y \<in> set (ow_rows s)"
      "x = (if op_id y = i \<and> op_worker y = Some w \<and> live_claim y \<and> the (op_claimed y) \<ge> saturating_sub now lease
            then y\<lparr>op_claimed := Some now, op_updated := now\<rparr> else y)" by auto
    with x(2) have "op_id y = i" by (auto split: if_splits)
    with same y(1) have "y = r" by blast
    with y(2) r assms(3) \<open>op_id y = i\<close> have "op_claimed x = Some now" by simp
    with x(3) assms(5) show False by simp
  qed
  with f r show ?thesis by (simp add: map_no_match)
qed

text \<open>
  A recovery that wins is final: an operation it fails reads as failed, and no
  heartbeat of any worker, at any time and for any lease, changes a row of it afterwards.
\<close>

theorem recovery_final:
  assumes "ids_unique s" and "op_fail_expired_claim i c at e s = (Inr True, t)"
    and "op_renew_lease i w now lease t = (Inr b, u)"
  shows "stored_state t i = Some ''failed'' \<and> \<not> b \<and> ow_rows u = ow_rows t"
proof -
  let ?P = "\<lambda>r. op_id r = i \<and> op_state r \<in> {''running'', ''cancelling''} \<and> op_claimed r = Some c"
  let ?f = "\<lambda>r. r\<lparr>op_state := ''failed'', op_error := Some e, op_updated := at\<rparr>"
  note f = fail_expired_Inr [OF assms(2)] and n = renew_Inr [OF assms(3)]
  from f obtain r where r: "r \<in> set (ow_rows s)" "?P r" by (auto simp: list_ex_iff)
  then have fr: "find (\<lambda>r. op_id r = i) (ow_rows s) = Some r"
    using find_unique assms(1) by (auto simp: ids_unique_def)
  have ft: "find (\<lambda>r. op_id r = i) (ow_rows t) = Some (?f r)"
    unfolding conjunct2 [OF f] by (subst find_map_same) (use fr r(2) in simp_all)
  have "x = ?f r" if "x \<in> set (ow_rows t)" "op_id x = i" for x
  proof -
    from that(1) f obtain y where y: "y \<in> set (ow_rows s)" "x = (if ?P y then ?f y else y)" by auto
    then have "op_id y = i" using that(2) by (auto split: if_splits)
    then have "y = r" using find_op [OF assms(1) fr] y(1) by blast
    with y(2) r(2) show ?thesis by simp
  qed
  moreover have "\<not> live_claim (?f r)" by (simp add: live_claim_def)
  ultimately have "\<not> b" unfolding conjunct1 [OF n] list_ex_iff by metis
  with n ft show ?thesis by (simp add: stored_state_def map_no_match)
qed

lemma claim_tx_Inr:
  assumes "claim_tx worker now s = (Inr v, t)"
  shows "case oldest_first (filter (claimable now) (ow_rows s)) of
      [] \<Rightarrow> v = None \<and> ow_rows t = ow_rows s
    | r # _ \<Rightarrow> v = (if list_ex (\<lambda>x. op_id x = op_id r \<and> op_state x = ''pending'') (ow_rows s) then Some (op_id r) else None) \<and>
        ow_rows t = map (\<lambda>x. if op_id x = op_id r \<and> op_state x = ''pending'' then claim_row worker now x else x) (ow_rows s)"
proof -
  let ?ready = "\<lambda>s. oldest_first (filter (claimable now) (ow_rows s))"
  obtain x y u w where st: "statement ''claim begin'' s = (Inr x, u)" "statement ''claim select'' u = (Inr y, w)"
    and rest: "(case ?ready w of [] \<Rightarrow> ret None
      | r # _ \<Rightarrow>
          andthen (statement ''claim update'') (\<lambda>_.
          andthen (update_rows (\<lambda>x. op_id x = op_id r \<and> op_state x = ''pending'') (claim_row worker now)) (\<lambda>n.
          andthen (statement ''claim commit'') (\<lambda>_.
          ret (if n = 0 then None else Some (op_id r)))))) w = (Inr v, t)"
    using assms by (auto simp only: claim_tx_def atomically_Inr andthen_Inr asks_Inr)
  have rows: "ow_rows w = ow_rows s" using statement_rows [OF st(1)] statement_rows [OF st(2)] by simp
  show ?thesis
  proof (cases "?ready s")
    case Nil
    with rest rows show ?thesis by (simp add: ret_def)
  next
    case (Cons r rs)
    let ?P = "\<lambda>x. op_id x = op_id r \<and> op_state x = ''pending''"
    obtain a b e f where q: "statement ''claim update'' w = (Inr a, b)"
      "statement ''claim commit'' (b\<lparr>ow_rows := map (\<lambda>x. if ?P x then claim_row worker now x else x) (ow_rows b)\<rparr>) = (Inr e, f)"
      "v = (if length (filter ?P (ow_rows b)) = 0 then None else Some (op_id r))" "t = f"
      using rest Cons rows by (auto simp: andthen_Inr ret_Inr update_rows_def)
    have n: "(length (filter ?P (ow_rows b)) = 0) = (\<not> list_ex ?P (ow_rows b))"
      by (auto simp: list_ex_iff filter_empty_conv)
    have "v = (if list_ex ?P (ow_rows b) then Some (op_id r) else None)" using q(3) unfolding n by simp
    then show ?thesis using q(4) statement_rows [OF q(1)] statement_rows [OF q(2)] rows Cons by simp
  qed
qed

text \<open>
  The queue is first in, first out: a successful claim takes the pending, unexpired
  operation that comes first by creation time and id, changes only it, and hands it to the
  worker running; no claim means that no operation was claimable and nothing changed.
\<close>

theorem claim_fifo:
  assumes "ids_unique s" and "op_claim_pending worker now s = (Inr v, t)"
  shows "case v of
      None \<Rightarrow> filter (claimable now) (ow_rows s) = [] \<and> ow_rows t = ow_rows s
    | Some r \<Rightarrow> (\<exists>r0. r0 \<in> set (ow_rows s) \<and> claimable now r0 \<and> r = claim_row worker now r0 \<and>
        list_all (\<lambda>x. (op_created r0, op_id r0) \<le> (op_created x, op_id x)) (filter (claimable now) (ow_rows s)) \<and>
        ow_rows t = map (\<lambda>x. if op_id x = op_id r0 then claim_row worker now x else x) (ow_rows s))"
proof -
  let ?key = "\<lambda>r. (op_created r, op_id r)"
  let ?ready = "filter (claimable now) (ow_rows s)"
  obtain c u where c: "claim_tx worker now s = (Inr c, u)"
    and g: "(case c of None \<Rightarrow> ret None | Some i \<Rightarrow> andthen (op_get i) (\<lambda>r. ret (Some r))) u = (Inr v, t)"
    using assms(2) by (auto simp: op_claim_pending_def andthen_Inr)
  show ?thesis
  proof (cases "oldest_first ?ready")
    case Nil
    then have "?ready = []" by (metis length_0_conv length_sort oldest_first_def)
    with claim_tx_Inr [OF c] Nil g show ?thesis by (simp add: ret_def)
  next
    case (Cons r0 rest)
    have s: "set ?ready = set (r0 # rest)" using Cons by (metis oldest_first_def set_sort)
    then have r0: "r0 \<in> set (ow_rows s)" "claimable now r0" by auto
    have "sorted (map ?key (r0 # rest))" using Cons by (metis oldest_first_def sorted_sort_key)
    then have first: "\<forall>x \<in> set ?ready. ?key r0 \<le> ?key x" using s by auto
    have one: "op_id x = op_id r0 \<and> op_state x = ''pending'' \<longleftrightarrow> op_id x = op_id r0"
      if "x \<in> set (ow_rows s)" for x
      using that r0 find_unique [of "ow_rows s"] assms(1)
      by (auto simp: ids_unique_def claimable_def dest: distinct_map [THEN iffD1, THEN conjunct2] inj_onD)
    have "list_ex (\<lambda>x. op_id x = op_id r0 \<and> op_state x = ''pending'') (ow_rows s)"
      using r0 by (auto simp: list_ex_iff claimable_def)
    with claim_tx_Inr [OF c] Cons have c': "c = Some (op_id r0)"
      "ow_rows u = map (\<lambda>x. if op_id x = op_id r0 \<and> op_state x = ''pending'' then claim_row worker now x else x) (ow_rows s)"
      by auto
    then have u: "ow_rows u = map (\<lambda>x. if op_id x = op_id r0 then claim_row worker now x else x) (ow_rows s)"
      using one by (simp add: map_eq_conv)
    from g c' obtain r where r: "op_get (op_id r0) u = (Inr r, t)" "v = Some r" by (auto simp: act_Inr)
    have "find (\<lambda>x. op_id x = op_id r0) (ow_rows s) = Some r0"
      using find_unique assms(1) r0(1) by (simp add: ids_unique_def)
    then have "find (\<lambda>x. op_id x = op_id r0) (ow_rows u) = Some (claim_row worker now r0)"
      unfolding u by (subst find_map_same) simp_all
    with op_get_Inr [OF r(1)] op_get_rows [OF r(1)] r(2) r0 first u show ?thesis
      by (auto simp: list_all_iff)
  qed
qed

text \<open>
  The store's completion is a read and a write, and the write does not check the state
  again: a completion whose read came before a recovery overwrites the recovered, terminal
  row, so that a failed operation becomes whatever the late completion says.
\<close>

theorem stale_completion_overwrites:
  assumes "ids_unique s" and "complete_check i target result error s = (Inr to, s1)"
    and "op_fail_expired_claim i c now e s1 = (Inr True, s2)"
    and "complete_write i to result error s2 = (Inr r, s3)"
  shows "stored_state s2 i = Some ''failed'' \<and> stored_state s3 i = Some (state_id to) \<and> op_result r = result"
proof -
  have rows1: "ow_rows s1 = ow_rows s" using frame_ops [OF complete_check_frame assms(2)] by simp
  let ?P = "\<lambda>r. op_id r = i \<and> op_state r \<in> {''running'', ''cancelling''} \<and> op_claimed r = Some c"
  let ?f = "\<lambda>r. r\<lparr>op_state := ''failed'', op_error := Some e, op_updated := now\<rparr>"
  note f = fail_expired_Inr [OF assms(3)]
  from f obtain x where x: "x \<in> set (ow_rows s1)" "?P x" by (auto simp: list_ex_iff)
  then have fx: "find (\<lambda>r. op_id r = i) (ow_rows s1) = Some x"
    using find_unique assms(1) rows1 by (auto simp: ids_unique_def)
  have f2: "find (\<lambda>r. op_id r = i) (ow_rows s2) = Some (?f x)"
    unfolding conjunct2 [OF f] by (subst find_map_same) (use fx x(2) in simp_all)
  obtain a b where st: "statement ''operation complete'' s2 = (Inr a, b)"
    and g: "op_get i (b\<lparr>ow_rows := map (\<lambda>r. if op_id r = i then r\<lparr>op_state := state_id to, op_result := result,
        op_error := error, op_updated := w_now s2\<rparr> else r) (ow_rows b)\<rparr>) = (Inr r, s3)"
    using assms(4) by (auto simp: complete_write_def act_Inr update_rows_def)
  have "find (\<lambda>r. op_id r = i) (ow_rows s3) = Some ((?f x)\<lparr>op_state := state_id to, op_result := result,
        op_error := error, op_updated := w_now s2\<rparr>)"
    unfolding conjunct1 [OF op_get_rows [OF g]] using statement_rows [OF st] f2 x(2)
    by simp (subst find_map_same, simp_all)
  with op_get_Inr [OF g] op_get_rows [OF g] f2 show ?thesis by (auto simp: stored_state_def)
qed

section \<open>Witnesses\<close>

definition demo_row_pending :: operation where
  "demo_row_pending = new_row ''op1'' ''noop'' (Some ''k'') None None None 3"

definition demo_row_running :: operation where
  "demo_row_running = claim_row ''w1'' 5 (new_row ''op2'' ''noop'' None None None None 4)"

definition demo_ops :: op_world where
  "demo_ops = \<lparr>w_now = 10, w_faults = [], w_uuid = (\<lambda>n. ''u'' @ decimal n), w_uuid_no = 0, w_ledger = [],
     w_pending_since = 0, ow_rows = [demo_row_pending, demo_row_running], ow_hub = hub_new ''e'' 4\<rparr>"

lemma demo_ops_sel: "w_now demo_ops = 10" "w_faults demo_ops = []" "ow_rows demo_ops = [demo_row_pending, demo_row_running]"
  by (simp_all add: demo_ops_def)

lemma demo_rows_sel: "op_id demo_row_pending = ''op1''" "op_id demo_row_running = ''op2''"
  "op_state demo_row_pending = ''pending''" "op_state demo_row_running = ''running''"
  "op_key demo_row_pending = Some ''k''" "op_key demo_row_running = None"
  "op_claimed demo_row_running = Some 5" "op_worker demo_row_running = Some ''w1''"
  "op_deadline demo_row_pending = None"
  by (simp_all add: demo_row_pending_def demo_row_running_def new_row_def claim_row_def)

lemma demo_wf: "store_wf (ow_rows demo_ops)" "ids_unique demo_ops"
  by (simp_all add: store_wf_def ids_unique_def demo_ops_sel demo_rows_sel keys_of_def state_of_live_texts)

lemma statement_ok: "w_faults s = [] \<Longrightarrow> statement c s = (Inr (), s)"
  by (simp add: statement_def map_err_def external_def)

theorem store_history_witness:
  "length (ow_rows demo_ops) \<le> length (ow_rows (fold run_store [ClaimCall ''w2'' 11, CompleteCall ''op1'' ''succeeded'' None None] demo_ops)) \<and>
   list_all2 row_follows (ow_rows demo_ops)
     (take (length (ow_rows demo_ops)) (ow_rows (fold run_store [ClaimCall ''w2'' 11, CompleteCall ''op1'' ''succeeded'' None None] demo_ops)))"
  using store_history [OF demo_wf(1) refl, of "[ClaimCall ''w2'' 11, CompleteCall ''op1'' ''succeeded'' None None]"]
  by blast

theorem create_idempotent_witness:
  "\<exists>t. op_create ''other'' (Some ''k'') None None None demo_ops = (Inr demo_row_pending, t) \<and>
     ow_rows t = ow_rows demo_ops"
proof -
  have "\<exists>t. op_create ''other'' (Some ''k'') None None None demo_ops = (Inr demo_row_pending, t)"
    by (simp add: op_create_def act_simps fresh_uuid_def statement_ok demo_ops_sel unique_violation_def
        demo_rows_sel external_def op_get_def)
  then obtain t where t: "op_create ''other'' (Some ''k'') None None None demo_ops = (Inr demo_row_pending, t)" by blast
  have "''k'' \<in> set (keys_of (ow_rows demo_ops))" by (simp add: keys_of_def demo_ops_sel demo_rows_sel)
  with create_idempotent [OF t demo_wf(1)] t show ?thesis by auto
qed

theorem claim_exclusive_witness:
  "\<exists>t r. cas_run claim_cas ''op1'' [(''w1'', 11), (''w2'', 12)] demo_ops = ([True, False], t) \<and>
   find (\<lambda>r. op_id r = ''op1'') (ow_rows t) = Some r \<and> op_worker r = Some ''w1'' \<and> op_claimed r = Some 11"
proof -
  obtain t where t: "cas_run claim_cas ''op1'' [(''w1'', 11), (''w2'', 12)] demo_ops = ([True, False], t)"
    by (simp add: claim_cas_def claim_by_id_update_def act_simps statement_ok demo_ops_sel update_rows_def
        demo_rows_sel claimable_def opt_all_def claim_row_def)
  have "winners [True, False] \<noteq> 0" by (simp add: winners_def)
  with claim_exclusive [OF demo_wf(2) t] obtain k worker now r where
    "k < length [(''w1'', 11 :: int), (''w2'', 12)]" "[True, False] ! k"
    "[(''w1'', 11), (''w2'', 12)] ! k = (worker, now)"
    "find (\<lambda>r. op_id r = ''op1'') (ow_rows t) =
         Some (r\<lparr>op_state := ''running'', op_worker := Some worker, op_claimed := Some now, op_updated := now\<rparr>)"
    by auto
  moreover from this(1,2) have "k = 0" by (cases k) (auto simp: less_Suc_eq)
  ultimately show ?thesis using t by auto
qed

lemma demo_renew: "\<exists>t. op_renew_lease ''op2'' ''w1'' 11 100 demo_ops = (Inr True, t) \<and> w_faults t = [] \<and>
    ow_rows t = [demo_row_pending, demo_row_running\<lparr>op_claimed := Some 11, op_updated := 11\<rparr>]"
  by (simp add: op_renew_lease_def act_simps statement_ok demo_ops_sel update_rows_def demo_rows_sel live_claim_def
      saturating_sub_def sat_i64_def i64_max_def i64_min_def)

lemma demo_fail: "\<exists>t. op_fail_expired_claim ''op2'' 5 20 ''{}'' demo_ops = (Inr True, t) \<and> w_faults t = [] \<and>
    ow_rows t = [demo_row_pending, demo_row_running\<lparr>op_state := ''failed'', op_error := Some ''{}'', op_updated := 20\<rparr>]"
  by (simp add: op_fail_expired_claim_def act_simps statement_ok demo_ops_sel update_rows_def demo_rows_sel)

theorem heartbeat_protects_witness:
  "\<exists>t u. op_renew_lease ''op2'' ''w1'' 11 100 demo_ops = (Inr True, t) \<and>
     op_fail_expired_claim ''op2'' 5 20 ''{}'' t = (Inr False, u) \<and> ow_rows u = ow_rows t"
proof -
  obtain t where t: "op_renew_lease ''op2'' ''w1'' 11 100 demo_ops = (Inr True, t)" "w_faults t = []"
    using demo_renew by blast
  have f: "find (\<lambda>r. op_id r = ''op2'') (ow_rows demo_ops) = Some demo_row_running"
    by (simp add: demo_ops_sel demo_rows_sel)
  obtain b u where u: "op_fail_expired_claim ''op2'' 5 20 ''{}'' t = (Inr b, u)"
    using t(2) by (simp add: op_fail_expired_claim_def act_simps statement_ok update_rows_def)
  from heartbeat_protects [OF demo_wf(2) f demo_rows_sel(7) t(1) _ u] u t show ?thesis by auto
qed

theorem recovery_final_witness:
  "\<exists>t u. op_fail_expired_claim ''op2'' 5 20 ''{}'' demo_ops = (Inr True, t) \<and>
     op_renew_lease ''op2'' ''w1'' 21 100 t = (Inr False, u) \<and> stored_state t ''op2'' = Some ''failed''"
proof -
  obtain t where t: "op_fail_expired_claim ''op2'' 5 20 ''{}'' demo_ops = (Inr True, t)" "w_faults t = []"
    using demo_fail by blast
  obtain b u where u: "op_renew_lease ''op2'' ''w1'' 21 100 t = (Inr b, u)"
    using t(2) by (simp add: op_renew_lease_def act_simps statement_ok update_rows_def)
  from recovery_final [OF demo_wf(2) t(1) u] u t show ?thesis by auto
qed

theorem claim_fifo_witness:
  "\<exists>t. op_claim_pending ''w2'' 11 demo_ops = (Inr (Some (claim_row ''w2'' 11 demo_row_pending)), t) \<and>
     ow_rows t = [claim_row ''w2'' 11 demo_row_pending, demo_row_running]"
proof -
  have "\<exists>t. op_claim_pending ''w2'' 11 demo_ops = (Inr (Some (claim_row ''w2'' 11 demo_row_pending)), t)"
    by (simp add: op_claim_pending_def claim_tx_def atomically_def act_simps statement_ok demo_ops_sel demo_rows_sel
        claimable_def opt_all_def oldest_first_def update_rows_def op_get_def)
  then obtain t where t: "op_claim_pending ''w2'' 11 demo_ops = (Inr (Some (claim_row ''w2'' 11 demo_row_pending)), t)"
    by blast
  from claim_fifo [OF demo_wf(2) t] obtain r0 where
    "r0 \<in> set (ow_rows demo_ops)" "claimable 11 r0"
    "ow_rows t = map (\<lambda>x. if op_id x = op_id r0 then claim_row ''w2'' 11 x else x) (ow_rows demo_ops)"
    by auto
  moreover from this have "r0 = demo_row_pending" by (auto simp: demo_ops_sel claimable_def demo_rows_sel)
  ultimately have "ow_rows t = [claim_row ''w2'' 11 demo_row_pending, demo_row_running]"
    by (simp add: demo_ops_sel demo_rows_sel)
  with t show ?thesis by blast
qed

theorem stale_completion_overwrites_witness:
  "\<exists>s1 s2 s3 r. complete_check ''op2'' ''succeeded'' None None demo_ops = (Inr Succeeded, s1) \<and>
     op_fail_expired_claim ''op2'' 5 20 ''{}'' s1 = (Inr True, s2) \<and> stored_state s2 ''op2'' = Some ''failed'' \<and>
     complete_write ''op2'' Succeeded None None s2 = (Inr r, s3) \<and> stored_state s3 ''op2'' = Some ''succeeded''"
proof -
  have c: "complete_check ''op2'' ''succeeded'' None None demo_ops = (Inr Succeeded, demo_ops)"
    by (simp add: complete_check_def check_optional_def transition_check_def op_get_def act_simps statement_ok
        demo_ops_sel demo_rows_sel parse_state_def state_from_id_def checked_transition_def validate_transition_def)
  obtain s2 where f: "op_fail_expired_claim ''op2'' 5 20 ''{}'' demo_ops = (Inr True, s2)" "w_faults s2 = []"
    "ow_rows s2 = [demo_row_pending, demo_row_running\<lparr>op_state := ''failed'', op_error := Some ''{}'', op_updated := 20\<rparr>]"
    using demo_fail by blast
  obtain r s3 where w: "complete_write ''op2'' Succeeded None None s2 = (Inr r, s3)"
    using f by (simp add: complete_write_def act_simps statement_ok update_rows_def op_get_def demo_rows_sel)
  from stale_completion_overwrites [OF demo_wf(2) c f(1) w] c f w show ?thesis by auto
qed

end
