(* ===== verification/Json.thy ===== *)
theory Json
  imports Prelude
begin

text \<open>
  JSON documents as the controller looks at them: the value type of \<open>serde_json\<close> with the
  accessors the sources use. Parsing text is the library's and is a parameter wherever it
  is used.
\<close>

datatype json =
    JNull
  | JBool bool
  | JInt int
  | JFloat string
  | JString string
  | JArray "json list"
  | JObject "(string \<times> json) list"

text \<open>\<open>value.get(key)\<close>, and \<open>value[key]\<close>, which is null where there is nothing.\<close>

fun json_get :: "string \<Rightarrow> json \<Rightarrow> json option" where
  "json_get k (JObject m) = map_of m k"
| "json_get k _ = None"

definition json_index :: "string \<Rightarrow> json \<Rightarrow> json" where
  "json_index k v = (case json_get k v of None \<Rightarrow> JNull | Some x \<Rightarrow> x)"

fun json_str :: "json \<Rightarrow> string option" where
  "json_str (JString s) = Some s"
| "json_str _ = None"

fun json_bool :: "json \<Rightarrow> bool option" where
  "json_bool (JBool b) = Some b"
| "json_bool _ = None"

fun json_u64 :: "json \<Rightarrow> nat option" where
  "json_u64 (JInt n) = (if 0 \<le> n \<and> n \<le> int u64_max then Some (nat n) else None)"
| "json_u64 _ = None"

fun json_array :: "json \<Rightarrow> json list option" where
  "json_array (JArray xs) = Some xs"
| "json_array _ = None"

definition json_nth :: "nat \<Rightarrow> json \<Rightarrow> json option" where
  "json_nth n v = (case json_array v of None \<Rightarrow> None | Some xs \<Rightarrow> if n < length xs then Some (xs ! n) else None)"

text \<open>\<open>payload[key].as_str()\<close>.\<close>

definition json_field :: "string \<Rightarrow> json \<Rightarrow> string option" where
  "json_field k v = json_str (json_index k v)"

end
