(* ===== verification/Installer_Layout.thy ===== *)
theory Installer_Layout
  imports Prelude
begin

text \<open>
  The rules for the fleetd installer's environment, of
  \<open>crates/fleet-application/src/fleetd_layout.rs\<close>: which variables may reach a script that
  runs as root, and which paths they may name.
\<close>

definition installer_variables :: "string list" where
  "installer_variables =
     [''FLEETD_ARCHIVE_DIR'', ''FLEETD_BIN_DIR'', ''FLEETD_UNIT_DIR'', ''FLEETD_ENV_FILE'',
      ''FLEETD_STATE_DIR'', ''FLEETD_SERVICE'', ''FLEETD_SYSTEMCTL'', ''FLEETD_USER_ADD'',
      ''FLEETD_RUNUSER'', ''FLEETD_STUB_LOG'']"

datatype installer_tools = SystemTools | AnyTools

definition system_tool_directories :: "string list" where
  "system_tool_directories = [''/bin'', ''/usr/bin'', ''/sbin'', ''/usr/sbin'']"

definition tool_variables :: "(string \<times> string) list" where
  "tool_variables = [(''FLEETD_SYSTEMCTL'', ''systemctl''), (''FLEETD_USER_ADD'', ''useradd''),
     (''FLEETD_RUNUSER'', ''runuser'')]"

definition protected_directories :: "string list" where
  "protected_directories =
     [''/'', ''/bin'', ''/boot'', ''/dev'', ''/etc'', ''/home'', ''/lib'', ''/lib32'', ''/lib64'',
      ''/libx32'', ''/media'', ''/mnt'', ''/opt'', ''/proc'', ''/root'', ''/run'', ''/sbin'', ''/snap'',
      ''/srv'', ''/sys'', ''/tmp'', ''/usr'', ''/var'', ''/etc/systemd'', ''/run/user'', ''/usr/bin'',
      ''/usr/lib'', ''/usr/lib64'', ''/usr/libexec'', ''/usr/local'', ''/usr/sbin'', ''/usr/share'',
      ''/var/cache'', ''/var/lib'', ''/var/log'', ''/var/spool'', ''/var/tmp'']"

definition world_writable_directories :: "string list" where
  "world_writable_directories = [''/tmp'', ''/var/tmp'', ''/dev/shm'']"

definition max_value_bytes :: nat where "max_value_bytes = 1024"

text \<open>The components of an absolute, normalized path.\<close>

definition absolute_components :: "string \<Rightarrow> string \<Rightarrow> string + string list" where
  "absolute_components name value =
     (if \<not> starts_with ''/'' value then
        Inl (''installer variable '' @ name @ '' must be an absolute path, not '' @ debug_str value)
      else if value \<noteq> ''/'' \<and> (ends_with ''/'' value \<or> text_contains ''//'' value \<or>
                list_ex (\<lambda>part. part = ''.'') (split_on (CHR ''/'') value)) then
        Inl (''installer variable '' @ name @
          '' must be a normalized path (no trailing `/`, `//` or `.`), not '' @ debug_str value)
      else
        let components = filter (\<lambda>part. part \<noteq> [] \<and> part \<noteq> ''.'') (split_on (CHR ''/'') value)
        in if ''..'' \<in> set components then
             Inl (''installer variable '' @ name @ '' must not contain `..`, not '' @ debug_str value)
           else Inr components)"

definition tool_directory :: "string list \<Rightarrow> string \<times> string" where
  "tool_directory components =
     (if components = [] then ([], ''/'')
      else (last components, ''/'' @ join_text ''/'' (butlast components)))"

definition check_tool :: "string \<Rightarrow> string \<Rightarrow> installer_tools \<Rightarrow> string list \<Rightarrow> string + unit" where
  "check_tool name value tools components =
     (case map_of tool_variables name of
        None \<Rightarrow> Inr ()
      | Some tool \<Rightarrow>
          if tools = SystemTools then
            (case tool_directory components of (file, directory) \<Rightarrow>
               if file \<noteq> tool \<or> directory \<notin> set system_tool_directories then
                 Inl (''installer variable '' @ name @ '' runs as root, so it must be '' @ tool @ '' in '' @
                   join_text '', '' system_tool_directories @ '', not '' @ debug_str value)
               else Inr ())
          else Inr ())"

definition check_state_dir :: "string \<Rightarrow> installer_tools \<Rightarrow> string list \<Rightarrow> string + unit" where
  "check_state_dir name tools components =
     (if name = ''FLEETD_STATE_DIR'' then
        let normalized = ''/'' @ join_text ''/'' components in
        if length components < 2 \<or> normalized \<in> set protected_directories then
          Inl (''installer variable FLEETD_STATE_DIR must be fleetd's own directory, not the system directory '' @
            debug_str normalized @ '' (uninstalling with --purge deletes it)'')
        else if tools = SystemTools then
          (case find (\<lambda>shared. starts_with (shared @ ''/'') normalized) world_writable_directories of
             None \<Rightarrow> Inr ()
           | Some shared \<Rightarrow>
               Inl (''installer variable FLEETD_STATE_DIR must not be under the world-writable '' @ shared @
                 '' (uninstalling with --purge refuses such a directory), not '' @ debug_str normalized))
        else Inr ()
      else Inr ())"

definition service_char :: "char \<Rightarrow> bool" where
  "service_char c \<longleftrightarrow> is_ascii_alnum c \<or> c \<in> set ''@._-''"

definition validate_installer_variable :: "string \<Rightarrow> string \<Rightarrow> installer_tools \<Rightarrow> string + unit" where
  "validate_installer_variable name value tools =
     (if has_control name \<or> has_control value then
        Inl (''installer variable '' @ debug_str (escape_debug_str name) @ '' contains a control character'')
      else if name \<notin> set installer_variables then
        Inl (''installer variable '' @ debug_str name @ '' is not accepted; the accepted names are '' @
          join_text '', '' installer_variables)
      else if value = [] \<or> length value > max_value_bytes then
        Inl (''installer variable '' @ name @ '' must be 1 to '' @ decimal max_value_bytes @ '' bytes'')
      else if name = ''FLEETD_SERVICE'' then
        (if list_all service_char value \<and> value \<noteq> ''.'' \<and> value \<noteq> ''..'' then Inr ()
         else Inl (''installer variable FLEETD_SERVICE must be a unit name of letters, digits, `@`, `.`, `_` or `-`, not '' @
           debug_str value))
      else if name = ''FLEETD_STUB_LOG'' \<and> tools = SystemTools then
        Inl ''installer variable FLEETD_STUB_LOG is only accepted by a controller in installer test mode''
      else check_then (absolute_components name value) (\<lambda>components.
           check_then (check_tool name value tools components) (\<lambda>_.
           check_state_dir name tools components)))"

definition validate_installer_env :: "(string \<times> string) list \<Rightarrow> installer_tools \<Rightarrow> string + unit" where
  "validate_installer_env entries tools =
     first_error (map (\<lambda>(name, value). validate_installer_variable name value tools) entries)"

section \<open>What an accepted environment is\<close>

lemma absolute_components_Inr:
  "absolute_components name value = Inr cs \<Longrightarrow>
     starts_with ''/'' value \<and> ''..'' \<notin> set cs \<and> cs = filter (\<lambda>p. p \<noteq> [] \<and> p \<noteq> ''.'') (split_on (CHR ''/'') value) \<and>
     (value = ''/'' \<or> \<not> ends_with ''/'' value \<and> \<not> text_contains ''//'' value \<and> ''.'' \<notin> set (split_on (CHR ''/'') value))"
  by (auto simp: absolute_components_def Let_def list_ex_iff split: if_splits)

lemma join_split: "join_text [c] (split_on c s) = s"
proof (induction s)
  case (Cons x s)
  obtain p ps where sp: "split_on c s = p # ps" by (metis list.exhaust split_on_not_Nil)
  with Cons show ?case by (cases ps) auto
qed simp

lemma text_contains_Cons: "text_contains n s \<Longrightarrow> text_contains n (c # s)"
  by (metis append_Cons text_contains_iff)

text \<open>A path with no double slash and no trailing slash splits into non-empty parts.\<close>

lemma split_parts_nonempty:
  assumes "\<not> text_contains [c, c] s" and "s \<noteq> []" and "last s \<noteq> c"
  shows "[] \<notin> set (tl (split_on c s)) \<and> (hd s \<noteq> c \<longrightarrow> hd (split_on c s) \<noteq> [])"
  using assms
proof (induction s)
  case (Cons x s)
  obtain p ps where sp: "split_on c s = p # ps" by (metis list.exhaust split_on_not_Nil)
  have nc: "\<not> text_contains [c, c] s" using Cons.prems(1) text_contains_Cons by blast
  show ?case
  proof (cases "s = []")
    case True
    with Cons.prems show ?thesis by simp
  next
    case False
    then have l: "last s \<noteq> c" using Cons.prems by simp
    have ih: "[] \<notin> set (tl (split_on c s)) \<and> (hd s \<noteq> c \<longrightarrow> hd (split_on c s) \<noteq> [])"
      by (rule Cons.IH [OF nc False l])
    have "hd s \<noteq> c" if "x = c"
    proof
      assume "hd s = c"
      with that False have "x # s = [] @ [c, c] @ tl s" by (cases s) auto
      with Cons.prems(1) text_contains_iff show False by blast
    qed
    with ih sp show ?thesis by auto
  qed
qed simp

lemma components_path:
  assumes "absolute_components name value = Inr cs" and "value \<noteq> ''/''"
  shows "''/'' @ join_text ''/'' cs = value \<and> '''' \<notin> set cs \<and> ''.'' \<notin> set cs \<and> ''..'' \<notin> set cs"
proof -
  note a = absolute_components_Inr [OF assms(1)]
  then obtain v where v: "value = CHR ''/'' # v" by (auto simp: starts_with_iff)
  with assms(2) have vn: "v \<noteq> []" by simp
  from a assms(2) have e: "\<not> ends_with ''/'' value" and d: "\<not> text_contains ''//'' value"
    and dot: "''.'' \<notin> set (split_on (CHR ''/'') value)" by auto
  from e v vn have l: "last v \<noteq> CHR ''/''"
    by (cases v rule: rev_cases) (auto simp: ends_with_def)
  have nd: "\<not> text_contains ''//'' v" using d v text_contains_Cons by blast
  have h: "hd v \<noteq> CHR ''/''"
  proof
    assume "hd v = CHR ''/''"
    with v vn have "value = [] @ ''//'' @ tl v" by (cases v) auto
    with d text_contains_iff show False by blast
  qed
  have sp: "split_on (CHR ''/'') value = [] # split_on (CHR ''/'') v" using v by simp
  have ne: "[] \<notin> set (split_on (CHR ''/'') v)"
  proof -
    obtain p ps where q: "split_on (CHR ''/'') v = p # ps" by (metis list.exhaust split_on_not_Nil)
    with split_parts_nonempty [OF nd vn l] h show ?thesis by auto
  qed
  have "filter (\<lambda>p. p \<noteq> [] \<and> p \<noteq> ''.'') (split_on (CHR ''/'') v) = split_on (CHR ''/'') v"
    using ne dot sp by (intro filter_True) auto
  then have cs: "cs = split_on (CHR ''/'') v" using a sp by simp
  then show ?thesis using v join_split [of "CHR ''/''" v] ne dot sp a by auto
qed

lemma join_snoc: "xs \<noteq> [] \<Longrightarrow> join_text sep (xs @ [y]) = join_text sep xs @ sep @ y"
  by (induction sep xs rule: join_text.induct) auto

lemma validate_Inr:
  assumes "validate_installer_variable name value tools = Inr ()"
  shows "name \<in> set installer_variables \<and> value \<noteq> [] \<and> length value \<le> 1024 \<and> \<not> has_control value \<and>
    (if name = ''FLEETD_SERVICE'' then list_all service_char value
     else (\<exists>cs. absolute_components name value = Inr cs \<and> check_tool name value tools cs = Inr () \<and>
        check_state_dir name tools cs = Inr ())) \<and> (tools = SystemTools \<longrightarrow> name \<noteq> ''FLEETD_STUB_LOG'')"
  using assms
  by (auto simp: validate_installer_variable_def check_then_Inr max_value_bytes_def split: if_splits)

lemma checked_tool:
  assumes "check_tool name value SystemTools cs = Inr ()" and "absolute_components name value = Inr cs"
    and "map_of tool_variables name = Some tool"
  shows "\<exists>d \<in> set system_tool_directories. value = d @ ''/'' @ tool"
proof -
  have t: "tool \<noteq> []" using map_of_SomeD [OF assms(3)] by (auto simp: tool_variables_def)
  from assms(1,3) have c: "fst (tool_directory cs) = tool" "snd (tool_directory cs) \<in> set system_tool_directories"
    by (auto simp: check_tool_def split: prod.splits if_splits)
  with t have cs: "cs \<noteq> []" by (auto simp: tool_directory_def)
  with c have l: "last cs = tool" "''/'' @ join_text ''/'' (butlast cs) \<in> set system_tool_directories"
    by (auto simp: tool_directory_def)
  then have b: "butlast cs \<noteq> []" by (auto simp: system_tool_directories_def)
  have "value \<noteq> ''/''"
    using cs absolute_components_Inr [OF assms(2)] by auto
  from components_path [OF assms(2) this] have v: "value = ''/'' @ join_text ''/'' cs" by simp
  have "join_text ''/'' cs = join_text ''/'' (butlast cs) @ ''/'' @ tool"
    using join_snoc [OF b, of "''/''" tool] l(1) cs by (metis append_butlast_last_id)
  with v l(2) show ?thesis by (intro bexI [of _ "''/'' @ join_text ''/'' (butlast cs)"]) simp_all
qed

section \<open>Properties\<close>

text \<open>
  What reaches the root scripts is confined: an accepted installer variable is one of
  the ten known names with a bounded value free of control characters; outside the unit
  name it is an absolute path without parent references; in production a tool override is
  exactly that tool in a system binary directory, and there is no stub log.
\<close>

theorem installer_variable_confined:
  assumes "validate_installer_variable name value tools = Inr ()"
  shows "name \<in> set installer_variables \<and> value \<noteq> [] \<and> length value \<le> 1024 \<and> \<not> has_control value \<and>
    (if name = ''FLEETD_SERVICE'' then list_all service_char value
     else starts_with ''/'' value \<and> ''..'' \<notin> set (split_on (CHR ''/'') value)) \<and>
    (tools = SystemTools \<longrightarrow> name \<noteq> ''FLEETD_STUB_LOG'' \<and>
      (\<forall>tool. (name, tool) \<in> set tool_variables \<longrightarrow>
         (\<exists>d \<in> set system_tool_directories. value = d @ ''/'' @ tool)))"
proof -
  note v = validate_Inr [OF assms]
  have "starts_with ''/'' value \<and> ''..'' \<notin> set (split_on (CHR ''/'') value)" if "name \<noteq> ''FLEETD_SERVICE''"
    using v that by (auto dest: absolute_components_Inr)
  moreover have "\<exists>d \<in> set system_tool_directories. value = d @ ''/'' @ tool"
    if t: "tools = SystemTools" "(name, tool) \<in> set tool_variables" for tool
  proof -
    have m: "map_of tool_variables name = Some tool" using t(2) by (auto simp: tool_variables_def)
    have "name \<noteq> ''FLEETD_SERVICE''" using t(2) by (auto simp: tool_variables_def)
    with v t(1) obtain cs where "absolute_components name value = Inr cs" "check_tool name value SystemTools cs = Inr ()"
      by auto
    from checked_tool [OF this(2,1) m] show ?thesis .
  qed
  ultimately show ?thesis using v by auto
qed

theorem installer_variable_confined_witness:
  "validate_installer_variable ''FLEETD_SYSTEMCTL'' ''/usr/bin/systemctl'' SystemTools = Inr () \<and>
   (\<exists>d \<in> set system_tool_directories. ''/usr/bin/systemctl'' = d @ ''/'' @ ''systemctl'')"
proof -
  have v: "validate_installer_variable ''FLEETD_SYSTEMCTL'' ''/usr/bin/systemctl'' SystemTools = Inr ()"
    by code_simp
  have "(''FLEETD_SYSTEMCTL'', ''systemctl'') \<in> set tool_variables" by (simp add: tool_variables_def)
  with installer_variable_confined [OF v] v show ?thesis by blast
qed

text \<open>
  A purge never deletes a system directory: an accepted state directory is, literally
  as written, none of the 37 protected directories, has at least two components, and in
  production is not under a world-writable directory.
\<close>

theorem state_dir_safe:
  assumes "validate_installer_variable ''FLEETD_STATE_DIR'' value tools = Inr ()"
  shows "value \<notin> set protected_directories \<and>
    (\<exists>cs. value = ''/'' @ join_text ''/'' cs \<and> 2 \<le> length cs \<and> [] \<notin> set cs \<and> ''.'' \<notin> set cs \<and> ''..'' \<notin> set cs) \<and>
    (tools = SystemTools \<longrightarrow> (\<forall>d \<in> set world_writable_directories. \<not> starts_with (d @ ''/'') value))"
proof -
  obtain cs where a: "absolute_components ''FLEETD_STATE_DIR'' value = Inr cs"
    and c: "check_state_dir ''FLEETD_STATE_DIR'' tools cs = Inr ()"
    using validate_Inr [OF assms] by auto
  have l: "2 \<le> length cs" and p: "''/'' @ join_text ''/'' cs \<notin> set protected_directories"
    using c by (auto simp: check_state_dir_def Let_def split: if_splits)
  have "value \<noteq> ''/''" using l absolute_components_Inr [OF a] by auto
  note v = components_path [OF a this]
  have "\<not> starts_with (d @ ''/'') value" if "tools = SystemTools" "d \<in> set world_writable_directories" for d
  proof -
    have "find (\<lambda>shared. starts_with (shared @ ''/'') (''/'' @ join_text ''/'' cs)) world_writable_directories = None"
      using c that(1) l p by (auto simp: check_state_dir_def Let_def split: option.splits if_splits)
    with that(2) v show ?thesis by (auto simp: find_None_iff)
  qed
  with v l p show ?thesis by metis
qed

theorem state_dir_safe_witness:
  "validate_installer_variable ''FLEETD_STATE_DIR'' ''/var/lib/fleetd'' SystemTools = Inr () \<and>
   ''/var/lib/fleetd'' \<notin> set protected_directories"
proof -
  have v: "validate_installer_variable ''FLEETD_STATE_DIR'' ''/var/lib/fleetd'' SystemTools = Inr ()"
    by code_simp
  from state_dir_safe [OF v] v show ?thesis by blast
qed

end
