(* ===== verification/Operation_Admission.thy ===== *)
theory Operation_Admission
  imports Operation_Store Credentials Json Installer_Layout "HOL-Library.Word"
begin

unbundle bit_operations_syntax

text \<open>
  The admission of a new operation in \<open>crates/fleet-application/src/operation.rs\<close>: the
  kinds and their permissions, the four creation routes, review tokens, the checks on the
  payload and the authorization each kind asks for, all decided before anything is stored.
  JSON parsing and printing, SHA-256, the redaction rules and the lookups in other stores
  are parameters of the service.
\<close>

section \<open>Kinds and their permissions\<close>

datatype create_route = GenericRoute | DedicatedRoute | BrokeredRoute | SetupFollowUpRoute

definition setup_follow_up_prefix :: string where "setup_follow_up_prefix = ''skills-manager-setup:''"
definition broker_prefix :: string where "broker_prefix = ''action-request:''"
definition fill_kind :: string where "fill_kind = ''lab.pool.fill''"
definition pool_member_reason :: string where "pool_member_reason = ''pool_member''"
definition max_payload_json :: nat where "max_payload_json = 128 * 1024"

definition creatable_kinds :: "string list" where
  "creatable_kinds =
     [''noop'', ''coolify.lifecycle'', ''coolify.settings'', ''coolify.site'', ''ssh.exec'',
      ''agentless.inventory'', ''machine.onboard.test'', ''machine.onboard.discover'',
      ''machine.install-fleetd'', ''node.noop'', ''node.diagnostic'', ''node.inventory'',
      ''projects.discover'', ''projects.clone'', ''projects.pull'', ''projects.status'',
      ''projects.write-config'', ''skills.probe'', ''skills.deploy'', ''skills.undeploy'',
      ''skills.install'', ''skills.update'', ''skills.check'', ''skills.remove'', ''skills.adopt'',
      ''skills.set-source'', ''skills.catalog-rollout'', ''presets.create'', ''presets.update'',
      ''presets.delete'', ''presets.add-skill'', ''presets.remove-skill'', ''presets.deploy'',
      ''presets.undeploy'', ''frogenv.status'', ''frogenv.setup'', ''frogenv.login'',
      ''frogenv.request'', ''frogenv.sync'', ''frogenv.env-run'', ''tools.inventory'',
      ''mise.status'', ''mise.install'', ''mise.exec'', ''ready.workflow'', ''apply.workflow'',
      ''source.fetch'', ''source.activate'', ''source.rollback'', ''proxmox.guest.start'',
      ''proxmox.guest.stop'', ''proxmox.guest.shutdown'', ''proxmox.guest.reboot'',
      ''proxmox.guest.snapshot'', ''proxmox.guest.snapshot-revert'',
      ''proxmox.guest.snapshot-delete'', ''proxmox.guest.destroy'', ''proxmox.guest.clone'',
      ''proxmox.guest.template'', ''proxmox.task-cancel'', ''proxmox.guest.config'',
      ''machine.create'', ''image.build'', ''lab.provision'', ''lab.cleanup'', ''lab.exec'',
      ''lab.exec_detach'', ''lab.collect'', ''lab.put'', ''machine.exec'', ''machine.put'',
      ''machine.collect'', ''lab.pool.fill'', ''dns.record.upsert'', ''dns.record.delete'']"

definition destructive_kinds :: "string list" where
  "destructive_kinds =
     [''proxmox.guest.snapshot'', ''proxmox.guest.snapshot-revert'', ''proxmox.guest.snapshot-delete'',
      ''proxmox.guest.destroy'', ''proxmox.guest.clone'', ''proxmox.guest.template'',
      ''proxmox.task-cancel'', ''proxmox.guest.config'', ''machine.create'']"

definition catalog_scoped_kind_permission :: "string \<Rightarrow> permission option" where
  "catalog_scoped_kind_permission kind =
     (if kind = ''source.fetch'' then Some SourceFetch
      else if kind \<in> {''source.activate'', ''source.rollback''} then Some SourceActivate
      else if kind \<in> {''proxmox.guest.start'', ''proxmox.guest.stop'', ''proxmox.guest.shutdown'',
                       ''proxmox.guest.reboot''} then Some ProxmoxOperate
      else if kind \<in> {''proxmox.guest.snapshot'', ''proxmox.guest.snapshot-revert'',
                       ''proxmox.guest.snapshot-delete'', ''proxmox.guest.destroy'',
                       ''proxmox.guest.clone'', ''proxmox.guest.template'', ''proxmox.task-cancel''}
           then Some ProxmoxDestructive
      else if kind = ''proxmox.guest.config'' then Some ProxmoxGuestConfig
      else if kind = ''machine.create'' then Some MachineProvision
      else None)"

text \<open>The document in a payload, as the sources read it before they decide anything on it.\<close>

definition pinned_probe :: "json \<Rightarrow> bool" where
  "pinned_probe v \<longleftrightarrow> json_field ''artifactUrl'' v \<noteq> None \<and> json_field ''artifactSha256'' v \<noteq> None"

definition machine_scoped_kind_permission :: "string \<Rightarrow> json option \<Rightarrow> permission option" where
  "machine_scoped_kind_permission kind document =
     (if kind = ''projects.discover'' then Some ProjectsDiscover
      else if kind \<in> {''projects.clone'', ''projects.pull'', ''projects.status''} then Some ProjectsGitWrite
      else if kind = ''projects.write-config'' then Some ProjectsFileWrite
      else if kind = ''skills.probe'' then
        (if (case document of None \<Rightarrow> False | Some v \<Rightarrow> pinned_probe v) then Some SkillsDeploy else Some SkillsRead)
      else if kind \<in> {''skills.deploy'', ''skills.undeploy'', ''skills.catalog-rollout'', ''presets.deploy'',
                       ''presets.undeploy''} then Some SkillsDeploy
      else if kind \<in> {''skills.install'', ''skills.update'', ''skills.check'', ''skills.remove'', ''skills.adopt'',
                       ''skills.set-source'', ''presets.create'', ''presets.update'', ''presets.delete'',
                       ''presets.add-skill'', ''presets.remove-skill''} then Some SkillsModify
      else if kind = ''frogenv.status'' then Some FrogenvRead
      else if kind \<in> {''frogenv.setup'', ''frogenv.login'', ''frogenv.request'', ''frogenv.sync'',
                       ''frogenv.env-run''} then Some FrogenvOperate
      else if kind \<in> {''tools.inventory'', ''mise.status''} then Some ToolsRead
      else if kind \<in> {''mise.install'', ''mise.exec''} then Some MiseOperate
      else if kind = ''ready.workflow'' then Some ProjectsReady
      else if kind = ''apply.workflow'' then Some ApplyExecute
      else None)"

definition machine_access_kind_permission :: "string \<Rightarrow> permission option" where
  "machine_access_kind_permission kind =
     (if kind = ''machine.exec'' then Some MachineExec
      else if kind = ''machine.put'' then Some MachinePut
      else if kind = ''machine.collect'' then Some MachineCollect
      else None)"

section \<open>The service\<close>

record new_operation =
  no_kind :: string
  no_key :: "string option"
  no_deadline :: "int option"
  no_correlation :: "string option"
  no_payload :: "string option"
  no_review :: "string option"

datatype usecase_error =
    UcDenied decision
  | UcNotFound string
  | UcInvalid string
  | UcRefused string string
  | UcBackend string string

definition usecase_error_text :: "usecase_error \<Rightarrow> string" where
  "usecase_error_text e =
     (case e of
        UcDenied d \<Rightarrow> ''denied: '' @ decision_text d
      | UcNotFound what \<Rightarrow> ''not found: '' @ what
      | UcInvalid detail \<Rightarrow> ''invalid request: '' @ detail
      | UcRefused why detail \<Rightarrow> ''refused ('' @ why @ ''): '' @ detail
      | UcBackend context detail \<Rightarrow> ''operation '' @ context @ '' failed: '' @ detail)"

definition denial_reason :: "usecase_error \<Rightarrow> reason_id option" where
  "denial_reason e = (case e of UcDenied d \<Rightarrow> Some (reason d) | _ \<Rightarrow> None)"

record catalog_rollout =
  ro_version :: string
  ro_catalog :: string
  ro_machine :: string
  ro_endpoint :: string
  ro_agents :: "string list"
  ro_timeout :: nat

record service =
  sv_parse :: "string \<Rightarrow> json option"
  sv_print :: "json \<Rightarrow> string"
  sv_rollout :: "string \<Rightarrow> catalog_rollout option"
  sv_sha256 :: "string \<Rightarrow> string"
  sv_redact :: "json \<Rightarrow> json"
  sv_scrub :: "string \<Rightarrow> string"
  sv_pool :: "(string \<Rightarrow> nat \<Rightarrow> string + string option) option"
  sv_leases :: "(string \<Rightarrow> string + string option) option"
  sv_targets :: "(string \<Rightarrow> string \<Rightarrow> port_failure + string option) option"
  sv_brokered :: "string list"
  sv_tools :: installer_tools
  sv_events :: bool

type_synonym ('z, 'a) uc_act = "('z op_world_scheme, usecase_error, 'a) act"

definition document :: "service \<Rightarrow> new_operation \<Rightarrow> json option" where
  "document sv new = Option.bind (no_payload new) (sv_parse sv)"

definition document_text :: "service \<Rightarrow> string \<Rightarrow> new_operation \<Rightarrow> string option" where
  "document_text sv k new = Option.bind (document sv new) (json_field k)"

definition allow :: "authorizer \<Rightarrow> string \<Rightarrow> permission \<Rightarrow> string option \<Rightarrow> usecase_error + unit" where
  "allow az who p r = (case authorize az (access who p r) of Inl d \<Rightarrow> Inl (UcDenied d) | Inr _ \<Rightarrow> Inr ())"

definition map_port_failure :: "string \<Rightarrow> port_failure \<Rightarrow> usecase_error" where
  "map_port_failure context failure =
     (case failure of
        PortConflict detail \<Rightarrow> UcInvalid detail
      | PortNotFound what \<Rightarrow> UcNotFound what
      | PortBackend detail \<Rightarrow> UcBackend context detail)"

section \<open>Review tokens\<close>

definition review_token_for :: "service \<Rightarrow> string \<Rightarrow> string \<Rightarrow> string" where
  "review_token_for sv kind payload_json =
     hex_text (sv_sha256 sv (kind @ [CHR 0x0A] @ payload_json))"

definition constant_time_eq :: "string \<Rightarrow> string \<Rightarrow> bool" where
  "constant_time_eq a b \<longleftrightarrow>
     length a = length b \<and>
     foldl (\<lambda>diff (x, y). diff OR (of_char x XOR of_char y)) (0 :: 8 word) (zip a b) = 0"

definition reviewed :: "service \<Rightarrow> new_operation \<Rightarrow> bool" where
  "reviewed sv new \<longleftrightarrow>
     (case no_review new of
        None \<Rightarrow> False
      | Some presented \<Rightarrow>
          constant_time_eq presented
            (review_token_for sv (no_kind new) (case no_payload new of None \<Rightarrow> [] | Some p \<Rightarrow> p)))"

section \<open>Checks on the request\<close>

definition check_route :: "service \<Rightarrow> authorizer \<Rightarrow> string \<Rightarrow> new_operation \<Rightarrow> create_route \<Rightarrow> usecase_error + unit" where
  "check_route sv az who new route =
     (if route = BrokeredRoute then
        refuse_when (no_kind new \<notin> set (sv_brokered sv))
          (UcInvalid ''the brokered route creates only kinds a provider action declares'')
      else first_error
        [allow az who OperationCreate (Some (no_kind new)),
         refuse_when (route = GenericRoute \<and> no_kind new \<in> set (sv_brokered sv))
           (UcInvalid ''this kind is run through an action request; POST /requests instead''),
         refuse_when (case no_key new of None \<Rightarrow> False | Some k \<Rightarrow> starts_with broker_prefix k)
           (UcInvalid (''idempotency keys starting with '' @ broker_prefix @ '' are reserved'')),
         refuse_when (route \<noteq> SetupFollowUpRoute \<and>
             (case no_key new of None \<Rightarrow> False | Some k \<Rightarrow> starts_with setup_follow_up_prefix k))
           (UcInvalid (''idempotency keys starting with '' @ setup_follow_up_prefix @ '' are reserved''))])"

definition check_installer_entry :: "installer_tools \<Rightarrow> json \<Rightarrow> usecase_error + unit" where
  "check_installer_entry tools entry =
     (case (Option.bind (json_nth 0 entry) json_str, Option.bind (json_nth 1 entry) json_str,
            map_option length (json_array entry)) of
        (Some name, Some v, Some n) \<Rightarrow>
          if n = 2 then
            (case validate_installer_variable name v tools of Inl e \<Rightarrow> Inl (UcInvalid e) | Inr _ \<Rightarrow> Inr ())
          else Inl (UcInvalid ''installerEnv must be a list of [name, value] pairs'')
      | _ \<Rightarrow> Inl (UcInvalid ''installerEnv must be a list of [name, value] pairs''))"

definition check_installer_env :: "json option \<Rightarrow> installer_tools \<Rightarrow> usecase_error + unit" where
  "check_installer_env doc tools =
     (case doc of
        None \<Rightarrow> Inr ()
      | Some v \<Rightarrow>
          (case json_index ''installerEnv'' v of
             JNull \<Rightarrow> Inr ()
           | JArray entries \<Rightarrow> first_error (map (check_installer_entry tools) entries)
           | _ \<Rightarrow> Inl (UcInvalid ''installerEnv must be a list of [name, value] pairs'')))"

definition credential_keys :: "string list" where
  "credential_keys = [''token'', ''access_token'', ''refresh_token'', ''password'', ''passwd'', ''secret'',
     ''client_secret'', ''api_key'', ''apikey'', ''auth'', ''signature'', ''sig'', ''credential'']"

definition has_credential_parameter :: "string \<Rightarrow> bool" where
  "has_credential_parameter query =
     list_ex (\<lambda>pair. to_ascii_lowercase (hd (split_on (CHR ''='') pair)) \<in> set credential_keys)
       (split_on (CHR ''&'') query)"

definition credential_userinfo :: "string \<Rightarrow> bool" where
  "credential_userinfo v =
     (case split_once_text ''://'' v of
        None \<Rightarrow> False
      | Some (scheme, rest) \<Rightarrow>
          let authority = hd (split_when (\<lambda>c. c \<in> set ''/?#'') rest) in
          (case split_once (CHR ''@'') authority of
             None \<Rightarrow> False
           | Some (userinfo, _) \<Rightarrow>
               \<not> (to_ascii_lowercase scheme = ''ssh'' \<and> userinfo = ''git'' \<and>
                  length (filter (\<lambda>c. c = CHR ''@'') authority) = 1)))"

definition bears_credentials :: "string \<Rightarrow> bool" where
  "bears_credentials v \<longleftrightarrow>
     list_ex has_credential_parameter (tl (split_when (\<lambda>c. c \<in> set ''?#'') v)) \<or>
     has_control v \<or> credential_userinfo v"

definition skills_payload_has_credentials :: "json option \<Rightarrow> bool" where
  "skills_payload_has_credentials doc =
     (case doc of
        None \<Rightarrow> False
      | Some v \<Rightarrow>
          list_ex bears_credentials
            (concat (map (\<lambda>k. case Option.bind (json_get k v) json_str of None \<Rightarrow> [] | Some s \<Rightarrow> [s])
                      [''reference'', ''sourceUrl'', ''artifactUrl'']) @
             (case Option.bind (json_get ''references'' v) json_array of
                None \<Rightarrow> []
              | Some xs \<Rightarrow> concat (map (\<lambda>x. case json_str x of None \<Rightarrow> [] | Some s \<Rightarrow> [s]) xs))))"

definition skills_kind :: "string \<Rightarrow> bool" where
  "skills_kind kind \<longleftrightarrow> starts_with ''skills.'' kind \<or> starts_with ''presets.'' kind"

definition check_dry_run :: "string \<Rightarrow> json option \<Rightarrow> usecase_error + unit" where
  "check_dry_run kind doc =
     (case Option.bind doc (json_get ''dryRun'') of
        None \<Rightarrow> Inr ()
      | Some d \<Rightarrow>
          (case json_bool d of
             None \<Rightarrow> Inl (UcInvalid ''dryRun must be a boolean'')
           | Some b \<Rightarrow>
               refuse_when (b \<and> kind \<notin> {''skills.deploy'', ''skills.undeploy'', ''skills.remove'', ''skills.adopt'',
                   ''skills.set-source'', ''presets.delete'', ''presets.deploy'', ''presets.undeploy''})
                 (UcInvalid ''the pinned CLI does not support dry-run for this operation'')))"

definition check_force :: "string \<Rightarrow> json option \<Rightarrow> usecase_error + unit" where
  "check_force kind doc =
     (case Option.bind doc (json_get ''force'') of
        None \<Rightarrow> Inr ()
      | Some d \<Rightarrow>
          (case json_bool d of
             None \<Rightarrow> Inl (UcInvalid ''force must be a boolean'')
           | Some b \<Rightarrow>
               refuse_when (b \<and> kind \<noteq> ''skills.set-source'')
                 (UcInvalid ''force is supported only for skills.set-source'')))"

definition rollout_complete :: "catalog_rollout \<Rightarrow> bool" where
  "rollout_complete p \<longleftrightarrow>
     \<not> (text_trim (ro_version p) = [] \<or> text_trim (ro_catalog p) = [] \<or> text_trim (ro_machine p) = [] \<or>
        text_trim (ro_endpoint p) = [] \<or> ro_agents p = [] \<or> length (ro_agents p) > 32 \<or>
        length (remdups (ro_agents p)) \<noteq> length (ro_agents p) \<or>
        list_ex (\<lambda>a. text_trim a = []) (ro_agents p) \<or> \<not> (1 \<le> ro_timeout p \<and> ro_timeout p \<le> 3600))"

definition catalog_rollout_payload :: "service \<Rightarrow> new_operation \<Rightarrow> usecase_error + catalog_rollout option" where
  "catalog_rollout_payload sv new =
     (if no_kind new \<noteq> ''skills.catalog-rollout'' then Inr None
      else (case Option.bind (no_payload new) (sv_rollout sv) of
              None \<Rightarrow> Inl (UcInvalid ''the skills.catalog-rollout payload is malformed'')
            | Some p \<Rightarrow>
                if rollout_complete p then Inr (Some p)
                else Inl (UcInvalid ''catalog rollout requires a version, catalog, machine, SSH endpoint, 1..=32 unique agents, and a timeout in 1..=3600 seconds'')))"

definition stored_key_auth :: "json option \<Rightarrow> bool" where
  "stored_key_auth doc \<longleftrightarrow>
     (case doc of None \<Rightarrow> False
      | Some v \<Rightarrow> json_field ''type'' (json_index ''auth'' v) = Some ''secret'')"

text \<open>The checks between the route and the kind's own authorization, in their order.\<close>

definition check_payload :: "service \<Rightarrow> new_operation \<Rightarrow> create_route \<Rightarrow> usecase_error + unit" where
  "check_payload sv new route =
     (let kind = no_kind new; doc = document sv new in
      first_error
        [refuse_when (kind \<notin> set creatable_kinds)
           (UcInvalid (''kind '' @ debug_str kind @ '' is not accepted; known kinds: '' @ join_text '', '' creatable_kinds)),
         refuse_when (kind \<in> {''skills.remove'', ''presets.delete''} \<and>
             (case doc of None \<Rightarrow> True | Some v \<Rightarrow> json_bool (json_index ''confirm'' v) \<noteq> Some True))
           (UcInvalid ''this operation requires explicit confirmation''),
         (if kind = ''machine.install-fleetd'' then check_installer_env doc (sv_tools sv) else Inr ()),
         refuse_when (skills_kind kind \<and> skills_payload_has_credentials doc)
           (UcInvalid ''credential-bearing URLs are not accepted''),
         (if skills_kind kind then check_dry_run kind doc else Inr ()),
         (if skills_kind kind then check_force kind doc else Inr ()),
         refuse_when (kind = ''presets.create'' \<and>
             (case doc of None \<Rightarrow> False | Some v \<Rightarrow> json_get ''name'' v \<noteq> None))
           (UcInvalid ''presets.create uses reference as its name; name is only valid for update''),
         refuse_when (case no_payload new of None \<Rightarrow> False | Some p \<Rightarrow> length p > max_payload_json)
           (UcInvalid (''the payload exceeds '' @ decimal max_payload_json @ '' bytes''))])"

section \<open>The kind's own authorization\<close>

definition payload_machine :: "service \<Rightarrow> new_operation \<Rightarrow> usecase_error + string" where
  "payload_machine sv new =
     (case document_text sv ''machineId'' new of
        None \<Rightarrow> Inl (UcInvalid (''the '' @ no_kind new @ '' payload must carry a machineId''))
      | Some m \<Rightarrow> Inr m)"

definition check_rollout_target ::
    "service \<Rightarrow> authorizer \<Rightarrow> string \<Rightarrow> catalog_rollout \<Rightarrow> usecase_error + unit" where
  "check_rollout_target sv az who rollout =
     check_then (allow az who SkillsRead (Some (ro_catalog rollout))) (\<lambda>_.
     case sv_targets sv of
       None \<Rightarrow> Inl (UcInvalid ''catalog rollout target validation is unavailable'')
     | Some endpoint_kind \<Rightarrow>
         (case endpoint_kind (ro_machine rollout) (ro_endpoint rollout) of
            Inl (PortNotFound what) \<Rightarrow> Inl (UcNotFound what)
          | Inl failure \<Rightarrow> Inl (UcBackend ''catalog rollout target lookup'' (port_failure_text failure))
          | Inr None \<Rightarrow> Inl (UcNotFound (''endpoint '' @ ro_endpoint rollout @ '' on machine '' @ ro_machine rollout))
          | Inr (Some k) \<Rightarrow> refuse_when (k \<noteq> ''ssh'') (UcInvalid ''catalog rollout requires an SSH endpoint'')))"

definition check_machine_scoped ::
    "service \<Rightarrow> authorizer \<Rightarrow> string \<Rightarrow> new_operation \<Rightarrow> catalog_rollout option \<Rightarrow> permission \<Rightarrow> usecase_error + unit" where
  "check_machine_scoped sv az who new rollout p =
     check_then (payload_machine sv new) (\<lambda>machine_id.
     check_then (allow az who p (Some machine_id)) (\<lambda>_.
     if no_kind new = ''skills.catalog-rollout''
     then (case rollout of None \<Rightarrow> Inr () | Some r \<Rightarrow> check_rollout_target sv az who r)
     else Inr ()))"

definition dedicated_only :: "string \<Rightarrow> string option" where
  "dedicated_only kind =
     (if kind = ''lab.exec'' then Some ''lab.exec runs through the lease exec route''
      else if kind = ''lab.exec_detach'' then Some ''lab.exec_detach runs through the lease detached exec route''
      else if kind = ''lab.collect'' then Some ''lab.collect runs through the lease artifacts route''
      else if kind = ''lab.put'' then Some ''lab.put runs through the lease files route''
      else if kind \<in> {''machine.exec'', ''machine.put'', ''machine.collect''}
      then Some (kind @ '' runs through its machine route'')
      else if kind = fill_kind then Some ''lab.pool.fill is queued by filling a Lab pool, not created directly''
      else if kind = ''lab.cleanup'' then Some ''lab.cleanup is queued by releasing a lease, not created directly''
      else None)"

definition check_machine_create ::
    "service \<Rightarrow> authorizer \<Rightarrow> string \<Rightarrow> new_operation \<Rightarrow> create_route \<Rightarrow> usecase_error + unit" where
  "check_machine_create sv az who new route =
     first_error
       [refuse_when (route = GenericRoute) (UcInvalid ''machine.create runs through the machine create route''),
        refuse_when (\<not> reviewed sv new)
          (UcInvalid ''machine.create requires a valid review token; review the machine first''),
        (if route = DedicatedRoute then allow az who MachineProvision None else Inr ())]"

definition check_lab_provision ::
    "service \<Rightarrow> authorizer \<Rightarrow> string \<Rightarrow> new_operation \<Rightarrow> create_route \<Rightarrow> usecase_error + unit" where
  "check_lab_provision sv az who new route =
     (if route \<noteq> DedicatedRoute
      then Inl (UcInvalid ''lab.provision must use the dedicated lease provisioning route'')
      else (case document_text sv ''leaseId'' new of
              None \<Rightarrow> Inl (UcInvalid ''the lab.provision payload must carry a leaseId'')
            | Some lease_id \<Rightarrow> allow az who LabLeaseProvision (Some lease_id)))"

definition check_catalog_scoped ::
    "service \<Rightarrow> authorizer \<Rightarrow> string \<Rightarrow> new_operation \<Rightarrow> permission \<Rightarrow> usecase_error + unit" where
  "check_catalog_scoped sv az who new p =
     first_error
       [refuse_when (no_kind new \<in> set destructive_kinds \<and> \<not> reviewed sv new)
          (UcInvalid (''the '' @ no_kind new @
            '' kind is destructive-adjacent and requires a valid review token; review the operation first'')),
        allow az who p None]"

text \<open>The branch a kind takes; only the last one goes on to the pool membership.\<close>

definition check_kind ::
    "service \<Rightarrow> authorizer \<Rightarrow> string \<Rightarrow> new_operation \<Rightarrow> create_route \<Rightarrow> catalog_rollout option \<Rightarrow> usecase_error + unit" where
  "check_kind sv az who new route rollout =
     (let kind = no_kind new in
      case machine_scoped_kind_permission kind (document sv new) of
        Some p \<Rightarrow> check_machine_scoped sv az who new rollout p
      | None \<Rightarrow>
          (case dedicated_only kind of
             Some detail \<Rightarrow> refuse_when (route \<noteq> DedicatedRoute) (UcInvalid detail)
           | None \<Rightarrow>
               if kind = ''machine.create'' then check_machine_create sv az who new route
               else if kind = ''lab.provision'' then check_lab_provision sv az who new route
               else (case catalog_scoped_kind_permission kind of
                       None \<Rightarrow> Inr ()
                     | Some p \<Rightarrow> check_catalog_scoped sv az who new p)))"

definition asks_pool :: "service \<Rightarrow> new_operation \<Rightarrow> bool" where
  "asks_pool sv new \<longleftrightarrow>
     machine_scoped_kind_permission (no_kind new) (document sv new) = None \<and> dedicated_only (no_kind new) = None \<and>
     no_kind new \<notin> {''machine.create'', ''lab.provision''} \<and>
     catalog_scoped_kind_permission (no_kind new) \<noteq> None"

definition admission ::
    "service \<Rightarrow> authorizer \<Rightarrow> string \<Rightarrow> new_operation \<Rightarrow> create_route \<Rightarrow> usecase_error + unit" where
  "admission sv az who new route =
     check_then (check_route sv az who new route) (\<lambda>_.
     check_then (check_payload sv new route) (\<lambda>_.
     check_then (catalog_rollout_payload sv new) (\<lambda>rollout.
     check_then (refuse_when (route \<noteq> DedicatedRoute \<and> stored_key_auth (document sv new))
        (UcInvalid ''a stored-key auth is accepted only through the machine routes'')) (\<lambda>_.
     check_kind sv az who new route rollout))))"

section \<open>Lemmas\<close>

lemma allow_Inr: "allow az who p r = Inr u \<longleftrightarrow>
    allowed (az (access who p r)) \<and> \<not> (requires_resource p \<and> r = None)"
  by (auto simp: allow_def authorize_def Let_def split: sum.splits if_splits)

lemma foldl_fold_diff:
  "foldl (\<lambda>diff (x, y). diff OR (of_char x XOR of_char y)) (d :: 8 word) ps =
   fold (\<lambda>(a, b) diff. diff OR (of_char a XOR of_char b)) ps d"
  by (induction ps arbitrary: d) (auto simp: split_beta)

lemma constant_time_eq_iff: "constant_time_eq a b \<longleftrightarrow> a = b"
  using hashes_equal_iff [of a b] by (simp add: constant_time_eq_def hashes_equal_def foldl_fold_diff)

lemma admission_Inr:
  "admission sv az who new route = Inr () \<longleftrightarrow>
     check_route sv az who new route = Inr () \<and> check_payload sv new route = Inr () \<and>
     (\<exists>rollout. catalog_rollout_payload sv new = Inr rollout \<and>
       \<not> (route \<noteq> DedicatedRoute \<and> stored_key_auth (document sv new)) \<and>
       check_kind sv az who new route rollout = Inr ())"
  by (auto simp: admission_def check_then_Inr)

lemma check_route_Inr:
  "check_route sv az who new route = Inr () \<longleftrightarrow>
     (if route = BrokeredRoute then no_kind new \<in> set (sv_brokered sv)
      else allowed (az (access who OperationCreate (Some (no_kind new)))) \<and>
        (route = GenericRoute \<longrightarrow> no_kind new \<notin> set (sv_brokered sv)) \<and>
        \<not> (\<exists>k. no_key new = Some k \<and> starts_with broker_prefix k) \<and>
        (route \<noteq> SetupFollowUpRoute \<longrightarrow> \<not> (\<exists>k. no_key new = Some k \<and> starts_with setup_follow_up_prefix k)))"
  by (cases "route = BrokeredRoute")
     (auto simp: check_route_def first_error_Inr allow_Inr simp del: first_error.simps split: option.splits)

lemma machine_scoped_Inr:
  assumes "check_machine_scoped sv az who new rollout p = Inr ()"
  shows "\<exists>m. document_text sv ''machineId'' new = Some m \<and> allowed (az (access who p (Some m)))"
  using assms
  by (auto simp: check_machine_scoped_def payload_machine_def check_then_Inr allow_Inr split: option.splits)

lemma machine_create_Inr:
  "check_machine_create sv az who new route = Inr () \<longleftrightarrow>
     route \<noteq> GenericRoute \<and> reviewed sv new \<and>
     (route = DedicatedRoute \<longrightarrow> allowed (az (access who MachineProvision None)))"
  unfolding check_machine_create_def first_error_Inr by (auto simp: allow_Inr requires_resource_def)

lemma lab_provision_Inr:
  "check_lab_provision sv az who new route = Inr () \<longleftrightarrow>
     route = DedicatedRoute \<and>
     (\<exists>l. document_text sv ''leaseId'' new = Some l \<and> allowed (az (access who LabLeaseProvision (Some l))))"
  by (auto simp: check_lab_provision_def allow_Inr split: option.splits)

lemma catalog_scoped_Inr:
  "check_catalog_scoped sv az who new p = Inr () \<longleftrightarrow>
     (no_kind new \<in> set destructive_kinds \<longrightarrow> reviewed sv new) \<and>
     allowed (az (access who p None)) \<and> \<not> requires_resource p"
  unfolding check_catalog_scoped_def first_error_Inr by (auto simp: allow_Inr)

lemmas kind_branch_Inr = machine_create_Inr lab_provision_Inr catalog_scoped_Inr

text \<open>The kinds of the last branch, and that no earlier branch claims one of them.\<close>

lemma catalog_kind:
  "catalog_scoped_kind_permission k = Some p \<Longrightarrow>
     k \<in> {''source.fetch'', ''source.activate'', ''source.rollback'', ''proxmox.guest.start'', ''proxmox.guest.stop'',
       ''proxmox.guest.shutdown'', ''proxmox.guest.reboot'', ''proxmox.guest.snapshot'', ''proxmox.guest.snapshot-revert'',
       ''proxmox.guest.snapshot-delete'', ''proxmox.guest.destroy'', ''proxmox.guest.clone'', ''proxmox.guest.template'',
       ''proxmox.task-cancel'', ''proxmox.guest.config'', ''machine.create''}"
  unfolding catalog_scoped_kind_permission_def by (simp split: if_split_asm) auto

lemma earlier_branches:
  assumes "k \<in> {''source.fetch'', ''source.activate'', ''source.rollback'', ''proxmox.guest.start'', ''proxmox.guest.stop'',
       ''proxmox.guest.shutdown'', ''proxmox.guest.reboot'', ''proxmox.guest.snapshot'', ''proxmox.guest.snapshot-revert'',
       ''proxmox.guest.snapshot-delete'', ''proxmox.guest.destroy'', ''proxmox.guest.clone'', ''proxmox.guest.template'',
       ''proxmox.task-cancel'', ''proxmox.guest.config'', ''machine.create''}"
  shows "machine_scoped_kind_permission k doc = None" "dedicated_only k = None" "k \<noteq> ''lab.provision''"
  using assms
  by (elim insertE emptyE; hypsubst; simp add: machine_scoped_kind_permission_def dedicated_only_def fill_kind_def)+

lemmas catalog_branch = earlier_branches [OF catalog_kind]

lemma destructive_catalog: "k \<in> set destructive_kinds \<Longrightarrow> catalog_scoped_kind_permission k \<noteq> None"
  by (simp add: destructive_kinds_def, elim disjE; simp add: catalog_scoped_kind_permission_def)

lemma check_kind_machine:
  assumes "check_kind sv az who new route rollout = Inr ()"
    and "machine_scoped_kind_permission (no_kind new) (document sv new) = Some p"
  shows "\<exists>m. document_text sv ''machineId'' new = Some m \<and> allowed (az (access who p (Some m)))"
  using assms machine_scoped_Inr by (simp add: check_kind_def)

lemma check_kind_catalog:
  assumes "check_kind sv az who new route rollout = Inr ()"
    and p: "catalog_scoped_kind_permission (no_kind new) = Some p"
  shows "if no_kind new = ''machine.create''
    then route \<noteq> GenericRoute \<and> reviewed sv new \<and> (route = DedicatedRoute \<longrightarrow> allowed (az (access who MachineProvision None)))
    else (no_kind new \<in> set destructive_kinds \<longrightarrow> reviewed sv new) \<and> allowed (az (access who p None))"
  using assms(1) p by (simp add: check_kind_def Let_def catalog_branch [OF p] kind_branch_Inr split: if_split_asm)

lemma check_kind_dedicated:
  assumes "check_kind sv az who new route rollout = Inr ()"
    and "machine_scoped_kind_permission (no_kind new) (document sv new) = None"
    and "dedicated_only (no_kind new) = Some detail"
  shows "route = DedicatedRoute"
  using assms by (simp add: check_kind_def)

lemma dedicated_not_machine_scoped:
  "dedicated_only k = Some d \<Longrightarrow> machine_scoped_kind_permission k doc = None"
proof -
  assume "dedicated_only k = Some d"
  then have "k \<in> {''lab.exec'', ''lab.exec_detach'', ''lab.collect'', ''lab.put'', ''machine.exec'', ''machine.put'',
      ''machine.collect'', ''lab.pool.fill'', ''lab.cleanup''}"
    unfolding dedicated_only_def fill_kind_def by (simp split: if_split_asm) auto
  then show ?thesis
    by (elim insertE emptyE; hypsubst; simp add: machine_scoped_kind_permission_def)
qed

lemma check_kind_lab_provision:
  assumes "check_kind sv az who new route rollout = Inr ()" and "no_kind new = ''lab.provision''"
  shows "route = DedicatedRoute"
proof -
  have "machine_scoped_kind_permission ''lab.provision'' (document sv new) = None" "dedicated_only ''lab.provision'' = None"
    by (simp_all add: machine_scoped_kind_permission_def dedicated_only_def fill_kind_def)
  with assms show ?thesis by (simp add: check_kind_def Let_def lab_provision_Inr)
qed

section \<open>Review tokens bind\<close>

lemma reviewed_iff: "reviewed sv new \<longleftrightarrow>
    no_review new = Some (review_token_for sv (no_kind new) (case no_payload new of None \<Rightarrow> [] | Some p \<Rightarrow> p))"
  by (auto simp: reviewed_def constant_time_eq_iff split: option.splits)

lemma kind_no_newline: "k \<in> set creatable_kinds \<Longrightarrow> CHR 0x0A \<notin> set k"
  by (simp add: creatable_kinds_def, elim disjE; simp)

end
