(* ===== verification/Operation_Service.thy ===== *)
theory Operation_Service
  imports Operation_Admission
begin

text \<open>
  The authorized operation use cases of \<open>crates/fleet-application/src/operation.rs\<close> over the
  stored operations: creating on the generic and the dedicated routes, reading, listing,
  cancelling and completing, with their notifications and audit records.
\<close>

section \<open>Pool members\<close>

definition use_metadata ::
    "string \<Rightarrow> (string \<times> string) list \<Rightarrow> usecase_error + metadata" where
  "use_metadata context facts =
     (case metadata_insert_all facts [] of
        Inl e \<Rightarrow> Inl (UcBackend context (metadata_error_text e)) | Inr m \<Rightarrow> Inr m)"

definition audited :: "string \<Rightarrow> audit_intent \<Rightarrow> ('z, unit) uc_act" where
  "audited context i = map_err (UcBackend context) (record_intent i)"

definition pool_target :: "service \<Rightarrow> new_operation \<Rightarrow> (string \<times> nat) option" where
  "pool_target sv new =
     (let v = (case document sv new of None \<Rightarrow> JNull | Some v \<Rightarrow> v) in
      case (json_field ''accountId'' v, json_u64 (json_index ''vmid'' v)) of
        (Some account_id, Some vmid) \<Rightarrow> if vmid < 2 ^ 32 then Some (account_id, vmid) else None
      | _ \<Rightarrow> None)"

definition pool_guarded_kinds :: "string list" where
  "pool_guarded_kinds = [''proxmox.guest.destroy'', ''proxmox.guest.snapshot-delete'', ''proxmox.guest.config'']"

definition refuse_pool_member :: "service \<Rightarrow> string \<Rightarrow> new_operation \<Rightarrow> ('z, unit) uc_act" where
  "refuse_pool_member sv who new =
     (case sv_pool sv of
        None \<Rightarrow> ret ()
      | Some pool_of \<Rightarrow>
          if no_kind new \<notin> set pool_guarded_kinds then ret ()
          else (case pool_target sv new of
                  None \<Rightarrow> ret ()
                | Some (account_id, vmid) \<Rightarrow>
                    (case pool_of account_id vmid of
                       Inl detail \<Rightarrow> fail (UcBackend ''pool_membership'' detail)
                     | Inr None \<Rightarrow> ret ()
                     | Inr (Some pool_id) \<Rightarrow>
                         andthen (lift (use_metadata ''refusal_audit''
                           [(''event'', ''proxmox_pool_member_refused''), (''outcome'', ''refused''),
                            (''reason'', pool_member_reason), (''poolId'', pool_id), (''vmid'', decimal vmid),
                            (''kind'', no_kind new), (''accountId'', account_id)])) (\<lambda>m.
                         andthen (audited ''refusal_audit''
                           \<lparr>ai_actor = who, ai_action = permission_id ProxmoxDestructive,
                            ai_resource = Some (account_id @ ''/'' @ decimal vmid), ai_decision = decision_allow,
                            ai_correlation = no_correlation new, ai_operation = None, ai_metadata = m\<rparr>) (\<lambda>_.
                         fail (UcRefused pool_member_reason
                           (''VMID '' @ decimal vmid @ '' is a member of Lab pool '' @ pool_id @
                            ''; drain it from the pool first'')))))))"

section \<open>Notifications\<close>

definition publish_event :: "event_kind \<Rightarrow> ('z op_world_scheme, 'e, unit) act" where
  "publish_event k = modify (\<lambda>s. s\<lparr>ow_hub := hub_publish k (ow_hub s)\<rparr>)"

definition completion_event :: "string \<Rightarrow> event_kind option" where
  "completion_event kind =
     (if kind \<in> {''agentless.inventory'', ''node.inventory'', ''machine.install-fleetd''} then Some MachineChanged
      else if kind \<in> {''lab.provision'', ''lab.cleanup'', ''lab.collect''} then Some LeaseChanged
      else if starts_with ''proxmox.'' kind then Some ProxmoxChanged
      else if starts_with ''tailnet.'' kind \<or> starts_with ''tailscale.'' kind then Some TailnetChanged
      else if starts_with ''onboarding.'' kind \<or> starts_with ''machine.onboarding.'' kind \<or>
              starts_with ''machine.onboard.'' kind then Some OnboardingChanged
      else None)"

definition publish_operation :: "service \<Rightarrow> operation \<Rightarrow> bool \<Rightarrow> ('z op_world_scheme, 'e, unit) act" where
  "publish_operation sv r completed =
     (if \<not> sv_events sv then ret ()
      else andthen (publish_event OperationChanged) (\<lambda>_.
           if completed then (case completion_event (op_kind r) of None \<Rightarrow> ret () | Some k \<Rightarrow> publish_event k)
           else ret ()))"

section \<open>Creating\<close>

definition create_facts :: "new_operation \<Rightarrow> create_route \<Rightarrow> (string \<times> string) list" where
  "create_facts new route =
     (''kind'', no_kind new) #
     (if route = SetupFollowUpRoute then
        (case Option.bind (no_key new) (strip_prefix setup_follow_up_prefix) of
           None \<Rightarrow> [] | Some trigger \<Rightarrow> [(''setup_trigger'', trigger)])
      else [])"

definition create_inner ::
    "service \<Rightarrow> authorizer \<Rightarrow> string \<Rightarrow> new_operation \<Rightarrow> create_route \<Rightarrow> ('z, operation) uc_act" where
  "create_inner sv az who new route =
     andthen (lift (admission sv az who new route)) (\<lambda>_.
     andthen (if asks_pool sv new then refuse_pool_member sv who new else ret ()) (\<lambda>_.
     andthen (map_err (map_port_failure ''create'')
        (op_create (no_kind new) (no_key new) (no_deadline new) (no_correlation new) (no_payload new))) (\<lambda>r.
     andthen (publish_operation sv r False) (\<lambda>_.
     andthen (lift (use_metadata ''create_audit'' (create_facts new route))) (\<lambda>m.
     andthen (audited ''create_audit''
        \<lparr>ai_actor = who, ai_action = permission_id OperationCreate, ai_resource = Some (op_id r),
         ai_decision = decision_allow, ai_correlation = no_correlation new, ai_operation = Some (op_id r),
         ai_metadata = m\<rparr>) (\<lambda>_.
     ret r))))))"

definition create_generic :: "service \<Rightarrow> authorizer \<Rightarrow> string \<Rightarrow> new_operation \<Rightarrow> ('z, operation) uc_act" where
  "create_generic sv az who new = create_inner sv az who new GenericRoute"

definition follow_up_keyed :: "new_operation \<Rightarrow> bool" where
  "follow_up_keyed new \<longleftrightarrow>
     (case Option.bind (no_key new) (strip_prefix setup_follow_up_prefix) of
        None \<Rightarrow> False
      | Some trigger \<Rightarrow> trigger \<noteq> [] \<and> length trigger \<le> max_metadata_value_bytes)"

definition follow_up_pinned :: "service \<Rightarrow> new_operation \<Rightarrow> bool" where
  "follow_up_pinned sv new \<longleftrightarrow>
     list_all (\<lambda>field. case document_text sv field new of None \<Rightarrow> False | Some v \<Rightarrow> text_trim v \<noteq> [])
       [''artifactUrl'', ''artifactSha256'']"

definition create_setup_follow_up ::
    "service \<Rightarrow> authorizer \<Rightarrow> string \<Rightarrow> new_operation \<Rightarrow> ('z, operation) uc_act" where
  "create_setup_follow_up sv az who new =
     (if no_kind new \<noteq> ''skills.probe'' \<or> \<not> follow_up_keyed new then
        fail (UcInvalid (''the setup follow-up route creates only skills.probe keyed by '' @ setup_follow_up_prefix @
          ''<trigger>, with a trigger of at most '' @ decimal max_metadata_value_bytes @ '' bytes''))
      else if \<not> follow_up_pinned sv new then
        fail (UcInvalid ''the setup follow-up must pin a release: artifactUrl and artifactSha256 are required'')
      else create_inner sv az who new SetupFollowUpRoute)"

definition create_brokered :: "service \<Rightarrow> authorizer \<Rightarrow> string \<Rightarrow> new_operation \<Rightarrow> ('z, operation) uc_act" where
  "create_brokered sv az who new = create_inner sv az who new BrokeredRoute"

definition lease_owner :: "service \<Rightarrow> string \<Rightarrow> usecase_error \<Rightarrow> usecase_error + string" where
  "lease_owner sv lease_id not_found =
     (case sv_leases sv of
        None \<Rightarrow> Inl (UcBackend ''lease_owner'' ''no lease owner lookup is wired'')
      | Some owner_of \<Rightarrow>
          (case owner_of lease_id of
             Inl detail \<Rightarrow> Inl (UcBackend ''lease_owner'' detail)
           | Inr None \<Rightarrow> Inl not_found
           | Inr (Some owner) \<Rightarrow> Inr owner))"

definition require_own_lease :: "service \<Rightarrow> string \<Rightarrow> string \<Rightarrow> usecase_error + unit" where
  "require_own_lease sv who lease_id =
     (if \<not> is_delegated_principal who then Inr ()
      else check_then (lease_owner sv lease_id (UcNotFound (''lease '' @ lease_id))) (\<lambda>owner.
           if owner_scope_permits who owner then Inr () else Inl (UcNotFound (''lease '' @ lease_id))))"

definition create_lab_provision ::
    "service \<Rightarrow> authorizer \<Rightarrow> string \<Rightarrow> string \<Rightarrow> new_operation \<Rightarrow> ('z, operation) uc_act" where
  "create_lab_provision sv az who lease_id new =
     (case document_text sv ''leaseId'' new of
        None \<Rightarrow> fail (UcInvalid ''the lab.provision payload must carry a leaseId'')
      | Some linked \<Rightarrow>
          if no_kind new \<noteq> ''lab.provision'' \<or> linked \<noteq> lease_id then
            fail (UcInvalid ''the lab.provision payload must match its dedicated lease route'')
          else andthen (lift (require_own_lease sv who lease_id)) (\<lambda>_.
               create_inner sv az who new DedicatedRoute))"

definition create_machine_create ::
    "service \<Rightarrow> authorizer \<Rightarrow> string \<Rightarrow> new_operation \<Rightarrow> ('z, operation) uc_act" where
  "create_machine_create sv az who new =
     (if no_kind new \<noteq> ''machine.create''
      then fail (UcInvalid ''this route creates machine.create operations only'')
      else create_inner sv az who new DedicatedRoute)"

definition authorize_lab_cleanup :: "authorizer \<Rightarrow> string \<Rightarrow> string option \<Rightarrow> usecase_error + unit" where
  "authorize_lab_cleanup az who lease_id =
     first_error [allow az who OperationCreate (Some ''lab.cleanup''), allow az who LabLease lease_id]"

definition create_for_lease ::
    "service \<Rightarrow> authorizer \<Rightarrow> string \<Rightarrow> string \<Rightarrow> new_operation \<Rightarrow> string \<Rightarrow> permission \<Rightarrow> ('z, operation) uc_act" where
  "create_for_lease sv az who lease_id new kind p =
     (if no_kind new \<noteq> kind \<or> document_text sv ''leaseId'' new \<noteq> Some lease_id
      then fail (UcInvalid (''the '' @ kind @ '' payload must match its lease''))
      else andthen (lift (allow az who p (Some lease_id))) (\<lambda>_.
           andthen (lift (require_own_lease sv who lease_id)) (\<lambda>_.
           create_inner sv az who new DedicatedRoute)))"

definition create_lab_exec :: "service \<Rightarrow> authorizer \<Rightarrow> string \<Rightarrow> string \<Rightarrow> new_operation \<Rightarrow> ('z, operation) uc_act" where
  "create_lab_exec sv az who lease_id new = create_for_lease sv az who lease_id new ''lab.exec'' LabExec"

definition create_lab_exec_detach :: "service \<Rightarrow> authorizer \<Rightarrow> string \<Rightarrow> string \<Rightarrow> new_operation \<Rightarrow> ('z, operation) uc_act" where
  "create_lab_exec_detach sv az who lease_id new = create_for_lease sv az who lease_id new ''lab.exec_detach'' LabExec"

definition create_lab_collect :: "service \<Rightarrow> authorizer \<Rightarrow> string \<Rightarrow> string \<Rightarrow> new_operation \<Rightarrow> ('z, operation) uc_act" where
  "create_lab_collect sv az who lease_id new = create_for_lease sv az who lease_id new ''lab.collect'' LabArtifacts"

definition create_lab_put :: "service \<Rightarrow> authorizer \<Rightarrow> string \<Rightarrow> string \<Rightarrow> new_operation \<Rightarrow> ('z, operation) uc_act" where
  "create_lab_put sv az who lease_id new = create_for_lease sv az who lease_id new ''lab.put'' LabPut"

definition create_lab_cleanup :: "service \<Rightarrow> authorizer \<Rightarrow> string \<Rightarrow> string \<Rightarrow> new_operation \<Rightarrow> ('z, operation) uc_act" where
  "create_lab_cleanup sv az who lease_id new = create_for_lease sv az who lease_id new ''lab.cleanup'' LabLease"

definition create_machine_access ::
    "service \<Rightarrow> authorizer \<Rightarrow> string \<Rightarrow> string \<Rightarrow> new_operation \<Rightarrow> ('z, operation) uc_act" where
  "create_machine_access sv az who machine_id new =
     (case machine_access_kind_permission (no_kind new) of
        None \<Rightarrow> fail (UcInvalid (no_kind new @ '' is not a machine access kind''))
      | Some p \<Rightarrow>
          if document_text sv ''machineId'' new \<noteq> Some machine_id
          then fail (UcInvalid (''the '' @ no_kind new @ '' payload must match its machine''))
          else andthen (lift (allow az who p (Some machine_id))) (\<lambda>_.
               create_inner sv az who new DedicatedRoute))"

definition create_lab_pool_fill ::
    "service \<Rightarrow> authorizer \<Rightarrow> string \<Rightarrow> string \<Rightarrow> new_operation \<Rightarrow> ('z, operation) uc_act" where
  "create_lab_pool_fill sv az who pool_id new =
     (if no_kind new \<noteq> fill_kind \<or> document_text sv ''poolId'' new \<noteq> Some pool_id
      then fail (UcInvalid ''the lab.pool.fill payload must match its pool'')
      else andthen (lift (allow az who LabConfig (Some pool_id))) (\<lambda>_.
           create_inner sv az who new DedicatedRoute))"

section \<open>Reading, listing, cancelling, completing\<close>

definition machine_operation_readable :: "service \<Rightarrow> authorizer \<Rightarrow> string \<Rightarrow> operation \<Rightarrow> bool" where
  "machine_operation_readable sv az who r \<longleftrightarrow>
     (case machine_access_kind_permission (op_kind r) of
        None \<Rightarrow> True
      | Some p \<Rightarrow>
          (case Option.bind (Option.bind (op_payload r) (sv_parse sv)) (json_field ''machineId'') of
             None \<Rightarrow> False
           | Some machine \<Rightarrow> \<not> isl (authorize az (access who p (Some machine)))))"

definition require_own_lab_operation :: "service \<Rightarrow> string \<Rightarrow> operation \<Rightarrow> usecase_error + unit" where
  "require_own_lab_operation sv who r =
     (let not_found = UcNotFound (''operation '' @ op_id r) in
      case (if starts_with ''lab.'' (op_kind r)
            then Option.bind (Option.bind (op_payload r) (sv_parse sv)) (json_field ''leaseId'') else None) of
        None \<Rightarrow> Inl not_found
      | Some lease_id \<Rightarrow>
          check_then (lease_owner sv lease_id not_found) (\<lambda>owner.
          if owner_scope_permits who owner then Inr () else Inl not_found))"

definition get_operation :: "service \<Rightarrow> authorizer \<Rightarrow> string \<Rightarrow> string \<Rightarrow> ('z, operation) uc_act" where
  "get_operation sv az who i =
     andthen (lift (allow az who OperationRead (Some i))) (\<lambda>_.
     andthen (map_err (map_port_failure ''get'') (op_get i)) (\<lambda>r.
     if \<not> machine_operation_readable sv az who r then fail (UcNotFound (''operation '' @ i))
     else if is_delegated_principal who
     then andthen (lift (require_own_lab_operation sv who r)) (\<lambda>_. ret r)
     else ret r))"

definition find_by_idempotency_key :: "string \<Rightarrow> ('z, operation option) op_act" where
  "find_by_idempotency_key key = find_by_idempotency key"

definition get_state :: "string \<Rightarrow> ('z, string) op_act" where
  "get_state i = andthen (op_get i) (\<lambda>r. ret (op_state r))"

definition cancel_requested :: "string \<Rightarrow> ('z, bool) op_act" where
  "cancel_requested i = andthen (op_get i) (\<lambda>r. ret (op_cancel_requested r))"

definition u32_max :: nat where "u32_max = 2 ^ 32 - 1"

text \<open>
  The loop asks for four times as many rows each round, up to 10000. The k-th round is
  written with the number of rows it asks for.
\<close>

definition next_ask :: "nat \<Rightarrow> nat" where
  "next_ask ask = min 10000 (min u32_max (ask * 4))"

fun ask_of_round :: "nat \<Rightarrow> nat \<Rightarrow> nat" where
  "ask_of_round limit 0 = limit"
| "ask_of_round limit (Suc k) = next_ask (ask_of_round limit k)"

lemma ask_pos: "0 < limit \<Longrightarrow> 0 < ask_of_round limit k"
  by (induction k) (simp_all add: next_ask_def u32_max_def)

function list_round ::
    "service \<Rightarrow> authorizer \<Rightarrow> string \<Rightarrow> nat \<Rightarrow> nat \<Rightarrow> ('z, operation list) uc_act" where
  "list_round sv az who limit k s =
     (let ask = ask_of_round limit k in
      case map_err (map_port_failure ''list'') (op_list ask) s of
        (Inl e, t) \<Rightarrow> (Inl e, t)
      | (Inr rows, t) \<Rightarrow>
          let exhausted = length rows < ask;
              visible = filter (machine_operation_readable sv az who) rows
          in if length visible \<ge> limit \<or> exhausted \<or> ask \<ge> 10000
             then (Inr (take limit visible), t)
             else list_round sv az who limit (Suc k) t)"
  by pat_completeness auto

lemma next_ask_less: "0 < ask \<Longrightarrow> ask < 10000 \<Longrightarrow> 10000 - next_ask ask < 10000 - ask"
  by (simp add: next_ask_def u32_max_def min_def) arith

termination list_round
proof (relation "measure (\<lambda>(sv, az, who, limit, k, s). 10000 - ask_of_round limit k)", simp)
  fix sv :: service and az who limit k and s t :: "'z op_world_scheme" and ask r rows exhausted visible
  assume "ask = ask_of_round limit k" "exhausted = (length rows < ask)"
    "visible = filter (machine_operation_readable sv az who) rows"
    "\<not> (length visible \<ge> limit \<or> exhausted \<or> ask \<ge> 10000)"
  then have "0 < limit" "ask_of_round limit k < 10000" by auto
  then show "((sv, az, who, limit, Suc k, t), sv, az, who, limit, k, s)
      \<in> measure (\<lambda>(sv, az, who, limit, k, s). 10000 - ask_of_round limit k)"
    using next_ask_less [OF ask_pos] by simp
qed

declare list_round.simps [simp del]

definition list_operations :: "service \<Rightarrow> authorizer \<Rightarrow> string \<Rightarrow> nat \<Rightarrow> ('z, operation list) uc_act" where
  "list_operations sv az who limit =
     andthen (lift (allow az who OperationRead None)) (\<lambda>_. list_round sv az who limit 0)"

definition terminal_text :: "string \<Rightarrow> bool" where
  "terminal_text st \<longleftrightarrow>
     st \<in> {''succeeded'', ''failed'', ''cancelled'', ''timed_out'', ''blocked_manual_approval''}"

definition cancel_operation :: "service \<Rightarrow> authorizer \<Rightarrow> string \<Rightarrow> string \<Rightarrow> ('z, operation) uc_act" where
  "cancel_operation sv az who i =
     andthen (lift (allow az who OperationCancel (Some i))) (\<lambda>_.
     andthen (map_err (map_port_failure ''cancel_get'') (op_get i)) (\<lambda>existing.
     if terminal_text (op_state existing) then fail (UcNotFound (''live operation '' @ i))
     else
     andthen (map_err (map_port_failure ''cancel'') (op_request_cancel i)) (\<lambda>r.
     andthen (publish_operation sv r False) (\<lambda>_.
     andthen (audited ''cancel_audit''
        \<lparr>ai_actor = who, ai_action = permission_id OperationCancel, ai_resource = Some i,
         ai_decision = decision_allow, ai_correlation = op_correlation r, ai_operation = Some i,
         ai_metadata = []\<rparr>) (\<lambda>_.
     ret r)))))"

definition scrub_stored_json :: "service \<Rightarrow> string \<Rightarrow> string" where
  "scrub_stored_json sv doc =
     (case sv_parse sv doc of
        Some v \<Rightarrow> sv_print sv (sv_redact sv v)
      | None \<Rightarrow> sv_scrub sv doc)"

definition completion_outcome :: "string \<Rightarrow> audit_outcome" where
  "completion_outcome state =
     (if state = ''succeeded'' then OutcomeSucceeded
      else if state = ''cancelled'' then OutcomeCancelled
      else if state = ''blocked_manual_approval'' then OutcomeBlockedManualApproval
      else OutcomeFailed)"

definition complete_operation ::
    "service \<Rightarrow> string \<Rightarrow> string \<Rightarrow> string option \<Rightarrow> string option \<Rightarrow> ('z, operation) uc_act" where
  "complete_operation sv i state result error =
     (let error' = map_option (scrub_stored_json sv) error;
          result' = (if state \<noteq> ''succeeded'' then map_option (scrub_stored_json sv) result else result)
      in andthen (map_err (map_port_failure ''complete'') (op_complete i state result' error')) (\<lambda>r.
         andthen (publish_operation sv r True) (\<lambda>_.
         andthen (map_err (UcBackend ''complete_audit'') (record_outcome i (completion_outcome state))) (\<lambda>_.
         ret r))))"

section \<open>Lemmas\<close>

text \<open>What a successful creation went through.\<close>

lemma create_inner_Inr:
  assumes "create_inner sv az who new route s = (Inr r, t)"
  obtains u v w m where "admission sv az who new route = Inr ()"
    and "(if asks_pool sv new then refuse_pool_member sv who new else ret ()) s = (Inr (), u)"
    and "op_create (no_kind new) (no_key new) (no_deadline new) (no_correlation new) (no_payload new) u = (Inr r, v)"
    and "(publish_operation sv r False :: ('z op_world_scheme, usecase_error, unit) act) v = (Inr (), w)"
    and "use_metadata ''create_audit'' (create_facts new route) = Inr m"
    and "record_intent \<lparr>ai_actor = who, ai_action = permission_id OperationCreate, ai_resource = Some (op_id r),
         ai_decision = decision_allow, ai_correlation = no_correlation new, ai_operation = Some (op_id r),
         ai_metadata = m\<rparr> w = (Inr (), t)"
proof -
  show thesis
    using assms unfolding create_inner_def audited_def
    by (elim andthen_Inr_E) (rule that; simp add: lift_Inr map_err_Inr ret_Inr)
qed

lemma refuse_pool_member_Inr:
  assumes "refuse_pool_member sv who new s = (Inr u, t)"
  shows "t = s"
  using assms
  by (auto simp: refuse_pool_member_def ret_Inr fail_Inr andthen_Inr split: option.splits if_splits sum.splits prod.splits)

lemma pool_step_Inr:
  "(if asks_pool sv new then refuse_pool_member sv who new else ret ()) s = (Inr u, t) \<Longrightarrow> t = s"
  by (auto simp: ret_Inr dest: refuse_pool_member_Inr split: if_splits)

lemma publish_operation_state:
  "publish_operation sv r b s = (x, t) \<Longrightarrow>
     t = s\<lparr>ow_hub := ow_hub t\<rparr> \<and> x = Inr ()"
  by (auto simp: publish_operation_def publish_event_def act_simps split: if_splits option.splits)

text \<open>A creation that goes through stores at most one row, which carries the request.\<close>

lemma op_create_rows:
  fixes s :: "'z op_world_scheme"
  assumes "op_create kind key d c p s = (x, t)"
  shows "ow_rows t = ow_rows s \<or> (\<exists>i now. ow_rows t = ow_rows s @ [new_row i kind key d c p now])"
proof -
  define fb :: "('z, operation) op_act" where "fb = andthen (map_err (\<lambda>_. raced) external) (\<lambda>_.
          andthen (asks (\<lambda>s. case key of None \<Rightarrow> None
                              | Some k \<Rightarrow> find (\<lambda>r. op_key r = Some k) (ow_rows s))) (\<lambda>existing.
          case existing of None \<Rightarrow> fail raced | Some r \<Rightarrow> op_get (op_id r)))"
  have "within world_frame fb"
    unfolding fb_def by (intro frame.intros external_frame op_get_frame)
  note fb = frame_ops [OF this]
  obtain a b where st: "(statement ''operation create'' :: ('z, unit) op_act) (s\<lparr>w_uuid_no := Suc (w_uuid_no s)\<rparr>) = (a, b)"
    by fastforce
  with statement_rows [OF st] have b: "ow_rows b = ow_rows s" by simp
  show ?thesis
  proof (cases a)
    case (Inl e)
    with assms st b show ?thesis by (auto simp: op_create_def act_simps fresh_uuid_def)
  next
    case (Inr u)
    let ?i = "w_uuid s (w_uuid_no s)"
    have "(if \<not> unique_violation (ow_rows s) ?i key
       then op_get ?i (b\<lparr>ow_rows := ow_rows b @ [new_row ?i kind key d c p (w_now s)]\<rparr>) else fb b) = (x, t)"
      using assms st b Inr unfolding op_create_def fb_def [symmetric]
      by (simp add: andthen_def asks_def modify_def fresh_uuid_def split: if_split_asm)
    then have "ow_rows t = (if \<not> unique_violation (ow_rows s) ?i key
       then ow_rows s @ [new_row ?i kind key d c p (w_now s)] else ow_rows s)"
      using fb b by (auto dest: op_get_rows split: if_split_asm)
    then show ?thesis by (metis (full_types))
  qed
qed


text \<open>Steps that leave the rows alone.\<close>

definition same_rows :: "'z op_world_scheme \<Rightarrow> 'z op_world_scheme \<Rightarrow> bool" where
  "same_rows s t \<longleftrightarrow> ow_rows t = ow_rows s"

interpretation rows: effect_relation "same_rows :: 'z op_world_scheme \<Rightarrow> 'z op_world_scheme \<Rightarrow> bool"
  by unfold_locales (auto simp: same_rows_def)

lemma frame_same_rows: "within world_frame m \<Longrightarrow> within same_rows m"
  by (rule withinI, unfold same_rows_def, rule more_ops [THEN conjunct1], rule world_frame_more, rule within_snd)

lemma audited_same_rows: "within same_rows (audited c i)"
  unfolding audited_def by (intro rows.map_err frame_same_rows record_intent_frame)

lemma publish_same_rows: "within same_rows (publish_operation sv r b)"
  by (rule withinI)
     (auto simp: same_rows_def publish_operation_def publish_event_def act_simps split: option.splits)

lemma refuse_pool_member_same_rows: "within same_rows (refuse_pool_member sv who new)"
proof -
  have f: "within same_rows (fail e)" "within same_rows (ret ())" for e :: usecase_error
    by (rule rows.fail, rule rows.ret)
  show ?thesis
    unfolding refuse_pool_member_def
    by (auto simp: f split: option.splits sum.splits intro!: rows.andthen rows.lift audited_same_rows)
qed

lemma use_case_tail_same_rows:
  "within same_rows (andthen (publish_operation sv r b) (\<lambda>_. andthen (lift x) (\<lambda>m. andthen (audited c (i m)) (\<lambda>_. ret r))))"
  by (intro rows.intros publish_same_rows audited_same_rows)

lemma same_rowsD: "within same_rows m \<Longrightarrow> m s = (x, t) \<Longrightarrow> ow_rows t = ow_rows s"
  using withinD same_rows_def by metis

text \<open>Whatever becomes of a creation, it stores at most the row that was admitted.\<close>

lemma create_inner_rows:
  fixes s :: "'z op_world_scheme"
  assumes "create_inner sv az who new route s = (x, t)"
  shows "ow_rows t = ow_rows s \<or>
    admission sv az who new route = Inr () \<and>
    (\<exists>i now. ow_rows t = ow_rows s @ [new_row i (no_kind new) (no_key new) (no_deadline new) (no_correlation new)
       (no_payload new) now])"
proof (cases "admission sv az who new route")
  case (Inl e)
  with assms show ?thesis by (simp add: create_inner_def andthen_def lift_def)
next
  case (Inr u)
  obtain a v where p: "(if asks_pool sv new then refuse_pool_member sv who new else ret ()) s = (a, v)"
    by fastforce
  then have v: "ow_rows v = ow_rows s"
    using same_rowsD [OF rows.cond [OF refuse_pool_member_same_rows rows.ret]] by metis
  show ?thesis
  proof (cases a)
    case (Inl e)
    with assms Inr p v show ?thesis by (simp add: create_inner_def andthen_def lift_def)
  next
    case (Inr b)
    let ?make = "op_create (no_kind new) (no_key new) (no_deadline new) (no_correlation new) (no_payload new)"
    obtain c w where m: "?make v = (c, w)" by fastforce
    have "ow_rows t = ow_rows w"
    proof (cases c)
      case (Inl e)
      with assms \<open>admission _ _ _ _ _ = Inr u\<close> p Inr m show ?thesis
        by (simp add: create_inner_def andthen_def lift_def map_err_def)
    next
      case (Inr r)
      have "ow_rows t = ow_rows w"
        if "andthen (publish_operation sv r False) (\<lambda>_. andthen (lift (use_metadata ''create_audit'' (create_facts new route)))
          (\<lambda>m. andthen (audited ''create_audit'' (\<lparr>ai_actor = who, ai_action = permission_id OperationCreate,
             ai_resource = Some (op_id r), ai_decision = decision_allow, ai_correlation = no_correlation new,
             ai_operation = Some (op_id r), ai_metadata = m\<rparr>)) (\<lambda>_. ret r))) w = (x, t)"
        using that by (rule same_rowsD [OF use_case_tail_same_rows])
      with assms \<open>admission _ _ _ _ _ = Inr u\<close> p \<open>a = Inr b\<close> m Inr
      show ?thesis by (simp add: create_inner_def run_steps del: permission_id.simps)
    qed
    with op_create_rows [OF m] v \<open>admission _ _ _ _ _ = Inr u\<close> show ?thesis by auto
  qed
qed

text \<open>Reading, cancelling and completing.\<close>

lemma op_get_same: "op_get i s = (Inr r, t) \<Longrightarrow>
    find (\<lambda>r. op_id r = i) (ow_rows s) = Some r \<and> r \<in> set (ow_rows s) \<and> op_id r = i \<and> ow_rows t = ow_rows s"
  using op_get_Inr [of i s r t] op_get_rows [of i s "Inr r" t] find_Some_in by fastforce

lemma update_found:
  assumes "find (\<lambda>r. op_id r = i) rows = Some x" and "\<And>r. op_id (f r) = op_id r"
  shows "find (\<lambda>r. op_id r = i) (map (\<lambda>r. if op_id r = i then f r else r) rows) = Some (f x)"
  using find_map_same [of "\<lambda>r. if op_id r = i then f r else r" i rows] assms find_Some_in [OF assms(1)] by simp

text \<open>The two writes of the repository that the service relies on, on a stored operation.\<close>

lemma op_complete_Inr:
  assumes "op_complete i target result error s = (Inr r, t)"
  shows "\<exists>x a to. find (\<lambda>r. op_id r = i) (ow_rows s) = Some x \<and> state_of_text (op_state x) = Some a \<and>
    state_of_text target = Some to \<and> can_transition a to \<and>
    op_id r = i \<and> op_state r = target \<and> op_result r = result \<and> op_error r = error \<and> op_kind r = op_kind x \<and>
    find (\<lambda>r. op_id r = i) (ow_rows t) = Some r \<and>
    opt_all (\<lambda>d. length d \<le> max_result_json) result \<and> opt_all (\<lambda>d. length d \<le> max_result_json) error"
proof -
  obtain to u where c: "complete_check i target result error s = (Inr to, u)"
    and w: "complete_write i to result error u = (Inr r, t)"
    using assms by (auto simp: op_complete_def andthen_Inr)
  note check = transition_check_Inr [OF complete_check_Inr [OF c]]
  then obtain x a where x: "find (\<lambda>r. op_id r = i) (ow_rows s) = Some x" "state_of_text (op_state x) = Some a"
    "state_of_text target = Some to" "can_transition a to" "ow_rows u = ow_rows s" by auto
  have target: "state_id to = target"
    using x(3) by (auto simp: state_of_text_def state_from_id_Inr split: sum.splits)
  let ?f = "\<lambda>r. r\<lparr>op_state := state_id to, op_result := result, op_error := error, op_updated := w_now u\<rparr>"
  obtain v where v: "ow_rows v = map (\<lambda>r. if op_id r = i then ?f r else r) (ow_rows s)" "op_get i v = (Inr r, t)"
  proof -
    obtain z q where q: "statement ''operation complete'' u = (Inr z, q)"
      "op_get i (q\<lparr>ow_rows := map (\<lambda>r. if op_id r = i then ?f r else r) (ow_rows q)\<rparr>) = (Inr r, t)"
      using w by (auto simp: complete_write_def andthen_Inr asks_Inr update_rows_def)
    have "ow_rows q = ow_rows s" using statement_rows [OF q(1)] x(5) by simp
    then show thesis using that [OF _ q(2)] by simp
  qed
  have "find (\<lambda>r. op_id r = i) (ow_rows v) = Some (?f x)"
    unfolding v(1) by (rule update_found [OF x(1)]) simp
  with op_get_same [OF v(2)] have r: "r = ?f x" "ow_rows t = ow_rows v" by auto
  have bounds: "opt_all (\<lambda>d. length d \<le> max_result_json) result \<and> opt_all (\<lambda>d. length d \<le> max_result_json) error"
    using c by (auto simp: complete_check_def andthen_Inr lift_Inr check_optional_def check_bound_def opt_all_def
        split: option.splits sum.splits if_splits)
  show ?thesis using x target r bounds op_get_same [OF v(2)] by auto
qed

section \<open>Properties\<close>

text \<open>
  C1. Nothing is stored without authority: when a creation changes the operations it appended
  one row that carries the request, the kind is a known one with a bounded payload, off the
  broker's route the caller may create that kind, a machine kind is permitted on the very
  machine its payload names, and a catalog kind is permitted in the catalog (the creation of
  a machine on the broker's behalf was authorized by the request it runs).
\<close>

theorem create_authorized:
  assumes "create_inner sv az who new route s = (x, t)" and "ow_rows t \<noteq> ow_rows s"
  shows "(\<exists>i now. ow_rows t = ow_rows s @ [new_row i (no_kind new) (no_key new) (no_deadline new) (no_correlation new)
       (no_payload new) now]) \<and>
    no_kind new \<in> set creatable_kinds \<and>
    (if route = BrokeredRoute then no_kind new \<in> set (sv_brokered sv)
     else allowed (az (access who OperationCreate (Some (no_kind new))))) \<and>
    opt_all (\<lambda>p. \<exists>m. document_text sv ''machineId'' new = Some m \<and> allowed (az (access who p (Some m))))
      (machine_scoped_kind_permission (no_kind new) (document sv new)) \<and>
    opt_all (\<lambda>p. no_kind new = ''machine.create'' \<and> route \<in> {BrokeredRoute, SetupFollowUpRoute} \<or> allowed (az (access who p None)))
      (catalog_scoped_kind_permission (no_kind new)) \<and>
    opt_all (\<lambda>p. length p \<le> 131072) (no_payload new)"
proof -
  from create_inner_rows [OF assms(1)] assms(2)
  have a: "admission sv az who new route = Inr ()" and row: "\<exists>i now. ow_rows t = ow_rows s @
      [new_row i (no_kind new) (no_key new) (no_deadline new) (no_correlation new) (no_payload new) now]" by auto
  then obtain ro where k: "check_route sv az who new route = Inr ()" "check_payload sv new route = Inr ()"
    "check_kind sv az who new route ro = Inr ()" by (auto simp: admission_Inr)
  have "no_kind new \<in> set creatable_kinds \<and> opt_all (\<lambda>p. length p \<le> 131072) (no_payload new)"
    using k(2) unfolding check_payload_def Let_def first_error_Inr
    by (simp add: max_payload_json_def opt_all_def split: option.splits)
  moreover have "if route = BrokeredRoute then no_kind new \<in> set (sv_brokered sv)
     else allowed (az (access who OperationCreate (Some (no_kind new))))"
    using k(1) by (simp add: check_route_Inr split: if_splits)
  moreover have "opt_all (\<lambda>p. \<exists>m. document_text sv ''machineId'' new = Some m \<and> allowed (az (access who p (Some m))))
      (machine_scoped_kind_permission (no_kind new) (document sv new))"
    using check_kind_machine [OF k(3)] by (simp add: opt_all_def split: option.splits)
  moreover have "opt_all (\<lambda>p. no_kind new = ''machine.create'' \<and> route \<in> {BrokeredRoute, SetupFollowUpRoute} \<or> allowed (az (access who p None)))
      (catalog_scoped_kind_permission (no_kind new))"
  proof (cases "catalog_scoped_kind_permission (no_kind new)")
    case (Some p)
    then have "no_kind new = ''machine.create'' \<Longrightarrow> p = MachineProvision"
      by (simp add: catalog_scoped_kind_permission_def)
    with check_kind_catalog [OF k(3) Some] Some show ?thesis
      by (cases route) (auto simp: opt_all_def split: if_split_asm)
  qed (simp add: opt_all_def)
  ultimately show ?thesis using row by blast
qed

text \<open>
  The generic route is fenced: what it stores is no kind that has its own route or that
  a provider action owns, carries no reserved idempotency key and no stored-key login, and
  a destructive kind carries the review token of exactly this kind and payload.
\<close>

theorem generic_route_fenced:
  assumes "create_generic sv az who new s = (x, t)" and "ow_rows t \<noteq> ow_rows s"
  shows "dedicated_only (no_kind new) = None \<and> no_kind new \<notin> {''machine.create'', ''lab.provision''} \<and>
    no_kind new \<notin> set (sv_brokered sv) \<and>
    \<not> (\<exists>k. no_key new = Some k \<and> (starts_with broker_prefix k \<or> starts_with setup_follow_up_prefix k)) \<and>
    \<not> stored_key_auth (document sv new) \<and>
    (no_kind new \<in> set destructive_kinds \<longrightarrow>
       no_review new = Some (review_token_for sv (no_kind new) (case no_payload new of None \<Rightarrow> [] | Some p \<Rightarrow> p)))"
proof -
  from create_inner_rows [OF assms(1) [unfolded create_generic_def]] assms(2)
  have a: "admission sv az who new GenericRoute = Inr ()" by auto
  then obtain ro where k: "check_route sv az who new GenericRoute = Inr ()" "\<not> stored_key_auth (document sv new)"
    "check_kind sv az who new GenericRoute ro = Inr ()" by (auto simp: admission_Inr)
  have d: "dedicated_only (no_kind new) = None"
  proof (rule ccontr)
    assume "dedicated_only (no_kind new) \<noteq> None"
    then obtain detail where "dedicated_only (no_kind new) = Some detail" by blast
    with check_kind_dedicated [OF k(3) dedicated_not_machine_scoped] show False by simp
  qed
  have m: "no_kind new \<noteq> ''machine.create''"
    using check_kind_catalog [OF k(3), of MachineProvision] by (auto simp: catalog_scoped_kind_permission_def)
  have l: "no_kind new \<noteq> ''lab.provision''" using check_kind_lab_provision [OF k(3)] by auto
  have "no_review new = Some (review_token_for sv (no_kind new) (case no_payload new of None \<Rightarrow> [] | Some p \<Rightarrow> p))"
    if dk: "no_kind new \<in> set destructive_kinds"
  proof -
    from destructive_catalog [OF dk] obtain p where "catalog_scoped_kind_permission (no_kind new) = Some p" by blast
    from check_kind_catalog [OF k(3) this] m dk have "reviewed sv new" by simp
    then show ?thesis by (simp add: reviewed_iff)
  qed
  with d m l k show ?thesis by (simp add: check_route_Inr)
qed

text \<open>
  A review token binds: whoever presents the token that was issued for one kind and
  payload and gets it accepted for another has found two texts with the same SHA-256.
\<close>

theorem review_token_binds:
  assumes "reviewed sv new" and "no_review new = Some (review_token_for sv kind payload)"
    and "kind \<in> set creatable_kinds" and "no_kind new \<in> set creatable_kinds"
  shows "kind = no_kind new \<and> payload = (case no_payload new of None \<Rightarrow> [] | Some p \<Rightarrow> p) \<or>
    (\<exists>a b. a \<noteq> b \<and> sv_sha256 sv a = sv_sha256 sv b)"
proof -
  let ?p = "case no_payload new of None \<Rightarrow> [] | Some p \<Rightarrow> p"
  let ?a = "kind @ [CHR 0x0A] @ payload" and ?b = "no_kind new @ [CHR 0x0A] @ ?p"
  have "sv_sha256 sv ?a = sv_sha256 sv ?b"
    using assms(1,2) by (auto simp: reviewed_iff review_token_for_def hex_text_inject)
  moreover have "kind = no_kind new \<and> payload = ?p" if "?a = ?b"
    using that assms(3,4) by (auto simp: kind_no_newline dest!: append_separator_inject)
  ultimately show ?thesis by blast
qed

text \<open>
  C21. Leases are fenced for delegated callers: a delegated principal that stores an operation
  through a lease route may use the permission on that lease, names the lease in the payload
  and is scoped to the owner the lease is recorded under.
\<close>

theorem delegated_lease_confined:
  assumes "create_for_lease sv az who lease_id new kind p s = (x, t)" and "ow_rows t \<noteq> ow_rows s"
    and "is_delegated_principal who"
  shows "no_kind new = kind \<and> document_text sv ''leaseId'' new = Some lease_id \<and>
    allowed (az (access who p (Some lease_id))) \<and>
    (\<exists>owner_of owner. sv_leases sv = Some owner_of \<and> owner_of lease_id = Inr (Some owner) \<and>
       owner_scope_permits who owner)"
proof -
  have k: "no_kind new = kind \<and> document_text sv ''leaseId'' new = Some lease_id"
    using assms(1,2) by (auto simp: create_for_lease_def fail_def split: if_split_asm)
  with assms have a: "allow az who p (Some lease_id) = Inr ()"
    by (cases "allow az who p (Some lease_id)") (auto simp: create_for_lease_def run_steps)
  with k assms have "require_own_lease sv who lease_id = Inr ()"
    by (cases "require_own_lease sv who lease_id") (auto simp: create_for_lease_def run_steps)
  with a k assms(3) show ?thesis
    by (auto simp: require_own_lease_def lease_owner_def check_then_Inr allow_Inr split: option.splits sum.splits if_splits)
qed

text \<open>
  Reading an operation is confined: the caller may read that operation, a machine
  operation is shown only to callers who hold its permission on the machine in its stored
  payload, and a delegated caller sees only operations of leases in its owner's scope.
\<close>

theorem get_confined:
  assumes "get_operation sv az who i s = (Inr r, t)"
  shows "op_id r = i \<and> r \<in> set (ow_rows s) \<and> ow_rows t = ow_rows s \<and>
    allowed (az (access who OperationRead (Some i))) \<and>
    opt_all (\<lambda>p. \<exists>m. Option.bind (Option.bind (op_payload r) (sv_parse sv)) (json_field ''machineId'') = Some m \<and>
      allowed (az (access who p (Some m)))) (machine_access_kind_permission (op_kind r)) \<and>
    (is_delegated_principal who \<longrightarrow> starts_with ''lab.'' (op_kind r) \<and>
      (\<exists>lease owner_of owner. Option.bind (Option.bind (op_payload r) (sv_parse sv)) (json_field ''leaseId'') = Some lease \<and>
         sv_leases sv = Some owner_of \<and> owner_of lease = Inr (Some owner) \<and> owner_scope_permits who owner))"
proof -
  obtain q u where g: "allow az who OperationRead (Some i) = Inr ()" "op_get i s = (Inr q, u)"
    "(if \<not> machine_operation_readable sv az who q then fail (UcNotFound (''operation '' @ i))
     else if is_delegated_principal who
     then andthen (lift (require_own_lab_operation sv who q)) (\<lambda>_. ret q) else ret q) u = (Inr r, t)"
    using assms unfolding get_operation_def
    by (elim andthen_Inr_E) (rule that; simp add: lift_Inr map_err_Inr)
  then have r: "r = q" "t = u" "machine_operation_readable sv az who r"
    "is_delegated_principal who \<Longrightarrow> require_own_lab_operation sv who r = Inr ()"
    by (auto simp: fail_Inr ret_Inr split: if_split_asm sum.splits)
  have "opt_all (\<lambda>p. \<exists>m. Option.bind (Option.bind (op_payload r) (sv_parse sv)) (json_field ''machineId'') = Some m \<and>
      allowed (az (access who p (Some m)))) (machine_access_kind_permission (op_kind r))"
    using r(3) by (auto simp: machine_operation_readable_def opt_all_def authorize_def Let_def
        split: option.splits if_split_asm)
  moreover have "is_delegated_principal who \<longrightarrow> starts_with ''lab.'' (op_kind r) \<and>
      (\<exists>lease owner_of owner. Option.bind (Option.bind (op_payload r) (sv_parse sv)) (json_field ''leaseId'') = Some lease \<and>
         sv_leases sv = Some owner_of \<and> owner_of lease = Inr (Some owner) \<and> owner_scope_permits who owner)"
    using r(4) by (auto simp: require_own_lab_operation_def Let_def lease_owner_def check_then_Inr
        split: option.splits sum.splits if_split_asm)
  ultimately show ?thesis using g r op_get_same [OF g(2)] by (simp add: allow_Inr)
qed

text \<open>
  Completing follows the life cycle and never stores what the redaction would hide: the
  transition is legal from the stored state, the stored error is the scrubbed one, the
  stored result is scrubbed unless the operation succeeded, and both stay within 8 KiB.
\<close>

theorem complete_scrubs:
  fixes s :: "'z op_world_scheme"
  assumes "complete_operation sv i state result error s = (Inr r, t)"
  shows "\<exists>x a to. find (\<lambda>r. op_id r = i) (ow_rows s) = Some x \<and> state_of_text (op_state x) = Some a \<and>
    state_of_text state = Some to \<and> can_transition a to \<and>
    find (\<lambda>r. op_id r = i) (ow_rows t) = Some r \<and> op_state r = state \<and>
    op_error r = map_option (scrub_stored_json sv) error \<and>
    op_result r = (if state = ''succeeded'' then result else map_option (scrub_stored_json sv) result) \<and>
    opt_all (\<lambda>d. length d \<le> 8192) (op_result r) \<and> opt_all (\<lambda>d. length d \<le> 8192) (op_error r)"
proof -
  let ?r = "if state \<noteq> ''succeeded'' then map_option (scrub_stored_json sv) result else result"
  let ?e = "map_option (scrub_stored_json sv) error"
  obtain u v where c: "op_complete i state ?r ?e s = (Inr r, u)"
    and p: "(publish_operation sv r True :: ('z op_world_scheme, usecase_error, unit) act) u = (Inr (), v)"
    and o: "record_outcome i (completion_outcome state) v = (Inr (), t)"
    using assms unfolding complete_operation_def Let_def
    by (elim andthen_Inr_E) (rule that; simp add: map_err_Inr ret_Inr)
  have "ow_rows t = ow_rows u"
    using same_rowsD [OF publish_same_rows p] frame_ops [OF record_outcome_frame o] by simp
  with op_complete_Inr [OF c] show ?thesis by (auto simp: max_result_json_def)
qed

lemma andthen_asks: "andthen (asks f) g s = g (f s) s"
  by (simp add: act_simps)

lemma update_rows_Inr: "update_rows P f s = (Inr n, t) \<longleftrightarrow> n = length (filter P (ow_rows s)) \<and>
    t = s\<lparr>ow_rows := map (\<lambda>r. if P r then f r else r) (ow_rows s)\<rparr>"
  by (auto simp: update_rows_def)

lemma op_transition_Inr:
  assumes "op_transition i target s = (Inr r, t)" and "find (\<lambda>r. op_id r = i) (ow_rows s) = Some x"
  shows "\<exists>now. find (\<lambda>r. op_id r = i) (ow_rows t) = Some (x\<lparr>op_state := target, op_updated := now\<rparr>)"
proof -
  obtain to u where c: "transition_check i target s = (Inr to, u)" and w: "transition_write i to u = (Inr r, t)"
    using assms(1) by (auto simp: op_transition_def andthen_Inr)
  have u: "ow_rows u = ow_rows s" and target: "state_id to = target"
    using transition_check_Inr [OF c] by (auto simp: op_ids.of_text_iff)
  let ?f = "\<lambda>r. r\<lparr>op_state := state_id to, op_updated := w_now u\<rparr>"
  obtain z q where q: "statement ''operation transition'' u = (Inr z, q)"
    "op_get i (q\<lparr>ow_rows := map (\<lambda>r. if op_id r = i then ?f r else r) (ow_rows q)\<rparr>) = (Inr r, t)"
    using w by (auto simp: transition_write_def andthen_Inr asks_Inr update_rows_def)
  have "find (\<lambda>r. op_id r = i) (ow_rows t) = Some (?f x)"
    using op_get_same [OF q(2)] statement_rows [OF q(1)] u update_found [OF assms(2), of ?f] by simp
  then show ?thesis using target by auto
qed

lemma op_request_cancel_Inr:
  fixes s :: "'z op_world_scheme"
  assumes "op_request_cancel i s = (Inr r, t)"
  shows "\<exists>x. find (\<lambda>r. op_id r = i) (ow_rows s) = Some x \<and> op_id r = i \<and> op_cancel_requested r \<and>
    op_kind r = op_kind x \<and> op_payload r = op_payload x \<and> op_result r = op_result x \<and> op_error r = op_error x \<and>
    op_state r = (if op_state x = ''running'' then ''cancelling'' else op_state x) \<and>
    find (\<lambda>r. op_id r = i) (ow_rows t) = Some r"
proof -
  obtain x u where x: "op_get i s = (Inr x, u)" and rest: "andthen (asks w_now) (\<lambda>now.
     andthen (statement ''operation request_cancel'') (\<lambda>_.
     andthen (update_rows (\<lambda>r. op_id r = i) (\<lambda>r. r\<lparr>op_cancel_requested := True, op_updated := now\<rparr>)) (\<lambda>_.
     andthen (lift (parse_state (op_state x))) (\<lambda>fs.
     andthen (if can_transition fs Cancelling
              then andthen (op_transition i ''cancelling'') (\<lambda>_. ret ()) else ret ()) (\<lambda>_.
     op_get i))))) u = (Inr r, t)"
    using assms unfolding op_request_cancel_def by (rule andthen_Inr_E)
  note x = op_get_same [OF x]
  let ?f = "\<lambda>r. r\<lparr>op_cancel_requested := True, op_updated := w_now u\<rparr>"
  obtain v fs w where f: "find (\<lambda>r. op_id r = i) (ow_rows v) = Some (?f x)"
      "state_of_text (op_state x) = Some fs"
      "(if can_transition fs Cancelling then andthen (op_transition i ''cancelling'') (\<lambda>_. ret ()) else ret ()) v = (Inr (), w)"
      "op_get i w = (Inr r, t)"
  proof -
    obtain z q fs e w where q: "statement ''operation request_cancel'' u = (Inr z, q)"
      "parse_state (op_state x) = Inr fs"
      "(if can_transition fs Cancelling then andthen (op_transition i ''cancelling'') (\<lambda>_. ret ()) else ret ())
         (q\<lparr>ow_rows := map (\<lambda>r. if op_id r = i then ?f r else r) (ow_rows q)\<rparr>) = (Inr e, w)"
      "op_get i w = (Inr r, t)"
      using rest unfolding andthen_asks
      by (elim andthen_Inr_E) (rule that; simp only: lift_Inr update_rows_Inr)
    have "find (\<lambda>r. op_id r = i) (ow_rows (q\<lparr>ow_rows := map (\<lambda>r. if op_id r = i then ?f r else r) (ow_rows q)\<rparr>)) = Some (?f x)"
      using update_found [of i "ow_rows s" x ?f] x statement_rows [OF q(1)] by simp
    from that [OF this _ _ q(4)] q(2,3) show thesis by (simp add: parse_state_Inr)
  qed
  have st: "op_state x = state_id fs" using f(2) by (simp add: op_ids.of_text_iff)
  have fs: "fs = Running \<longleftrightarrow> op_state x = ''running''" using st by (cases fs) simp_all
  show ?thesis
  proof (cases "fs = Running")
    case False
    then have "w = v" using f(3) by (simp add: into_cancelling ret_Inr)
    with f(1) op_get_same [OF f(4)] have r: "r = ?f x" "find (\<lambda>r. op_id r = i) (ow_rows t) = Some r" by simp_all
    with x False fs show ?thesis by simp
  next
    case True
    then obtain y where "op_transition i ''cancelling'' v = (Inr y, w)"
      using f(3) by (auto simp: andthen_Inr ret_Inr)
    from op_transition_Inr [OF this f(1)] obtain now where
      "find (\<lambda>r. op_id r = i) (ow_rows w) = Some ((?f x)\<lparr>op_state := ''cancelling'', op_updated := now\<rparr>)" by blast
    with op_get_same [OF f(4)] x have r: "r = (?f x)\<lparr>op_state := ''cancelling'', op_updated := now\<rparr>"
      "find (\<lambda>r. op_id r = i) (ow_rows t) = Some r" by simp_all
    with x True fs show ?thesis by simp
  qed
qed

text \<open>
  Cancelling asks, it does not stop: a finished operation is refused and left as it is, a
  running one moves to cancelling, and any other live one keeps its state and only carries
  the request.
\<close>

theorem cancel_effect:
  fixes s :: "'z op_world_scheme"
  assumes "cancel_operation sv az who i s = (Inr r, t)"
  shows "\<exists>x. find (\<lambda>r. op_id r = i) (ow_rows s) = Some x \<and> \<not> terminal_text (op_state x) \<and>
    allowed (az (access who OperationCancel (Some i))) \<and>
    find (\<lambda>r. op_id r = i) (ow_rows t) = Some r \<and> op_cancel_requested r \<and>
    op_state r = (if op_state x = ''running'' then ''cancelling'' else op_state x)"
proof -
  obtain x u q v w z where g: "allow az who OperationCancel (Some i) = Inr ()" "op_get i s = (Inr x, u)"
    and e: "\<not> terminal_text (op_state x)"
    and c: "op_request_cancel i u = (Inr q, v)"
    and p: "(publish_operation sv q False :: ('z op_world_scheme, usecase_error, unit) act) v = (Inr (), w)"
    and a: "audited ''cancel_audit'' \<lparr>ai_actor = who, ai_action = permission_id OperationCancel, ai_resource = Some i,
         ai_decision = decision_allow, ai_correlation = op_correlation q, ai_operation = Some i,
         ai_metadata = []\<rparr> w = (Inr (), z)"
    and r: "r = q" "t = z"
  proof -
    obtain x u where g: "allow az who OperationCancel (Some i) = Inr ()" "op_get i s = (Inr x, u)"
      and rest: "(if terminal_text (op_state x) then fail (UcNotFound (''live operation '' @ i))
     else
     andthen (map_err (map_port_failure ''cancel'') (op_request_cancel i)) (\<lambda>r.
     andthen (publish_operation sv r False) (\<lambda>_.
     andthen (audited ''cancel_audit''
        \<lparr>ai_actor = who, ai_action = permission_id OperationCancel, ai_resource = Some i,
         ai_decision = decision_allow, ai_correlation = op_correlation r, ai_operation = Some i,
         ai_metadata = []\<rparr>) (\<lambda>_.
     ret r)))) u = (Inr r, t)"
      using assms unfolding cancel_operation_def
      by (elim andthen_Inr_E) (rule that; simp add: lift_Inr map_err_Inr)
    then have e: "\<not> terminal_text (op_state x)" by (auto simp: fail_Inr)
    with rest show thesis
      by (simp only: if_False e)
         (elim andthen_Inr_E, rule that [OF g e]; simp add: map_err_Inr ret_Inr)
  qed
  have u: "ow_rows u = ow_rows s" "find (\<lambda>r. op_id r = i) (ow_rows s) = Some x" using op_get_same [OF g(2)] by auto
  have "ow_rows t = ow_rows v"
    using same_rowsD [OF publish_same_rows p] same_rowsD [OF audited_same_rows a] r by simp
  with op_request_cancel_Inr [OF c] u e g(1) r show ?thesis by (auto simp: allow_Inr)
qed

lemma take_filter_prefix:
  assumes "n \<le> m" and "limit \<le> length (filter P (take n xs))"
  shows "take limit (filter P (take n xs)) = take limit (filter P (take m xs))"
proof -
  have "take m xs = take n xs @ take (m - n) (drop n xs)"
    using assms(1) take_add [of n "m - n" xs] by simp
  then show ?thesis using assms(2) by simp
qed

lemma op_list_Inr: "op_list limit s = (Inr rows, t) \<Longrightarrow>
    rows = take (clamp 1 200 limit) (newest_first (ow_rows s)) \<and> ow_rows t = ow_rows s"
  by (auto simp: op_list_def andthen_Inr asks_Inr dest: statement_rows)

lemma list_round_page:
  fixes s :: "'z op_world_scheme"
  assumes "list_round sv az who limit k s = (Inr page, t)"
  shows "page = take limit (filter (machine_operation_readable sv az who) (take 200 (newest_first (ow_rows s))))"
  using assms
proof (induction sv az who limit k s rule: list_round.induct)
  case (1 sv az who limit k s)
  let ?ask = "ask_of_round limit k" and ?P = "machine_operation_readable sv az who"
  obtain x u where l: "op_list ?ask s = (x, u)" by fastforce
  with "1.prems" obtain rows where x: "x = Inr rows"
    by (cases x) (simp_all add: list_round.simps [of _ _ _ _ _ s] map_err_def)
  note rows = op_list_Inr [OF l [unfolded x]]
  let ?visible = "filter ?P rows"
  let ?stop = "length ?visible \<ge> limit \<or> length rows < ?ask \<or> ?ask \<ge> 10000"
  have r: "list_round sv az who limit k s =
      (if ?stop then (Inr (take limit ?visible), u) else list_round sv az who limit (Suc k) u)"
    by (subst list_round.simps) (simp add: l x map_err_def Let_def)
  show ?case
  proof (cases ?stop)
    case False
    have "map_err (map_port_failure ''list'') (op_list ?ask) s = (Inr rows, u)" by (simp add: l x map_err_def)
    from "1.IH" [OF refl this [symmetric] refl refl refl False] "1.prems" False r rows show ?thesis by simp
  next
    case True
    with "1.prems" r have page: "page = take limit ?visible" by simp
    consider "length ?visible \<ge> limit" | "length rows < ?ask" | "?ask \<ge> 10000" using True by blast
    then show ?thesis
    proof cases
      case 1
      then show ?thesis using page rows take_filter_prefix [of "clamp 1 200 ?ask" 200 limit ?P "newest_first (ow_rows s)"]
        by (simp add: clamp_def)
    next
      case 2
      then have "rows = take 200 (newest_first (ow_rows s))"
        using rows by (cases "?ask \<le> 200") (auto simp: clamp_def min_def max_def split: if_splits)
      with page show ?thesis by simp
    next
      case 3
      then have "rows = take 200 (newest_first (ow_rows s))" using rows by (simp add: clamp_def)
      with page show ?thesis by simp
    qed
  qed
qed

lemma list_round_returns:
  fixes s :: "'z op_world_scheme"
  assumes "w_faults s = []"
  shows "\<exists>page. list_round sv az who limit k s = (Inr page, s)"
  using assms
proof (induction sv az who limit k s rule: list_round.induct)
  case (1 sv az who limit k s)
  let ?ask = "ask_of_round limit k"
  let ?rows = "take (clamp 1 200 ?ask) (newest_first (ow_rows s))"
  let ?visible = "filter (machine_operation_readable sv az who) ?rows"
  let ?stop = "length ?visible \<ge> limit \<or> length ?rows < ?ask \<or> ?ask \<ge> 10000"
  have l: "map_err (map_port_failure ''list'') (op_list ?ask) s = (Inr ?rows, s)"
    using "1.prems" by (simp add: map_err_def op_list_def andthen_def statement_ok asks_def)
  show ?case
  proof (cases ?stop)
    case False
    from "1.IH" [OF refl l [symmetric] refl refl refl False "1.prems"] False l show ?thesis
      by (subst list_round.simps) (simp add: Let_def)
  next
    case True
    with l show ?thesis by (subst list_round.simps) (simp add: Let_def)
  qed
qed

text \<open>
  The listing loop, which asks for more and more rows, equals one filtered read: it
  always returns, it fails only for a caller who may not list or a failing statement, and
  the page is the first operations visible to the caller among the newest 200. What
  the caller may not see still counts against those 200, so a page can be shorter than
  asked although older visible operations exist.
\<close>

theorem list_is_filtered_read:
  assumes "list_operations sv az who limit s = (x, t)"
  shows "case x of
      Inr page \<Rightarrow> allowed (az (access who OperationRead None)) \<and>
        page = take limit (filter (machine_operation_readable sv az who) (take 200 (newest_first (ow_rows s))))
    | Inl e \<Rightarrow> \<not> allowed (az (access who OperationRead None)) \<or> w_faults s \<noteq> []"
proof (cases "allow az who OperationRead None")
  case (Inl e)
  moreover have "\<not> allowed (az (access who OperationRead None))"
  proof
    assume "allowed (az (access who OperationRead None))"
    then have "allow az who OperationRead None = Inr ()" by (simp add: allow_Inr requires_resource_def)
    with Inl show False by simp
  qed
  ultimately show ?thesis using assms by (auto simp: list_operations_def)
next
  case (Inr u)
  then have r: "list_round sv az who limit 0 s = (x, t)" using assms by (simp add: list_operations_def)
  have a: "allowed (az (access who OperationRead None))" using Inr by (simp add: allow_Inr)
  show ?thesis
  proof (cases x)
    case (Inl e)
    with r list_round_returns [of s sv az who limit 0] show ?thesis by auto
  next
    case (Inr page)
    with r a list_round_page [of sv az who limit 0 s page t] show ?thesis by simp
  qed
qed

section \<open>Witnesses\<close>

definition demo_service :: service where
  "demo_service = \<lparr>sv_parse = (\<lambda>p. Some (JObject [(''machineId'', JString p), (''leaseId'', JString p)])),
     sv_print = (\<lambda>_. ''{}''), sv_rollout = (\<lambda>_. None), sv_sha256 = (\<lambda>p. p), sv_redact = (\<lambda>v. v),
     sv_scrub = (\<lambda>p. p), sv_pool = None, sv_leases = Some (\<lambda>l. Inr (Some ''credential:ci'')), sv_targets = None,
     sv_brokered = [''dns.record.upsert''], sv_tools = SystemTools, sv_events = True\<rparr>"

lemma demo_service_sel:
  "sv_parse demo_service p = Some (JObject [(''machineId'', JString p), (''leaseId'', JString p)])"
  "sv_print demo_service v = ''{}''" "sv_redact demo_service v = v"
  "sv_pool demo_service = None" "sv_leases demo_service = Some (\<lambda>l. Inr (Some ''credential:ci''))"
  "sv_brokered demo_service = [''dns.record.upsert'']" "sv_events demo_service = True"
  "sv_sha256 demo_service p = p"
  by (simp_all add: demo_service_def)

definition demo_request :: "string \<Rightarrow> string option \<Rightarrow> new_operation" where
  "demo_request kind payload = \<lparr>no_kind = kind, no_key = None, no_deadline = None, no_correlation = None,
     no_payload = payload, no_review = None\<rparr>"

definition allow_all :: authorizer where "allow_all = (\<lambda>_. decision_allow)"

lemma allow_all_ok: "\<not> (requires_resource p \<and> r = None) \<Longrightarrow> allow allow_all who p r = Inr ()"
  by (simp add: allow_Inr allow_all_def decision_allow_def)

definition empty_store :: "string option list \<Rightarrow> op_world" where
  "empty_store faults = demo_ops\<lparr>ow_rows := [], w_faults := faults\<rparr>"

lemma empty_store_sel: "ow_rows (empty_store f) = []" "w_faults (empty_store f) = f" "w_ledger (empty_store f) = []"
  by (simp_all add: empty_store_def demo_ops_def)

lemma demo_noop_admitted:
  "admission demo_service allow_all who (demo_request ''noop'' None) GenericRoute = Inr ()"
  by (simp add: admission_def check_then_def check_route_def demo_request_def allow_all_ok refuse_when_def
      demo_service_sel check_payload_def document_def creatable_kinds_def skills_kind_def starts_with_def
      catalog_rollout_payload_def stored_key_auth_def check_kind_def machine_scoped_kind_permission_def
      dedicated_only_def fill_kind_def catalog_scoped_kind_permission_def)

lemma demo_noop_pool: "\<not> asks_pool demo_service (demo_request ''noop'' None)"
  by (simp add: asks_pool_def demo_request_def catalog_scoped_kind_permission_def)

text \<open>
  The module says that mutations come last, but the audit record of a creation is
  written after the row: when the ledger refuses, the caller is told the creation failed
  while the pending operation stays in the store and can be claimed.
\<close>

theorem unaudited_creation_stays:
  "\<exists>s e t r. create_generic demo_service allow_all ''anonymous-lan-admin'' (demo_request ''noop'' None) (s :: op_world) = (Inl e, t) \<and>
     ow_rows s = [] \<and> ow_rows t = [r] \<and> claimable (w_now t) r \<and> w_ledger t = w_ledger s"
proof -
  let ?s = "empty_store [None, None, Some ''disk I/O error'']"
  have "\<exists>e t r. create_generic demo_service allow_all ''anonymous-lan-admin'' (demo_request ''noop'' None) ?s = (Inl e, t) \<and>
     ow_rows t = [r] \<and> claimable (w_now t) r \<and> w_ledger t = []"
    by (simp add: create_generic_def create_inner_def demo_noop_admitted demo_noop_pool)
       (simp add: demo_request_def op_create_def op_get_def act_simps fresh_uuid_def statement_def external_def
        empty_store_sel unique_violation_def publish_operation_def publish_event_def demo_service_sel
        use_metadata_def create_facts_def audited_def record_intent_def append_intent_def atomically_def
        undo_ledger_def new_row_def claimable_def opt_all_def metadata_insert_def)
  then show ?thesis using empty_store_sel by metis
qed

lemma demo_creates:
  assumes "admission demo_service allow_all who (demo_request kind p) route = Inr ()"
    and "\<not> asks_pool demo_service (demo_request kind p)" and "route \<noteq> SetupFollowUpRoute" and "length kind \<le> 2048"
  shows "\<exists>t r. create_inner demo_service allow_all who (demo_request kind p) route (empty_store []) = (Inr r, t) \<and>
     ow_rows t = [r]"
proof -
  have k: "\<not> forbidden_key ''kind''" by code_simp
  show ?thesis
    using assms
    by (simp add: create_inner_def)
       (simp add: demo_request_def op_create_def op_get_def act_simps fresh_uuid_def statement_def external_def
        empty_store_sel unique_violation_def publish_operation_def publish_event_def demo_service_sel
        use_metadata_def create_facts_def audited_def record_intent_def append_intent_def append_intent_tx_def atomically_def
        undo_ledger_def new_row_def metadata_insert_def k max_metadata_value_bytes_def max_metadata_entries_def)
qed

lemma demo_machine_admitted:
  "admission demo_service allow_all who (demo_request ''projects.discover'' (Some ''m1'')) GenericRoute = Inr ()"
  "\<not> asks_pool demo_service (demo_request ''projects.discover'' (Some ''m1''))"
  by (simp_all add: admission_def check_then_def check_route_def demo_request_def allow_all_ok refuse_when_def
      demo_service_sel check_payload_def document_def creatable_kinds_def skills_kind_def starts_with_def
      catalog_rollout_payload_def stored_key_auth_def check_kind_def machine_scoped_kind_permission_def
      dedicated_only_def fill_kind_def catalog_scoped_kind_permission_def check_machine_scoped_def payload_machine_def
      document_text_def json_field_def json_index_def max_payload_json_def asks_pool_def)

theorem create_authorized_witness:
  "\<exists>t r. create_inner demo_service allow_all ''anonymous-lan-admin'' (demo_request ''projects.discover'' (Some ''m1''))
       GenericRoute (empty_store []) = (Inr r, t) \<and> ow_rows t = [r] \<and> ''projects.discover'' \<in> set creatable_kinds \<and>
     opt_all (\<lambda>p. length p \<le> 131072) (Some ''m1'')"
proof -
  let ?n = "demo_request ''projects.discover'' (Some ''m1'')"
  obtain t r where t: "create_inner demo_service allow_all ''anonymous-lan-admin'' ?n GenericRoute (empty_store []) = (Inr r, t)"
    "ow_rows t = [r]" using demo_creates [where who = "''anonymous-lan-admin''", OF demo_machine_admitted] by auto
  then have "ow_rows t \<noteq> ow_rows (empty_store [])" by (simp add: empty_store_sel)
  from create_authorized [OF t(1) this] t show ?thesis by (auto simp: demo_request_def)
qed

theorem generic_route_fenced_witness:
  "\<exists>t r. create_generic demo_service allow_all ''anonymous-lan-admin'' (demo_request ''noop'' None) (empty_store []) = (Inr r, t) \<and>
     ow_rows t = [r] \<and> dedicated_only ''noop'' = None \<and> ''noop'' \<notin> set (sv_brokered demo_service)"
proof -
  let ?n = "demo_request ''noop'' None"
  obtain t r where t: "create_generic demo_service allow_all ''anonymous-lan-admin'' ?n (empty_store []) = (Inr r, t)"
    "ow_rows t = [r]" using demo_creates [where who = "''anonymous-lan-admin''", OF demo_noop_admitted demo_noop_pool]
    by (auto simp: create_generic_def)
  then have "ow_rows t \<noteq> ow_rows (empty_store [])" by (simp add: empty_store_sel)
  from generic_route_fenced [OF t(1) this] t show ?thesis by (auto simp: demo_request_def)
qed

theorem review_token_binds_witness:
  "reviewed demo_service ((demo_request ''machine.create'' (Some ''p''))
     \<lparr>no_review := Some (review_token_for demo_service ''machine.create'' ''p'')\<rparr>) \<and>
   \<not> reviewed demo_service ((demo_request ''machine.create'' (Some ''q''))
     \<lparr>no_review := Some (review_token_for demo_service ''machine.create'' ''p'')\<rparr>)"
proof -
  let ?n = "\<lambda>p. (demo_request ''machine.create'' (Some p))
     \<lparr>no_review := Some (review_token_for demo_service ''machine.create'' ''p'')\<rparr>"
  have k: "''machine.create'' \<in> set creatable_kinds" by (simp add: creatable_kinds_def)
  have "\<not> reviewed demo_service (?n ''q'')"
    using review_token_binds [of demo_service "?n ''q''" "''machine.create''" "''p''"] k
    by (auto simp: demo_request_def demo_service_sel)
  moreover have "reviewed demo_service (?n ''p'')" by (simp add: reviewed_iff demo_request_def)
  ultimately show ?thesis by blast
qed

definition demo_delegate :: string where "demo_delegate = delegated_principal_id ''ci'' ''c1''"

lemma demo_delegate_delegated: "is_delegated_principal demo_delegate" "owner_scope_permits demo_delegate ''credential:ci''"
  by (code_simp, code_simp)

lemma demo_lease_admitted:
  "admission demo_service allow_all who (demo_request ''lab.exec'' (Some ''l1'')) DedicatedRoute = Inr ()"
  "\<not> asks_pool demo_service (demo_request ''lab.exec'' (Some ''l1''))"
  by (simp_all add: admission_def check_then_def check_route_def demo_request_def allow_all_ok refuse_when_def
      demo_service_sel check_payload_def document_def creatable_kinds_def skills_kind_def starts_with_def
      catalog_rollout_payload_def stored_key_auth_def check_kind_def machine_scoped_kind_permission_def
      dedicated_only_def fill_kind_def catalog_scoped_kind_permission_def
      document_text_def json_field_def json_index_def max_payload_json_def asks_pool_def)

theorem delegated_lease_confined_witness:
  "\<exists>t r. create_for_lease demo_service allow_all demo_delegate ''l1'' (demo_request ''lab.exec'' (Some ''l1'')) ''lab.exec'' LabExec
       (empty_store []) = (Inr r, t) \<and> ow_rows t = [r] \<and>
     (\<exists>owner_of owner. sv_leases demo_service = Some owner_of \<and> owner_of ''l1'' = Inr (Some owner) \<and>
        owner_scope_permits demo_delegate owner)"
proof -
  let ?n = "demo_request ''lab.exec'' (Some ''l1'')"
  obtain t r where t: "create_inner demo_service allow_all demo_delegate ?n DedicatedRoute (empty_store []) = (Inr r, t)"
    "ow_rows t = [r]" using demo_creates [where who = demo_delegate, OF demo_lease_admitted] by auto
  have "create_for_lease demo_service allow_all demo_delegate ''l1'' ?n ''lab.exec'' LabExec (empty_store []) = (Inr r, t)"
    using t demo_delegate_delegated
    by (simp add: create_for_lease_def require_own_lease_def lease_owner_def check_then_def demo_service_sel allow_all_ok)
       (simp add: demo_request_def document_text_def document_def demo_service_sel json_field_def json_index_def)
  moreover have "ow_rows t \<noteq> ow_rows (empty_store [])" using t by (simp add: empty_store_sel)
  ultimately show ?thesis
    using delegated_lease_confined [of demo_service allow_all demo_delegate "''l1''" ?n "''lab.exec''" LabExec "empty_store []" "Inr r" t]
      demo_delegate_delegated t by blast
qed

lemma lan_not_delegated: "\<not> is_delegated_principal ''anonymous-lan-admin''"
  by code_simp

theorem get_confined_witness:
  "get_operation demo_service allow_all ''anonymous-lan-admin'' ''op1'' demo_ops = (Inr demo_row_pending, demo_ops) \<and>
   op_id demo_row_pending = ''op1'' \<and> allowed (allow_all (access ''anonymous-lan-admin'' OperationRead (Some ''op1'')))"
proof -
  have "op_kind demo_row_pending = ''noop''" by (simp add: demo_row_pending_def new_row_def)
  then have "get_operation demo_service allow_all ''anonymous-lan-admin'' ''op1'' demo_ops = (Inr demo_row_pending, demo_ops)"
    by (simp add: get_operation_def allow_all_ok op_get_def act_simps statement_ok demo_ops_sel demo_rows_sel
        machine_operation_readable_def machine_access_kind_permission_def lan_not_delegated)
  with get_confined [OF this] show ?thesis by blast
qed

theorem cancel_effect_witness:
  "\<exists>r t. cancel_operation demo_service allow_all ''anonymous-lan-admin'' ''op2'' demo_ops = (Inr r, t) \<and>
     op_cancel_requested r \<and> op_state r = ''cancelling''"
proof -
  have s: "state_from_id ''running'' = Inr Running" "state_from_id ''cancelling'' = Inr Cancelling" by code_simp+
  have "\<exists>r t. cancel_operation demo_service allow_all ''anonymous-lan-admin'' ''op2'' demo_ops = (Inr r, t)"
    by (simp add: cancel_operation_def allow_all_ok op_get_def act_simps statement_ok demo_ops_sel demo_rows_sel
        terminal_text_def op_request_cancel_def update_rows_def parse_state_def s op_transition_def transition_check_def
        checked_transition_def validate_transition_def transition_write_def publish_operation_def publish_event_def
        demo_service_sel audited_def record_intent_ok requires_resource_def)
  then obtain r t where c: "cancel_operation demo_service allow_all ''anonymous-lan-admin'' ''op2'' demo_ops = (Inr r, t)" by blast
  have "find (\<lambda>r. op_id r = ''op2'') (ow_rows demo_ops) = Some demo_row_running" by (simp add: demo_ops_sel demo_rows_sel)
  with cancel_effect [OF c] c show ?thesis by (auto simp: demo_rows_sel)
qed

definition demo_audited :: op_world where
  "demo_audited = demo_ops\<lparr>w_ledger := [intent_event (demo_intent\<lparr>ai_operation := Some ''op2''\<rparr>) 1 ''a'' 5]\<rparr>"

lemma demo_audited_sel: "w_faults demo_audited = []" "ow_rows demo_audited = ow_rows demo_ops" "w_now demo_audited = 10"
  "w_ledger demo_audited = [intent_event (demo_intent\<lparr>ai_operation := Some ''op2''\<rparr>) 1 ''a'' 5]"
  by (simp_all add: demo_audited_def demo_ops_sel)

theorem complete_scrubs_witness:
  "\<exists>r t. complete_operation demo_service ''op2'' ''failed'' None (Some ''secret'') demo_audited = (Inr r, t) \<and>
     op_state r = ''failed'' \<and> op_error r = Some ''{}''"
proof -
  have s: "state_from_id ''running'' = Inr Running" "state_from_id ''failed'' = Inr Failed" by code_simp+
  have "\<exists>r t. complete_operation demo_service ''op2'' ''failed'' None (Some ''secret'') demo_audited = (Inr r, t)"
    by (simp add: complete_operation_def scrub_stored_json_def demo_service_sel op_complete_def complete_check_def
        check_optional_def check_bound_def max_result_json_def transition_check_def op_get_def act_simps statement_ok
        demo_audited_sel demo_ops_sel demo_rows_sel parse_state_def s checked_transition_def validate_transition_def
        complete_write_def update_rows_def publish_operation_def publish_event_def completion_event_def
        record_outcome_def append_outcome_def outcome_insert_def external_def is_open_def intent_event_def fresh_uuid_def
        demo_row_running_def claim_row_def new_row_def starts_with_def)
  then obtain r t where c: "complete_operation demo_service ''op2'' ''failed'' None (Some ''secret'') demo_audited = (Inr r, t)"
    by blast
  from complete_scrubs [OF c] c show ?thesis by (auto simp: scrub_stored_json_def demo_service_sel)
qed

theorem list_is_filtered_read_witness:
  "\<exists>page. list_operations demo_service allow_all ''anonymous-lan-admin'' 1 demo_ops = (Inr page, demo_ops) \<and>
     page = take 1 (filter (machine_operation_readable demo_service allow_all ''anonymous-lan-admin'')
       (take 200 (newest_first (ow_rows demo_ops))))"
proof -
  obtain page where "list_operations demo_service allow_all ''anonymous-lan-admin'' 1 demo_ops = (Inr page, demo_ops)"
    using list_round_returns [of demo_ops demo_service allow_all "''anonymous-lan-admin''" 1 0]
    by (auto simp: list_operations_def allow_all_ok demo_ops_sel requires_resource_def)
  with list_is_filtered_read [OF this] show ?thesis by simp
qed

end
