(* ===== verification/Operation_Interleaving.thy ===== *)
theory Operation_Interleaving
  imports Operation_Service
begin

text \<open>
  The operations table under concurrent callers: the statements of
  \<open>crates/fleet-storage-sqlite/src/operations.rs\<close>, interleaved one by one. A call of the
  repository is not one step: \<open>transition\<close> and \<open>complete\<close> read a row, validate the move in
  the process and then update by id alone, and \<open>request_cancel\<close> does so after a write of its
  own. A checked write that has not landed yet is part of the state, so that any other
  statement can come between a check and its write.
\<close>

section \<open>Statements\<close>

text \<open>The writes that a read has already allowed: of \<open>transition\<close> and of \<open>complete\<close>.\<close>

datatype checked_write =
    WriteState string operation_state
  | WriteOutcome string operation_state "string option" "string option"

fun write_id :: "checked_write \<Rightarrow> string" where
  "write_id (WriteState i to) = i"
| "write_id (WriteOutcome i to result error) = i"

fun land_row :: "int \<Rightarrow> checked_write \<Rightarrow> operation \<Rightarrow> operation" where
  "land_row now (WriteState i to) r = r\<lparr>op_state := state_id to, op_updated := now\<rparr>"
| "land_row now (WriteOutcome i to result error) r =
     r\<lparr>op_state := state_id to, op_result := result, op_error := error, op_updated := now\<rparr>"

definition update_where :: "(operation \<Rightarrow> bool) \<Rightarrow> (operation \<Rightarrow> operation) \<Rightarrow> operation list \<Rightarrow> operation list" where
  "update_where P f rows = map (\<lambda>r. if P r then f r else r) rows"

definition move_allowed :: "operation list \<Rightarrow> string \<Rightarrow> operation_state \<Rightarrow> bool" where
  "move_allowed rows i to \<longleftrightarrow>
     (case find (\<lambda>r. op_id r = i) rows of
        None \<Rightarrow> False
      | Some r \<Rightarrow> (case state_of_text (op_state r) of None \<Rightarrow> False | Some from \<Rightarrow> can_transition from to))"

text \<open>
  One statement of one caller: the table and the checked writes still to land. A statement
  that fails changes nothing, and a write that fails, or whose caller is gone, is dropped.
\<close>

inductive sql_step ::
    "operation list \<times> checked_write list \<Rightarrow> operation list \<times> checked_write list \<Rightarrow> bool" where
  Insert: "\<not> unique_violation rows i key \<Longrightarrow>
    sql_step (rows, fl) (rows @ [new_row i kind key d c p now], fl)"
| MarkCancel: "sql_step (rows, fl)
    (update_where (\<lambda>r. op_id r = i) (\<lambda>r. r\<lparr>op_cancel_requested := True, op_updated := now\<rparr>) rows, fl)"
| CheckTransition: "move_allowed rows i to \<Longrightarrow> sql_step (rows, fl) (rows, WriteState i to # fl)"
| CheckCompletion: "move_allowed rows i to \<Longrightarrow> check_optional ''result_json'' result max_result_json = Inr () \<Longrightarrow>
    check_optional ''error_json'' error max_result_json = Inr () \<Longrightarrow>
    sql_step (rows, fl) (rows, WriteOutcome i to result error # fl)"
| Land: "w \<in> set fl \<Longrightarrow>
    sql_step (rows, fl) (update_where (\<lambda>r. op_id r = write_id w) (land_row now w) rows, remove1 w fl)"
| Drop: "sql_step (rows, fl) (rows, remove1 w fl)"
| Progress: "sql_step (rows, fl) (update_where (\<lambda>r. op_id r = i)
    (\<lambda>r. r\<lparr>op_progress_current := current, op_progress_total := whole, op_progress_message := message,
           op_updated := now\<rparr>) rows, fl)"
| ClaimNext: "candidate \<in> set rows \<Longrightarrow> claimable now candidate \<Longrightarrow> sql_step (rows, fl) (update_where
    (\<lambda>r. op_id r = op_id candidate \<and> op_state r = ''pending'') (claim_row worker now) rows, fl)"
| ClaimById: "sql_step (rows, fl) (update_where (\<lambda>r. op_id r = i \<and> claimable now r) (claim_row worker now) rows, fl)"
| Renew: "sql_step (rows, fl) (update_where
    (\<lambda>r. op_id r = i \<and> op_worker r = Some worker \<and> live_claim r \<and> the (op_claimed r) \<ge> saturating_sub now lease)
    (\<lambda>r. r\<lparr>op_claimed := Some now, op_updated := now\<rparr>) rows, fl)"
| FailExpired: "sql_step (rows, fl) (update_where
    (\<lambda>r. op_id r = i \<and> op_state r \<in> {''running'', ''cancelling''} \<and> op_claimed r = Some expected)
    (\<lambda>r. r\<lparr>op_state := ''failed'', op_error := Some error, op_updated := now\<rparr>) rows, fl)"

abbreviation sql_steps ::
    "operation list \<times> checked_write list \<Rightarrow> operation list \<times> checked_write list \<Rightarrow> bool" where
  "sql_steps \<equiv> sql_step\<^sup>*\<^sup>*"

section \<open>Calls are runs of statements\<close>

definition stepwise :: "'z op_world_scheme \<Rightarrow> 'z op_world_scheme \<Rightarrow> bool" where
  "stepwise s t \<longleftrightarrow> (\<forall>fl. sql_steps (ow_rows s, fl) (ow_rows t, fl))"

interpretation stepping: effect_relation "stepwise :: 'z op_world_scheme \<Rightarrow> _"
  by unfold_locales (auto simp: stepwise_def intro: rtranclp_trans)

lemma frame_stepwise: "within world_frame m \<Longrightarrow> within stepwise m"
  by (rule withinI) (use more_ops world_frame_more within_snd in \<open>metis stepwise_def rtranclp.rtrancl_refl\<close>)

lemma stepwise_same: "ow_rows t = ow_rows s \<Longrightarrow> stepwise s t"
  by (simp add: stepwise_def)

lemma one_step: "(\<And>fl. sql_step (ow_rows s, fl) (ow_rows t, fl)) \<Longrightarrow> stepwise s t"
  by (simp add: stepwise_def r_into_rtranclp)

lemma update_stepwise: "(\<And>rows fl. sql_step (rows, fl) (update_where P f rows, fl)) \<Longrightarrow> within stepwise (update_rows P f)"
  by (rule withinI, rule one_step) (simp add: update_rows_def update_where_def)

lemmas table_updates = update_stepwise [OF sql_step.MarkCancel] update_stepwise [OF sql_step.Progress]
  update_stepwise [OF sql_step.ClaimById] update_stepwise [OF sql_step.Renew]
  update_stepwise [OF sql_step.FailExpired]

lemma checked_stepwise:
  fixes m :: "('z, 'a) op_act" and f :: "'a \<Rightarrow> ('z, 'b) op_act"
  assumes "within world_frame m"
    and "\<And>s to t fl. m s = (Inr to, t) \<Longrightarrow> sql_step (ow_rows s, fl) (ow_rows t, w to # fl)"
    and "\<And>to t fl. sql_steps (ow_rows t, w to # fl) (ow_rows (snd (f to t)), fl)"
  shows "within stepwise (andthen m f)"
proof (rule withinI)
  fix s :: "'z op_world_scheme"
  obtain x t where m: "m s = (x, t)" by fastforce
  show "stepwise s (snd (andthen m f s))"
  proof (cases x)
    case (Inl e)
    with m withinD [OF frame_stepwise [OF assms(1)] m] show ?thesis by (simp add: andthen_def)
  next
    case (Inr to)
    with m assms(2) [of s to t] assms(3) [where to = to and t = t]
    show ?thesis by (simp add: andthen_def stepwise_def) (meson converse_rtranclp_into_rtranclp)
  qed
qed

text \<open>A checked write lands as one update, or is dropped when its statement fails.\<close>

lemma landing_steps:
  assumes "\<And>r now. g now r = land_row now w r"
  shows "sql_steps (ow_rows t, w # fl) (ow_rows (snd (andthen (asks w_now) (\<lambda>now. andthen (statement c) (\<lambda>_.
     andthen (update_rows (\<lambda>r. op_id r = write_id w) (g now)) (\<lambda>_. op_get i))) t)), fl)"
proof -
  obtain x u where st: "statement c t = (x, u)" by fastforce
  have u: "ow_rows u = ow_rows t" using statement_rows [OF st] by simp
  show ?thesis
  proof (cases x)
    case (Inl e)
    have "sql_step (ow_rows t, w # fl) (ow_rows t, fl)" using sql_step.Drop [of "ow_rows t" "w # fl" w] by simp
    from r_into_rtranclp [where r = sql_step, OF this] show ?thesis using st Inl u by (simp add: andthen_def asks_def)
  next
    case (Inr y)
    let ?v = "u\<lparr>ow_rows := map (\<lambda>r. if op_id r = write_id w then g (w_now t) r else r) (ow_rows u)\<rparr>"
    have g: "g (w_now t) = land_row (w_now t) w" by (simp add: fun_eq_iff assms)
    have "ow_rows (snd (op_get i ?v)) = ow_rows ?v" by (rule conjunct1 [OF op_get_rows [OF surjective_pairing]])
    moreover have "sql_step (ow_rows t, w # fl) (ow_rows ?v, fl)"
      using sql_step.Land [of w "w # fl" "ow_rows t" "w_now t"] unfolding g by (simp add: update_where_def u)
    moreover have "andthen (asks w_now) (\<lambda>now. andthen (statement c) (\<lambda>_.
        andthen (update_rows (\<lambda>r. op_id r = write_id w) (g now)) (\<lambda>_. op_get i))) t = op_get i ?v"
      using st Inr by (simp add: andthen_def asks_def update_rows_def)
    ultimately show ?thesis by (simp add: r_into_rtranclp)
  qed
qed

lemma transition_check_allowed:
  assumes "transition_check i target s = (Inr to, t)"
  shows "move_allowed (ow_rows s) i to \<and> ow_rows t = ow_rows s"
  using transition_check_Inr [OF assms] by (auto simp: move_allowed_def)

lemma op_transition_stepwise: "within stepwise (op_transition i target)"
  unfolding op_transition_def
proof (rule checked_stepwise [where w = "WriteState i", OF transition_check_frame])
  show "sql_step (ow_rows s, fl) (ow_rows t, WriteState i to # fl)" if "transition_check i target s = (Inr to, t)"
    for s t :: "'z op_world_scheme" and to fl
    using transition_check_allowed [OF that] by (auto intro: sql_step.CheckTransition)
  show "sql_steps (ow_rows t, WriteState i to # fl) (ow_rows (snd (transition_write i to t)), fl)"
    for t :: "'z op_world_scheme" and to fl
    using landing_steps [of "\<lambda>now r. r\<lparr>op_state := state_id to, op_updated := now\<rparr>" "WriteState i to"]
    by (simp add: transition_write_def)
qed

lemma complete_check_bounds: "complete_check i target result error s = (Inr to, t) \<Longrightarrow>
    check_optional ''result_json'' result max_result_json = Inr () \<and>
    check_optional ''error_json'' error max_result_json = Inr ()"
  by (auto simp: complete_check_def act_Inr)

lemma op_complete_stepwise: "within stepwise (op_complete i target result error)"
  unfolding op_complete_def
proof (rule checked_stepwise [where w = "\<lambda>to. WriteOutcome i to result error", OF complete_check_frame])
  show "sql_step (ow_rows s, fl) (ow_rows t, WriteOutcome i to result error # fl)"
    if "complete_check i target result error s = (Inr to, t)" for s t :: "'z op_world_scheme" and to fl
    using transition_check_allowed [OF complete_check_Inr [OF that]] complete_check_bounds [OF that]
    by (auto intro: sql_step.CheckCompletion)
  show "sql_steps (ow_rows t, WriteOutcome i to result error # fl) (ow_rows (snd (complete_write i to result error t)), fl)"
    for t :: "'z op_world_scheme" and to fl
    using landing_steps [of "\<lambda>now r. r\<lparr>op_state := state_id to, op_result := result, op_error := error, op_updated := now\<rparr>"
        "WriteOutcome i to result error"]
    by (simp add: complete_write_def)
qed

lemma op_request_cancel_stepwise: "within stepwise (op_request_cancel i)"
  unfolding op_request_cancel_def
  by (intro stepping.intros frame_stepwise [OF statement_frame] frame_stepwise [OF op_get_frame] table_updates
      op_transition_stepwise)

lemma op_record_progress_stepwise: "within stepwise (op_record_progress i c w m)"
  unfolding op_record_progress_def
  by (intro stepping.intros frame_stepwise [OF statement_frame] table_updates)

lemma op_claim_pending_by_id_stepwise: "within stepwise (op_claim_pending_by_id i worker now)"
  unfolding op_claim_pending_by_id_def claim_by_id_update_def
  by (intro stepping.intros frame_stepwise [OF statement_frame] frame_stepwise [OF op_get_frame] table_updates)

lemma op_renew_lease_stepwise: "within stepwise (op_renew_lease i worker now lease)"
  unfolding op_renew_lease_def
  by (intro stepping.intros frame_stepwise [OF statement_frame] table_updates)

lemma op_fail_expired_claim_stepwise: "within stepwise (op_fail_expired_claim i c now e)"
  unfolding op_fail_expired_claim_def
  by (intro stepping.intros frame_stepwise [OF statement_frame] table_updates)

lemma op_create_stepwise: "within stepwise (op_create kind key d c p :: ('z, operation) op_act)"
  unfolding op_create_def
proof (rule stepping.andthen [OF frame_stepwise [OF fresh_uuid_frame]], rule stepping.andthen [OF stepping.asks],
    rule stepping.andthen [OF frame_stepwise [OF statement_frame]])
  fix i now u
  let ?ins = "\<lambda>s :: 'z op_world_scheme. s\<lparr>ow_rows := ow_rows s @ [new_row i kind key d c p now]\<rparr>"
  let ?lookup = "andthen (map_err (\<lambda>_. raced) external) (\<lambda>_.
     andthen (asks (\<lambda>s. case key of None \<Rightarrow> None | Some k \<Rightarrow> find (\<lambda>r. op_key r = Some k) (ow_rows s))) (\<lambda>existing.
     case existing of None \<Rightarrow> fail raced | Some r \<Rightarrow> op_get (op_id r)))"
  have b: "within stepwise ?lookup"
    by (intro stepping.intros frame_stepwise [OF external_frame] frame_stepwise [OF op_get_frame])
  show "within stepwise (andthen (asks (\<lambda>s. unique_violation (ow_rows s) i key)) (\<lambda>violated.
      if \<not> violated then andthen (modify ?ins) (\<lambda>_. op_get i) else ?lookup))"
  proof (rule withinI)
    fix s :: "'z op_world_scheme"
    show "stepwise s (snd (andthen (asks (\<lambda>s. unique_violation (ow_rows s) i key)) (\<lambda>violated.
      if \<not> violated then andthen (modify ?ins) (\<lambda>_. op_get i) else ?lookup) s))"
    proof (cases "unique_violation (ow_rows s) i key")
      case True
      then show ?thesis using within_snd [OF b, of s] by (simp add: andthen_def asks_def)
    next
      case False
      have "stepwise (?ins s) (snd (op_get i (?ins s)))"
        by (rule within_snd, rule frame_stepwise, rule op_get_frame)
      moreover have "stepwise s (?ins s)" by (rule one_step) (use sql_step.Insert [OF False] in simp)
      ultimately have "stepwise s (snd (op_get i (?ins s)))" by (rule stepping.trans [rotated])
      then show ?thesis using False by (simp add: andthen_def asks_def modify_def)
    qed
  qed
qed

lemma claim_tx_failed: "claim_tx worker now s = (Inl e, t) \<Longrightarrow> ow_rows t = ow_rows s"
  by (auto simp: claim_tx_def atomically_def undo_rows_def split: prod.splits sum.splits)

lemma oldest_first_in: "oldest_first (filter P rows) = r # rest \<Longrightarrow> r \<in> set rows \<and> P r"
proof -
  assume "oldest_first (filter P rows) = r # rest"
  then have "r \<in> set (oldest_first (filter P rows))" by simp
  then show ?thesis by (simp add: oldest_first_def)
qed

lemma claim_tx_stepwise: "within stepwise (claim_tx worker now)"
proof (rule withinI)
  fix s :: "'z op_world_scheme"
  obtain x t where c: "claim_tx worker now s = (x, t)" by fastforce
  have "stepwise s t"
  proof (cases x)
    case (Inl e)
    with claim_tx_failed c show ?thesis by (metis stepwise_def rtranclp.rtrancl_refl)
  next
    case (Inr v)
    note q = claim_tx_Inr [OF c [unfolded Inr]]
    show ?thesis
    proof (cases "oldest_first (filter (claimable now) (ow_rows s))")
      case Nil
      with q show ?thesis by (simp add: stepwise_def)
    next
      case (Cons r rest)
      with q oldest_first_in [OF Cons] show ?thesis
        by (intro one_step) (use sql_step.ClaimNext [of r "ow_rows s" now _ worker] in \<open>simp add: update_where_def\<close>)
    qed
  qed
  with c show "stepwise s (snd (claim_tx worker now s))" by simp
qed

lemma op_claim_pending_stepwise: "within stepwise (op_claim_pending worker now)"
  unfolding op_claim_pending_def
  by (intro stepping.intros claim_tx_stepwise frame_stepwise [OF op_get_frame])

text \<open>Every call of the repository, run alone, is a run of these statements.\<close>

lemma run_store_stepwise: "sql_steps (ow_rows s, fl) (ow_rows (run_store call s), fl)"
proof -
  have "stepwise s (run_store call s)"
    by (cases call) (simp_all add: within_snd [where R = stepwise, OF op_create_stepwise]
      within_snd [where R = stepwise, OF op_request_cancel_stepwise]
      within_snd [where R = stepwise, OF op_transition_stepwise]
      within_snd [where R = stepwise, OF op_complete_stepwise]
      within_snd [where R = stepwise, OF op_record_progress_stepwise]
      within_snd [where R = stepwise, OF op_claim_pending_stepwise]
      within_snd [where R = stepwise, OF op_claim_pending_by_id_stepwise]
      within_snd [where R = stepwise, OF op_renew_lease_stepwise]
      within_snd [where R = stepwise, OF op_fail_expired_claim_stepwise] stepwise_same)
  then show ?thesis by (simp add: stepwise_def)
qed

section \<open>What every statement keeps\<close>

text \<open>What was decided at creation, and a cancel request once made.\<close>

definition same_operation :: "operation \<Rightarrow> operation \<Rightarrow> bool" where
  "same_operation r r' \<longleftrightarrow>
     op_id r' = op_id r \<and> op_kind r' = op_kind r \<and> op_key r' = op_key r \<and>
     op_deadline r' = op_deadline r \<and> op_payload r' = op_payload r \<and>
     op_correlation r' = op_correlation r \<and> op_created r' = op_created r \<and>
     (op_cancel_requested r \<longrightarrow> op_cancel_requested r')"

definition same_outcome :: "operation \<Rightarrow> operation \<Rightarrow> bool" where
  "same_outcome r r' \<longleftrightarrow> op_state r' = op_state r \<and> op_result r' = op_result r \<and> op_error r' = op_error r"

text \<open>The stored operation has this outcome, and no checked write for it is on its way.\<close>

definition keeps_outcome :: "operation \<Rightarrow> operation list \<times> checked_write list \<Rightarrow> bool" where
  "keeps_outcome x c \<longleftrightarrow> op_id x \<notin> write_id ` set (snd c) \<and>
     (\<exists>r \<in> set (fst c). op_id r = op_id x \<and> same_outcome x r)"

lemma update_where_wf:
  assumes "store_wf rows"
    and "\<And>r. r \<in> set rows \<Longrightarrow> P r \<Longrightarrow> op_id (f r) = op_id r \<and> op_key (f r) = op_key r \<and> state_of_text (op_state (f r)) \<noteq> None"
  shows "store_wf (update_where P f rows)"
proof -
  let ?g = "\<lambda>r. if P r then f r else r"
  have ids: "map op_id (map ?g rows) = map op_id rows" using assms(2) by simp
  have keys: "keys_of (map ?g rows) = keys_of rows" using assms(2) by (intro keys_of_map) auto
  show ?thesis unfolding update_where_def store_wf_def ids keys
    using assms by (auto simp: store_wf_def)
qed

lemma land_row_keeps: "same_operation r (land_row now w r) \<and> op_state (land_row now w r) \<in> range state_id"
  by (cases w) (simp_all add: same_operation_def)

lemma same_operation_refl: "same_operation r r"
  and same_operation_trans: "same_operation x y \<Longrightarrow> same_operation y z \<Longrightarrow> same_operation x z"
  by (auto simp: same_operation_def)

text \<open>One statement: the table stays well formed, and every row is followed by the same operation.\<close>

lemma update_where_step:
  assumes "store_wf rows" and "rows' = update_where P f rows"
    and "\<And>r. P r \<Longrightarrow> same_operation r (f r)" and "\<And>r. P r \<Longrightarrow> state_of_text (op_state r) \<noteq> None \<Longrightarrow>
      state_of_text (op_state (f r)) \<noteq> None"
  shows "store_wf rows' \<and> (\<forall>r \<in> set rows. \<exists>r' \<in> set rows'. same_operation r r')"
proof -
  have "store_wf rows'" unfolding assms(2)
    using assms(1,3,4) by (intro update_where_wf) (auto simp: same_operation_def store_wf_def)
  moreover have "\<exists>r' \<in> set rows'. same_operation r r'" if "r \<in> set rows" for r
    using that assms(3) [of r] same_operation_refl unfolding assms(2) update_where_def
    by (intro bexI [where x = "if P r then f r else r"]) auto
  ultimately show ?thesis by blast
qed

lemma landed_state: "state_of_text (op_state (land_row now w r)) \<noteq> None"
  by (cases w) simp_all

lemma step_wf:
  assumes "sql_step c c'" and "store_wf (fst c)"
  shows "store_wf (fst c') \<and> (\<forall>r \<in> set (fst c). \<exists>r' \<in> set (fst c'). same_operation r r')"
  using assms
proof cases
  case (Insert rows i key fl kind d k p now)
  then have "store_wf (rows @ [new_row i kind key d k p now])"
    using assms(2)
    by (auto simp: store_wf_def unique_violation_def new_row_def keys_of_def list_ex_iff state_of_live_texts
        split: option.splits)
  then show ?thesis using Insert same_operation_refl by fastforce
next
  case (Land w fl rows now)
  show ?thesis unfolding Land fst_conv
    by (rule update_where_step [OF _ refl]) (use assms(2) Land land_row_keeps landed_state in auto)
next
  case (FailExpired rows fl i expected error now)
  show ?thesis unfolding FailExpired fst_conv
    by (rule update_where_step [OF _ refl])
       (use assms(2) FailExpired in \<open>auto simp: same_operation_def op_ids.of_text_iff intro: exI [of _ Failed]\<close>)
next
  case (MarkCancel rows fl i now)
  show ?thesis unfolding MarkCancel fst_conv
    by (rule update_where_step [OF _ refl]) (use assms(2) MarkCancel in \<open>auto simp: same_operation_def\<close>)
next
  case (Progress rows fl i now)
  show ?thesis unfolding Progress fst_conv
    by (rule update_where_step [OF _ refl]) (use assms(2) Progress in \<open>auto simp: same_operation_def\<close>)
next
  case (ClaimNext candidate rows now fl worker)
  show ?thesis unfolding ClaimNext fst_conv
    by (rule update_where_step [OF _ refl])
       (use assms(2) ClaimNext in \<open>auto simp: same_operation_def claim_row_def state_of_live_texts\<close>)
next
  case (ClaimById rows fl i now worker)
  show ?thesis unfolding ClaimById fst_conv
    by (rule update_where_step [OF _ refl])
       (use assms(2) ClaimById in \<open>auto simp: same_operation_def claim_row_def state_of_live_texts\<close>)
next
  case (Renew rows fl i worker now lease)
  show ?thesis unfolding Renew fst_conv
    by (rule update_where_step [OF _ refl]) (use assms(2) Renew in \<open>auto simp: same_operation_def\<close>)
qed (use assms(2) same_operation_refl in auto)

lemma terminal_no_move:
  assumes "store_wf rows" and "r \<in> set rows" and "terminal_text (op_state r)"
  shows "\<not> move_allowed rows (op_id r) to"
proof -
  have "find (\<lambda>x. op_id x = op_id r) rows = Some r"
    by (rule find_unique [OF _ assms(2)]) (use assms(1) in \<open>simp add: store_wf_def\<close>)
  moreover have "\<not> can_transition a to" if "state_of_text (op_state r) = Some a" for a
    using that assms(3) can_transition_live [of a to] by (cases a) (auto simp: op_ids.of_text_iff terminal_text_def)
  ultimately show ?thesis by (auto simp: move_allowed_def split: option.splits)
qed

lemma update_where_outcome:
  assumes "\<exists>r \<in> set rows. op_id r = op_id x \<and> same_outcome x r"
    and "\<And>r. P r \<Longrightarrow> op_id r = op_id x \<Longrightarrow> same_outcome x r \<Longrightarrow> op_id (f r) = op_id x \<and> same_outcome x (f r)"
  shows "\<exists>r \<in> set (update_where P f rows). op_id r = op_id x \<and> same_outcome x r"
proof -
  from assms(1) obtain r where r: "r \<in> set rows" "op_id r = op_id x" "same_outcome x r" by blast
  then have "op_id (if P r then f r else r) = op_id x \<and> same_outcome x (if P r then f r else r)"
    using assms(2) by simp
  with r(1) show ?thesis unfolding update_where_def by (intro bexI [where x = "if P r then f r else r"]) auto
qed

lemma step_outcome:
  assumes "sql_step c c'" and "store_wf (fst c)" and "keeps_outcome x c" and "terminal_text (op_state x)"
  shows "keeps_outcome x c'"
proof -
  from assms(3) obtain r where r: "r \<in> set (fst c)" "op_id r = op_id x" "same_outcome x r"
    and fl: "op_id x \<notin> write_id ` set (snd c)" by (auto simp: keeps_outcome_def)
  have no: "\<not> move_allowed (fst c) (op_id x) to" for to
    using terminal_no_move [OF assms(2) r(1)] r(2,3) assms(4) by (simp add: same_outcome_def)
  have less: "op_id x \<notin> write_id ` set (remove1 w (snd c))" for w
    using fl set_remove1_subset [of w "snd c"] by blast
  have t: "op_state x \<noteq> ''pending''" "op_state x \<noteq> ''running''" "op_state x \<noteq> ''cancelling''"
    using assms(4) by (auto simp: terminal_text_def)
  have ex: "\<exists>r \<in> set (fst c). op_id r = op_id x \<and> same_outcome x r" using r by blast
  note upd = update_where_outcome
  show ?thesis
    using assms(1)
  proof cases
    case (Land w fl rows now)
    show ?thesis unfolding Land keeps_outcome_def fst_conv snd_conv
      by (intro conjI upd) (use Land ex fl less t in \<open>auto simp: same_outcome_def claim_row_def claimable_def\<close>)
  next
    case (MarkCancel rows fl i now)
    show ?thesis unfolding MarkCancel keeps_outcome_def fst_conv snd_conv
      by (intro conjI upd) (use MarkCancel ex fl less t in \<open>auto simp: same_outcome_def claim_row_def claimable_def\<close>)
  next
    case (Progress rows fl i now)
    show ?thesis unfolding Progress keeps_outcome_def fst_conv snd_conv
      by (intro conjI upd) (use Progress ex fl less t in \<open>auto simp: same_outcome_def claim_row_def claimable_def\<close>)
  next
    case (ClaimNext candidate rows now fl worker)
    show ?thesis unfolding ClaimNext keeps_outcome_def fst_conv snd_conv
      by (intro conjI upd) (use ClaimNext ex fl less t in \<open>auto simp: same_outcome_def claim_row_def claimable_def\<close>)
  next
    case (ClaimById rows fl i now worker)
    show ?thesis unfolding ClaimById keeps_outcome_def fst_conv snd_conv
      by (intro conjI upd) (use ClaimById ex fl less t in \<open>auto simp: same_outcome_def claim_row_def claimable_def\<close>)
  next
    case (Renew rows fl i worker now lease)
    show ?thesis unfolding Renew keeps_outcome_def fst_conv snd_conv
      by (intro conjI upd) (use Renew ex fl less t in \<open>auto simp: same_outcome_def claim_row_def claimable_def\<close>)
  next
    case (FailExpired rows fl i expected error now)
    show ?thesis unfolding FailExpired keeps_outcome_def fst_conv snd_conv
      by (intro conjI upd) (use FailExpired ex fl less t in \<open>auto simp: same_outcome_def claim_row_def claimable_def\<close>)
  next
    case (CheckTransition rows i to fl)
    then show ?thesis using ex fl no by (auto simp: keeps_outcome_def)
  next
    case (CheckCompletion rows i to result error fl)
    then show ?thesis using ex fl no by (auto simp: keeps_outcome_def)
  next
    case (Insert rows i key fl kind d k p now)
    then show ?thesis using ex fl by (auto simp: keeps_outcome_def)
  next
    case (Drop rows fl w)
    then show ?thesis using ex less by (auto simp: keeps_outcome_def)
  qed
qed

lemma steps_tracks:
  assumes "sql_steps c c'" and "store_wf (fst c)" and "x \<in> set (fst c)"
  shows "store_wf (fst c') \<and> (\<exists>r \<in> set (fst c'). same_operation x r)"
  using assms
proof (induction rule: rtranclp_induct)
  case base
  then show ?case using same_operation_refl by blast
next
  case (step c1 c2)
  from step.IH [OF step.prems] obtain r where w: "store_wf (fst c1)" and r: "r \<in> set (fst c1)" "same_operation x r"
    by blast
  from step_wf [OF step.hyps(2) w] r show ?case by (meson same_operation_trans)
qed

lemma steps_outcome:
  assumes "sql_steps c c'" and "store_wf (fst c)" and "keeps_outcome x c" and "terminal_text (op_state x)"
  shows "store_wf (fst c') \<and> keeps_outcome x c'"
  using assms
proof (induction rule: rtranclp_induct)
  case (step c1 c2)
  then show ?case using step_wf step_outcome by blast
qed simp

section \<open>Properties\<close>

text \<open>
  C3. What concurrent callers cannot undo: however the statements of any number of repository
  calls interleave, and whichever of them fail, ids and keys stay unique, no operation
  disappears, and each keeps its kind, key, payload, deadline, correlation and any cancel
  request; an operation that is terminal while no checked write for it is on its way keeps its
  state, result and error for good.
\<close>

theorem terminal_stays:
  assumes "sql_steps (rows, fl) (rows', fl')" and "store_wf rows" and "x \<in> set rows"
  shows "store_wf rows' \<and> (\<exists>y \<in> set rows'. same_operation x y \<and>
    (terminal_text (op_state x) \<and> op_id x \<notin> write_id ` set fl \<longrightarrow> same_outcome x y))"
proof -
  from steps_tracks [OF assms(1)] assms(2,3) obtain y where y: "store_wf rows'" "y \<in> set rows'" "same_operation x y"
    by auto
  moreover have "same_outcome x y" if "terminal_text (op_state x)" "op_id x \<notin> write_id ` set fl"
  proof -
    have "keeps_outcome x (rows, fl)" using assms(3) that(2) by (auto simp: keeps_outcome_def same_outcome_def)
    from steps_outcome [OF assms(1) _ this that(1)] assms(2) obtain z where
      z: "z \<in> set rows'" "op_id z = op_id x" "same_outcome x z" by (auto simp: keeps_outcome_def)
    have "z = y" using wf_unique [OF y(1) z(1) y(2)] z(2) y(3) by (simp add: same_operation_def)
    with z show ?thesis by simp
  qed
  ultimately show ?thesis by blast
qed

lemma find_updated:
  assumes "find (\<lambda>r. op_id r = i) rows = Some r" and "\<And>r. op_id (f r) = op_id r" and "P r"
  shows "find (\<lambda>r. op_id r = i) (update_where P f rows) = Some (f r)"
proof -
  have "find (\<lambda>r. op_id r = i) (update_where P f rows) =
      map_option (\<lambda>r. if P r then f r else r) (find (\<lambda>r. op_id r = i) rows)"
    unfolding update_where_def by (rule find_map_same) (simp add: assms(2))
  with assms show ?thesis by simp
qed

text \<open>
  C8. A cancellation can undo a success: while an operation runs, a cancel request can read it,
  the worker's completion can land, and the cancellation's write then lands on the finished
  row, which reads cancelling again with its result still in it; when its claim has expired,
  the next recovery writes failed over it.
\<close>

theorem stale_cancel_revives:
  assumes "find (\<lambda>r. op_id r = i) rows = Some r" and "op_state r = ''running''" and "op_claimed r = Some c"
    and "check_optional ''result_json'' result max_result_json = Inr ()"
  shows "\<exists>finished revived failed fl.
    sql_steps (rows, []) (finished, fl) \<and> sql_steps (finished, fl) (revived, []) \<and> sql_steps (revived, []) (failed, []) \<and>
    (\<exists>x. find (\<lambda>r. op_id r = i) finished = Some x \<and> op_state x = ''succeeded'' \<and> op_result x = result) \<and>
    (\<exists>x. find (\<lambda>r. op_id r = i) revived = Some x \<and> op_state x = ''cancelling'' \<and> op_result x = result) \<and>
    (\<exists>x. find (\<lambda>r. op_id r = i) failed = Some x \<and> op_state x = ''failed'' \<and> op_result x = result)"
proof -
  let ?cancel = "WriteState i Cancelling" and ?complete = "WriteOutcome i Succeeded result None"
  let ?mark = "\<lambda>r. r\<lparr>op_cancel_requested := True, op_updated := 0\<rparr>"
  let ?fail = "\<lambda>r. r\<lparr>op_state := ''failed'', op_error := Some ''{}'', op_updated := 0\<rparr>"
  let ?at = "\<lambda>r. op_id r = i"
  let ?stale = "\<lambda>r. op_id r = i \<and> op_state r \<in> {''running'', ''cancelling''} \<and> op_claimed r = Some c"
  define marked where "marked = update_where ?at ?mark rows"
  define finished where "finished = update_where ?at (land_row 0 ?complete) marked"
  define revived where "revived = update_where ?at (land_row 0 ?cancel) finished"
  define failed where "failed = update_where ?stale ?fail revived"
  have at: "op_id r = i" using find_Some_in [OF assms(1)] by simp
  have f1: "find ?at marked = Some (?mark r)" unfolding marked_def by (rule find_updated [OF assms(1)]) (simp_all add: at)
  have f2: "find ?at finished = Some (land_row 0 ?complete (?mark r))"
    unfolding finished_def by (rule find_updated [OF f1]) (simp_all add: at)
  have f3: "find ?at revived = Some (land_row 0 ?cancel (land_row 0 ?complete (?mark r)))"
    unfolding revived_def by (rule find_updated [OF f2]) (simp_all add: at)
  have f4: "find ?at failed = Some (?fail (land_row 0 ?cancel (land_row 0 ?complete (?mark r))))"
    unfolding failed_def by (rule find_updated [OF f3]) (simp_all add: at assms(3))
  have moves: "move_allowed marked i Cancelling" "move_allowed marked i Succeeded"
    by (simp_all add: move_allowed_def f1 assms(2) state_of_live_texts)
  have e: "check_optional ''error_json'' None max_result_json = Inr ()" by (simp add: check_optional_def)
  have m: "sql_step (rows, []) (marked, [])" unfolding marked_def by (rule sql_step.MarkCancel)
  have a: "sql_step (marked, []) (marked, [?cancel])" by (rule sql_step.CheckTransition [OF moves(1)])
  have b: "sql_step (marked, [?cancel]) (marked, [?complete, ?cancel])"
    by (rule sql_step.CheckCompletion [OF moves(2) assms(4) e])
  have l: "sql_step (marked, [?complete, ?cancel]) (finished, [?cancel])"
    unfolding finished_def using sql_step.Land [of ?complete "[?complete, ?cancel]" marked 0] by simp
  have p1: "sql_steps (rows, []) (finished, [?cancel])"
    by (rule converse_rtranclp_into_rtranclp [where r = sql_step, OF m],
        rule converse_rtranclp_into_rtranclp [where r = sql_step, OF a],
        rule converse_rtranclp_into_rtranclp [where r = sql_step, OF b],
        rule r_into_rtranclp [where r = sql_step, OF l])
  have p2: "sql_step (finished, [?cancel]) (revived, [])"
    unfolding revived_def using sql_step.Land [of ?cancel "[?cancel]" finished 0] by simp
  have p3: "sql_step (revived, []) (failed, [])" unfolding failed_def by (rule sql_step.FailExpired)
  show ?thesis
    using p1 r_into_rtranclp [where r = sql_step, OF p2] r_into_rtranclp [where r = sql_step, OF p3] f2 f3 f4
    by (intro exI [of _ finished] exI [of _ revived] exI [of _ failed] exI [of _ "[?cancel]"]) simp
qed

section \<open>Witnesses\<close>

text \<open>A recovered operation while the worker's heartbeat and another claim go on.\<close>

definition demo_failed_row :: operation where
  "demo_failed_row = demo_row_running\<lparr>op_state := ''failed'', op_error := Some ''{}''\<rparr>"

theorem terminal_stays_witness:
  "\<exists>y \<in> set (ow_rows (run_store (ClaimCall ''w2'' 11) (demo_ops\<lparr>ow_rows := [demo_row_pending, demo_failed_row]\<rparr>))).
     op_id y = ''op2'' \<and> op_state y = ''failed'' \<and> op_error y = Some ''{}''"
proof -
  let ?s = "demo_ops\<lparr>ow_rows := [demo_row_pending, demo_failed_row]\<rparr>"
  have f: "state_of_text ''failed'' = Some Failed" by (simp add: op_ids.of_text_iff)
  have w: "store_wf (ow_rows ?s)"
    by (simp add: store_wf_def keys_of_def demo_rows_sel demo_failed_row_def f state_of_live_texts)
  have x: "demo_failed_row \<in> set (ow_rows ?s)" by simp
  have "sql_steps (ow_rows ?s, []) (ow_rows (run_store (ClaimCall ''w2'' 11) ?s), [])" by (rule run_store_stepwise)
  from terminal_stays [OF this w x] show ?thesis
    by (auto simp: demo_failed_row_def terminal_text_def same_operation_def same_outcome_def demo_rows_sel)
qed

theorem stale_cancel_revives_witness:
  "\<exists>revived fl x. sql_steps ([demo_row_running], []) (revived, fl) \<and>
     find (\<lambda>r. op_id r = ''op2'') revived = Some x \<and> op_state x = ''cancelling'' \<and> op_result x = Some ''{}''"
proof -
  have "find (\<lambda>r. op_id r = ''op2'') [demo_row_running] = Some demo_row_running" by (simp add: demo_rows_sel)
  from stale_cancel_revives [OF this demo_rows_sel(4,7), of "Some ''{}''"] show ?thesis
    by (simp add: check_optional_def check_bound_def max_result_json_def) (meson rtranclp_trans)
qed

end
