(* ===== verification/Worker.thy ===== *)
theory Worker
  imports Operation_Interleaving
begin

text \<open>
  The operation worker of \<open>crates/fleet-application/src/worker.rs\<close> and the addressed claim of
  \<open>operation.rs\<close>: recovery of dead claims, deadlines, claiming, execution and heartbeats. An
  executor is a parameter: it is any action on the world that ends with success or with
  the detail of a failure, so its own writes and whatever runs beside it are part of it.
\<close>

section \<open>Reports and executors\<close>

record tick_report =
  tr_recovered :: nat
  tr_timed_out :: nat
  tr_claimed :: bool
  tr_completed :: bool
  tr_pending :: int
  tr_running :: int

definition tick_report_default :: tick_report where
  "tick_report_default = \<lparr>tr_recovered = 0, tr_timed_out = 0, tr_claimed = False, tr_completed = False,
     tr_pending = 0, tr_running = 0\<rparr>"

type_synonym ('z, 'a) worker_act = "('z op_world_scheme, string, 'a) act"
type_synonym 'z executor = "operation \<Rightarrow> ('z, unit) worker_act"

definition record_progress ::
    "service \<Rightarrow> string \<Rightarrow> int option \<Rightarrow> int option \<Rightarrow> string option \<Rightarrow> ('z, unit) uc_act" where
  "record_progress sv i current whole message =
     andthen (map_err (\<lambda>e. UcBackend ''record_progress'' (port_failure_text e))
        (op_record_progress i current whole message)) (\<lambda>_.
     if sv_events sv then publish_event OperationChanged else ret ())"

definition noop_execute :: "service \<Rightarrow> 'z executor" where
  "noop_execute sv r =
     andthen (map_err usecase_error_text
       (record_progress sv (op_id r) (Some 1) (Some 1) (Some ''noop complete''))) (\<lambda>_.
     andthen (map_err usecase_error_text
       (complete_operation sv (op_id r) ''succeeded'' (Some (''{'' @ [CHR 0x22] @ ''kind'' @ [CHR 0x22] @ '':'' @ [CHR 0x22] @ ''noop'' @ [CHR 0x22] @ ''}'')) None)) (\<lambda>_.
     ret ()))"

text \<open>The stored document of a failure, \<open>serde_json::json!({"reason": ..., "detail": ...})\<close>.\<close>

definition failure_document :: "service \<Rightarrow> string \<Rightarrow> string \<Rightarrow> string" where
  "failure_document sv why detail =
     sv_print sv (JObject [(''reason'', JString why), (''detail'', JString detail)])"

section \<open>Maintenance\<close>

definition recover_one :: "service \<Rightarrow> int \<Rightarrow> operation \<Rightarrow> ('z, nat) worker_act" where
  "recover_one sv now r =
     andthen (attempt (op_fail_expired_claim (op_id r) (case op_claimed r of None \<Rightarrow> 0 | Some c \<Rightarrow> c) now
        (failure_document sv ''worker_lease_expired''
           (''worker lease expired; the result of '' @ op_kind r @ '' work is unknown'')))) (\<lambda>outcome.
     if outcome = Inr True then andthen (publish_operation sv r True) (\<lambda>_. ret 1) else ret 0)"

fun recover_each :: "service \<Rightarrow> int \<Rightarrow> operation list \<Rightarrow> ('z, nat) worker_act" where
  "recover_each sv now [] = ret 0"
| "recover_each sv now (r # rs) =
     andthen (recover_one sv now r) (\<lambda>n. andthen (recover_each sv now rs) (\<lambda>m. ret (n + m)))"

fun time_out_each :: "service \<Rightarrow> string list \<Rightarrow> ('z, nat) worker_act" where
  "time_out_each sv [] = ret 0"
| "time_out_each sv (i # is) =
     andthen (attempt (complete_operation sv i ''timed_out'' None None)) (\<lambda>outcome.
     andthen (time_out_each sv is) (\<lambda>m. ret ((if isl outcome then 0 else 1) + m)))"

definition maintain :: "service \<Rightarrow> int \<Rightarrow> int \<Rightarrow> ('z, tick_report) worker_act" where
  "maintain sv now lease_ms =
     andthen (map_err port_failure_text (op_expired_claims now lease_ms)) (\<lambda>expired.
     andthen (recover_each sv now expired) (\<lambda>recovered.
     andthen (map_err port_failure_text (op_sweep_deadlines now)) (\<lambda>late.
     andthen (time_out_each sv late) (\<lambda>timed_out.
     andthen (attempt op_queue_depths) (\<lambda>depths.
     let report = tick_report_default\<lparr>tr_recovered := recovered, tr_timed_out := timed_out\<rparr> in
     ret (case depths of Inl _ \<Rightarrow> report
          | Inr d \<Rightarrow> report\<lparr>tr_pending := int (qd_pending d), tr_running := int (qd_running d)\<rparr>))))))"

section \<open>Claiming and executing\<close>

definition claim_only :: "service \<Rightarrow> string \<Rightarrow> int \<Rightarrow> ('z, operation option) worker_act" where
  "claim_only sv worker now =
     andthen (map_err port_failure_text (op_claim_pending worker now)) (\<lambda>claimed.
     case claimed of
       None \<Rightarrow> ret None
     | Some r \<Rightarrow> andthen (publish_operation sv r False) (\<lambda>_. ret (Some r)))"

definition step_failed :: "service \<Rightarrow> string \<Rightarrow> string \<Rightarrow> ('z, operation) uc_act" where
  "step_failed sv i detail =
     complete_operation sv i ''failed'' None (Some (failure_document sv ''step_failed'' (sv_scrub sv detail)))"

definition execute_claimed :: "service \<Rightarrow> 'z executor \<Rightarrow> operation \<Rightarrow> ('z, bool) worker_act" where
  "execute_claimed sv execute r =
     (if op_cancel_requested r then
        andthen (attempt (op_transition (op_id r) ''cancelling'')) (\<lambda>moved.
        if isl moved then ret False
        else andthen (attempt (complete_operation sv (op_id r) ''cancelled'' None None)) (\<lambda>done'.
             ret (\<not> isl done')))
      else
        andthen (attempt (execute r)) (\<lambda>outcome.
        case outcome of
          Inr _ \<Rightarrow> ret True
        | Inl detail \<Rightarrow> andthen (attempt (step_failed sv (op_id r) detail)) (\<lambda>done'. ret (\<not> isl done'))))"

definition tick :: "service \<Rightarrow> 'z executor \<Rightarrow> string \<Rightarrow> int \<Rightarrow> int \<Rightarrow> ('z, tick_report) worker_act" where
  "tick sv execute worker now lease_ms =
     andthen (maintain sv now lease_ms) (\<lambda>report.
     andthen (claim_only sv worker now) (\<lambda>claimed.
     andthen (case claimed of
                None \<Rightarrow> ret report
              | Some r \<Rightarrow> andthen (execute_claimed sv execute r) (\<lambda>completed.
                          ret (report\<lparr>tr_claimed := True, tr_completed := completed\<rparr>))) (\<lambda>report'.
     andthen (map_err port_failure_text op_queue_depths) (\<lambda>d.
     ret (report'\<lparr>tr_pending := int (qd_pending d), tr_running := int (qd_running d)\<rparr>)))))"

definition renew_lease :: "string \<Rightarrow> string \<Rightarrow> int \<Rightarrow> int \<Rightarrow> ('z, bool) worker_act" where
  "renew_lease i worker now lease_ms = map_err port_failure_text (op_renew_lease i worker now lease_ms)"

definition settle_step :: "service \<Rightarrow> string \<Rightarrow> string + unit \<Rightarrow> ('z, unit) worker_act" where
  "settle_step sv i outcome =
     (case outcome of
        Inr _ \<Rightarrow> ret ()
      | Inl detail \<Rightarrow> andthen (map_err usecase_error_text (step_failed sv i detail)) (\<lambda>_. ret ()))"

definition claim_only_execute :: "service \<Rightarrow> 'z executor \<Rightarrow> string \<Rightarrow> string \<Rightarrow> ('z, unit) worker_act" where
  "claim_only_execute sv execute i worker =
     andthen (asks w_now) (\<lambda>now.
     andthen (map_err port_failure_text (op_claim_pending_by_id i worker now)) (\<lambda>claimed.
     case claimed of
       None \<Rightarrow> fail (''the operation '' @ i @ '' could not be claimed'')
     | Some r \<Rightarrow>
         andthen (publish_operation sv r False) (\<lambda>_.
         andthen (attempt (execute r)) (settle_step sv i))))"

section \<open>What the use cases do to the table\<close>

text \<open>
  The repository's calls as a contract: a relation on worlds that contains every call and
  everything that leaves the operations table alone. Whatever satisfies it holds of the use
  cases and of the worker; it is discharged for the growth of the table and for runs of single
  statements.
\<close>

locale repository_effect = effect_relation R
  for R :: "'z op_world_scheme \<Rightarrow> 'z op_world_scheme \<Rightarrow> bool" +
  assumes same_table: "ow_rows t = ow_rows s \<Longrightarrow> R s t"
    and creates: "within R (op_create kind key d c p)"
    and cancels: "within R (op_request_cancel i)"
    and transitions: "within R (op_transition i target)"
    and completes: "within R (op_complete i target result error)"
    and progresses: "within R (op_record_progress i current whole message)"
    and claims_next: "within R (op_claim_pending worker now)"
    and claims_id: "within R (op_claim_pending_by_id i worker now)"
    and renews: "within R (op_renew_lease i worker now lease)"
    and fails_expired: "within R (op_fail_expired_claim i claimed now e)"
begin

lemma quiet_call: "within same_rows m \<Longrightarrow> within R m"
  by (rule withinI, rule same_table) (metis same_rows_def within_snd)

lemma read_call: "within world_frame m \<Longrightarrow> within R m"
  by (rule quiet_call) (rule frame_same_rows)

lemma completion_call: "within R (complete_operation sv i state result error)"
  unfolding complete_operation_def Let_def
  by (intro intros completes quiet_call publish_same_rows read_call record_outcome_frame)

lemma progress_call: "within R (record_progress sv i c w m)"
proof -
  have "within same_rows (publish_event OperationChanged)"
    by (rule withinI) (simp add: publish_event_def same_rows_def act_simps)
  then show ?thesis unfolding record_progress_def by (intro intros progresses quiet_call)
qed

lemma noop_call: "within R (noop_execute sv r)"
  unfolding noop_execute_def by (intro intros progress_call completion_call)

lemma recover_one_call: "within R (recover_one sv now r)"
  unfolding recover_one_def by (intro intros fails_expired quiet_call publish_same_rows)

lemma recover_each_call: "within R (recover_each sv now rs)"
  by (induction rs) (auto intro: intros recover_one_call)

lemma time_out_each_call: "within R (time_out_each sv is)"
  by (induction "is") (auto intro: intros completion_call)

lemma read_calls:
  "within R (op_expired_claims now lease)" "within R (op_sweep_deadlines now)" "within R op_queue_depths"
  unfolding op_expired_claims_def op_sweep_deadlines_def op_queue_depths_def
  by (intro intros read_call statement_frame)+

lemma maintain_call: "within R (maintain sv now lease)"
  unfolding maintain_def Let_def by (intro intros read_calls recover_each_call time_out_each_call)

lemma claim_only_call: "within R (claim_only sv worker now)"
  unfolding claim_only_def by (intro intros claims_next quiet_call publish_same_rows)

lemma execute_claimed_call:
  assumes "\<And>r. within R (execute r)"
  shows "within R (execute_claimed sv execute r)"
  unfolding execute_claimed_def step_failed_def by (intro intros transitions completion_call assms)

lemma tick_call:
  assumes "\<And>r. within R (execute r)"
  shows "within R (tick sv execute worker now lease)"
  unfolding tick_def by (intro intros maintain_call claim_only_call execute_claimed_call assms read_calls)

lemma claim_only_execute_call:
  assumes "\<And>r. within R (execute r)"
  shows "within R (claim_only_execute sv execute i worker)"
  unfolding claim_only_execute_def settle_step_def step_failed_def
  by (intro intros claims_id quiet_call publish_same_rows completion_call assms)

lemma renew_lease_call: "within R (renew_lease i w now lease)"
  unfolding renew_lease_def by (intro intros renews)

lemma create_call: "within R (create_inner sv az who new route)"
  unfolding create_inner_def
  by (intro intros creates quiet_call publish_same_rows audited_same_rows refuse_pool_member_same_rows)

lemma cancel_call: "within R (cancel_operation sv az who i)"
  unfolding cancel_operation_def
  by (intro intros read_call op_get_frame cancels quiet_call publish_same_rows audited_same_rows)

end

interpretation growth: repository_effect "store_grows :: 'z op_world_scheme \<Rightarrow> _"
  by unfold_locales (rule store_grows_rows store_sgrow; assumption?)+

interpretation runs: repository_effect "stepwise :: 'z op_world_scheme \<Rightarrow> _"
  by unfold_locales (rule stepwise_same op_create_stepwise op_request_cancel_stepwise op_transition_stepwise
      op_complete_stepwise op_record_progress_stepwise op_claim_pending_stepwise op_claim_pending_by_id_stepwise
      op_renew_lease_stepwise op_fail_expired_claim_stepwise; assumption?)+

section \<open>Maintenance without failures\<close>

definition quiet :: "'z world_scheme \<Rightarrow> bool" where "quiet s \<longleftrightarrow> w_faults s = []"

abbreviation keeps_quiet :: "('z world_scheme, 'e, 'a) act \<Rightarrow> bool" where
  "keeps_quiet m \<equiv> within (preserves quiet) m"

lemma quiet_statement: "keeps_quiet (statement c)"
  by (rule withinI) (simp add: preserves_def quiet_def statement_ok)

lemma quiet_update: "keeps_quiet (update_rows P f)"
  by (rule withinI) (simp add: preserves_def quiet_def update_rows_def)

lemma quiet_external: "keeps_quiet external"
  by (rule withinI) (simp add: preserves_def quiet_def external_def)

lemma quiet_fresh: "keeps_quiet fresh_uuid"
  by (rule withinI) (simp add: preserves_def quiet_def fresh_uuid_def)

lemma quiet_ledger: "keeps_quiet (modify (\<lambda>s. s\<lparr>w_ledger := f s\<rparr>))"
  by (rule withinI) (simp add: preserves_def quiet_def modify_def)

lemmas quiet_basic = quiet_statement quiet_update quiet_external quiet_fresh quiet_ledger

lemma quiet_get: "keeps_quiet (op_get i)"
  unfolding op_get_def by (intro kept.intros quiet_basic)

lemma quiet_complete: "keeps_quiet (op_complete i target result error)"
  unfolding op_complete_def complete_check_def complete_write_def transition_check_def
  by (intro kept.intros quiet_basic quiet_get)

lemma quiet_publish: "keeps_quiet (publish_operation sv r b)"
  by (rule withinI)
     (auto simp: preserves_def quiet_def publish_operation_def publish_event_def act_simps split: option.splits)

lemma quiet_outcome: "keeps_quiet (record_outcome i out)"
  unfolding record_outcome_def append_outcome_def outcome_insert_def by (intro kept.intros quiet_basic)

lemma quiet_complete_operation: "keeps_quiet (complete_operation sv i state result error)"
  unfolding complete_operation_def Let_def by (intro kept.intros quiet_complete quiet_publish quiet_outcome)

lemma quiet_recover_one: "keeps_quiet (recover_one sv now r)"
  unfolding recover_one_def op_fail_expired_claim_def by (intro kept.intros quiet_basic quiet_publish)

lemma quietD: "keeps_quiet m \<Longrightarrow> m s = (x, t) \<Longrightarrow> quiet s \<Longrightarrow> quiet t"
  using withinD by (metis preserves_def)

definition dead_claim :: "int \<Rightarrow> operation \<Rightarrow> bool" where
  "dead_claim cutoff r \<longleftrightarrow> live_claim r \<and> the (op_claimed r) < cutoff"

definition overdue :: "int \<Rightarrow> operation \<Rightarrow> bool" where
  "overdue now r \<longleftrightarrow> op_state r \<in> {''pending'', ''running''} \<and>
     (case op_deadline r of None \<Rightarrow> False | Some d \<Rightarrow> d \<le> now)"

lemma recover_one_drops:
  fixes s :: "'z op_world_scheme"
  assumes "recover_one sv now r s = (x, t)" and "quiet s" and "live_claim r"
  shows "\<exists>f. ow_rows t = map (\<lambda>y. if op_id y = op_id r \<and> op_state y \<in> {''running'', ''cancelling''} \<and> op_claimed y = op_claimed r
      then f y else y) (ow_rows s) \<and> (\<forall>y. op_state (f y) = ''failed'')"
proof -
  obtain c where c: "op_claimed r = Some c" using assms(3) by (auto simp: live_claim_def)
  define doc where "doc = failure_document sv ''worker_lease_expired''
           (''worker lease expired; the result of '' @ op_kind r @ '' work is unknown'')"
  define f :: "operation \<Rightarrow> operation" where "f = (\<lambda>y. y\<lparr>op_state := ''failed'', op_error := Some doc, op_updated := now\<rparr>)"
  let ?u = "s\<lparr>ow_rows := map (\<lambda>y. if op_id y = op_id r \<and> op_state y \<in> {''running'', ''cancelling''} \<and> op_claimed y = Some c
      then f y else y) (ow_rows s)\<rparr>"
  have "\<exists>b. op_fail_expired_claim (op_id r) c now doc s = (Inr b, ?u)"
    unfolding f_def using assms(2)
    by (simp add: op_fail_expired_claim_def andthen_def statement_ok quiet_def update_rows_def ret_def)
  then obtain b where "op_fail_expired_claim (op_id r) c now doc s = (Inr b, ?u)" by blast
  with assms(1) c have "ow_rows t = ow_rows ?u"
    by (cases b) (auto simp: recover_one_def attempt_def doc_def andthen_def ret_def split: prod.splits sum.splits
        dest!: same_rowsD [OF publish_same_rows])
  then show ?thesis using c by (intro exI [of _ f]) (simp add: f_def)
qed

lemma recover_each_resolves:
  fixes s :: "'z op_world_scheme"
  assumes "recover_each sv now rs s = (x, t)" and "quiet s" and "\<forall>r \<in> set rs. live_claim r"
  shows "isl x = False \<and> quiet t \<and> (\<forall>y \<in> set (ow_rows t). op_state y = ''failed'' \<or>
     y \<in> set (ow_rows s) \<and> (live_claim y \<longrightarrow> (\<forall>r \<in> set rs. \<not> (op_id y = op_id r \<and> op_claimed y = op_claimed r))))"
  using assms
proof (induction rs arbitrary: s x t)
  case Nil
  then show ?case by (auto simp: ret_def)
next
  case (Cons r rs)
  obtain a u where a: "recover_one sv now r s = (a, u)" by fastforce
  then have "\<not> isl a"
    by (auto simp: recover_one_def andthen_def attempt_def ret_def publish_operation_def publish_event_def modify_def
        split: prod.splits sum.splits if_splits option.splits)
  then obtain n where n: "a = Inr n" by (cases a) simp_all
  obtain b v where b: "recover_each sv now rs u = (b, v)" by fastforce
  have q: "quiet u" using quietD [OF quiet_recover_one a] Cons.prems(2) by blast
  note IH = Cons.IH [OF b q] 
  then have "\<not> isl b" "v = t" using Cons.prems a n b by (cases b; simp add: andthen_def ret_def)+
  moreover obtain m where "b = Inr m" using \<open>\<not> isl b\<close> by (cases b) simp_all
  ultimately have x: "isl x = False" "v = t" using Cons.prems a n b by (auto simp: andthen_def ret_def)
  obtain f where f: "ow_rows u = map (\<lambda>y. if op_id y = op_id r \<and> op_state y \<in> {''running'', ''cancelling''} \<and> op_claimed y = op_claimed r
      then f y else y) (ow_rows s)" "\<And>y. op_state (f y) = ''failed''"
    using recover_one_drops [OF a Cons.prems(2)] Cons.prems(3) by auto
  have "y \<in> set (ow_rows u) \<Longrightarrow> op_state y = ''failed'' \<or> y \<in> set (ow_rows s) \<and>
      (live_claim y \<longrightarrow> \<not> (op_id y = op_id r \<and> op_claimed y = op_claimed r))" for y
    using f by (auto simp: live_claim_def)
  then show ?case using IH x Cons.prems(3) by fastforce
qed

text \<open>Timing out one operation: it happens when the life cycle allows it.\<close>

lemma complete_timed_out:
  fixes s :: "'z op_world_scheme"
  assumes "complete_operation sv i ''timed_out'' None None s = (x, t)" and "quiet s" and "store_wf (ow_rows s)"
  shows "ow_rows t = ow_rows s \<and> (\<forall>y \<in> set (ow_rows s). op_id y = i \<longrightarrow> op_state y \<notin> {''pending'', ''running''}) \<or>
    (\<exists>f. ow_rows t = map (\<lambda>y. if op_id y = i then f y else y) (ow_rows s) \<and> (\<forall>y. op_state (f y) = ''timed_out''))"
proof -
  have texts: "state_from_id ''timed_out'' = Inr TimedOut" by code_simp
  show ?thesis
  proof (cases "find (\<lambda>r. op_id r = i) (ow_rows s)")
    case None
    then have "op_complete i ''timed_out'' None None s = (Inl (PortNotFound (''operation '' @ debug_str i)), s)"
      using assms(2) by (simp add: op_complete_def complete_check_def check_optional_def transition_check_def op_get_def
          quiet_def statement_ok act_simps)
    with assms(1) None show ?thesis
      by (auto simp: complete_operation_def Let_def andthen_def map_err_def find_None_iff)
  next
    case (Some r)
    note r = find_Some_in [OF Some]
    then obtain a where a: "state_of_text (op_state r) = Some a" using assms(3) by (auto simp: store_wf_def)
    then have ra: "op_state r = state_id a" by (simp add: op_ids.of_text_iff)
    have p: "parse_state (op_state r) = Inr a" using a by (simp add: parse_state_Inr)
    have get: "op_get i s = (Inr r, s)"
      using assms(2) Some by (simp add: op_get_def quiet_def statement_ok act_simps)
    show ?thesis
    proof (cases "can_transition a TimedOut")
      case False
      then have "\<exists>e. op_complete i ''timed_out'' None None s = (Inl e, s)"
        using get p texts by (simp add: op_complete_def complete_check_def check_optional_def transition_check_def
            parse_state_def checked_transition_def validate_transition_def act_simps)
      moreover have "op_state r \<notin> {''pending'', ''running''}" using False ra by (cases a) auto
      moreover have "y = r" if "y \<in> set (ow_rows s)" "op_id y = i" for y
        using wf_unique [OF assms(3)] that r by auto
      ultimately show ?thesis using assms(1)
        by (auto simp: complete_operation_def Let_def andthen_def map_err_def)
    next
      case True
      define f :: "operation \<Rightarrow> operation"
        where "f = (\<lambda>y. y\<lparr>op_state := ''timed_out'', op_result := None, op_error := None, op_updated := w_now s\<rparr>)"
      let ?u = "s\<lparr>ow_rows := map (\<lambda>y. if op_id y = i then f y else y) (ow_rows s)\<rparr>"
      have found: "find (\<lambda>r. op_id r = i) (ow_rows ?u) = Some (f r)"
        using update_found [OF Some, of f] by (simp add: f_def)
      have "op_get i ?u = (Inr (f r), ?u)"
        unfolding op_get_def using found assms(2) statement_ok [of ?u]
        by (simp add: andthen_step [OF statement_ok] quiet_def andthen_asks ret_def)
      moreover have "complete_write i TimedOut None None s = op_get i ?u"
        unfolding f_def using assms(2)
        by (simp add: complete_write_def andthen_asks andthen_step [OF statement_ok] quiet_def
            andthen_step [OF update_rows_Inr [THEN iffD2]])
      moreover have "complete_check i ''timed_out'' None None s = (Inr TimedOut, s)"
        using get p texts True
        by (simp add: complete_check_def check_optional_def transition_check_def andthen_step
            parse_state_def checked_transition_def validate_transition_def act_simps)
      ultimately have "op_complete i ''timed_out'' None None s = (Inr (f r), ?u)"
        by (simp add: op_complete_def andthen_step)
      then have c: "map_err (map_port_failure ''complete'') (op_complete i ''timed_out'' None None) s = (Inr (f r), ?u)"
        by (rule map_err_step)
      have "within same_rows (andthen (publish_operation sv r' True) (\<lambda>_.
         andthen (map_err (UcBackend ''complete_audit'') (record_outcome i out)) (\<lambda>_. ret r')) :: ('z, operation) uc_act)" for r' out
        by (intro rows.intros publish_same_rows frame_same_rows record_outcome_frame)
      from same_rowsD [OF this] assms(1) c have "ow_rows t = ow_rows ?u"
        by (simp add: complete_operation_def Let_def andthen_step)
      then show ?thesis by (intro disjI2 exI [of _ f]) (simp add: f_def)
    qed
  qed
qed

lemma time_out_each_resolves:
  fixes s :: "'z op_world_scheme"
  assumes "time_out_each sv is s = (x, t)" and "quiet s" and "store_wf (ow_rows s)"
  shows "isl x = False \<and> quiet t \<and> (\<forall>y \<in> set (ow_rows t). op_state y = ''timed_out'' \<or>
     y \<in> set (ow_rows s) \<and> (op_state y \<in> {''pending'', ''running''} \<longrightarrow> op_id y \<notin> set is))"
  using assms
proof (induction "is" arbitrary: s x t)
  case Nil
  then show ?case by (auto simp: ret_def)
next
  case (Cons i "is")
  obtain a u where a: "(complete_operation sv i ''timed_out'' None None :: ('z, operation) uc_act) s = (a, u)" by fastforce
  obtain b v where b: "time_out_each sv is u = (b, v)" by fastforce
  have q: "quiet u" using quietD [OF quiet_complete_operation a] Cons.prems(2) by blast
  have "store_grows s u" by (rule withinD [OF growth.completion_call a])
  then have w: "store_wf (ow_rows u)" using Cons.prems(3) by (simp add: store_grows_def)
  note IH = Cons.IH [OF b q w]
  then obtain m where m: "b = Inr m" by (cases b) simp_all
  have att: "(attempt (complete_operation sv i ''timed_out'' None None) :: ('z, usecase_error + operation) worker_act) s = (Inr a, u)"
    using a by (simp add: attempt_def)
  have x: "isl x = False" "v = t"
    using Cons.prems(1) by (auto simp: andthen_step att b [unfolded m] ret_def)
  have "y \<in> set (ow_rows u) \<Longrightarrow> op_state y = ''timed_out'' \<or> y \<in> set (ow_rows s) \<and>
      (op_state y \<in> {''pending'', ''running''} \<longrightarrow> op_id y \<noteq> i)" for y
    using complete_timed_out [OF a Cons.prems(2,3)] by (elim disjE exE conjE) auto
  then show ?case using IH x by fastforce
qed

section \<open>Properties\<close>

text \<open>
  C20. Maintenance resolves what was left behind: when no statement fails it returns, and
  afterwards no claim is older than its lease and no pending or running operation is past
  its deadline; every row it changed is failed or timed out.
\<close>

theorem maintain_resolves:
  assumes "maintain sv now lease s = (x, t)" and "w_faults s = []" and "store_wf (ow_rows s)"
  shows "isl x = False \<and> (\<forall>y \<in> set (ow_rows t). \<not> dead_claim (saturating_sub now lease) y \<and> \<not> overdue now y \<and>
    (y \<in> set (ow_rows s) \<or> op_state y \<in> {''failed'', ''timed_out''}))"
proof -
  define rs where "rs = sort_key (\<lambda>r. the (op_claimed r)) (filter (dead_claim (saturating_sub now lease)) (ow_rows s))"
  have q: "quiet s" using assms(2) by (simp add: quiet_def)
  have e: "op_expired_claims now lease s = (Inr rs, s)"
    using assms(2) by (simp add: op_expired_claims_def andthen_step [OF statement_ok] asks_def rs_def dead_claim_def [abs_def])
  have set: "set rs = {r \<in> set (ow_rows s). dead_claim (saturating_sub now lease) r}" by (simp add: rs_def)
  obtain a u where a: "(recover_each sv now rs :: ('a, nat) worker_act) s = (a, u)" by fastforce
  have live: "\<forall>r \<in> set rs. live_claim r" by (simp add: set dead_claim_def)
  note A = recover_each_resolves [OF a q live]
  then obtain n where n: "a = Inr n" by (cases a) simp_all
  have w: "store_wf (ow_rows u)"
    using withinD [OF growth.recover_each_call a] assms(3) by (simp add: store_grows_def)
  define late where "late = map op_id (filter (\<lambda>r. op_state r \<in> {''pending'', ''running'', ''cancelling''} \<and>
        (case op_deadline r of None \<Rightarrow> False | Some d \<Rightarrow> d \<le> now)) (ow_rows u))"
  have l: "op_sweep_deadlines now u = (Inr late, u)"
    using A by (simp add: op_sweep_deadlines_def andthen_step [OF statement_ok] asks_def late_def quiet_def)
  obtain b v where b: "(time_out_each sv late :: ('a, nat) worker_act) u = (b, v)" by fastforce
  have qu: "quiet u" using A by blast
  note B = time_out_each_resolves [OF b qu w]
  then obtain m where m: "b = Inr m" by (cases b) simp_all
  obtain d where d: "op_queue_depths v = (Inr d, v)"
    using B by (simp add: op_queue_depths_def andthen_step [OF statement_ok] asks_def quiet_def)
  have x: "isl x = False" "t = v"
    using assms(1) unfolding maintain_def
    by (simp_all add: andthen_step map_err_step e a [unfolded n] l b [unfolded m] attempt_def d ret_def Let_def)
       auto
  have "\<not> dead_claim (saturating_sub now lease) y \<and> \<not> overdue now y \<and>
    (y \<in> set (ow_rows s) \<or> op_state y \<in> {''failed'', ''timed_out''})" if y: "y \<in> set (ow_rows v)" for y
  proof (cases "op_state y = ''timed_out''")
    case True
    then show ?thesis by (simp add: dead_claim_def live_claim_def overdue_def)
  next
    case False
    with B y have u: "y \<in> set (ow_rows u)" "op_state y \<in> {''pending'', ''running''} \<longrightarrow> op_id y \<notin> set late" by auto
    then have o: "\<not> overdue now y" by (auto simp: overdue_def late_def split: option.splits)
    show ?thesis
    proof (cases "op_state y = ''failed''")
      case True
      then show ?thesis by (simp add: dead_claim_def live_claim_def overdue_def)
    next
      case False
      with A u have "y \<in> set (ow_rows s)" "live_claim y \<longrightarrow> y \<notin> set rs" by auto
      then show ?thesis using o by (auto simp: set dead_claim_def)
    qed
  qed
  then show ?thesis using x by simp
qed

lemma claim_by_id_runs:
  fixes s :: "'z op_world_scheme"
  assumes "find (\<lambda>r. op_id r = i) (ow_rows s) = Some r" and "claimable now r" and "w_faults s = []" and "store_wf (ow_rows s)"
  shows "\<exists>u. op_claim_pending_by_id i worker now s = (Inr (Some (claim_row worker now r)), u) \<and> w_faults u = []"
proof -
  note r = find_Some_in [OF assms(1)]
  have same: "op_id y = i \<and> claimable now y \<longleftrightarrow> op_id y = i" if "y \<in> set (ow_rows s)" for y
    using wf_unique [OF assms(4) that] r assms(2) by auto
  let ?u = "s\<lparr>ow_rows := map (\<lambda>y. if op_id y = i then claim_row worker now y else y) (ow_rows s)\<rparr>"
  have rows: "map (\<lambda>y. if op_id y = i \<and> claimable now y then claim_row worker now y else y) (ow_rows s) =
      map (\<lambda>y. if op_id y = i then claim_row worker now y else y) (ow_rows s)"
    using same by (auto intro!: map_cong)
  have n: "length (filter (\<lambda>y. op_id y = i \<and> claimable now y) (ow_rows s)) \<noteq> 0"
    using r assms(2) by (auto simp: filter_empty_conv)
  have c: "claim_by_id_update i worker now s =
      (Inr (length (filter (\<lambda>y. op_id y = i \<and> claimable now y) (ow_rows s))), ?u)"
    using assms(3) by (simp add: claim_by_id_update_def andthen_step [OF statement_ok] update_rows_def rows)
  have "find (\<lambda>r. op_id r = i) (ow_rows ?u) = Some (claim_row worker now r)"
    using update_found [OF assms(1), of "claim_row worker now"] by simp
  then have "op_get i ?u = (Inr (claim_row worker now r), ?u)"
    using assms(3) statement_ok [of ?u] by (simp add: op_get_def andthen_step andthen_asks ret_def)
  with c n have "op_claim_pending_by_id i worker now s = (Inr (Some (claim_row worker now r)), ?u)"
    by (simp add: op_claim_pending_by_id_def andthen_step ret_def)
  then show ?thesis using assms(3) by auto
qed

text \<open>
  Only the queue honours a request to cancel that arrived before the work began: there
  the executor is never called, but the addressed claim, whose comment promises to skip
  cancelled operations, hands the flagged operation to the executor.
\<close>

theorem cancel_honoured_by_queue_only:
  fixes s :: "'z op_world_scheme"
  assumes "find (\<lambda>r. op_id r = i) (ow_rows s) = Some r" and "op_cancel_requested r" and "claimable (w_now s) r"
    and "w_faults s = []" and "store_wf (ow_rows s)"
  shows "(\<forall>execute execute' v. execute_claimed sv execute (claim_row worker (w_now s) r) v =
      execute_claimed sv execute' (claim_row worker (w_now s) r) (v :: 'z op_world_scheme)) \<and>
    (\<exists>u. \<forall>execute. claim_only_execute sv execute i worker s =
      andthen (attempt (execute (claim_row worker (w_now s) r))) (settle_step sv i) u)"
proof -
  let ?c = "claim_row worker (w_now s) r"
  obtain u where u: "op_claim_pending_by_id i worker (w_now s) s = (Inr (Some ?c), u)"
    using claim_by_id_runs [OF assms(1,3,4,5)] by blast
  have flag: "op_cancel_requested ?c" using assms(2) by (simp add: claim_row_def)
  obtain w where w: "(publish_operation sv ?c False :: ('z, unit) worker_act) u = (Inr (), w)"
  proof -
    obtain x w where "(publish_operation sv ?c False :: ('z, unit) worker_act) u = (x, w)" by fastforce
    moreover then have "x = Inr ()"
      by (auto simp: publish_operation_def publish_event_def act_simps split: if_splits)
    ultimately show thesis using that by blast
  qed
  have "claim_only_execute sv execute i worker s =
      andthen (attempt (execute ?c)) (settle_step sv i) w" for execute :: "'z executor"
    by (simp add: claim_only_execute_def andthen_asks andthen_step map_err_step u w)
  then show ?thesis using flag by (auto simp: execute_claimed_def)
qed

section \<open>Witnesses\<close>

theorem maintain_resolves_witness:
  "\<exists>x t. maintain demo_service 1000 100 demo_ops = (x, t) \<and> \<not> isl x \<and>
     list_all (\<lambda>y. \<not> dead_claim (saturating_sub 1000 100) y \<and> \<not> overdue 1000 y) (ow_rows t) \<and>
     list_ex (dead_claim (saturating_sub 1000 100)) (ow_rows demo_ops)"
proof -
  obtain x t where m: "maintain demo_service 1000 100 demo_ops = (x, t)" by fastforce
  have "list_ex (dead_claim (saturating_sub 1000 100)) (ow_rows demo_ops)"
    by (simp add: demo_ops_sel dead_claim_def live_claim_def demo_rows_sel saturating_sub_def sat_i64_def i64_min_def i64_max_def)
  with maintain_resolves [OF m demo_ops_sel(2) demo_wf(1)] m show ?thesis by (auto simp: list_all_iff)
qed

theorem cancel_honoured_by_queue_only_witness:
  "\<exists>u. \<forall>execute. claim_only_execute demo_service execute ''op1'' ''w2''
       (demo_ops\<lparr>ow_rows := [demo_row_pending\<lparr>op_cancel_requested := True\<rparr>]\<rparr>) =
     andthen (attempt (execute (claim_row ''w2'' 10 (demo_row_pending\<lparr>op_cancel_requested := True\<rparr>)))) (settle_step demo_service ''op1'') u"
proof -
  let ?r = "demo_row_pending\<lparr>op_cancel_requested := True\<rparr>"
  let ?s = "demo_ops\<lparr>ow_rows := [?r]\<rparr>"
  have 1: "find (\<lambda>r. op_id r = ''op1'') (ow_rows ?s) = Some ?r" by (simp add: demo_rows_sel)
  have 2: "claimable (w_now ?s) ?r" by (simp add: claimable_def demo_rows_sel opt_all_def)
  have 3: "store_wf (ow_rows ?s)"
    by (simp add: store_wf_def keys_of_def demo_rows_sel state_of_live_texts)
  have 4: "op_cancel_requested ?r" "w_faults ?s = []" and n: "w_now ?s = 10" by (simp_all add: demo_ops_sel)
  from cancel_honoured_by_queue_only [OF 1 4(1) 2 4(2) 3, of demo_service "''w2''"] show ?thesis
    unfolding n by blast
qed

end
