(* ===== verification/Action_Request.thy ===== *)
theory Action_Request
  imports Operation_Store Json
begin

text \<open>
  Action requests: the domain rules of \<open>crates/fleet-core/src/action_request.rs\<close>, the record
  and the transition of \<open>crates/fleet-application/src/broker.rs\<close>, and their repository
  \<open>crates/fleet-storage-sqlite/src/action_requests.rs\<close>, in which every transition is a
  compare-and-set committed with its audit event.
\<close>

section \<open>Risk classes and states\<close>

datatype risk_class = RiskAuto | RiskApprove | RiskDeny

fun risk_id :: "risk_class \<Rightarrow> string" where
  "risk_id RiskAuto = ''auto''"
| "risk_id RiskApprove = ''approve''"
| "risk_id RiskDeny = ''deny''"

definition risk_from_id :: "string \<Rightarrow> string + risk_class" where
  "risk_from_id s =
     (if s = ''auto'' then Inr RiskAuto
      else if s = ''approve'' then Inr RiskApprove
      else if s = ''deny'' then Inr RiskDeny
      else Inl (''unknown risk class '' @ debug_str s @ ''; expected auto, approve, or deny''))"

datatype request_state = ReqPending | ReqApproved | ReqDenied | ReqExpired | ReqExecuting | ReqSucceeded | ReqFailed

definition request_states :: "request_state list" where
  "request_states = [ReqPending, ReqApproved, ReqDenied, ReqExpired, ReqExecuting, ReqSucceeded, ReqFailed]"

fun request_state_id :: "request_state \<Rightarrow> string" where
  "request_state_id ReqPending = ''pending''"
| "request_state_id ReqApproved = ''approved''"
| "request_state_id ReqDenied = ''denied''"
| "request_state_id ReqExpired = ''expired''"
| "request_state_id ReqExecuting = ''executing''"
| "request_state_id ReqSucceeded = ''succeeded''"
| "request_state_id ReqFailed = ''failed''"

definition request_state_from_id :: "string \<Rightarrow> string + request_state" where
  "request_state_from_id s =
     (case find (\<lambda>x. request_state_id x = s) request_states of
        None \<Rightarrow> Inl (''unknown action request state '' @ debug_str s)
      | Some x \<Rightarrow> Inr x)"

definition request_terminal :: "request_state \<Rightarrow> bool" where
  "request_terminal x \<longleftrightarrow> x \<in> {ReqDenied, ReqExpired, ReqSucceeded, ReqFailed}"

definition can_transition_action_request :: "request_state \<Rightarrow> request_state \<Rightarrow> bool" where
  "can_transition_action_request a b =
     (case a of
        ReqPending \<Rightarrow> b \<in> {ReqApproved, ReqDenied, ReqExpired}
      | ReqApproved \<Rightarrow> b \<in> {ReqExecuting, ReqFailed}
      | ReqExecuting \<Rightarrow> b \<in> {ReqSucceeded, ReqFailed}
      | _ \<Rightarrow> False)"

definition action_transition_text :: "request_state \<Rightarrow> request_state \<Rightarrow> string" where
  "action_transition_text a b =
     ''an action request cannot go from '' @ request_state_id a @ '' to '' @ request_state_id b"

definition validate_action_request_transition :: "request_state \<Rightarrow> request_state \<Rightarrow> string + unit" where
  "validate_action_request_transition a b =
     (if can_transition_action_request a b then Inr () else Inl (action_transition_text a b))"

definition action_request_deadline_passed :: "int \<Rightarrow> int \<Rightarrow> bool" where
  "action_request_deadline_passed expires_at now \<longleftrightarrow> now \<ge> expires_at"

section \<open>Requests and transitions\<close>

text \<open>
  A request is stored with its parameters, risk class and state as texts, so the record is
  parametric in these three.
\<close>

record ('p, 'k, 's) stored_request =
  rr_id :: string
  rr_requester :: string
  rr_origin :: string
  rr_action :: string
  rr_target :: string
  rr_parameters :: 'p
  rr_risk :: 'k
  rr_reason :: string
  rr_state :: 's
  rr_decided_by :: "string option"
  rr_decided_at :: "int option"
  rr_note :: "string option"
  rr_operation :: "string option"
  rr_failure :: "string option"
  rr_correlation :: "string option"
  rr_key :: "string option"
  rr_created :: int
  rr_expires :: int
  rr_updated :: int

type_synonym action_request = "(json, risk_class, request_state) stored_request"
type_synonym request_row = "(string, string, string) stored_request"

record transition_update =
  tu_from :: request_state
  tu_to :: request_state
  tu_decided_by :: "string option"
  tu_note :: "string option"
  tu_operation :: "string option"
  tu_failure :: "string option"
  tu_at :: int
  tu_unexpired :: bool

section \<open>The repository\<close>

record req_world = op_world +
  rw_requests :: "request_row list"

type_synonym ('z, 'a) req_act = "('z req_world_scheme, string, 'a) act"

text \<open>Printing and parsing of JSON, and the constraint failure of an insert, are the libraries'.\<close>

record json_text =
  jt_print :: "json \<Rightarrow> string"
  jt_parse :: "string \<Rightarrow> json option"

definition with_fields :: "('p, 'k, 's) stored_request \<Rightarrow> 'q \<Rightarrow> 'l \<Rightarrow> 't \<Rightarrow> ('q, 'l, 't) stored_request" where
  "with_fields r p k st =
     \<lparr>rr_id = rr_id r, rr_requester = rr_requester r, rr_origin = rr_origin r, rr_action = rr_action r,
      rr_target = rr_target r, rr_parameters = p, rr_risk = k, rr_reason = rr_reason r, rr_state = st,
      rr_decided_by = rr_decided_by r, rr_decided_at = rr_decided_at r, rr_note = rr_note r,
      rr_operation = rr_operation r, rr_failure = rr_failure r, rr_correlation = rr_correlation r,
      rr_key = rr_key r, rr_created = rr_created r, rr_expires = rr_expires r, rr_updated = rr_updated r\<rparr>"

definition request_to_row :: "json_text \<Rightarrow> action_request \<Rightarrow> request_row" where
  "request_to_row jt r =
     with_fields r (jt_print jt (rr_parameters r)) (risk_id (rr_risk r)) (request_state_id (rr_state r))"

definition row_to_request :: "json_text \<Rightarrow> request_row \<Rightarrow> string + action_request" where
  "row_to_request jt row =
     (case jt_parse jt (rr_parameters row) of
        None \<Rightarrow> Inl ''an action request's parameters are not JSON''
      | Some p \<Rightarrow>
          check_then (risk_from_id (rr_risk row)) (\<lambda>k.
          check_then (request_state_from_id (rr_state row)) (\<lambda>st.
          Inr (with_fields row p k st))))"

definition req_statement :: "string \<Rightarrow> ('z, unit) req_act" where
  "req_statement context = map_err (\<lambda>d. context @ '' failed: '' @ d) external"

definition undo_requests :: "'z req_world_scheme \<Rightarrow> 'z req_world_scheme \<Rightarrow> 'z req_world_scheme" where
  "undo_requests s t = t\<lparr>rw_requests := rw_requests s, w_ledger := w_ledger s\<rparr>"

text \<open>The primary key, and the unique index on requester and idempotency key.\<close>

definition request_violation :: "request_row list \<Rightarrow> request_row \<Rightarrow> bool" where
  "request_violation rows row \<longleftrightarrow>
     list_ex (\<lambda>r. rr_id r = rr_id row \<or>
       (rr_key row \<noteq> None \<and> rr_requester r = rr_requester row \<and> rr_key r = rr_key row)) rows"

definition req_insert :: "json_text \<Rightarrow> action_request \<Rightarrow> audit_intent \<Rightarrow> ('z, unit) req_act" where
  "req_insert jt r audit = atomically undo_requests
     (andthen (req_statement ''action request insert'') (\<lambda>_.
      andthen (req_statement ''action request insert'') (\<lambda>_.
      andthen (asks (\<lambda>s. request_violation (rw_requests s) (request_to_row jt r))) (\<lambda>violated.
      if violated then fail ''action request insert failed: UNIQUE constraint failed''
      else
      andthen (modify (\<lambda>s. s\<lparr>rw_requests := rw_requests s @ [request_to_row jt r]\<rparr>)) (\<lambda>_.
      andthen (append_intent_tx audit) (\<lambda>_.
      req_statement ''action request insert''))))))"

definition req_record_audit :: "audit_intent \<Rightarrow> ('z, unit) req_act" where
  "req_record_audit audit = atomically undo_requests
     (andthen (req_statement ''action request audit'') (\<lambda>_.
      andthen (append_intent_tx audit) (\<lambda>_.
      req_statement ''action request audit'')))"

definition read_request :: "json_text \<Rightarrow> (request_row \<Rightarrow> bool) \<Rightarrow> ('z, action_request option) req_act" where
  "read_request jt P =
     andthen (req_statement ''action request read'') (\<lambda>_.
     andthen (asks (\<lambda>s. find P (rw_requests s))) (\<lambda>found.
     case found of
       None \<Rightarrow> ret None
     | Some row \<Rightarrow> andthen (lift (row_to_request jt row)) (\<lambda>r. ret (Some r))))"

definition req_find_by_idempotency :: "json_text \<Rightarrow> string \<Rightarrow> string \<Rightarrow> ('z, action_request option) req_act" where
  "req_find_by_idempotency jt requester key =
     read_request jt (\<lambda>r. rr_requester r = requester \<and> rr_key r = Some key)"

definition req_get :: "json_text \<Rightarrow> string \<Rightarrow> ('z, action_request option) req_act" where
  "req_get jt i = read_request jt (\<lambda>r. rr_id r = i)"

definition u32_clip :: "nat \<Rightarrow> nat" where "u32_clip n = min n (2 ^ 32 - 1)"

definition counts :: "string \<Rightarrow> string \<Rightarrow> string option \<Rightarrow> int \<Rightarrow> request_state \<Rightarrow> request_row \<Rightarrow> bool" where
  "counts requester action except_request now st r \<longleftrightarrow>
     rr_requester r = requester \<and> rr_action r = action \<and> rr_state r = request_state_id st \<and>
     rr_id r \<noteq> (case except_request of None \<Rightarrow> [] | Some i \<Rightarrow> i) \<and>
     (rr_state r \<noteq> ''pending'' \<or> rr_expires r > now)"

fun count_states :: "string \<Rightarrow> string \<Rightarrow> string option \<Rightarrow> int \<Rightarrow> request_state list \<Rightarrow> ('z, nat) req_act" where
  "count_states requester action except_request now [] = ret 0"
| "count_states requester action except_request now (st # sts) =
     andthen (req_statement ''action request count'') (\<lambda>_.
     andthen (asks (\<lambda>s. length (filter (counts requester action except_request now st) (rw_requests s)))) (\<lambda>n.
     andthen (count_states requester action except_request now sts) (\<lambda>m. ret (n + m))))"

definition req_count_for :: "string \<Rightarrow> string \<Rightarrow> request_state list \<Rightarrow> string option \<Rightarrow> ('z, nat) req_act" where
  "req_count_for requester action states except_request =
     andthen (asks w_now) (\<lambda>now.
     andthen (count_states requester action except_request now states) (\<lambda>n. ret (u32_clip n)))"

fun rows_to_requests :: "json_text \<Rightarrow> request_row list \<Rightarrow> string + action_request list" where
  "rows_to_requests jt [] = Inr []"
| "rows_to_requests jt (r # rs) =
     check_then (row_to_request jt r) (\<lambda>x. check_then (rows_to_requests jt rs) (\<lambda>xs. Inr (x # xs)))"

definition req_list :: "json_text \<Rightarrow> request_state option \<Rightarrow> nat \<Rightarrow> ('z, action_request list) req_act" where
  "req_list jt st limit =
     andthen (req_statement ''action request list'') (\<lambda>_.
     andthen (asks (\<lambda>s. take limit (rev (sort_key (\<lambda>r. (rr_created r, rr_id r))
        (filter (\<lambda>r. opt_all (\<lambda>x. rr_state r = request_state_id x) st) (rw_requests s)))))) (\<lambda>rows.
     lift (rows_to_requests jt rows)))"

definition coalesce :: "'a option \<Rightarrow> 'a option \<Rightarrow> 'a option" where
  "coalesce a b = (case a of None \<Rightarrow> b | Some x \<Rightarrow> Some x)"

definition apply_update :: "transition_update \<Rightarrow> request_row \<Rightarrow> request_row" where
  "apply_update u r =
     r\<lparr>rr_state := request_state_id (tu_to u),
       rr_decided_by := coalesce (tu_decided_by u) (rr_decided_by r),
       rr_decided_at := (if tu_decided_by u = None then rr_decided_at r else Some (tu_at u)),
       rr_note := coalesce (tu_note u) (rr_note r),
       rr_operation := coalesce (tu_operation u) (rr_operation r),
       rr_failure := coalesce (tu_failure u) (rr_failure r),
       rr_updated := tu_at u\<rparr>"

definition update_applies :: "string \<Rightarrow> transition_update \<Rightarrow> request_row \<Rightarrow> bool" where
  "update_applies i u r \<longleftrightarrow>
     rr_id r = i \<and> rr_state r = request_state_id (tu_from u) \<and> (tu_unexpired u \<longrightarrow> rr_expires r > tu_at u)"

text \<open>
  Where the update does not change exactly one row the transaction is rolled back, so the
  update is written only where it is kept.
\<close>

definition req_transition ::
    "json_text \<Rightarrow> string \<Rightarrow> transition_update \<Rightarrow> audit_intent \<Rightarrow> ('z, action_request option) req_act" where
  "req_transition jt i u audit =
     andthen (lift (validate_action_request_transition (tu_from u) (tu_to u))) (\<lambda>_.
     atomically undo_requests
       (andthen (req_statement ''action request transition'') (\<lambda>_.
        andthen (req_statement ''action request transition'') (\<lambda>_.
        andthen (asks (\<lambda>s. length (filter (update_applies i u) (rw_requests s)))) (\<lambda>n.
        if n \<noteq> 1 then andthen (req_statement ''action request transition'') (\<lambda>_. ret None)
        else
          andthen (modify (\<lambda>s. s\<lparr>rw_requests :=
            map (\<lambda>r. if update_applies i u r then apply_update u r else r) (rw_requests s)\<rparr>)) (\<lambda>_.
          andthen (append_intent_tx audit) (\<lambda>_.
          andthen (req_statement ''action request transition'') (\<lambda>_.
          andthen (asks (\<lambda>s. find (\<lambda>r. rr_id r = i) (rw_requests s))) (\<lambda>found.
          case found of
            None \<Rightarrow> fail ''action request transition failed: no rows returned''
          | Some row \<Rightarrow>
              andthen (lift (row_to_request jt row)) (\<lambda>updated.
              andthen (req_statement ''action request transition'') (\<lambda>_.
              ret (Some updated))))))))))))"

section \<open>The tables behind it\<close>

interpretation risks: text_ids risk_id "[RiskAuto, RiskApprove, RiskDeny]"
proof unfold_locales
  fix x :: risk_class
  show "x \<in> set [RiskAuto, RiskApprove, RiskDeny]" by (cases x) simp_all
  show "distinct (map risk_id [RiskAuto, RiskApprove, RiskDeny])" by simp
qed

definition request_state_of :: "string \<Rightarrow> request_state option" where
  "request_state_of t = (case request_state_from_id t of Inl _ \<Rightarrow> None | Inr x \<Rightarrow> Some x)"

interpretation request_ids: text_enum request_state_id request_states request_state_of
proof unfold_locales
  fix x :: request_state and t
  show "x \<in> set request_states" by (cases x) (simp_all add: request_states_def)
  show "distinct (map request_state_id request_states)" by (simp add: request_states_def)
  show "request_state_of (request_state_id x) = Some x"
    by (cases x) (simp_all add: request_state_of_def request_state_from_id_def request_states_def)
  show "request_state_of t = Some x \<Longrightarrow> t = request_state_id x"
    by (auto simp: request_state_of_def request_state_from_id_def find_Some_iff split: sum.splits option.splits)
qed

fun request_rank :: "request_state \<Rightarrow> nat" where
  "request_rank ReqPending = 3"
| "request_rank ReqApproved = 2"
| "request_rank ReqExecuting = 1"
| "request_rank _ = 0"

interpretation request_cycle: lifecycle can_transition_action_request request_terminal request_rank
proof unfold_locales
  fix a b :: request_state
  show "request_terminal a \<Longrightarrow> \<not> can_transition_action_request a b"
    by (cases a) (simp_all add: request_terminal_def can_transition_action_request_def)
  show "\<not> request_terminal a \<Longrightarrow> \<exists>b. can_transition_action_request a b"
    by (cases a) (auto simp: request_terminal_def can_transition_action_request_def)
  show "can_transition_action_request a b \<Longrightarrow> request_rank b < request_rank a"
    by (cases a; cases b) (simp_all add: can_transition_action_request_def)
qed

lemma validate_request_Inr [simp]:
  "validate_action_request_transition a b = Inr u \<longleftrightarrow> can_transition_action_request a b"
  by (simp add: validate_action_request_transition_def)

lemma risk_from_id_risk_id [simp]: "risk_from_id (risk_id k) = Inr k"
  by (cases k) (simp_all add: risk_from_id_def)

lemma request_state_from_id_id [simp]: "request_state_from_id (request_state_id x) = Inr x"
  using request_ids.roundtrip [of x] by (simp add: request_state_of_def split: sum.splits)

lemma request_state_from_id_Inr: "request_state_from_id t = Inr x \<longleftrightarrow> t = request_state_id x"
  using request_ids.of_text_iff [of t x] by (simp add: request_state_of_def split: sum.splits)

text \<open>A statement alone touches neither the requests nor the ledger.\<close>

definition tables_same :: "'z req_world_scheme \<Rightarrow> 'z req_world_scheme \<Rightarrow> bool" where
  "tables_same s t \<longleftrightarrow> rw_requests t = rw_requests s \<and> w_ledger t = w_ledger s \<and>
     ow_rows t = ow_rows s \<and> w_now t = w_now s"

interpretation tables: effect_relation "tables_same :: 'z req_world_scheme \<Rightarrow> 'z req_world_scheme \<Rightarrow> bool"
  by unfold_locales (auto simp: tables_same_def)

lemma more_requests: "world.more t = world.more s \<Longrightarrow> rw_requests t = rw_requests s \<and> ow_rows t = ow_rows s"
  by (cases s; cases t) simp

lemma external_tables: "within tables_same external"
  by (auto simp: within_def tables_same_def external_def split: list.splits option.splits)

lemma req_statement_tables: "within tables_same (req_statement c)"
  unfolding req_statement_def by (rule tables.map_err, rule external_tables)

lemma read_request_tables: "within tables_same (read_request jt P)"
  unfolding read_request_def by (intro tables.intros req_statement_tables)

lemma count_states_tables: "within tables_same (count_states requester action except_request now sts)"
  by (induction sts) (auto intro: tables.intros req_statement_tables)

lemma reading_tables:
  "within tables_same (req_get jt i)"
  "within tables_same (req_find_by_idempotency jt requester key)"
  "within tables_same (req_list jt st limit)"
  "within tables_same (req_count_for requester action states except_request)"
  unfolding req_get_def req_find_by_idempotency_def req_list_def req_count_for_def
  by (intro tables.intros read_request_tables req_statement_tables count_states_tables)+

lemma append_intent_tx_req:
  "append_intent_tx a s = (Inr x, t) \<Longrightarrow>
   rw_requests t = rw_requests s \<and> ow_rows t = ow_rows s \<and> w_now t = w_now s \<and>
   (\<exists>eid. w_ledger t = w_ledger s @ [intent_event a (next_seq (w_ledger s)) eid (w_now s)])"
  by (auto simp: append_intent_tx_def act_Inr fresh_uuid_def external_def split: list.splits option.splits)

text \<open>
  Every write is one transaction: it commits its change together with exactly one audit
  event, or leaves both tables as they were.
\<close>

lemma req_transition_atomic:
  assumes "req_transition jt i u audit s = (r, t)"
  shows "case r of
      Inr (Some x) \<Rightarrow>
        can_transition_action_request (tu_from u) (tu_to u) \<and>
        length (filter (update_applies i u) (rw_requests s)) = 1 \<and>
        rw_requests t = map (\<lambda>r. if update_applies i u r then apply_update u r else r) (rw_requests s) \<and>
        (\<exists>row. find (\<lambda>r. rr_id r = i) (rw_requests t) = Some row \<and> row_to_request jt row = Inr x) \<and>
        (\<exists>eid. w_ledger t = w_ledger s @ [intent_event audit (next_seq (w_ledger s)) eid (w_now s)])
    | _ \<Rightarrow> rw_requests t = rw_requests s \<and> w_ledger t = w_ledger s"
proof (cases r)
  case (Inl e)
  with assms show ?thesis
    by (auto simp: req_transition_def atomically_def undo_requests_def split: sum.splits prod.splits)
next
  case (Inr y)
  note st = withinD [OF req_statement_tables, unfolded tables_same_def]
  from assms Inr show ?thesis
    by (auto simp: req_transition_def atomically_Inr act_Inr split: sum.splits if_splits
        dest!: st append_intent_tx_req)
qed

lemma req_insert_atomic:
  assumes "req_insert jt x audit s = (r, t)"
  shows "case r of
      Inr _ \<Rightarrow> \<not> request_violation (rw_requests s) (request_to_row jt x) \<and>
        rw_requests t = rw_requests s @ [request_to_row jt x] \<and>
        (\<exists>eid. w_ledger t = w_ledger s @ [intent_event audit (next_seq (w_ledger s)) eid (w_now s)])
    | Inl _ \<Rightarrow> rw_requests t = rw_requests s \<and> w_ledger t = w_ledger s"
proof (cases r)
  case (Inl e)
  with assms show ?thesis
    by (auto simp: req_insert_def atomically_def undo_requests_def split: sum.splits prod.splits)
next
  case (Inr y)
  note st = withinD [OF req_statement_tables, unfolded tables_same_def]
  from assms Inr show ?thesis
    by (auto simp: req_insert_def atomically_Inr act_Inr split: sum.splits if_splits
        dest!: st append_intent_tx_req)
qed

lemma req_record_audit_atomic:
  assumes "req_record_audit audit s = (r, t)"
  shows "rw_requests t = rw_requests s \<and>
    (isl r \<or> (\<exists>eid. w_ledger t = w_ledger s @ [intent_event audit (next_seq (w_ledger s)) eid (w_now s)]))"
proof (cases r)
  case (Inl e)
  with assms show ?thesis
    by (auto simp: req_record_audit_def atomically_def undo_requests_def split: sum.splits prod.splits)
next
  case (Inr y)
  note st = withinD [OF req_statement_tables, unfolded tables_same_def]
  from assms Inr show ?thesis
    by (auto simp: req_record_audit_def atomically_Inr act_Inr dest!: st append_intent_tx_req)
qed

section \<open>Compare-and-set\<close>

lemma find_request_unique:
  "distinct (map rr_id rows) \<Longrightarrow> r \<in> set rows \<Longrightarrow> find (\<lambda>x. rr_id x = rr_id r) rows = Some r"
  by (induction rows) auto

lemma find_request_map:
  "(\<And>r. rr_id (f r) = rr_id r) \<Longrightarrow>
   find (\<lambda>x. rr_id x = i) (map f rows) = map_option f (find (\<lambda>x. rr_id x = i) rows)"
  by (induction rows) auto

definition request_state_at :: "'z req_world_scheme \<Rightarrow> string \<Rightarrow> string option" where
  "request_state_at s i = map_option rr_state (find (\<lambda>r. rr_id r = i) (rw_requests s))"

definition request_ids_unique :: "'z req_world_scheme \<Rightarrow> bool" where
  "request_ids_unique s \<longleftrightarrow> distinct (map rr_id (rw_requests s))"

definition decision_cas ::
    "json_text \<Rightarrow> string \<Rightarrow> transition_update \<times> audit_intent \<Rightarrow> 'z req_world_scheme \<Rightarrow> bool \<times> 'z req_world_scheme" where
  "decision_cas jt i ua s =
     (case req_transition jt i (fst ua) (snd ua) s of
        (Inr (Some _), t) \<Rightarrow> (True, t) | (_, t) \<Rightarrow> (False, t))"

lemma apply_update_id [simp]: "rr_id (apply_update u r) = rr_id r"
  by (simp add: apply_update_def)

lemma decision_cas_cases:
  "decision_cas jt i ua s = (b, t) \<Longrightarrow>
     (b \<longrightarrow> can_transition_action_request (tu_from (fst ua)) (tu_to (fst ua)) \<and>
        filter (update_applies i (fst ua)) (rw_requests s) \<noteq> [] \<and>
        rw_requests t = map (\<lambda>r. if update_applies i (fst ua) r then apply_update (fst ua) r else r) (rw_requests s) \<and>
        length (w_ledger t) = Suc (length (w_ledger s))) \<and>
     (\<not> b \<longrightarrow> rw_requests t = rw_requests s \<and> w_ledger t = w_ledger s)"
  using req_transition_atomic [of jt i "fst ua" "snd ua" s]
  by (cases "req_transition jt i (fst ua) (snd ua) s")
     (auto simp: decision_cas_def split: sum.splits option.splits)

interpretation decisions: compare_and_set request_ids_unique request_state_at "decision_cas jt"
    "\<lambda>ua. request_state_id (tu_from (fst ua))" "\<lambda>ua. request_state_id (tu_to (fst ua))"
  for jt :: json_text
proof unfold_locales
  fix w w' :: "'z req_world_scheme" and k and ua :: "transition_update \<times> audit_intent"
  assume ok: "request_ids_unique w"
  let ?P = "update_applies k (fst ua)"
  let ?g = "\<lambda>r. if ?P r then apply_update (fst ua) r else r"
  have ids: "map rr_id (map ?g rows) = map rr_id rows" for rows by simp
  obtain b t where c: "decision_cas jt k ua w = (b, t)" by fastforce
  note cases = decision_cas_cases [OF c]
  have "rw_requests t = rw_requests w \<or> rw_requests t = map ?g (rw_requests w)" using cases by blast
  then have "map rr_id (rw_requests t) = map rr_id (rw_requests w)" using ids by (elim disjE) simp_all
  with c ok show "request_ids_unique (snd (decision_cas jt k ua w))"
    by (simp add: request_ids_unique_def)
  show "decision_cas jt k ua w = (True, w') \<Longrightarrow>
      request_state_at w k = Some (request_state_id (tu_from (fst ua))) \<and>
      request_state_at w' k = Some (request_state_id (tu_to (fst ua)))"
  proof -
    assume "decision_cas jt k ua w = (True, w')"
    with c cases have n: "filter ?P (rw_requests w) \<noteq> []" "rw_requests w' = map ?g (rw_requests w)" by auto
    from n(1) obtain r where r: "r \<in> set (rw_requests w)" "?P r" by (auto simp: filter_empty_conv)
    from r(2) have k: "rr_id r = k" "rr_state r = request_state_id (tu_from (fst ua))"
      by (auto simp: update_applies_def)
    have "find (\<lambda>x. rr_id x = k) (rw_requests w) = Some r"
      using find_request_unique [of "rw_requests w" r] ok r(1) k(1) by (simp add: request_ids_unique_def)
    moreover from this have "find (\<lambda>x. rr_id x = k) (rw_requests w') = Some (?g r)"
      unfolding n(2) by (subst find_request_map) auto
    ultimately show ?thesis using r(2) k by (simp add: request_state_at_def apply_update_def)
  qed
  show "decision_cas jt k ua w = (False, w') \<Longrightarrow> request_state_at w' k = request_state_at w k"
    using c cases by (auto simp: request_state_at_def)
qed

lemma decisions_audited:
  "length (w_ledger (snd (cas_run (decision_cas jt) i uas w))) =
   length (w_ledger w) + winners (fst (cas_run (decision_cas jt) i uas w))"
proof (induction uas arbitrary: w)
  case Nil
  then show ?case by (simp add: winners_def)
next
  case (Cons ua uas)
  obtain b t where c: "decision_cas jt i ua w = (b, t)" by fastforce
  from Cons [of t] decision_cas_cases [OF c] show ?case
    by (auto simp: c winners_def split: prod.splits)
qed

section \<open>Properties\<close>

text \<open>
  A stored request reads back as the request that was stored, when the JSON printer's
  output parses back.
\<close>
theorem stored_request_roundtrip:
  assumes "jt_parse jt (jt_print jt (rr_parameters r)) = Some (rr_parameters r)"
  shows "row_to_request jt (request_to_row jt r) = Inr r"
  using assms by (simp add: row_to_request_def request_to_row_def with_fields_def check_then_def)

text \<open>
  Decisions exclude one another: of any number of competing transitions out of the same
  state of a request, each of them failing or not, at most one is committed, and the ledger
  gains exactly one event for it and none for the losers.
\<close>
theorem decision_exclusive:
  assumes "distinct (map rr_id (rw_requests w))"
    and "\<forall>ua \<in> set uas. tu_from (fst ua) = st \<and> tu_to (fst ua) \<noteq> st"
    and "cas_run (decision_cas jt) i uas w = (wins, w')"
  shows "winners wins \<le> 1 \<and> length (w_ledger w') = length (w_ledger w) + winners wins"
proof -
  have "\<forall>ua \<in> set uas. request_state_id (tu_from (fst ua)) = request_state_id st \<and>
      request_state_id (tu_to (fst ua)) \<noteq> request_state_id st"
    using assms(2) by (auto simp: request_ids.text_of_eq)
  moreover have "request_ids_unique w" using assms(1) by (simp add: request_ids_unique_def)
  ultimately show ?thesis
    using decisions.at_most_one [of w uas "request_state_id st" jt i] decisions_audited [of jt i uas w] assms(3)
    by simp
qed

section \<open>Witnesses\<close>

definition demo_json :: json_text where
  "demo_json = \<lparr>jt_print = (\<lambda>_. ''{}''), jt_parse = (\<lambda>_. Some (JObject []))\<rparr>"

definition demo_stored_row :: request_row where
  "demo_stored_row = \<lparr>rr_id = ''r1'', rr_requester = ''agent'', rr_origin = ''api'', rr_action = ''demo.run'',
     rr_target = ''zone'', rr_parameters = ''{}'', rr_risk = ''approve'', rr_reason = ''why'', rr_state = ''pending'',
     rr_decided_by = None, rr_decided_at = None, rr_note = None, rr_operation = None, rr_failure = None,
     rr_correlation = None, rr_key = None, rr_created = 1, rr_expires = 100, rr_updated = 1\<rparr>"

definition demo_requests :: req_world where
  "demo_requests = \<lparr>w_now = 10, w_faults = [None, Some ''busy''], w_uuid = (\<lambda>n. replicate (Suc n) CHR ''u''),
     w_uuid_no = 0, w_ledger = [], w_pending_since = 0, ow_rows = [], ow_hub = hub_new ''e'' 8,
     rw_requests = [demo_stored_row]\<rparr>"

definition demo_decision :: "request_state \<Rightarrow> string \<Rightarrow> transition_update \<times> audit_intent" where
  "demo_decision st who =
     (\<lparr>tu_from = ReqPending, tu_to = st, tu_decided_by = Some who, tu_note = None, tu_operation = None,
       tu_failure = None, tu_at = 10, tu_unexpired = True\<rparr>,
      \<lparr>ai_actor = who, ai_action = ''action.approve'', ai_resource = Some ''r1'', ai_decision = decision_allow,
       ai_correlation = None, ai_operation = None, ai_metadata = []\<rparr>)"

theorem stored_request_roundtrip_witness:
  "row_to_request demo_json (request_to_row demo_json (with_fields demo_stored_row (JObject []) RiskAuto ReqApproved)) =
     Inr (with_fields demo_stored_row (JObject []) RiskAuto ReqApproved)"
  by (rule stored_request_roundtrip) (simp add: demo_json_def with_fields_def)

theorem decision_exclusive_witness:
  "\<exists>wins w'. cas_run (decision_cas demo_json) ''r1''
      [demo_decision ReqApproved ''alice'', demo_decision ReqDenied ''bob'', demo_decision ReqApproved ''carol''] demo_requests
    = (wins, w') \<and> winners wins \<le> 1 \<and> length (w_ledger w') = winners wins"
proof -
  let ?us = "[demo_decision ReqApproved ''alice'', demo_decision ReqDenied ''bob'', demo_decision ReqApproved ''carol'']"
  obtain wins w' where c: "cas_run (decision_cas demo_json) ''r1'' ?us demo_requests = (wins, w')" by fastforce
  have "winners wins \<le> 1 \<and> length (w_ledger w') = length (w_ledger demo_requests) + winners wins"
    by (rule decision_exclusive [OF _ _ c, of ReqPending]) (simp_all add: demo_requests_def demo_decision_def)
  with c show ?thesis by (auto simp: demo_requests_def)
qed

end
