(* ===== verification/Broker_Policy.thy ===== *)
theory Broker_Policy
  imports Action_Request Operation_Admission
begin

text \<open>
  What the action broker of \<open>crates/fleet-application/src/broker.rs\<close> decides without the
  store: the provider actions and their registry, the operator's settings, the checks of a
  request's texts, and the search for credentials in its parameters.

  The masking rules of \<open>redact_credentials\<close> and \<open>redact_json_strings\<close> are parameters.
\<close>

section \<open>Provider actions\<close>

datatype bounds = BoundsUnconfigured | BoundsWithin | BoundsOutside

type_synonym 'z auto_guard = "string \<Rightarrow> json \<Rightarrow> string option \<Rightarrow> ('z, bounds) req_act"

record 'z provider_action =
  pa_id :: string
  pa_kind :: string
  pa_risk :: risk_class
  pa_validate :: "string \<Rightarrow> json \<Rightarrow> string + unit"
  pa_comparable :: "json \<Rightarrow> json"
  pa_operation :: "action_request \<Rightarrow> string + new_operation"
  pa_guard :: "'z auto_guard option"
  pa_approver :: "permission option"

definition max_parameters_bytes :: nat where "max_parameters_bytes = 8 * 1024"
definition max_target_len :: nat where "max_target_len = 256"
definition max_reason_len :: nat where "max_reason_len = 1000"
definition max_action_id_len :: nat where "max_action_id_len = 96"
definition max_request_key_len :: nat where "max_request_key_len = 128"
definition max_origin_len :: nat where "max_origin_len = 64"
definition max_parameter_depth :: nat where "max_parameter_depth = 6"
definition max_list_limit :: nat where "max_list_limit = 200"
definition approved_stuck_grace_millis :: int where "approved_stuck_grace_millis = 60000"

definition system_actor :: string where "system_actor = ''system:action-broker''"
definition policy_auto :: string where "policy_auto = ''policy:auto''"
definition policy_deny :: string where "policy_deny = ''policy:deny''"

definition valid_action_id :: "string \<Rightarrow> bool" where
  "valid_action_id i \<longleftrightarrow>
     i \<noteq> [] \<and> length i \<le> max_action_id_len \<and> is_ascii_lower (hd i) \<and>
     list_all (\<lambda>c. is_ascii_lower c \<or> is_ascii_digit c \<or> c \<in> set ''.-_'') i"

text \<open>The registry, a \<open>BTreeMap\<close>: an association list with distinct keys.\<close>

type_synonym 'z registry = "(string \<times> 'z provider_action) list"

definition register :: "'z provider_action \<Rightarrow> 'z registry \<Rightarrow> string + 'z registry" where
  "register action reg =
     (if \<not> valid_action_id (pa_id action) then Inl (debug_str (pa_id action) @ '' is not a valid action id'')
      else if map_of reg (pa_id action) \<noteq> None then Inl (''action '' @ pa_id action @ '' is already registered'')
      else Inr ((pa_id action, action) # reg))"

definition registered_kinds :: "'z registry \<Rightarrow> string set" where
  "registered_kinds reg = set (map (pa_kind \<circ> snd) reg)"

section \<open>Settings\<close>

definition default_request_ttl_seconds :: nat where "default_request_ttl_seconds = 24 * 60 * 60"
definition min_request_ttl_seconds :: nat where "min_request_ttl_seconds = 60"
definition max_request_ttl_seconds :: nat where "max_request_ttl_seconds = 7 * 24 * 60 * 60"
definition request_ttl_var :: string where "request_ttl_var = ''FLEET_ACTION_REQUEST_TTL_SECONDS''"
definition policy_var :: string where "policy_var = ''FLEET_ACTION_POLICY''"

record broker_settings =
  bs_ttl :: int
  bs_overrides :: "(string \<times> risk_class) list"

definition settings_new :: "nat \<Rightarrow> (string \<times> risk_class) list \<Rightarrow> string + broker_settings" where
  "settings_new seconds overrides =
     (if seconds < min_request_ttl_seconds \<or> max_request_ttl_seconds < seconds
      then Inl (''the request lifetime must be '' @ decimal min_request_ttl_seconds @ ''..='' @
                decimal max_request_ttl_seconds @ '' seconds'')
      else if int (seconds * 1000) > i64_max then Inl ''the request lifetime is out of range''
      else Inr \<lparr>bs_ttl = int (seconds * 1000), bs_overrides = overrides\<rparr>)"

definition ttl_value :: "string option \<Rightarrow> string + nat" where
  "ttl_value ttl =
     (case Option.bind ttl (\<lambda>t. if text_trim t = [] then None else Some (text_trim t)) of
        None \<Rightarrow> Inr default_request_ttl_seconds
      | Some t \<Rightarrow> (case parse_u64 t of
           None \<Rightarrow> Inl (request_ttl_var @ '' must be a number of seconds'') | Some n \<Rightarrow> Inr n))"

text \<open>One entry of the policy variable, added to the overrides read before it.\<close>

definition override_entry :: "string \<Rightarrow> (string \<times> risk_class) list \<Rightarrow> string + (string \<times> risk_class) list" where
  "override_entry pair overrides =
     (case split_once CHR ''='' pair of
        None \<Rightarrow> Inl (policy_var @ '' entry '' @ debug_str pair @ '' must be action.id=class'')
      | Some (a, c) \<Rightarrow>
          let action = text_trim a in
          if \<not> valid_action_id action
          then Inl (policy_var @ '' names an invalid action id '' @ debug_str action)
          else (case risk_from_id (text_trim c) of
                  Inl detail \<Rightarrow> Inl (policy_var @ '': '' @ detail)
                | Inr risk \<Rightarrow>
                    if map_of overrides action \<noteq> None then Inl (policy_var @ '' names '' @ action @ '' twice'')
                    else Inr ((action, risk) # overrides)))"

fun override_entries :: "string list \<Rightarrow> (string \<times> risk_class) list \<Rightarrow> string + (string \<times> risk_class) list" where
  "override_entries [] overrides = Inr overrides"
| "override_entries (p # ps) overrides = check_then (override_entry p overrides) (override_entries ps)"

definition settings_from_env :: "string option \<Rightarrow> string option \<Rightarrow> string + broker_settings" where
  "settings_from_env ttl policy =
     check_then (ttl_value ttl) (\<lambda>seconds.
     check_then (override_entries
         (filter (\<lambda>p. p \<noteq> []) (map text_trim (split_on CHR '','' (case policy of None \<Rightarrow> [] | Some t \<Rightarrow> t)))) [])
       (\<lambda>overrides.
     case settings_new seconds overrides of
       Inl detail \<Rightarrow> Inl (request_ttl_var @ '': '' @ detail) | Inr st \<Rightarrow> Inr st))"

definition effective_risk :: "broker_settings \<Rightarrow> 'z provider_action \<Rightarrow> risk_class" where
  "effective_risk st action =
     (case map_of (bs_overrides st) (pa_id action) of None \<Rightarrow> pa_risk action | Some k \<Rightarrow> k)"

definition has_override :: "broker_settings \<Rightarrow> string \<Rightarrow> bool" where
  "has_override st i \<longleftrightarrow> map_of (bs_overrides st) i \<noteq> None"

section \<open>Errors\<close>

datatype broker_error =
    BrDenied decision
  | BrInvalid string
  | BrNotFound string
  | BrConflict request_state string
  | BrPolicyDenied string
  | BrBackend string string

definition broker_error_text :: "broker_error \<Rightarrow> string" where
  "broker_error_text e =
     (case e of
        BrDenied d \<Rightarrow> ''denied: '' @ decision_text d
      | BrInvalid detail \<Rightarrow> ''invalid: '' @ detail
      | BrNotFound what \<Rightarrow> what @ '' was not found''
      | BrConflict st detail \<Rightarrow> ''the request is '' @ request_state_id st @ '': '' @ detail
      | BrPolicyDenied action \<Rightarrow> ''policy denies the action '' @ action
      | BrBackend context detail \<Rightarrow> context @ '' failed: '' @ detail)"

section \<open>Texts\<close>

record masking =
  mk_text :: "string \<Rightarrow> string"
  mk_json :: "json \<Rightarrow> json"
  mk_failure :: "string \<Rightarrow> string"

definition validate_idempotency_key :: "string option \<Rightarrow> broker_error + unit" where
  "validate_idempotency_key key =
     (case key of
        None \<Rightarrow> Inr ()
      | Some k \<Rightarrow>
          refuse_when (k = [] \<or> length k > max_request_key_len \<or> \<not> list_all is_ascii_graphic k)
            (BrInvalid (''the idempotency key must be 1 to '' @ decimal max_request_key_len @
                        '' printable ASCII characters'')))"

definition without_newlines :: "bool \<Rightarrow> string \<Rightarrow> string" where
  "without_newlines allow_newline t = (if allow_newline then filter (\<lambda>c. c \<noteq> CHR 0x0A) t else t)"

definition validate_text :: "masking \<Rightarrow> string \<Rightarrow> string \<Rightarrow> nat \<Rightarrow> bool \<Rightarrow> broker_error + unit" where
  "validate_text mk name t max_len allow_newline =
     first_error
       [refuse_when (list_all is_whitespace (scalars t)) (BrInvalid (''the '' @ name @ '' must not be empty'')),
        refuse_when (char_count t > max_len)
          (BrInvalid (''the '' @ name @ '' must be at most '' @ decimal max_len @ '' characters'')),
        refuse_when (has_control (without_newlines allow_newline t))
          (BrInvalid (''the '' @ name @ '' must not contain control characters'')),
        refuse_when (mk_text mk t \<noteq> t)
          (BrInvalid (''the '' @ name @ '' looks like it contains a credential; Fleet holds credentials, requests never carry them''))]"

section \<open>Parameters\<close>

fun parameter_depth :: "json \<Rightarrow> nat" where
  "parameter_depth (JObject m) = 1 + foldr (\<lambda>(k, v). max (parameter_depth v)) m 0"
| "parameter_depth (JArray xs) = 1 + foldr (\<lambda>v. max (parameter_depth v)) xs 0"
| "parameter_depth _ = 0"

fun has_secret_shape :: "(string \<Rightarrow> string) \<Rightarrow> json \<Rightarrow> bool" where
  "has_secret_shape hide (JObject m) \<longleftrightarrow>
     list_ex (\<lambda>(k, v).
       hide (k @ ''=fakevalue1234'') \<noteq> k @ ''=fakevalue1234'' \<or>
       (case v of
          JString t \<Rightarrow> hide (k @ ''='' @ t) \<noteq> k @ ''='' @ t
        | _ \<Rightarrow> has_secret_shape hide v)) m"
| "has_secret_shape hide (JArray xs) \<longleftrightarrow> list_ex (has_secret_shape hide) xs"
| "has_secret_shape hide _ \<longleftrightarrow> False"

text \<open>
  A well-formed \<open>mailto:local@domain\<close> holds no credential: the rules run on a probe in
  which its two separators are spaces. The loop reads the text one scalar value at a time.
\<close>

definition valid_mail_address :: "string \<Rightarrow> bool" where
  "valid_mail_address address \<longleftrightarrow>
     (case split_once CHR ''@'' address of
        None \<Rightarrow> False
      | Some (local_part, domain) \<Rightarrow>
          local_part \<noteq> [] \<and> domain \<noteq> [] \<and> CHR ''@'' \<notin> set domain \<and>
          list_all (\<lambda>c. is_ascii_alnum c \<or> c \<in> set ''._%+-'') local_part \<and>
          list_all (\<lambda>c. is_ascii_alnum c \<or> c \<in> set ''.-'') domain)"

definition mail_boundary :: "string option \<Rightarrow> bool" where
  "mail_boundary previous \<longleftrightarrow> opt_all (\<lambda>p. is_whitespace p \<or> p \<in> {''='', '','', '';''}) previous"

definition inside_url :: "string \<Rightarrow> bool" where
  "inside_url out \<longleftrightarrow>
     text_contains ''://'' (concat (rev (takeWhile (\<lambda>p. \<not> is_whitespace p) (rev (scalars out)))))"

definition ends_address :: "string \<Rightarrow> bool" where
  "ends_address p \<longleftrightarrow> is_whitespace p \<or> p \<in> {'','', '';'', ''!''}"

definition mailto_scalars :: "string list" where
  "mailto_scalars = map (\<lambda>c. [c]) ''mailto:''"

text \<open>The local part and the domain of the address the rest starts with, and what follows it.\<close>

definition mail_at :: "string list \<Rightarrow> (string \<times> string \<times> string list) option" where
  "mail_at rest =
     (if take 7 rest = mailto_scalars then
        (let after = drop 7 rest;
             address = concat (takeWhile (\<lambda>p. \<not> ends_address p) after) in
         if valid_mail_address address then
           map_option (\<lambda>(l, d). (l, d, dropWhile (\<lambda>p. \<not> ends_address p) after)) (split_once CHR ''@'' address)
         else None)
      else None)"

function replace_mail :: "string list \<Rightarrow> string \<Rightarrow> string option \<Rightarrow> string" where
  "replace_mail rest out previous =
     (case rest of
        [] \<Rightarrow> out
      | p # ps \<Rightarrow>
          (case (if mail_boundary previous \<and> \<not> inside_url out then mail_at rest else None) of
             Some (l, d, rest') \<Rightarrow> replace_mail rest' (out @ ''mailto '' @ l @ '' '' @ d) (Some [last d])
           | None \<Rightarrow> replace_mail ps (out @ p) (Some p)))"
  by pat_completeness auto

lemma mail_at_shorter: "mail_at rest = Some (l, d, rest') \<Longrightarrow> length rest' < length rest"
proof -
  assume a: "mail_at rest = Some (l, d, rest')"
  then have t: "take 7 rest = mailto_scalars" and r: "rest' = dropWhile (\<lambda>p. \<not> ends_address p) (drop 7 rest)"
    by (auto simp: mail_at_def Let_def split: if_splits)
  from t have "length (take 7 rest) = 7" by (simp add: mailto_scalars_def)
  moreover have "length rest' \<le> length (drop 7 rest)" unfolding r by (rule length_dropWhile_le)
  ultimately show ?thesis by simp
qed

termination replace_mail
  by (relation "measure (\<lambda>(rest, out, previous). length rest)")
     (auto split: if_splits dest!: mail_at_shorter)

declare replace_mail.simps [simp del]

definition replace_mailto :: "string \<Rightarrow> string" where
  "replace_mailto t = replace_mail (scalars t) [] None"

fun mailto_probe :: "json \<Rightarrow> json" where
  "mailto_probe (JString t) = JString (replace_mailto t)"
| "mailto_probe (JArray xs) = JArray (map mailto_probe xs)"
| "mailto_probe (JObject m) = JObject (map (\<lambda>(k, v). (k, mailto_probe v)) m)"
| "mailto_probe v = v"

definition credential_like :: "masking \<Rightarrow> json \<Rightarrow> bool" where
  "credential_like mk parameters \<longleftrightarrow>
     (let probe = mailto_probe parameters in
      mk_json mk probe \<noteq> probe \<or> has_secret_shape (mk_text mk) probe)"

definition credential_like_error :: broker_error where
  "credential_like_error = BrInvalid
     ''the parameters contain a credential-like value or a secret-named key; Fleet holds provider credentials, requests never carry them''"

definition check_parameters :: "masking \<Rightarrow> json_text \<Rightarrow> json \<Rightarrow> broker_error + json" where
  "check_parameters mk jt given =
     check_then (case given of
         JNull \<Rightarrow> Inr (JObject []) | JObject m \<Rightarrow> Inr (JObject m)
       | _ \<Rightarrow> Inl (BrInvalid ''the parameters must be a JSON object'')) (\<lambda>parameters.
     if length (jt_print jt parameters) > max_parameters_bytes
     then Inl (BrInvalid (''the parameters must be at most '' @ decimal max_parameters_bytes @ '' bytes''))
     else if parameter_depth parameters > max_parameter_depth
     then Inl (BrInvalid (''the parameters must nest at most '' @ decimal max_parameter_depth @ '' levels''))
     else if credential_like mk parameters then Inl credential_like_error
     else Inr parameters)"

section \<open>What the checks guarantee\<close>

text \<open>
  The probe differs from the text only where a colon or an at sign became a space: nothing
  else is hidden from the rules, and the length stays.
\<close>

definition unseparated :: "char \<Rightarrow> char \<Rightarrow> bool" where
  "unseparated a b \<longleftrightarrow> b = a \<or> (b = CHR 0x20 \<and> (a = CHR '':'' \<or> a = CHR ''@''))"

lemma unseparated_refl: "list_all2 unseparated t t"
  by (simp add: unseparated_def list_all2_refl)

lemma mail_at_text:
  assumes "mail_at rest = Some (l, d, rest')"
  shows "concat rest = ''mailto:'' @ l @ ''@'' @ d @ concat rest'"
proof -
  let ?after = "drop 7 rest"
  let ?a = "takeWhile (\<lambda>p. \<not> ends_address p) ?after"
  from assms have t: "take 7 rest = mailto_scalars" and r: "rest' = dropWhile (\<lambda>p. \<not> ends_address p) ?after"
    and s: "split_once CHR ''@'' (concat ?a) = Some (l, d)"
    by (auto simp: mail_at_def Let_def split: if_splits)
  have "concat rest = concat (take 7 rest) @ concat (?a @ rest')"
    unfolding r by (metis append_take_drop_id concat_append takeWhile_dropWhile_id)
  moreover have "concat (take 7 rest) = ''mailto:''" by (simp add: t mailto_scalars_def)
  moreover have "concat ?a = l @ ''@'' @ d" using s by (simp add: split_once_Some)
  ultimately show ?thesis by simp
qed

lemma replace_mail_rewrites:
  "list_all2 unseparated seen out \<Longrightarrow> list_all2 unseparated (seen @ concat rest) (replace_mail rest out previous)"
proof (induction rest out previous arbitrary: seen rule: replace_mail.induct)
  case (1 rest out previous)
  show ?case
  proof (cases rest)
    case Nil
    with "1.prems" show ?thesis by (subst replace_mail.simps) simp
  next
    case (Cons p ps)
    let ?m = "if mail_boundary previous \<and> \<not> inside_url out then mail_at rest else None"
    show ?thesis
    proof (cases ?m)
      case None
      from "1.prems" have "list_all2 unseparated (seen @ p) (out @ p)"
        by (intro list_all2_appendI unseparated_refl)
      from "1.IH"(1) [OF Cons None this] show ?thesis
        using None Cons by (subst replace_mail.simps) (simp split: if_splits)
    next
      case (Some x)
      obtain l d rest' where x: "x = (l, d, rest')" by (cases x) auto
      have whole: "concat rest = ''mailto:'' @ l @ ''@'' @ d @ concat rest'"
        using mail_at_text Some x by (simp split: if_splits)
      have "list_all2 unseparated (''mailto:'' @ l @ ''@'' @ d) (''mailto '' @ l @ '' '' @ d)"
        by (intro list_all2_appendI unseparated_refl) (simp_all add: unseparated_def)
      with "1.prems" have "list_all2 unseparated (seen @ ''mailto:'' @ l @ ''@'' @ d) (out @ ''mailto '' @ l @ '' '' @ d)"
        by (rule list_all2_appendI)
      from "1.IH"(2) [OF Cons Some x [symmetric] refl this] show ?thesis
        using Some Cons x whole by (subst replace_mail.simps) (simp split: if_splits)
    qed
  qed
qed

lemma check_parameters_Inr:
  "check_parameters mk jt given = Inr p \<Longrightarrow>
   length (jt_print jt p) \<le> max_parameters_bytes \<and> parameter_depth p \<le> max_parameter_depth \<and>
   \<not> credential_like mk p \<and> (\<exists>m. p = JObject m)"
  by (auto simp: check_parameters_def check_then_Inr split: json.splits if_splits)

lemma override_entry_ok:
  "override_entry p os = Inr os' \<Longrightarrow> list_all (valid_action_id \<circ> fst) os \<and> distinct (map fst os) \<Longrightarrow>
   list_all (valid_action_id \<circ> fst) os' \<and> distinct (map fst os')"
  by (auto simp: override_entry_def Let_def map_of_eq_None_iff split: option.splits if_splits sum.splits)

lemma override_entries_ok:
  "override_entries ps os = Inr os' \<Longrightarrow> list_all (valid_action_id \<circ> fst) os \<and> distinct (map fst os) \<Longrightarrow>
   list_all (valid_action_id \<circ> fst) os' \<and> distinct (map fst os')"
  by (induction ps arbitrary: os) (auto simp: check_then_Inr dest!: override_entry_ok)

section \<open>Properties\<close>

text \<open>
  C29. Settings that are accepted are well formed: the lifetime of a request lies between a
  minute and a week, and every override names a valid action id, each at most once. Any other
  text stops the start of the controller.
\<close>
theorem settings_well_formed:
  assumes "settings_from_env ttl policy = Inr st"
  shows "60000 \<le> bs_ttl st \<and> bs_ttl st \<le> 604800000 \<and>
    list_all (valid_action_id \<circ> fst) (bs_overrides st) \<and> distinct (map fst (bs_overrides st))"
proof -
  from assms obtain seconds os where os: "override_entries (filter (\<lambda>p. p \<noteq> []) (map text_trim
        (split_on CHR '','' (case policy of None \<Rightarrow> [] | Some t \<Rightarrow> t)))) [] = Inr os"
      and st: "settings_new seconds os = Inr st"
    unfolding settings_from_env_def check_then_Inr
    by (elim exE conjE) (rename_tac seconds os, case_tac "settings_new seconds os", auto)
  from override_entries_ok [OF os] have "list_all (valid_action_id \<circ> fst) os \<and> distinct (map fst os)" by simp
  with st show ?thesis
    by (auto simp: settings_new_def min_request_ttl_seconds_def max_request_ttl_seconds_def not_less split: if_splits)
qed

theorem settings_well_formed_witness:
  "settings_from_env None (Some ''dns.record.upsert=deny, proxmox.machine.create = auto'') =
     Inr \<lparr>bs_ttl = 86400000, bs_overrides = [(''proxmox.machine.create'', RiskAuto), (''dns.record.upsert'', RiskDeny)]\<rparr> \<and>
   distinct (map fst [(''proxmox.machine.create'', RiskAuto), (''dns.record.upsert'', RiskDeny)])"
proof -
  let ?os = "[(''proxmox.machine.create'', RiskAuto), (''dns.record.upsert'', RiskDeny)]"
  let ?st = "\<lparr>bs_ttl = 86400000, bs_overrides = ?os\<rparr>"
  have os: "override_entries (filter (\<lambda>p. p \<noteq> []) (map text_trim
      (split_on CHR '','' ''dns.record.upsert=deny, proxmox.machine.create = auto''))) [] = Inr ?os"
    by code_simp
  have st: "settings_from_env None (Some ''dns.record.upsert=deny, proxmox.machine.create = auto'') = Inr ?st"
    unfolding settings_from_env_def option.case os
    by (simp add: ttl_value_def check_then_def settings_new_def default_request_ttl_seconds_def
        min_request_ttl_seconds_def max_request_ttl_seconds_def i64_max_def)
  from settings_well_formed [OF st] st show ?thesis by simp
qed

text \<open>
  C30. The search for mail addresses ends and hides nothing from the credential rules: the
  probe is as long as the text and differs from it only in colons and at signs that became
  spaces.
\<close>
theorem mailto_probe_hides_nothing:
  "length (replace_mailto t) = length t \<and>
   list_all (\<lambda>(a, b). b = a \<or> b = CHR 0x20 \<and> a \<in> {CHR '':'', CHR ''@''}) (zip t (replace_mailto t))"
proof -
  have "list_all2 unseparated t (replace_mailto t)"
    using replace_mail_rewrites [of "[]" "[]" "scalars t" None] by (simp add: replace_mailto_def)
  then show ?thesis by (auto simp: list_all2_iff list_all_iff unseparated_def)
qed

end
