(* ===== verification/Broker.thy ===== *)
theory Broker
  imports Broker_Policy Operation_Service
begin

text \<open>
  The use cases of the action broker of \<open>crates/fleet-application/src/broker.rs\<close>: asking,
  deciding, starting the operation of an approved request, and bringing a request up to date
  with time and with its operation.
\<close>

section \<open>The broker\<close>

record 'z broker =
  br_registry :: "'z registry"
  br_settings :: broker_settings
  br_service :: service
  br_masking :: masking
  br_json :: json_text
  br_events :: bool

record new_action_request =
  nr_action :: string
  nr_target :: string
  nr_parameters :: json
  nr_reason :: string
  nr_origin :: string
  nr_correlation :: "string option"
  nr_key :: "string option"

type_synonym ('z, 'a) br_act = "('z req_world_scheme, broker_error, 'a) act"

abbreviation requests_port :: "('z, 'a) req_act \<Rightarrow> ('z, 'a) br_act" where
  "requests_port \<equiv> map_err (BrBackend ''action requests'')"

definition broker_allow :: "authorizer \<Rightarrow> string \<Rightarrow> permission \<Rightarrow> string option \<Rightarrow> broker_error + unit" where
  "broker_allow az who p r = (case authorize az (access who p r) of Inl d \<Rightarrow> Inl (BrDenied d) | Inr _ \<Rightarrow> Inr ())"

definition may :: "authorizer \<Rightarrow> string \<Rightarrow> permission \<Rightarrow> string option \<Rightarrow> bool" where
  "may az who p r \<longleftrightarrow> \<not> isl (authorize az (access who p r))"

text \<open>The store with notifications: a committed change publishes one event without a payload.\<close>

definition notify :: "'z broker \<Rightarrow> ('z req_world_scheme, 'e, unit) act" where
  "notify br = (if br_events br then publish_event RequestChanged else ret ())"

definition port_insert :: "'z broker \<Rightarrow> action_request \<Rightarrow> audit_intent \<Rightarrow> ('z, unit) req_act" where
  "port_insert br r audit = andthen (req_insert (br_json br) r audit) (\<lambda>_. notify br)"

definition port_transition ::
    "'z broker \<Rightarrow> string \<Rightarrow> transition_update \<Rightarrow> audit_intent \<Rightarrow> ('z, action_request option) req_act" where
  "port_transition br i u audit =
     andthen (req_transition (br_json br) i u audit) (\<lambda>updated.
     andthen (if updated = None then ret () else notify br) (\<lambda>_. ret updated))"

definition optional_fact :: "string \<Rightarrow> string option \<Rightarrow> (string \<times> string) list" where
  "optional_fact k v = (case v of None \<Rightarrow> [] | Some x \<Rightarrow> [(k, x)])"

definition request_audit ::
    "string \<Rightarrow> string \<Rightarrow> action_request \<Rightarrow> request_state option \<Rightarrow> request_state \<Rightarrow>
     (string \<times> string) list \<Rightarrow> broker_error + audit_intent" where
  "request_audit actor action r old new extra =
     (case metadata_insert_all
         ([(''actionId'', rr_action r), (''target'', rr_target r), (''riskClass'', risk_id (rr_risk r)),
           (''requester'', rr_requester r)] @ optional_fact ''from'' (map_option request_state_id old) @
          [(''to'', request_state_id new)] @ extra) [] of
        Inl e \<Rightarrow> Inl (BrBackend ''audit'' (metadata_error_text e))
      | Inr m \<Rightarrow> Inr \<lparr>ai_actor = actor, ai_action = action, ai_resource = Some (rr_id r),
          ai_decision = decision_allow, ai_correlation = rr_correlation r, ai_operation = None,
          ai_metadata = m\<rparr>)"

section \<open>Policy\<close>

definition classify ::
    "'z broker \<Rightarrow> 'z provider_action \<Rightarrow> string \<Rightarrow> json \<Rightarrow> string option \<Rightarrow> ('z, risk_class) br_act" where
  "classify br action requester parameters except_request =
     (let base = effective_risk (br_settings br) action in
      case pa_guard action of
        None \<Rightarrow> ret base
      | Some guard \<Rightarrow>
          if base = RiskDeny then ret base
          else andthen (map_err (BrBackend ''action policy'') (guard requester parameters except_request)) (\<lambda>b.
            ret (if b = BoundsWithin \<and> \<not> has_override (br_settings br) (pa_id action) then RiskAuto
                 else if b = BoundsOutside \<and> base = RiskAuto then RiskApprove
                 else base)))"

text \<open>Why an approved request may no longer run, if so.\<close>

definition recheck :: "'z broker \<Rightarrow> authorizer \<Rightarrow> 'z provider_action \<Rightarrow> action_request \<Rightarrow> ('z, string option) br_act" where
  "recheck br az action r =
     (if effective_risk (br_settings br) action = RiskDeny then ret (Some ''policy now denies this action'')
      else if pa_guard action = None \<and> pa_approver action = None then ret None
      else if \<not> may az (rr_requester r) ActionRequest (Some (rr_action r))
      then ret (Some ''the requester may no longer ask for this action'')
      else if rr_decided_by r = Some policy_auto then
        andthen (classify br action (rr_requester r) (rr_parameters r) (Some (rr_id r))) (\<lambda>k.
        ret (if k \<noteq> RiskAuto then Some ''policy no longer approves this request without a person'' else None))
      else (case rr_decided_by r of
              None \<Rightarrow> ret None
            | Some decider \<Rightarrow>
                if \<not> may az decider ActionApprove (Some (rr_action r))
                then ret (Some ''the approver may no longer approve this action'')
                else (case pa_approver action of
                        None \<Rightarrow> ret None
                      | Some p \<Rightarrow>
                          ret (if \<not> may az decider p None
                               then Some (''the approver no longer holds '' @ permission_id p @ '', which this action needs'')
                               else None))))"

section \<open>Transitions the system makes\<close>

definition load_request :: "'z broker \<Rightarrow> string \<Rightarrow> ('z, action_request) br_act" where
  "load_request br i =
     andthen (requests_port (req_get (br_json br) i)) (\<lambda>found.
     case found of None \<Rightarrow> fail (BrNotFound ''the action request'') | Some r \<Rightarrow> ret r)"

text \<open>A transition whose loss means that someone else made it: the request as it is now.\<close>

definition transition_or_load ::
    "'z broker \<Rightarrow> string \<Rightarrow> transition_update \<Rightarrow> audit_intent \<Rightarrow> ('z, action_request) br_act" where
  "transition_or_load br i u audit =
     andthen (requests_port (port_transition br i u audit)) (\<lambda>updated.
     case updated of Some r \<Rightarrow> ret r | None \<Rightarrow> load_request br i)"

definition finish_request ::
    "'z broker \<Rightarrow> action_request \<Rightarrow> request_state \<Rightarrow> string option \<Rightarrow> string \<Rightarrow> int \<Rightarrow> ('z, action_request) br_act" where
  "finish_request br r new failure audit_action now =
     andthen (lift (request_audit system_actor audit_action r (Some (rr_state r)) new
        (case rr_operation r of None \<Rightarrow> [] | Some i \<Rightarrow> if i = [] then [] else [(''operationId'', i)]))) (\<lambda>audit.
     transition_or_load br (rr_id r)
       \<lparr>tu_from = rr_state r, tu_to = new,
        tu_decided_by = (if new = ReqExpired then Some system_actor else None), tu_note = None,
        tu_operation = None, tu_failure = map_option (mk_failure (br_masking br)) failure, tu_at = now,
        tu_unexpired = False\<rparr> audit)"

definition fail_request :: "'z broker \<Rightarrow> action_request \<Rightarrow> string \<Rightarrow> int \<Rightarrow> ('z, action_request) br_act" where
  "fail_request br r failure now = finish_request br r ReqFailed (Some failure) ''action.fail'' now"

definition abandon_request :: "'z broker \<Rightarrow> action_request \<Rightarrow> string \<Rightarrow> int \<Rightarrow> ('z, action_request) br_act" where
  "abandon_request br r why now =
     andthen (lift (request_audit system_actor (permission_id ActionDeny) r (Some ReqPending) ReqDenied [])) (\<lambda>audit.
     transition_or_load br (rr_id r)
       \<lparr>tu_from = ReqPending, tu_to = ReqDenied, tu_decided_by = Some system_actor,
        tu_note = Some (mk_failure (br_masking br) why), tu_operation = None, tu_failure = None, tu_at = now,
        tu_unexpired = False\<rparr> audit)"

section \<open>Starting the operation\<close>

definition executing_principal :: "action_request \<Rightarrow> string" where
  "executing_principal r =
     (case rr_decided_by r of
        Some decider \<Rightarrow> if starts_with ''policy:'' decider then rr_requester r else decider
      | None \<Rightarrow> rr_requester r)"

definition broker_key :: "action_request \<Rightarrow> string" where
  "broker_key r = broker_prefix @ rr_id r"

definition creation_failure :: "usecase_error \<Rightarrow> broker_error + string" where
  "creation_failure e =
     (case e of
        UcDenied d \<Rightarrow> Inr (''the operation was not permitted: '' @ decision_text d)
      | UcBackend context detail \<Rightarrow> Inl (BrBackend context detail)
      | _ \<Rightarrow> Inr (''the operation was refused: '' @ usecase_error_text e))"

definition link_operation :: "'z broker \<Rightarrow> action_request \<Rightarrow> operation \<Rightarrow> int \<Rightarrow> ('z, action_request) br_act" where
  "link_operation br r oper now =
     andthen (lift (request_audit system_actor ''action.execute'' r (Some ReqApproved) ReqExecuting
        [(''operationId'', op_id oper)])) (\<lambda>audit.
     transition_or_load br (rr_id r)
       \<lparr>tu_from = ReqApproved, tu_to = ReqExecuting, tu_decided_by = None, tu_note = None,
        tu_operation = Some (op_id oper), tu_failure = None, tu_at = now, tu_unexpired = False\<rparr> audit)"

definition create_and_link ::
    "'z broker \<Rightarrow> authorizer \<Rightarrow> 'z provider_action \<Rightarrow> action_request \<Rightarrow> int \<Rightarrow> ('z, action_request) br_act" where
  "create_and_link br az action r now =
     (case pa_operation action r of
        Inl detail \<Rightarrow> fail_request br r (''the action could not start: '' @ detail) now
      | Inr built \<Rightarrow>
          if no_kind built \<noteq> pa_kind action
          then fail_request br r ''the action built an operation of a kind it does not declare'' now
          else
          let new = built\<lparr>no_key := Some (broker_key r), no_correlation := rr_correlation r\<rparr> in
          andthen (attempt (create_brokered (br_service br) az (executing_principal r) new)) (\<lambda>created.
          case created of
            Inl e \<Rightarrow> (case creation_failure e of Inl b \<Rightarrow> fail b | Inr failure \<Rightarrow> fail_request br r failure now)
          | Inr oper \<Rightarrow>
              if op_kind oper \<noteq> no_kind new \<or> op_payload oper \<noteq> no_payload new
              then fail_request br r ''the idempotency key already belongs to a different operation'' now
              else link_operation br r oper now))"

definition start_request :: "'z broker \<Rightarrow> authorizer \<Rightarrow> action_request \<Rightarrow> int \<Rightarrow> ('z, action_request) br_act" where
  "start_request br az r now =
     (case map_of (br_registry br) (rr_action r) of
        None \<Rightarrow> fail_request br r ''the action is no longer offered'' now
      | Some action \<Rightarrow>
          andthen (map_err (\<lambda>e. BrBackend ''operations'' (port_failure_text e)) (find_by_idempotency_key (broker_key r)))
            (\<lambda>existing.
          andthen (if existing = None then recheck br az action r else ret None) (\<lambda>refused.
          case refused of
            Some why \<Rightarrow> fail_request br r why now
          | None \<Rightarrow> create_and_link br az action r now)))"

section \<open>Bringing a request up to date\<close>

definition stuck :: "action_request \<Rightarrow> int \<Rightarrow> bool" where
  "stuck r now \<longleftrightarrow> rr_operation r = None \<and>
     (case rr_decided_at r of None \<Rightarrow> False | Some at \<Rightarrow> saturating_sub now at > approved_stuck_grace_millis)"

definition sync_operation :: "'z broker \<Rightarrow> action_request \<Rightarrow> string \<Rightarrow> int \<Rightarrow> ('z, action_request) br_act" where
  "sync_operation br r i now =
     andthen (attempt (get_state i)) (\<lambda>looked.
     case looked of
       Inl (PortNotFound _) \<Rightarrow>
         if saturating_sub now (rr_updated r) > approved_stuck_grace_millis
         then fail_request br r ''the operation record could not be found'' now else ret r
     | Inl _ \<Rightarrow> ret r
     | Inr st \<Rightarrow>
         if st = ''succeeded'' then finish_request br r ReqSucceeded None ''action.succeed'' now
         else if st \<in> {''failed'', ''cancelled'', ''timed_out'', ''blocked_manual_approval''}
         then fail_request br r (''the operation ended '' @ st) now
         else ret r)"

definition expire_request :: "'z broker \<Rightarrow> action_request \<Rightarrow> int \<Rightarrow> ('z, action_request) br_act" where
  "expire_request br r now = finish_request br r ReqExpired None ''action.expire'' now"

definition reconcile :: "'z broker \<Rightarrow> authorizer \<Rightarrow> action_request \<Rightarrow> int \<Rightarrow> ('z, action_request) br_act" where
  "reconcile br az r now =
     (if rr_state r = ReqPending \<and> action_request_deadline_passed (rr_expires r) now then expire_request br r now
      else if rr_state r = ReqApproved \<and> stuck r now then start_request br az r now
      else if rr_state r = ReqExecuting then
        (case rr_operation r of None \<Rightarrow> ret r | Some i \<Rightarrow> sync_operation br r i now)
      else ret r)"

definition latest :: "'z broker \<Rightarrow> action_request \<Rightarrow> int \<Rightarrow> ('z, action_request) br_act" where
  "latest br r now =
     (if rr_state r = ReqPending \<and> action_request_deadline_passed (rr_expires r) now
      then andthen (attempt (expire_request br r now)) (\<lambda>x. ret (case x of Inl _ \<Rightarrow> r | Inr expired \<Rightarrow> expired))
      else ret r)"

section \<open>Asking\<close>

definition replay ::
    "'z broker \<Rightarrow> authorizer \<Rightarrow> action_request \<Rightarrow> string \<Rightarrow> string \<Rightarrow> json \<Rightarrow> int \<Rightarrow> ('z, action_request) br_act" where
  "replay br az existing action_id target parameters now =
     (let same = (case map_of (br_registry br) action_id of
                    Some action \<Rightarrow> pa_comparable action (rr_parameters existing) = pa_comparable action parameters
                  | None \<Rightarrow> rr_parameters existing = parameters) in
      if rr_action existing \<noteq> action_id \<or> rr_target existing \<noteq> target \<or> \<not> same
      then fail (BrConflict (rr_state existing) ''the idempotency key was already used for a different request'')
      else reconcile br az existing now)"

text \<open>The checks of a new request: the action it names and its checked parameters.\<close>

definition admit_request ::
    "'z broker \<Rightarrow> authorizer \<Rightarrow> string \<Rightarrow> new_action_request \<Rightarrow> broker_error + 'z provider_action \<times> json" where
  "admit_request br az who new =
     (if \<not> valid_action_id (nr_action new) then Inl (BrInvalid ''the actionId is not a valid action id'')
      else
      check_then (broker_allow az who ActionRequest (Some (nr_action new))) (\<lambda>_.
      case map_of (br_registry br) (nr_action new) of
        None \<Rightarrow> Inl (BrInvalid ''the action is not offered by this controller'')
      | Some action \<Rightarrow>
          check_then (first_error
            [validate_text (br_masking br) ''target'' (nr_target new) max_target_len False,
             validate_text (br_masking br) ''reason'' (nr_reason new) max_reason_len True,
             validate_text (br_masking br) ''origin'' (nr_origin new) max_origin_len False,
             validate_idempotency_key (nr_key new)]) (\<lambda>_.
          check_then (check_parameters (br_masking br) (br_json br) (nr_parameters new)) (\<lambda>parameters.
          case pa_validate action (nr_target new) parameters of
            Inl detail \<Rightarrow> Inl (BrInvalid detail)
          | Inr _ \<Rightarrow> Inr (action, parameters)))))"

definition initial_decision :: "risk_class \<Rightarrow> request_state \<times> string option" where
  "initial_decision k =
     (case k of
        RiskAuto \<Rightarrow> (ReqApproved, Some policy_auto)
      | RiskApprove \<Rightarrow> (ReqPending, None)
      | RiskDeny \<Rightarrow> (ReqDenied, Some policy_deny))"

definition new_request ::
    "'z broker \<Rightarrow> string \<Rightarrow> string \<Rightarrow> new_action_request \<Rightarrow> json \<Rightarrow> risk_class \<Rightarrow> int \<Rightarrow> action_request" where
  "new_request br i who new parameters k now =
     \<lparr>rr_id = i, rr_requester = who, rr_origin = nr_origin new, rr_action = nr_action new,
      rr_target = nr_target new, rr_parameters = parameters, rr_risk = k, rr_reason = nr_reason new,
      rr_state = fst (initial_decision k), rr_decided_by = snd (initial_decision k),
      rr_decided_at = (if k = RiskApprove then None else Some now), rr_note = None, rr_operation = None,
      rr_failure = None, rr_correlation = nr_correlation new, rr_key = nr_key new, rr_created = now,
      rr_expires = saturating_add now (bs_ttl (br_settings br)), rr_updated = now\<rparr>"

definition refuse_by_policy :: "'z broker \<Rightarrow> string \<Rightarrow> action_request \<Rightarrow> ('z, action_request) br_act" where
  "refuse_by_policy br who r =
     andthen (lift (request_audit who (permission_id ActionRequest) r None ReqDenied [])) (\<lambda>audit.
     andthen (requests_port (req_record_audit
        (audit\<lparr>ai_resource := None, ai_decision := decision_deny RiskClassDeny\<rparr>))) (\<lambda>_.
     fail (BrPolicyDenied (rr_action r))))"

definition store_request ::
    "'z broker \<Rightarrow> authorizer \<Rightarrow> string \<Rightarrow> action_request \<Rightarrow> int \<Rightarrow> ('z, action_request) br_act" where
  "store_request br az who r now =
     andthen (lift (request_audit who (permission_id ActionRequest) r None (rr_state r) [])) (\<lambda>audit.
     andthen (attempt (port_insert br r audit)) (\<lambda>inserted.
     case inserted of
       Inl detail \<Rightarrow>
         (case rr_key r of
            None \<Rightarrow> fail (BrBackend ''action requests'' detail)
          | Some key \<Rightarrow>
              andthen (attempt (req_find_by_idempotency (br_json br) who key)) (\<lambda>found.
              case found of
                Inr (Some existing) \<Rightarrow> replay br az existing (rr_action r) (rr_target r) (rr_parameters r) now
              | _ \<Rightarrow> fail (BrBackend ''action requests'' detail)))
     | Inr _ \<Rightarrow> if rr_state r = ReqApproved then start_request br az r now else ret r))"

definition answer_request ::
    "'z broker \<Rightarrow> authorizer \<Rightarrow> string \<Rightarrow> new_action_request \<Rightarrow> 'z provider_action \<Rightarrow> json \<Rightarrow> int \<Rightarrow>
     ('z, action_request) br_act" where
  "answer_request br az who new action parameters now =
     andthen (case nr_key new of
         None \<Rightarrow> ret None
       | Some key \<Rightarrow> requests_port (req_find_by_idempotency (br_json br) who key)) (\<lambda>existing.
     case existing of
       Some e \<Rightarrow> replay br az e (nr_action new) (nr_target new) parameters now
     | None \<Rightarrow>
         andthen (classify br action who parameters None) (\<lambda>k.
         andthen fresh_uuid (\<lambda>i.
         let r = new_request br i who new parameters k now in
         if k = RiskDeny then refuse_by_policy br who r
         else store_request br az who r now)))"

definition create_request ::
    "'z broker \<Rightarrow> authorizer \<Rightarrow> string \<Rightarrow> new_action_request \<Rightarrow> int \<Rightarrow> ('z, action_request) br_act" where
  "create_request br az who new now =
     andthen (lift (admit_request br az who new)) (\<lambda>(action, parameters).
     answer_request br az who new action parameters now)"

section \<open>Reading\<close>

definition existing_for_key ::
    "'z broker \<Rightarrow> authorizer \<Rightarrow> string \<Rightarrow> string \<Rightarrow> int \<Rightarrow> ('z, action_request option) br_act" where
  "existing_for_key br az who key now =
     andthen (lift (validate_idempotency_key (Some key))) (\<lambda>_.
     andthen (requests_port (req_find_by_idempotency (br_json br) who key)) (\<lambda>found.
     case found of
       None \<Rightarrow> ret None
     | Some e \<Rightarrow>
         andthen (lift (broker_allow az who ActionRequest (Some (rr_action e)))) (\<lambda>_.
         andthen (reconcile br az e now) (\<lambda>r. ret (Some r)))))"

fun reconcile_each ::
    "'z broker \<Rightarrow> authorizer \<Rightarrow> request_state option \<Rightarrow> action_request list \<Rightarrow> int \<Rightarrow> ('z, action_request list) br_act" where
  "reconcile_each br az wanted [] now = ret []"
| "reconcile_each br az wanted (r # rs) now =
     andthen (attempt (reconcile br az r now)) (\<lambda>outcome.
     let r' = (case outcome of Inl _ \<Rightarrow> r | Inr x \<Rightarrow> x) in
     andthen (reconcile_each br az wanted rs now) (\<lambda>rest.
     ret (if opt_all (\<lambda>st. st = rr_state r') wanted then r' # rest else rest)))"

definition list_requests ::
    "'z broker \<Rightarrow> authorizer \<Rightarrow> string \<Rightarrow> request_state option \<Rightarrow> nat \<Rightarrow> int \<Rightarrow> ('z, action_request list) br_act" where
  "list_requests br az who wanted limit now =
     andthen (lift (broker_allow az who ActionRead None)) (\<lambda>_.
     andthen (requests_port (req_list (br_json br) wanted (clamp 1 max_list_limit limit))) (\<lambda>stored.
     reconcile_each br az wanted stored now))"

definition get_request :: "'z broker \<Rightarrow> authorizer \<Rightarrow> string \<Rightarrow> string \<Rightarrow> int \<Rightarrow> ('z, action_request) br_act" where
  "get_request br az who i now =
     andthen (lift (broker_allow az who ActionRead None)) (\<lambda>_.
     andthen (load_request br i) (\<lambda>r.
     reconcile br az r now))"

section \<open>Deciding\<close>

definition require_pending :: "action_request \<Rightarrow> broker_error + unit" where
  "require_pending r =
     (if can_transition_action_request (rr_state r) ReqApproved then Inr ()
      else Inl (BrConflict (rr_state r) ''only a pending request can be decided''))"

definition authorize_decision ::
    "'z broker \<Rightarrow> authorizer \<Rightarrow> string \<Rightarrow> string \<Rightarrow> permission \<Rightarrow> ('z, action_request) br_act" where
  "authorize_decision br az who i p =
     andthen (requests_port (req_get (br_json br) i)) (\<lambda>found.
     andthen (lift (broker_allow az who p (Some (case found of None \<Rightarrow> i | Some r \<Rightarrow> rr_action r)))) (\<lambda>_.
     case found of None \<Rightarrow> fail (BrNotFound ''the action request'') | Some r \<Rightarrow> ret r))"

definition decide_request ::
    "'z broker \<Rightarrow> action_request \<Rightarrow> string \<Rightarrow> request_state \<Rightarrow> string option \<Rightarrow> int \<Rightarrow> ('z, action_request) br_act" where
  "decide_request br r who new note now =
     andthen (lift (request_audit who
        (permission_id (if new = ReqApproved then ActionApprove else ActionDeny)) r (Some ReqPending) new [])) (\<lambda>audit.
     andthen (requests_port (port_transition br (rr_id r)
        \<lparr>tu_from = ReqPending, tu_to = new, tu_decided_by = Some who, tu_note = note, tu_operation = None,
         tu_failure = None, tu_at = now, tu_unexpired = True\<rparr> audit)) (\<lambda>updated.
     case updated of
       Some x \<Rightarrow> ret x
     | None \<Rightarrow>
         andthen (load_request br (rr_id r)) (\<lambda>current.
         andthen (latest br current now) (\<lambda>current'.
         fail (BrConflict (rr_state current') ''another decision was made first'')))))"

definition deny_by_policy :: "'z broker \<Rightarrow> action_request \<Rightarrow> string \<Rightarrow> int \<Rightarrow> ('z, action_request) br_act" where
  "deny_by_policy br r who now =
     andthen (lift (request_audit system_actor ''action.policy_deny'' r (Some ReqPending) ReqDenied
        [(''attemptedBy'', who)])) (\<lambda>audit.
     andthen (requests_port (port_transition br (rr_id r)
        \<lparr>tu_from = ReqPending, tu_to = ReqDenied, tu_decided_by = Some policy_deny,
         tu_note = Some ''policy denies this action'', tu_operation = None, tu_failure = None, tu_at = now,
         tu_unexpired = False\<rparr> audit)) (\<lambda>_.
     fail (BrPolicyDenied (rr_action r))))"

definition approve_request :: "'z broker \<Rightarrow> authorizer \<Rightarrow> string \<Rightarrow> string \<Rightarrow> int \<Rightarrow> ('z, action_request) br_act" where
  "approve_request br az who i now =
     andthen (authorize_decision br az who i ActionApprove) (\<lambda>found.
     andthen (reconcile br az found now) (\<lambda>r.
     andthen (lift (require_pending r)) (\<lambda>_.
     case map_of (br_registry br) (rr_action r) of
       None \<Rightarrow> fail (BrInvalid ''the action is no longer offered by this controller'')
     | Some action \<Rightarrow>
         andthen (lift (case pa_approver action of None \<Rightarrow> Inr () | Some p \<Rightarrow> broker_allow az who p None)) (\<lambda>_.
         if effective_risk (br_settings br) action = RiskDeny then deny_by_policy br r who now
         else andthen (decide_request br r who ReqApproved None now) (\<lambda>approved.
              start_request br az approved now)))))"

definition deny_request ::
    "'z broker \<Rightarrow> authorizer \<Rightarrow> string \<Rightarrow> string \<Rightarrow> string option \<Rightarrow> int \<Rightarrow> ('z, action_request) br_act" where
  "deny_request br az who i note now =
     andthen (authorize_decision br az who i ActionDeny) (\<lambda>found.
     andthen (lift (case note of None \<Rightarrow> Inr () | Some t \<Rightarrow> validate_text (br_masking br) ''note'' t max_reason_len True)) (\<lambda>_.
     andthen (reconcile br az found now) (\<lambda>r.
     andthen (lift (require_pending r)) (\<lambda>_.
     decide_request br r who ReqDenied note now))))"

section \<open>The abstract book of requests\<close>

text \<open>
  What the broker promises, without its tables: each request has a state, who decided it and
  the operation that carries it out, and moves by the steps below.
\<close>

type_synonym book_entry = "request_state \<times> string option \<times> string option"
type_synonym book = "string \<Rightarrow> book_entry option"

inductive book_step :: "book \<Rightarrow> book \<Rightarrow> bool" where
  ask: "b i = None \<Longrightarrow> book_step b (b(i \<mapsto> (ReqPending, None, None)))"
| ask_auto: "b i = None \<Longrightarrow> book_step b (b(i \<mapsto> (ReqApproved, Some policy_auto, None)))"
| decide: "b i = Some (ReqPending, None, None) \<Longrightarrow> st = ReqApproved \<or> st = ReqDenied \<Longrightarrow>
    book_step b (b(i \<mapsto> (st, Some who, None)))"
| expire: "b i = Some (ReqPending, None, None) \<Longrightarrow> book_step b (b(i \<mapsto> (ReqExpired, Some system_actor, None)))"
| link: "b i = Some (ReqApproved, Some who, None) \<Longrightarrow> book_step b (b(i \<mapsto> (ReqExecuting, Some who, Some oper)))"
| give_up: "b i = Some (ReqApproved, Some who, None) \<Longrightarrow> book_step b (b(i \<mapsto> (ReqFailed, Some who, None)))"
| settle: "b i = Some (ReqExecuting, Some who, Some oper) \<Longrightarrow> st = ReqSucceeded \<or> st = ReqFailed \<Longrightarrow>
    book_step b (b(i \<mapsto> (st, Some who, Some oper)))"

inductive_cases book_stepE: "book_step b c"

definition book_entry :: "request_row \<Rightarrow> book_entry" where
  "book_entry r = (the (request_state_of (rr_state r)), rr_decided_by r, rr_operation r)"

definition book_of :: "request_row list \<Rightarrow> book" where
  "book_of rows = map_of (map (\<lambda>r. (rr_id r, book_entry r)) rows)"

fun entry_ok :: "book_entry \<Rightarrow> bool" where
  "entry_ok (st, decider, oper) \<longleftrightarrow>
     (case st of
        ReqPending \<Rightarrow> decider = None \<and> oper = None
      | ReqApproved \<Rightarrow> decider \<noteq> None \<and> oper = None
      | ReqDenied \<Rightarrow> decider \<noteq> None \<and> oper = None
      | ReqExpired \<Rightarrow> decider = Some system_actor \<and> oper = None
      | ReqExecuting \<Rightarrow> decider \<noteq> None \<and> oper \<noteq> None
      | ReqSucceeded \<Rightarrow> decider \<noteq> None \<and> oper \<noteq> None
      | ReqFailed \<Rightarrow> decider \<noteq> None)"

definition request_keys :: "request_row list \<Rightarrow> (string \<times> string) list" where
  "request_keys rows = concat (map (\<lambda>r. case rr_key r of None \<Rightarrow> [] | Some k \<Rightarrow> [(rr_requester r, k)]) rows)"

definition row_ok :: "request_row \<Rightarrow> bool" where
  "row_ok r \<longleftrightarrow> request_state_of (rr_state r) \<noteq> None \<and> entry_ok (book_entry r) \<and>
     rr_risk r \<in> {''auto'', ''approve''}"

definition book_wf :: "request_row list \<Rightarrow> bool" where
  "book_wf rows \<longleftrightarrow> distinct (map rr_id rows) \<and> distinct (request_keys rows) \<and> list_all row_ok rows"

text \<open>What a request keeps from its creation on, whatever its parameters, class and state are stored as.\<close>

definition same_facts :: "('p, 'k, 's) stored_request \<Rightarrow> ('q, 'l, 't) stored_request \<Rightarrow> bool" where
  "same_facts r r' \<longleftrightarrow>
     rr_id r' = rr_id r \<and> rr_requester r' = rr_requester r \<and> rr_origin r' = rr_origin r \<and>
     rr_action r' = rr_action r \<and> rr_target r' = rr_target r \<and> rr_reason r' = rr_reason r \<and>
     rr_correlation r' = rr_correlation r \<and> rr_key r' = rr_key r \<and> rr_created r' = rr_created r \<and>
     rr_expires r' = rr_expires r"

definition request_follows :: "request_row \<Rightarrow> request_row \<Rightarrow> bool" where
  "request_follows r r' \<longleftrightarrow> same_facts r r' \<and> rr_parameters r' = rr_parameters r \<and> rr_risk r' = rr_risk r"

text \<open>The relation every use case stays within, and its restriction that adds no request.\<close>

definition book_moves :: "'z req_world_scheme \<Rightarrow> 'z req_world_scheme \<Rightarrow> bool" where
  "book_moves s t \<longleftrightarrow> (book_wf (rw_requests s) \<longrightarrow> book_wf (rw_requests t) \<and>
     book_step\<^sup>*\<^sup>* (book_of (rw_requests s)) (book_of (rw_requests t)) \<and>
     (\<exists>old new. rw_requests t = old @ new \<and> list_all2 request_follows (rw_requests s) old))"

definition book_keeps :: "'z req_world_scheme \<Rightarrow> 'z req_world_scheme \<Rightarrow> bool" where
  "book_keeps s t \<longleftrightarrow> (book_wf (rw_requests s) \<longrightarrow> book_wf (rw_requests t) \<and>
     book_step\<^sup>*\<^sup>* (book_of (rw_requests s)) (book_of (rw_requests t)) \<and>
     list_all2 request_follows (rw_requests s) (rw_requests t))"

lemma request_follows_refl: "list_all2 request_follows rows rows"
  by (simp add: request_follows_def same_facts_def list_all2_refl)

lemma request_follows_trans: "request_follows a b \<Longrightarrow> request_follows b c \<Longrightarrow> request_follows a c"
  by (simp add: request_follows_def same_facts_def)

lemma requests_follow_trans:
  "list_all2 request_follows as bs \<Longrightarrow> list_all2 request_follows bs cs \<Longrightarrow> list_all2 request_follows as cs"
  using list_all2_trans [of request_follows request_follows request_follows as bs cs] request_follows_trans
  by blast

interpretation keeps: effect_relation "book_keeps :: 'z req_world_scheme \<Rightarrow> 'z req_world_scheme \<Rightarrow> bool"
proof unfold_locales
  fix s t u :: "'z req_world_scheme"
  show "book_keeps s s" by (simp add: book_keeps_def request_follows_refl)
  show "book_keeps s t \<Longrightarrow> book_keeps t u \<Longrightarrow> book_keeps s u"
    unfolding book_keeps_def by (blast intro: rtranclp_trans requests_follow_trans)
qed

interpretation moves: effect_relation "book_moves :: 'z req_world_scheme \<Rightarrow> 'z req_world_scheme \<Rightarrow> bool"
proof unfold_locales
  fix s t u :: "'z req_world_scheme"
  show "book_moves s s" using request_follows_refl by (auto simp: book_moves_def)
  assume st: "book_moves s t" and tu: "book_moves t u"
  show "book_moves s u"
    unfolding book_moves_def
  proof
    assume "book_wf (rw_requests s)"
    with st obtain o1 n1 where 1: "book_wf (rw_requests t)" "rw_requests t = o1 @ n1"
        "book_step\<^sup>*\<^sup>* (book_of (rw_requests s)) (book_of (rw_requests t))" "list_all2 request_follows (rw_requests s) o1"
      by (auto simp: book_moves_def)
    with tu obtain o2 n2 where 2: "book_wf (rw_requests u)" "rw_requests u = o2 @ n2"
        "book_step\<^sup>*\<^sup>* (book_of (rw_requests t)) (book_of (rw_requests u))" "list_all2 request_follows (rw_requests t) o2"
      by (auto simp: book_moves_def)
    from 1 2 obtain x y where 3: "o2 = x @ y" "list_all2 request_follows o1 x"
      by (auto simp: list_all2_append1)
    from requests_follow_trans 1(4) 3(2) have "list_all2 request_follows (rw_requests s) x" by blast
    with 2(2) 3 have "\<exists>old new. rw_requests u = old @ new \<and> list_all2 request_follows (rw_requests s) old"
      by auto
    with 1(3) 2(1,3) show "book_wf (rw_requests u) \<and>
        book_step\<^sup>*\<^sup>* (book_of (rw_requests s)) (book_of (rw_requests u)) \<and>
        (\<exists>old new. rw_requests u = old @ new \<and> list_all2 request_follows (rw_requests s) old)"
      by (meson rtranclp_trans)
  qed
qed

lemma keeps_moves: "book_keeps s t \<Longrightarrow> book_moves s t"
  by (auto simp: book_keeps_def book_moves_def intro: exI [of _ "rw_requests t"])

lemma keeps_moves_within: "within book_keeps m \<Longrightarrow> within book_moves m"
  by (simp add: within_def keeps_moves)

lemma same_keeps: "rw_requests t = rw_requests s \<Longrightarrow> book_keeps s t"
  by (simp add: book_keeps_def request_follows_refl)

lemma tables_keeps: "within tables_same m \<Longrightarrow> within book_keeps m"
  by (simp add: within_def tables_same_def same_keeps)

lemma frame_keeps: "within world_frame m \<Longrightarrow> within book_keeps m"
  by (rule withinI, rule same_keeps, rule more_requests [THEN conjunct1], rule world_frame_more, rule within_snd)

text \<open>The updates the use cases write: who decided is written with the decision, the operation with its start.\<close>

definition broker_update :: "transition_update \<Rightarrow> bool" where
  "broker_update u \<longleftrightarrow>
     (case tu_to u of
        ReqPending \<Rightarrow> False
      | ReqExpired \<Rightarrow> tu_decided_by u = Some system_actor \<and> tu_operation u = None
      | ReqExecuting \<Rightarrow> tu_decided_by u = None \<and> tu_operation u \<noteq> None
      | ReqApproved \<Rightarrow> tu_decided_by u \<noteq> None \<and> tu_operation u = None
      | ReqDenied \<Rightarrow> tu_decided_by u \<noteq> None \<and> tu_operation u = None
      | _ \<Rightarrow> tu_decided_by u = None \<and> tu_operation u = None)"

lemma broker_update_moves:
  assumes u: "broker_update u" "can_transition_action_request (tu_from u) (tu_to u)"
    and r: "row_ok r" "update_applies i u r" and b: "b i = Some (book_entry r)"
  shows "row_ok (apply_update u r) \<and> book_step b (b(i \<mapsto> book_entry (apply_update u r)))"
proof -
  have st: "rr_state r = request_state_id (tu_from u)" using r(2) by (simp add: update_applies_def)
  have e: "book_entry r = (tu_from u, rr_decided_by r, rr_operation r)" and ok: "entry_ok (book_entry r)"
    using r(1) by (auto simp: book_entry_def st request_ids.roundtrip row_ok_def)
  have e': "book_entry (apply_update u r) =
      (tu_to u, coalesce (tu_decided_by u) (rr_decided_by r), coalesce (tu_operation u) (rr_operation r))"
    by (simp add: book_entry_def apply_update_def request_ids.roundtrip)
  have "entry_ok (book_entry (apply_update u r)) \<and> book_step b (b(i \<mapsto> book_entry (apply_update u r)))"
    using u ok b unfolding e e' broker_update_def can_transition_action_request_def
    by (cases "tu_from u"; cases "tu_to u") (auto simp: coalesce_def intro: book_step.intros)
  moreover have "request_state_of (rr_state (apply_update u r)) \<noteq> None" and "rr_risk (apply_update u r) = rr_risk r"
    by (simp_all add: apply_update_def request_ids.roundtrip)
  ultimately show ?thesis using r(1) by (simp add: row_ok_def)
qed

lemma apply_update_follows: "request_follows r (apply_update u r)"
  by (simp add: request_follows_def same_facts_def apply_update_def)

lemma book_of_find: "book_of rows i = map_option book_entry (find (\<lambda>r. rr_id r = i) rows)"
  by (induction rows) (auto simp: book_of_def)

lemma request_keys_map:
  "(\<And>r. rr_key (f r) = rr_key r \<and> rr_requester (f r) = rr_requester r) \<Longrightarrow>
   request_keys (map f rows) = request_keys rows"
  by (induction rows) (auto simp: request_keys_def split: option.split)

lemma one_row_map:
  assumes "distinct (map rr_id rows)" and "length (filter P rows) = 1" and "\<And>r. P r \<Longrightarrow> rr_id r = i"
  obtains r where "r \<in> set rows" "P r" "rr_id r = i" "find (\<lambda>x. rr_id x = i) rows = Some r"
proof -
  from assms(2) obtain r where "filter P rows = [r]" by (auto simp: length_Suc_conv)
  then have "r \<in> set (filter P rows)" by simp
  then have "r \<in> set rows" "P r" by simp_all
  with assms find_request_unique [of rows r] show ?thesis by (intro that) auto
qed

lemma req_transition_keeps:
  assumes "broker_update u"
  shows "within book_keeps (req_transition jt i u audit)"
proof (rule withinI)
  fix s :: "'a req_world_scheme"
  obtain res t where m: "req_transition jt i u audit s = (res, t)" by fastforce
  note atomic = req_transition_atomic [OF m]
  show "book_keeps s (snd (req_transition jt i u audit s))"
  proof (cases "\<exists>x. res = Inr (Some x)")
    case False
    with atomic have "rw_requests t = rw_requests s" by (auto split: sum.splits option.splits)
    with m show ?thesis by (simp add: same_keeps)
  next
    case True
    let ?P = "update_applies i u" and ?g = "\<lambda>r. if update_applies i u r then apply_update u r else r"
    from True atomic have can: "can_transition_action_request (tu_from u) (tu_to u)"
      and one: "length (filter ?P (rw_requests s)) = 1" and t: "rw_requests t = map ?g (rw_requests s)" by auto
    have "book_keeps s t"
      unfolding book_keeps_def t
    proof (intro impI conjI)
      assume wf: "book_wf (rw_requests s)"
      then obtain r where r: "r \<in> set (rw_requests s)" "?P r" "rr_id r = i"
          "find (\<lambda>x. rr_id x = i) (rw_requests s) = Some r"
        using one_row_map [OF _ one, of i] by (auto simp: book_wf_def update_applies_def)
      have ok: "row_ok r" using wf r(1) by (simp add: book_wf_def list_all_iff)
      have b: "book_of (rw_requests s) i = Some (book_entry r)" using r by (simp add: book_of_find)
      note step = broker_update_moves [of u r i "book_of (rw_requests s)", OF assms can ok r(2) b]
      have only: "x = r" if "x \<in> set (rw_requests s)" "?P x" for x
        using wf that r find_request_unique [of "rw_requests s" x] by (auto simp: book_wf_def update_applies_def)
      have "map rr_id (map ?g (rw_requests s)) = map rr_id (rw_requests s)" by simp
      moreover have "request_keys (map ?g (rw_requests s)) = request_keys (rw_requests s)"
        by (rule request_keys_map) (simp add: apply_update_def)
      moreover have "list_all row_ok (map ?g (rw_requests s))"
        using wf step only by (auto simp: book_wf_def list_all_iff)
      ultimately show "book_wf (map ?g (rw_requests s))" using wf unfolding book_wf_def by metis
      have "book_of (map ?g (rw_requests s)) = (book_of (rw_requests s))(i \<mapsto> book_entry (apply_update u r))"
      proof
        fix k
        show "book_of (map ?g (rw_requests s)) k = ((book_of (rw_requests s))(i \<mapsto> book_entry (apply_update u r))) k"
        proof (cases "k = i")
          case True
          with r(2,4) show ?thesis by (simp add: book_of_find find_request_map)
        next
          case False
          then show ?thesis
            by (cases "find (\<lambda>r. rr_id r = k) (rw_requests s)")
               (auto simp: book_of_find find_request_map update_applies_def dest: find_Some_in)
        qed
      qed
      with step show "book_step\<^sup>*\<^sup>* (book_of (rw_requests s)) (book_of (map ?g (rw_requests s)))"
        by (simp add: r_into_rtranclp)
      show "list_all2 request_follows (rw_requests s) (map ?g (rw_requests s))"
        using apply_update_follows request_follows_refl by (auto simp: list_all2_map2 intro!: list_all2_all_nthI)
           (metis list_all2_nthD)
    qed
    with m show ?thesis by simp
  qed
qed

section \<open>Every use case moves the book by its steps\<close>

lemma notify_keeps: "within book_keeps (notify br)"
  by (auto simp: within_def notify_def publish_event_def act_simps intro: same_keeps)

lemma port_transition_keeps: "broker_update u \<Longrightarrow> within book_keeps (port_transition br i u audit)"
  unfolding port_transition_def by (intro keeps.intros req_transition_keeps notify_keeps)

lemma load_request_keeps: "within book_keeps (load_request br i)"
  unfolding load_request_def by (intro keeps.intros tables_keeps reading_tables)

lemma transition_or_load_keeps: "broker_update u \<Longrightarrow> within book_keeps (transition_or_load br i u audit)"
  unfolding transition_or_load_def by (intro keeps.intros port_transition_keeps load_request_keeps)

lemma finish_request_keeps:
  "new \<in> {ReqExpired, ReqFailed, ReqSucceeded} \<Longrightarrow> within book_keeps (finish_request br r new failure a now)"
  unfolding finish_request_def
  by (intro keeps.intros transition_or_load_keeps) (auto simp: broker_update_def)

lemma fail_request_keeps: "within book_keeps (fail_request br r failure now)"
  unfolding fail_request_def by (rule finish_request_keeps) simp

lemma abandon_request_keeps: "within book_keeps (abandon_request br r why now)"
  unfolding abandon_request_def by (intro keeps.intros transition_or_load_keeps) (simp add: broker_update_def)

lemma expire_request_keeps: "within book_keeps (expire_request br r now)"
  unfolding expire_request_def by (rule finish_request_keeps) simp

lemma link_operation_keeps: "within book_keeps (link_operation br r oper now)"
  unfolding link_operation_def by (intro keeps.intros transition_or_load_keeps) (simp add: broker_update_def)

text \<open>The operation use cases leave the requests alone.\<close>

lemma modify_rows_keeps: "within book_keeps (modify (\<lambda>s. s\<lparr>ow_rows := f s\<rparr>))"
  by (simp add: within_def modify_def same_keeps)

lemma op_create_keeps: "within book_keeps (op_create kind key deadline correlation payload)"
  unfolding op_create_def
  by (intro keeps.intros frame_keeps fresh_uuid_frame statement_frame external_frame op_get_frame modify_rows_keeps)

lemma publish_operation_keeps: "within book_keeps (publish_operation sv r completed)"
  by (auto simp: within_def publish_operation_def publish_event_def act_simps intro!: same_keeps split: option.splits)

lemma audited_keeps: "within book_keeps (audited context i)"
  unfolding audited_def by (intro keeps.map_err frame_keeps record_intent_frame)

lemma refuse_pool_member_keeps: "within book_keeps (refuse_pool_member sv who new)"
  unfolding refuse_pool_member_def by (intro keeps.intros audited_keeps)

lemma create_brokered_keeps: "within book_keeps (create_brokered sv az who new)"
  unfolding create_brokered_def create_inner_def
  by (intro keeps.intros refuse_pool_member_keeps op_create_keeps publish_operation_keeps audited_keeps)

lemma find_by_idempotency_key_keeps: "within book_keeps (find_by_idempotency_key key)"
  unfolding find_by_idempotency_key_def find_by_idempotency_def
  by (intro keeps.intros frame_keeps statement_frame)

lemma get_state_keeps: "within book_keeps (get_state i)"
  unfolding get_state_def by (intro keeps.intros frame_keeps op_get_frame)

text \<open>The guards of the registered actions read the facts their bounds need and write nothing.\<close>

definition guards_read :: "'z broker \<Rightarrow> bool" where
  "guards_read br \<longleftrightarrow> (\<forall>i action guard. map_of (br_registry br) i = Some action \<longrightarrow> pa_guard action = Some guard \<longrightarrow>
     (\<forall>requester parameters except_request. within tables_same (guard requester parameters except_request)))"

lemma classify_keeps:
  assumes "guards_read br" and "map_of (br_registry br) i = Some action"
  shows "within book_keeps (classify br action requester parameters except_request)"
proof -
  have "within book_keeps (guard requester parameters except_request)" if "pa_guard action = Some guard" for guard
    using assms that by (intro tables_keeps) (simp add: guards_read_def)
  then show ?thesis
    unfolding classify_def Let_def by (auto intro!: keeps.intros split: option.split)
qed

lemma recheck_keeps:
  "guards_read br \<Longrightarrow> map_of (br_registry br) i = Some action \<Longrightarrow> within book_keeps (recheck br az action r)"
  unfolding recheck_def by (intro keeps.intros classify_keeps)

lemma create_and_link_keeps: "within book_keeps (create_and_link br az action r now)"
  unfolding create_and_link_def Let_def
  by (intro keeps.intros fail_request_keeps create_brokered_keeps link_operation_keeps)

lemma start_request_keeps: "guards_read br \<Longrightarrow> within book_keeps (start_request br az r now)"
  unfolding start_request_def
  by (auto intro!: keeps.intros fail_request_keeps find_by_idempotency_key_keeps create_and_link_keeps
      recheck_keeps split: option.split)

lemma sync_operation_keeps: "within book_keeps (sync_operation br r i now)"
  unfolding sync_operation_def
  by (auto intro!: keeps.intros get_state_keeps fail_request_keeps finish_request_keeps
      split: sum.split port_failure.split)

lemma reconcile_keeps: "guards_read br \<Longrightarrow> within book_keeps (reconcile br az r now)"
  unfolding reconcile_def
  by (intro keeps.intros expire_request_keeps start_request_keeps sync_operation_keeps)

lemma latest_keeps: "within book_keeps (latest br r now)"
  unfolding latest_def by (intro keeps.intros expire_request_keeps)

lemma replay_keeps: "guards_read br \<Longrightarrow> within book_keeps (replay br az existing action_id target parameters now)"
  unfolding replay_def Let_def by (intro keeps.intros reconcile_keeps)

lemma req_record_audit_keeps: "within book_keeps (req_record_audit audit)"
  by (rule withinI, rule same_keeps, rule req_record_audit_atomic [THEN conjunct1], rule surjective_pairing)

lemma refuse_by_policy_keeps: "within book_keeps (refuse_by_policy br who r)"
  unfolding refuse_by_policy_def by (intro keeps.intros req_record_audit_keeps)

lemma existing_for_key_keeps: "guards_read br \<Longrightarrow> within book_keeps (existing_for_key br az who key now)"
  unfolding existing_for_key_def by (intro keeps.intros tables_keeps reading_tables reconcile_keeps)

lemma reconcile_each_keeps: "guards_read br \<Longrightarrow> within book_keeps (reconcile_each br az wanted rs now)"
  by (induction rs) (auto simp: Let_def intro!: keeps.intros reconcile_keeps)

lemma list_requests_keeps: "guards_read br \<Longrightarrow> within book_keeps (list_requests br az who wanted limit now)"
  unfolding list_requests_def by (intro keeps.intros tables_keeps reading_tables reconcile_each_keeps)

lemma get_request_keeps: "guards_read br \<Longrightarrow> within book_keeps (get_request br az who i now)"
  unfolding get_request_def by (intro keeps.intros load_request_keeps reconcile_keeps)

lemma authorize_decision_keeps: "within book_keeps (authorize_decision br az who i p)"
  unfolding authorize_decision_def by (intro keeps.intros tables_keeps reading_tables)

lemma decide_request_keeps:
  "new \<in> {ReqApproved, ReqDenied} \<Longrightarrow> within book_keeps (decide_request br r who new note now)"
  unfolding decide_request_def
  by (intro keeps.intros port_transition_keeps load_request_keeps latest_keeps) (auto simp: broker_update_def)

lemma deny_by_policy_keeps: "within book_keeps (deny_by_policy br r who now)"
  unfolding deny_by_policy_def by (intro keeps.intros port_transition_keeps) (simp add: broker_update_def)

lemma approve_request_keeps: "guards_read br \<Longrightarrow> within book_keeps (approve_request br az who i now)"
  unfolding approve_request_def
  by (intro keeps.intros authorize_decision_keeps reconcile_keeps deny_by_policy_keeps decide_request_keeps
      start_request_keeps) simp_all

lemma deny_request_keeps: "guards_read br \<Longrightarrow> within book_keeps (deny_request br az who i note now)"
  unfolding deny_request_def
  by (intro keeps.intros authorize_decision_keeps reconcile_keeps decide_request_keeps) simp_all

text \<open>A new request is pending, or approved by policy; it has a fresh id, and a fresh key for its requester.\<close>

definition initial_request :: "action_request \<Rightarrow> bool" where
  "initial_request r \<longleftrightarrow>
     rr_risk r \<noteq> RiskDeny \<and> rr_operation r = None \<and> (rr_state r, rr_decided_by r) = initial_decision (rr_risk r)"

lemma request_to_row_facts [simp]:
  "rr_id (request_to_row jt r) = rr_id r" "rr_key (request_to_row jt r) = rr_key r"
  "rr_requester (request_to_row jt r) = rr_requester r"
  "rr_decided_by (request_to_row jt r) = rr_decided_by r" "rr_operation (request_to_row jt r) = rr_operation r"
  "rr_state (request_to_row jt r) = request_state_id (rr_state r)"
  "rr_risk (request_to_row jt r) = risk_id (rr_risk r)"
  "rr_parameters (request_to_row jt r) = jt_print jt (rr_parameters r)"
  "rr_action (request_to_row jt r) = rr_action r" "rr_target (request_to_row jt r) = rr_target r"
  "rr_expires (request_to_row jt r) = rr_expires r"
  by (simp_all add: request_to_row_def with_fields_def)

lemma initial_row_ok:
  assumes "initial_request r" and "b (rr_id r) = None"
  shows "row_ok (request_to_row jt r) \<and> book_step b (b(rr_id r \<mapsto> book_entry (request_to_row jt r)))"
proof -
  have "book_entry (request_to_row jt r) = (rr_state r, rr_decided_by r, rr_operation r)"
    by (simp add: book_entry_def request_ids.roundtrip)
  moreover have "request_state_of (rr_state (request_to_row jt r)) = Some (rr_state r)"
    by (simp add: request_ids.roundtrip)
  ultimately show ?thesis
    using assms
    by (cases "rr_risk r") (auto simp: row_ok_def initial_request_def initial_decision_def intro: book_step.intros)
qed

lemma append_request_wf:
  assumes "book_wf rows" and "\<not> request_violation rows row" and "row_ok row"
  shows "book_wf (rows @ [row])"
  using assms
  by (auto simp: book_wf_def request_violation_def list_ex_iff request_keys_def split: option.splits)

lemma append_request_book:
  "\<not> request_violation rows row \<Longrightarrow>
   book_of rows (rr_id row) = None \<and> book_of (rows @ [row]) = (book_of rows)(rr_id row \<mapsto> book_entry row)"
proof -
  assume v: "\<not> request_violation rows row"
  then have "find (\<lambda>r. rr_id r = rr_id row) rows = None"
    by (auto simp: request_violation_def list_ex_iff find_None_iff)
  moreover have "find P (rows @ [row]) = (case find P rows of None \<Rightarrow> if P row then Some row else None | Some r \<Rightarrow> Some r)" for P
    by (induction rows) auto
  ultimately show ?thesis by (auto simp: book_of_find fun_eq_iff split: option.splits)
qed

lemma port_insert_moves:
  assumes "initial_request r"
  shows "within book_moves (port_insert br r audit)"
  unfolding port_insert_def
proof (intro moves.andthen keeps_moves_within [OF notify_keeps], rule withinI)
  fix s :: "'a req_world_scheme"
  obtain res t where m: "req_insert (br_json br) r audit s = (res, t)" by fastforce
  note atomic = req_insert_atomic [OF m]
  let ?row = "request_to_row (br_json br) r"
  show "book_moves s (snd (req_insert (br_json br) r audit s))"
  proof (cases res)
    case (Inl e)
    with atomic m show ?thesis by (simp add: same_keeps keeps_moves)
  next
    case (Inr u)
    with atomic have v: "\<not> request_violation (rw_requests s) ?row" and t: "rw_requests t = rw_requests s @ [?row]"
      by auto
    note book = append_request_book [OF v]
    have "row_ok ?row \<and> book_step (book_of (rw_requests s)) (book_of (rw_requests t))"
      using initial_row_ok [OF assms, of "book_of (rw_requests s)" "br_json br"] book t by simp
    then have "book_moves s t"
      unfolding book_moves_def
      using append_request_wf [OF _ v] request_follows_refl by (auto simp: t)
    with m show ?thesis by simp
  qed
qed

lemma new_request_initial: "k \<noteq> RiskDeny \<Longrightarrow> initial_request (new_request br i who new parameters k now)"
  by (cases k) (simp_all add: initial_request_def new_request_def initial_decision_def)

lemma store_request_moves:
  "guards_read br \<Longrightarrow> initial_request r \<Longrightarrow> within book_moves (store_request br az who r now)"
  unfolding store_request_def
  by (intro moves.intros port_insert_moves keeps_moves_within [OF start_request_keeps]
      keeps_moves_within [OF replay_keeps] keeps_moves_within [OF tables_keeps [OF reading_tables(2)]])

lemma broker_allow_Inr [simp]: "broker_allow az who p r = Inr u \<longleftrightarrow> may az who p r"
  by (auto simp: broker_allow_def may_def split: sum.splits)

lemma sum_check_Inr:
  "(case v of Inl e \<Rightarrow> Inl (g e) | Inr _ \<Rightarrow> Inr y) = Inr z \<longleftrightarrow> v = Inr () \<and> y = z"
  by (cases v) auto

lemma sum_check_Inl:
  "(case v of Inl e \<Rightarrow> Inl (g e) | Inr _ \<Rightarrow> Inr y) = Inl z \<longleftrightarrow> (\<exists>e. v = Inl e \<and> z = g e)"
  by (cases v) auto

lemma admit_request_Inr:
  assumes "admit_request br az who new = Inr (action, parameters)"
  shows "map_of (br_registry br) (nr_action new) = Some action \<and>
    may az who ActionRequest (Some (nr_action new)) \<and>
    check_parameters (br_masking br) (br_json br) (nr_parameters new) = Inr parameters \<and>
    pa_validate action (nr_target new) parameters = Inr () \<and>
    validate_text (br_masking br) ''reason'' (nr_reason new) max_reason_len True = Inr () \<and>
    validate_text (br_masking br) ''target'' (nr_target new) max_target_len False = Inr ()"
  using assms
  by (auto simp: admit_request_def check_then_Inr sum_check_Inr first_error_Inr simp del: first_error.simps
      split: if_splits option.splits)

lemma andthen_fresh: "andthen fresh_uuid f s = f (w_uuid s (w_uuid_no s)) (s\<lparr>w_uuid_no := Suc (w_uuid_no s)\<rparr>)"
  by (simp add: act_simps fresh_uuid_def)

lemma first_error_Inl: "first_error rs = Inl e \<Longrightarrow> Inl e \<in> set rs"
  by (induction rs) (auto split: sum.splits)

lemma validate_text_not_policy: "validate_text mk name t n b \<noteq> Inl (BrPolicyDenied a)"
  by (auto simp: validate_text_def refuse_when_def split: if_splits dest!: first_error_Inl simp del: first_error.simps)

lemma check_then_Inl: "check_then r f = Inl e \<longleftrightarrow> r = Inl e \<or> (\<exists>x. r = Inr x \<and> f x = Inl e)"
  by (cases r) (auto simp: check_then_def)

lemma broker_allow_not_policy: "broker_allow az who p r \<noteq> Inl (BrPolicyDenied a)"
  by (auto simp: broker_allow_def split: sum.splits)

lemma check_parameters_not_policy: "check_parameters mk jt given \<noteq> Inl (BrPolicyDenied a)"
  by (auto simp: check_parameters_def check_then_Inl credential_like_error_def split: json.splits if_splits)

lemma validate_key_not_policy: "validate_idempotency_key key \<noteq> Inl (BrPolicyDenied a)"
  by (auto simp: validate_idempotency_key_def refuse_when_def split: option.splits)

lemma admit_request_not_policy: "admit_request br az who new \<noteq> Inl (BrPolicyDenied a)"
proof
  assume "admit_request br az who new = Inl (BrPolicyDenied a)"
  moreover have "first_error
      [validate_text (br_masking br) ''target'' (nr_target new) max_target_len False,
       validate_text (br_masking br) ''reason'' (nr_reason new) max_reason_len True,
       validate_text (br_masking br) ''origin'' (nr_origin new) max_origin_len False,
       validate_idempotency_key (nr_key new)] \<noteq> Inl (BrPolicyDenied a)"
    by (intro notI, drule first_error_Inl) (use validate_text_not_policy validate_key_not_policy in \<open>simp, metis\<close>)
  ultimately show False
    unfolding admit_request_def
    by (auto simp: check_then_Inl sum_check_Inl broker_allow_not_policy check_parameters_not_policy
        simp del: first_error.simps split: if_splits option.splits)
qed

lemma answer_request_moves:
  assumes "guards_read br" and "map_of (br_registry br) (nr_action new) = Some action"
  shows "within book_moves (answer_request br az who new action parameters now)"
proof -
  have "within book_moves (if k = RiskDeny then refuse_by_policy br who (new_request br i who new parameters k now)
      else store_request br az who (new_request br i who new parameters k now) now)" for i k
    using assms(1) by (simp add: keeps_moves_within [OF refuse_by_policy_keeps] store_request_moves new_request_initial)
  then show ?thesis
    unfolding answer_request_def Let_def
    by (intro moves.andthen moves.case_option moves.ret moves.map_err assms
        keeps_moves_within [OF tables_keeps [OF reading_tables(2)]] keeps_moves_within [OF replay_keeps]
        keeps_moves_within [OF classify_keeps [OF assms]] keeps_moves_within [OF frame_keeps [OF fresh_uuid_frame]])
qed

lemma create_request_moves: "guards_read br \<Longrightarrow> within book_moves (create_request br az who new now)"
proof (cases "admit_request br az who new")
  case (Inl e)
  then show ?thesis by (simp add: create_request_def within_def keeps.refl keeps_moves)
next
  case (Inr x)
  assume g: "guards_read br"
  obtain action parameters where x: "x = (action, parameters)" by (cases x) auto
  with Inr have a: "map_of (br_registry br) (nr_action new) = Some action" using admit_request_Inr by blast
  have "create_request br az who new now s = answer_request br az who new action parameters now s" for s
    by (simp add: create_request_def Inr x)
  with answer_request_moves [OF g a] show ?thesis by (simp add: within_def)
qed

section \<open>Sequences of calls\<close>

datatype broker_call =
    CallCreate string new_action_request int
  | CallExisting string string int
  | CallList string "request_state option" nat int
  | CallGet string string int
  | CallApprove string string int
  | CallDeny string string "string option" int
  | CallAbandon action_request string int

fun run_broker_call :: "'z broker \<Rightarrow> authorizer \<Rightarrow> broker_call \<Rightarrow> 'z req_world_scheme \<Rightarrow> 'z req_world_scheme" where
  "run_broker_call br az (CallCreate who new now) s = snd (create_request br az who new now s)"
| "run_broker_call br az (CallExisting who key now) s = snd (existing_for_key br az who key now s)"
| "run_broker_call br az (CallList who wanted limit now) s = snd (list_requests br az who wanted limit now s)"
| "run_broker_call br az (CallGet who i now) s = snd (get_request br az who i now s)"
| "run_broker_call br az (CallApprove who i now) s = snd (approve_request br az who i now s)"
| "run_broker_call br az (CallDeny who i note now) s = snd (deny_request br az who i note now s)"
| "run_broker_call br az (CallAbandon r why now) s = snd (abandon_request br r why now s)"

text \<open>Each call comes with the authorizer in force when it is made.\<close>

definition run_broker :: "'z broker \<Rightarrow> (authorizer \<times> broker_call) list \<Rightarrow> 'z req_world_scheme \<Rightarrow> 'z req_world_scheme" where
  "run_broker br calls s = fold (\<lambda>(az, c). run_broker_call br az c) calls s"

lemmas call_moves = create_request_moves keeps_moves_within [OF existing_for_key_keeps]
  keeps_moves_within [OF list_requests_keeps] keeps_moves_within [OF get_request_keeps]
  keeps_moves_within [OF approve_request_keeps] keeps_moves_within [OF deny_request_keeps]
  keeps_moves_within [OF abandon_request_keeps]

lemma run_broker_call_moves: "guards_read br \<Longrightarrow> book_moves s (run_broker_call br az c s)"
  by (cases c) (simp_all only: run_broker_call.simps call_moves [THEN within_snd])

lemma run_broker_moves: "guards_read br \<Longrightarrow> book_moves s (run_broker br calls s)"
proof (induction calls arbitrary: s)
  case Nil
  then show ?case by (simp add: run_broker_def moves.refl)
next
  case (Cons c calls)
  obtain az call where c: "c = (az, call)" by (cases c)
  from Cons have "book_moves (run_broker_call br az call s) (run_broker br calls (run_broker_call br az call s))" by simp
  with run_broker_call_moves [OF Cons.prems] moves.trans show ?case
    by (simp add: run_broker_def c) blast
qed

lemma book_step_decided:
  assumes "book_step b c" and "b i = Some (st, who, oper)" and "st \<noteq> ReqPending"
  shows "\<exists>st' oper'. c i = Some (st', who, oper') \<and> can_transition_action_request\<^sup>*\<^sup>* st st' \<and>
    (oper \<noteq> None \<longrightarrow> oper' = oper)"
  using assms(1)
proof cases
  case (link k x op)
  with assms show ?thesis
    by (cases "k = i") (auto simp: can_transition_action_request_def intro!: r_into_rtranclp)
next
  case (give_up k x)
  with assms show ?thesis
    by (cases "k = i") (auto simp: can_transition_action_request_def intro!: r_into_rtranclp)
next
  case (settle k x op st1)
  with assms show ?thesis
    by (cases "k = i") (auto simp: can_transition_action_request_def intro!: r_into_rtranclp)
qed (use assms in auto)

lemma book_steps_decided:
  "book_step\<^sup>*\<^sup>* b c \<Longrightarrow> b i = Some (st, who, oper) \<Longrightarrow> st \<noteq> ReqPending \<Longrightarrow>
   \<exists>st' oper'. c i = Some (st', who, oper') \<and> can_transition_action_request\<^sup>*\<^sup>* st st' \<and>
     st' \<noteq> ReqPending \<and> (oper \<noteq> None \<longrightarrow> oper' = oper)"
proof (induction rule: rtranclp_induct)
  case base
  then show ?case by auto
next
  case (step c d)
  then obtain st1 oper1 where c: "c i = Some (st1, who, oper1)" "can_transition_action_request\<^sup>*\<^sup>* st st1"
      "st1 \<noteq> ReqPending" "oper \<noteq> None \<longrightarrow> oper1 = oper" by blast
  from book_step_decided [OF step.hyps(2) c(1,3)] obtain st2 oper2 where
    d: "d i = Some (st2, who, oper2)" "can_transition_action_request\<^sup>*\<^sup>* st1 st2" "oper1 \<noteq> None \<longrightarrow> oper2 = oper1"
    by blast
  have "st2 \<noteq> ReqPending"
    using d(2) c(3) by (induction rule: rtranclp_induct)
      (auto simp: can_transition_action_request_def split: request_state.splits)
  with c d show ?case by (metis rtranclp_trans)
qed

text \<open>Rows and entries of a well-formed book.\<close>

lemma book_entry_of_row:
  "book_wf rows \<Longrightarrow> r \<in> set rows \<Longrightarrow> book_of rows (rr_id r) = Some (book_entry r)"
  by (simp add: book_of_find book_wf_def find_request_unique)

lemma row_of_book_entry:
  "book_wf rows \<Longrightarrow> book_of rows i = Some e \<Longrightarrow> \<exists>r \<in> set rows. rr_id r = i \<and> book_entry r = e"
  by (auto simp: book_of_find dest: find_Some_in)

lemma row_state_entry:
  assumes "book_wf rows" and "r \<in> set rows"
  shows "\<exists>st. rr_state r = request_state_id st \<and> book_entry r = (st, rr_decided_by r, rr_operation r)"
proof -
  from assms have "request_state_of (rr_state r) \<noteq> None" by (simp add: book_wf_def list_all_iff row_ok_def)
  then obtain st where "request_state_of (rr_state r) = Some st" by blast
  moreover from this have "rr_state r = request_state_id st" by (simp add: request_ids.of_text_iff)
  ultimately show ?thesis by (simp add: book_entry_def)
qed

section \<open>What a use case answers\<close>

lemma row_to_request_facts:
  "row_to_request jt row = Inr r \<Longrightarrow> same_facts row r \<and> rr_state row = request_state_id (rr_state r) \<and>
   rr_decided_by r = rr_decided_by row \<and> rr_operation r = rr_operation row"
  by (auto simp: row_to_request_def check_then_Inr with_fields_def same_facts_def request_state_from_id_Inr
      split: option.splits)

text \<open>The answer is the request itself, or what the store holds under its id.\<close>

definition stored_answer :: "string \<Rightarrow> action_request \<Rightarrow> 'z req_world_scheme \<Rightarrow> bool" where
  "stored_answer i x t \<longleftrightarrow> (\<exists>row \<in> set (rw_requests t). rr_id row = i \<and> same_facts row x)"

definition answers :: "action_request \<Rightarrow> ('z, action_request) br_act \<Rightarrow> bool" where
  "answers r m \<longleftrightarrow> (\<forall>s x t. m s = (Inr x, t) \<longrightarrow> x = r \<or> stored_answer (rr_id r) x t)"

lemma answers_andthen: "(\<And>y. answers r (f y)) \<Longrightarrow> answers r (andthen m f)"
  by (auto simp: answers_def andthen_Inr)

lemma answers_basic: "answers r (ret r)" "answers r (fail e)"
  by (simp_all add: answers_def ret_Inr fail_Inr)

lemma answers_case:
  "answers r m \<Longrightarrow> answers r n \<Longrightarrow> answers r (if b then m else n)"
  "answers r m \<Longrightarrow> (\<And>x. answers r (f x)) \<Longrightarrow> answers r (case v of None \<Rightarrow> m | Some x \<Rightarrow> f x)"
  "(\<And>e. answers r (g e)) \<Longrightarrow> (\<And>x. answers r (h x)) \<Longrightarrow> answers r (case w of Inl e \<Rightarrow> g e | Inr x \<Rightarrow> h x)"
  "(\<And>e. answers r (k1 e)) \<Longrightarrow> (\<And>e. answers r (k2 e)) \<Longrightarrow> (\<And>e. answers r (k3 e)) \<Longrightarrow>
   answers r (case pf of PortNotFound e \<Rightarrow> k1 e | PortConflict e \<Rightarrow> k2 e | PortBackend e \<Rightarrow> k3 e)"
  by (auto split: option.split sum.split port_failure.split)

lemma req_get_answer:
  assumes "req_get jt i s = (Inr (Some x), t)"
  shows "tables_same s t \<and> (\<exists>row. find (\<lambda>r. rr_id r = i) (rw_requests s) = Some row \<and> row_to_request jt row = Inr x)"
proof -
  from assms have "tables_same s t" by (rule withinD [OF reading_tables(1)])
  moreover from assms obtain row where "find (\<lambda>r. rr_id r = i) (rw_requests t) = Some row" "row_to_request jt row = Inr x"
    by (auto simp: req_get_def read_request_def act_Inr split: option.splits)
  ultimately show ?thesis by (auto simp: tables_same_def)
qed

lemma load_request_answer: "load_request br i s = (Inr x, t) \<Longrightarrow> stored_answer i x t"
  by (auto simp: load_request_def act_Inr stored_answer_def tables_same_def
      dest!: req_get_answer find_Some_in row_to_request_facts split: option.splits)

lemma port_transition_Inr:
  assumes "port_transition br i u audit s = (Inr (Some x), t)"
  shows "stored_answer i x t \<and> (\<exists>row \<in> set (rw_requests s). update_applies i u row)"
proof -
  obtain y where m: "req_transition (br_json br) i u audit s = (Inr (Some x), y)" and t: "rw_requests t = rw_requests y"
    using assms by (auto simp: port_transition_def act_Inr notify_def publish_event_def modify_def ret_def split: if_splits)
  from req_transition_atomic [OF m] t show ?thesis
    by (auto simp: stored_answer_def length_Suc_conv filter_eq_Cons_iff dest!: find_Some_in row_to_request_facts)
qed

lemma transition_or_load_answers: "i = rr_id r \<Longrightarrow> answers r (transition_or_load br i u audit)"
  by (auto simp: answers_def transition_or_load_def act_Inr split: option.splits
      dest: port_transition_Inr load_request_answer)

lemma finish_request_answers: "answers r (finish_request br r new failure a now)"
  unfolding finish_request_def by (intro answers_andthen transition_or_load_answers refl)

lemma start_request_answers: "answers r (start_request br az r now)"
  unfolding start_request_def create_and_link_def link_operation_def fail_request_def Let_def
  by (intro answers_andthen answers_case answers_basic finish_request_answers transition_or_load_answers refl)

lemma reconcile_answers: "answers r (reconcile br az r now)"
  unfolding reconcile_def expire_request_def sync_operation_def fail_request_def
  by (intro answers_andthen answers_case answers_basic finish_request_answers start_request_answers)

text \<open>A row and its successor, found again by its id.\<close>

lemma kept_row:
  assumes "book_keeps s t" and "book_wf (rw_requests s)"
    and "row \<in> set (rw_requests s)" and "row' \<in> set (rw_requests t)" and "rr_id row' = rr_id row"
  shows "request_follows row row'"
proof -
  from assms(1,2) have wf: "distinct (map rr_id (rw_requests t))" and f: "list_all2 request_follows (rw_requests s) (rw_requests t)"
    by (auto simp: book_keeps_def book_wf_def)
  from assms(3) obtain n where n: "n < length (rw_requests s)" "row = rw_requests s ! n" by (auto simp: in_set_conv_nth)
  with f have m: "n < length (rw_requests t)" "request_follows row (rw_requests t ! n)"
    using list_all2_lengthD [OF f] list_all2_nthD [OF f, of n] by simp_all
  from m(2) assms(5) have "rr_id (rw_requests t ! n) = rr_id row'" by (simp add: request_follows_def same_facts_def)
  with wf m(1) assms(4) have "rw_requests t ! n = row'"
    by (metis find_request_unique nth_mem option.inject)
  with m(2) show ?thesis by simp
qed

lemma kept_pending:
  assumes "book_keeps s t" and "book_wf (rw_requests s)" and "row \<in> set (rw_requests s)"
    and "row' \<in> set (rw_requests t)" and "rr_id row' = rr_id row" and "rr_state row' = ''pending''"
  shows "rr_state row = ''pending''"
proof (rule ccontr)
  assume np: "rr_state row \<noteq> ''pending''"
  obtain st where st: "rr_state row = request_state_id st" "book_entry row = (st, rr_decided_by row, rr_operation row)"
    using row_state_entry [OF assms(2,3)] by blast
  from assms(1,2) have wf: "book_wf (rw_requests t)"
    and steps: "book_step\<^sup>*\<^sup>* (book_of (rw_requests s)) (book_of (rw_requests t))" by (auto simp: book_keeps_def)
  from np st have "st \<noteq> ReqPending" by auto
  with book_steps_decided [OF steps] book_entry_of_row [OF assms(2,3)] st obtain st' oper where
    "book_of (rw_requests t) (rr_id row) = Some (st', rr_decided_by row, oper)" "st' \<noteq> ReqPending" by metis
  with book_entry_of_row [OF wf assms(4)] assms(5,6) show False
    by (auto simp: book_entry_def request_state_of_def request_state_from_id_def request_states_def)
qed

section \<open>What a creation adds\<close>

definition stored_as :: "json_text \<Rightarrow> action_request set \<Rightarrow> request_row \<Rightarrow> bool" where
  "stored_as jt S row \<longleftrightarrow> (\<exists>r \<in> S. request_follows (request_to_row jt r) row)"

definition book_adds :: "json_text \<Rightarrow> action_request set \<Rightarrow> 'z req_world_scheme \<Rightarrow> 'z req_world_scheme \<Rightarrow> bool" where
  "book_adds jt S s t \<longleftrightarrow> book_moves s t \<and>
     (book_wf (rw_requests s) \<longrightarrow>
      (\<forall>row \<in> set (rw_requests t). rr_id row \<in> rr_id ` set (rw_requests s) \<or> stored_as jt S row))"

lemma moved_row:
  assumes "book_moves s t" and "book_wf (rw_requests s)"
    and "row \<in> set (rw_requests s)" and "row' \<in> set (rw_requests t)" and "rr_id row' = rr_id row"
  shows "request_follows row row'"
proof -
  from assms(1,2) obtain old new where t: "rw_requests t = old @ new" "book_wf (rw_requests t)"
      "list_all2 request_follows (rw_requests s) old" by (auto simp: book_moves_def)
  from assms(3) obtain n where n: "n < length (rw_requests s)" "row = rw_requests s ! n" by (auto simp: in_set_conv_nth)
  with t(3) have m: "n < length old" "request_follows row (old ! n)"
    using list_all2_lengthD [OF t(3)] list_all2_nthD [OF t(3), of n] by simp_all
  from m(2) assms(5) have "rr_id (old ! n) = rr_id row'" by (simp add: request_follows_def same_facts_def)
  moreover have "old ! n \<in> set (rw_requests t)" using m(1) t(1) by simp
  ultimately have "old ! n = row'"
    using t(2) assms(4) by (metis book_wf_def find_request_unique option.inject)
  with m(2) show ?thesis by simp
qed

interpretation adds: effect_relation "book_adds jt S :: 'z req_world_scheme \<Rightarrow> 'z req_world_scheme \<Rightarrow> bool"
  for jt S
proof unfold_locales
  fix s t u :: "'z req_world_scheme"
  show "book_adds jt S s s" by (auto simp: book_adds_def moves.refl)
  assume st: "book_adds jt S s t" and tu: "book_adds jt S t u"
  then have mv: "book_moves s t" "book_moves t u" by (auto simp: book_adds_def)
  show "book_adds jt S s u"
    unfolding book_adds_def
  proof (intro conjI impI ballI)
    show "book_moves s u" by (rule moves.trans [OF mv])
    fix row
    assume wf: "book_wf (rw_requests s)" and row: "row \<in> set (rw_requests u)"
    from mv(1) wf have wft: "book_wf (rw_requests t)" by (simp add: book_moves_def)
    with tu row have "rr_id row \<in> rr_id ` set (rw_requests t) \<or> stored_as jt S row"
      by (simp add: book_adds_def)
    then show "rr_id row \<in> rr_id ` set (rw_requests s) \<or> stored_as jt S row"
    proof
      assume "rr_id row \<in> rr_id ` set (rw_requests t)"
      then obtain row1 where r1: "row1 \<in> set (rw_requests t)" "rr_id row = rr_id row1" by auto
      have "request_follows row1 row" by (rule moved_row [OF mv(2) wft r1(1) row r1(2)])
      moreover have "rr_id row1 \<in> rr_id ` set (rw_requests s) \<or> stored_as jt S row1"
        using st wf r1(1) by (simp add: book_adds_def)
      ultimately show ?thesis
        using r1(2) by (auto simp: stored_as_def intro: request_follows_trans)
    qed simp
  qed
qed

lemma keeps_adds: "book_keeps s t \<Longrightarrow> book_adds jt S s t"
proof -
  assume k: "book_keeps s t"
  have "rr_id row \<in> rr_id ` set (rw_requests s)" if "book_wf (rw_requests s)" "row \<in> set (rw_requests t)" for row
  proof -
    from k that(1) have "list_all2 request_follows (rw_requests s) (rw_requests t)" by (simp add: book_keeps_def)
    with that(2) obtain r where "r \<in> set (rw_requests s)" "request_follows r row"
      by (fastforce simp: list_all2_conv_all_nth in_set_conv_nth)
    then show ?thesis by (auto simp: request_follows_def same_facts_def)
  qed
  with keeps_moves [OF k] show ?thesis by (simp add: book_adds_def)
qed

lemma keeps_adds_within: "within book_keeps m \<Longrightarrow> within (book_adds jt S) m"
  by (simp add: within_def keeps_adds)

lemma port_insert_adds:
  assumes "initial_request r" and "r \<in> S" and "jt = br_json br"
  shows "within (book_adds jt S) (port_insert br r audit)"
proof (rule withinI)
  fix s :: "'a req_world_scheme"
  obtain res t where m: "port_insert br r audit s = (res, t)" by fastforce
  have "rw_requests t = rw_requests s \<or> rw_requests t = rw_requests s @ [request_to_row jt r]"
  proof -
    obtain res1 t1 where i: "req_insert (br_json br) r audit s = (res1, t1)" by fastforce
    then have "rw_requests t = rw_requests t1"
      using m by (auto simp: port_insert_def notify_def publish_event_def act_simps split: sum.splits if_splits)
    with req_insert_atomic [OF i] assms(3) show ?thesis by (cases res1) auto
  qed
  moreover have "stored_as jt S (request_to_row jt r)"
    using assms(2) by (auto simp: stored_as_def request_follows_def same_facts_def)
  ultimately have "rr_id row \<in> rr_id ` set (rw_requests s) \<or> stored_as jt S row" if "row \<in> set (rw_requests t)" for row
    using that by auto
  with withinD [OF port_insert_moves [OF assms(1)] m] m show "book_adds jt S s (snd (port_insert br r audit s))"
    by (simp add: book_adds_def)
qed

lemma store_request_adds:
  "guards_read br \<Longrightarrow> initial_request r \<Longrightarrow> r \<in> S \<Longrightarrow> jt = br_json br \<Longrightarrow>
   within (book_adds jt S) (store_request br az who r now)"
  unfolding store_request_def
  by (intro adds.intros port_insert_adds keeps_adds_within [OF start_request_keeps]
      keeps_adds_within [OF replay_keeps] keeps_adds_within [OF tables_keeps [OF reading_tables(2)]])

definition creatable :: "'z broker \<Rightarrow> string \<Rightarrow> new_action_request \<Rightarrow> json \<Rightarrow> int \<Rightarrow> action_request set" where
  "creatable br who new parameters now = {new_request br i who new parameters k now | i k. k \<noteq> RiskDeny}"

lemma answer_request_adds:
  assumes "guards_read br" and "map_of (br_registry br) (nr_action new) = Some action"
  shows "within (book_adds (br_json br) (creatable br who new parameters now))
    (answer_request br az who new action parameters now)"
proof -
  let ?S = "creatable br who new parameters now"
  have "within (book_adds (br_json br) ?S)
      (if k = RiskDeny then refuse_by_policy br who (new_request br i who new parameters k now)
       else store_request br az who (new_request br i who new parameters k now) now)" for i k
    using assms(1) by (auto simp: creatable_def intro!: keeps_adds_within [OF refuse_by_policy_keeps]
      store_request_adds new_request_initial)
  then show ?thesis
    unfolding answer_request_def Let_def
    by (intro adds.andthen adds.case_option adds.ret adds.map_err assms
        keeps_adds_within [OF tables_keeps [OF reading_tables(2)]] keeps_adds_within [OF replay_keeps]
        keeps_adds_within [OF classify_keeps [OF assms]] keeps_adds_within [OF frame_keeps [OF fresh_uuid_frame]])
qed

lemma refuse_by_policy_effect:
  assumes "refuse_by_policy br who r s = (res, t)"
  shows "rw_requests t = rw_requests s \<and> isl res \<and>
    (res = Inl (BrPolicyDenied a) \<longrightarrow>
      (\<exists>e. w_ledger t = w_ledger s @ [e] \<and> \<not> ae_allowed e \<and> ae_actor e = who \<and> ae_resource e = None))"
proof (cases "request_audit who (permission_id ActionRequest) r None ReqDenied []")
  case (Inl e)
  then have "\<exists>d. e = BrBackend ''audit'' d" by (auto simp: request_audit_def split: sum.splits)
  with Inl assms show ?thesis by (auto simp: refuse_by_policy_def)
next
  case (Inr audit)
  then have who: "ai_actor audit = who" by (auto simp: request_audit_def split: sum.splits)
  let ?a = "audit\<lparr>ai_resource := None, ai_decision := decision_deny RiskClassDeny\<rparr>"
  obtain r1 t1 where m: "req_record_audit ?a s = (r1, t1)" by fastforce
  with Inr assms have "t = t1 \<and> (case r1 of Inl d \<Rightarrow> res = Inl (BrBackend ''action requests'' d) | Inr _ \<Rightarrow> res = Inl (BrPolicyDenied (rr_action r)))"
    by (auto simp: refuse_by_policy_def act_simps split: sum.splits)
  with req_record_audit_atomic [OF m] who show ?thesis
    by (cases r1) (auto simp: intent_event_def decision_deny_def)
qed

section \<open>Properties\<close>

text \<open>
  C2. The broker refines the abstract book of requests: any sequence of calls, with whatever
  authorizers, clocks and failing statements, moves the stored requests by steps of the book
  and never loses or rewrites what was asked for. A request is decided once and by one
  decider, only an approved one gets an operation and it gets one, and only with an operation
  does it succeed.
\<close>
theorem broker_refines_book:
  assumes "book_wf (rw_requests s)" and "guards_read br" and "run_broker br calls s = t"
  shows "book_wf (rw_requests t) \<and>
    book_step\<^sup>*\<^sup>* (book_of (rw_requests s)) (book_of (rw_requests t)) \<and>
    list_all2 request_follows (rw_requests s) (take (length (rw_requests s)) (rw_requests t))"
proof -
  have "book_moves s t" using run_broker_moves [OF assms(2)] assms(3) by blast
  with assms(1) obtain old new where moved: "rw_requests t = old @ new" "list_all2 request_follows (rw_requests s) old"
      "book_wf (rw_requests t)" "book_step\<^sup>*\<^sup>* (book_of (rw_requests s)) (book_of (rw_requests t))"
    by (auto simp: book_moves_def)
  then have "take (length (rw_requests s)) (rw_requests t) = old" by (simp add: list_all2_lengthD)
  with moved show ?thesis by simp
qed

text \<open>
  A decision is final: once a request has left the pending state, no later sequence of
  calls changes who decided it or the operation it is linked to, or moves it out of a
  terminal state.
\<close>
theorem decision_final:
  assumes "book_wf (rw_requests s)" and "guards_read br" and "run_broker br calls s = t"
    and "r \<in> set (rw_requests s)" and "rr_state r \<noteq> ''pending''"
  shows "\<exists>r' \<in> set (rw_requests t). rr_id r' = rr_id r \<and> rr_decided_by r' = rr_decided_by r \<and>
    (rr_operation r = None \<or> rr_operation r' = rr_operation r) \<and>
    (rr_state r \<in> {''approved'', ''executing''} \<or> rr_state r' = rr_state r)"
proof -
  have "book_moves s t" using run_broker_moves [OF assms(2)] assms(3) by blast
  with assms(1) have wf: "book_wf (rw_requests t)"
    and steps: "book_step\<^sup>*\<^sup>* (book_of (rw_requests s)) (book_of (rw_requests t))"
    by (auto simp: book_moves_def)
  obtain st where st: "rr_state r = request_state_id st" "book_entry r = (st, rr_decided_by r, rr_operation r)"
    using row_state_entry [OF assms(1,4)] by blast
  with book_entry_of_row [OF assms(1,4)] assms(5) book_steps_decided [OF steps] obtain st' oper' where
    t: "book_of (rw_requests t) (rr_id r) = Some (st', rr_decided_by r, oper')"
    and can: "can_transition_action_request\<^sup>*\<^sup>* st st'" and oper: "rr_operation r \<noteq> None \<longrightarrow> oper' = rr_operation r"
    by (metis request_state_id.simps(1))
  from row_of_book_entry [OF wf t] obtain r' where r': "r' \<in> set (rw_requests t)" "rr_id r' = rr_id r"
      "book_entry r' = (st', rr_decided_by r, oper')" by blast
  with row_state_entry [OF wf r'(1)] have r'': "rr_state r' = request_state_id st'"
      "rr_decided_by r' = rr_decided_by r" "rr_operation r' = oper'" by auto
  have "st' = st \<or> st \<in> {ReqApproved, ReqExecuting}"
    using can request_cycle.terminal_final [of st st'] st(1) assms(5)
    by (cases st) (auto simp: request_terminal_def)
  with r' r'' oper st(1) show ?thesis by (intro bexI [of _ r']) auto
qed

text \<open>
  C5. An approval that answers was due: the request was pending, its deadline ahead, the
  approver allowed to approve that action and holding what the action asks of its approver,
  and policy did not deny it.
\<close>
theorem approve_sound:
  assumes "book_wf (rw_requests s)" and "guards_read br" and "approve_request br az who i now s = (Inr x, t)"
  shows "\<exists>row \<in> set (rw_requests s). rr_id row = i \<and> rr_state row = ''pending'' \<and> now < rr_expires row \<and>
    may az who ActionApprove (Some (rr_action row)) \<and>
    (\<exists>action. map_of (br_registry br) (rr_action row) = Some action \<and>
       effective_risk (br_settings br) action \<noteq> RiskDeny \<and>
       opt_all (\<lambda>p. may az who p None) (pa_approver action))"
proof -
  from assms(3) obtain found r action y s1 s2 u where
    found: "authorize_decision br az who i ActionApprove s = (Inr found, s1)" and
    r: "reconcile br az found now s1 = (Inr r, s2)" and
    action: "map_of (br_registry br) (rr_action r) = Some action" "effective_risk (br_settings br) action \<noteq> RiskDeny"
      "(case pa_approver action of None \<Rightarrow> Inr () | Some p \<Rightarrow> broker_allow az who p None) = Inr ()" and
    decided: "decide_request br r who ReqApproved None now s2 = (Inr y, u)"
    by (auto simp: approve_request_def deny_by_policy_def act_Inr split: option.splits if_splits sum.splits)
  from found obtain row where row: "row \<in> set (rw_requests s)" "rr_id row = i" "row_to_request (br_json br) row = Inr found"
      and s1: "tables_same s s1" and may: "may az who ActionApprove (Some (rr_action found))"
    by (auto simp: authorize_decision_def act_Inr split: option.splits dest!: req_get_answer find_Some_in)
  note facts = row_to_request_facts [OF row(3), THEN conjunct1]
  have wf: "book_wf (rw_requests s1)" and row1: "row \<in> set (rw_requests s1)"
    using s1 assms(1) row(1) by (simp_all add: tables_same_def)
  have keep: "book_keeps s1 s2" by (rule withinD [OF reconcile_keeps [OF assms(2)] r])
  from decided obtain row2 where row2: "row2 \<in> set (rw_requests s2)" "rr_id row2 = rr_id r"
      "rr_state row2 = ''pending''" "now < rr_expires row2"
    by (auto simp: decide_request_def act_Inr update_applies_def split: option.splits dest!: port_transition_Inr)
  have "r = found \<or> stored_answer (rr_id found) r s2"
    using reconcile_answers r unfolding answers_def by blast
  then have same: "same_facts row r"
  proof
    assume "stored_answer (rr_id found) r s2"
    then obtain row' where "row' \<in> set (rw_requests s2)" "rr_id row' = rr_id row" "same_facts row' r"
      using facts by (auto simp: stored_answer_def same_facts_def)
    with kept_row [OF keep wf row1] show ?thesis by (auto simp: request_follows_def same_facts_def)
  qed (use facts in simp)
  then have id2: "rr_id row2 = rr_id row" using row2(2) by (simp add: same_facts_def)
  have "rr_state row = ''pending''" by (rule kept_pending [OF keep wf row1 row2(1) id2 row2(3)])
  moreover have "rr_expires row2 = rr_expires row"
    using kept_row [OF keep wf row1 row2(1) id2] by (simp add: request_follows_def same_facts_def)
  moreover have "opt_all (\<lambda>p. may az who p None) (pa_approver action)"
    using action(3) by (cases "pa_approver action") (auto simp: opt_all_def)
  ultimately show ?thesis
    using row row2(4) may action same facts by (intro bexI [of _ row]) (auto simp: same_facts_def)
qed

text \<open>
  C18. A request is stored only after every check: its requester may ask for the action, the
  action is offered and accepts the target and the parameters, the parameters are bounded and
  free of credentials, the deadline is set, and policy does not deny it.
\<close>
theorem stored_request_checked:
  assumes "book_wf (rw_requests s)" and "guards_read br" and "create_request br az who new now s = (res, t)"
    and "row \<in> set (rw_requests t)" and "rr_id row \<notin> rr_id ` set (rw_requests s)"
  shows "rr_requester row = who \<and> rr_action row = nr_action new \<and> rr_target row = nr_target new \<and>
    may az who ActionRequest (Some (rr_action row)) \<and> rr_risk row \<noteq> ''deny'' \<and>
    rr_expires row = saturating_add now (bs_ttl (br_settings br)) \<and>
    (\<exists>action parameters. map_of (br_registry br) (rr_action row) = Some action \<and>
       pa_validate action (rr_target row) parameters = Inr () \<and>
       rr_parameters row = jt_print (br_json br) parameters \<and> length (rr_parameters row) \<le> max_parameters_bytes \<and>
       parameter_depth parameters \<le> max_parameter_depth \<and> \<not> credential_like (br_masking br) parameters)"
proof (cases "admit_request br az who new")
  case (Inl e)
  with assms show ?thesis by (auto simp: create_request_def)
next
  case (Inr x)
  obtain action parameters where x: "x = (action, parameters)" by (cases x) auto
  with Inr have admitted: "admit_request br az who new = Inr (action, parameters)" by simp
  note checks = admit_request_Inr [OF admitted]
  from assms(3) have "answer_request br az who new action parameters now s = (res, t)"
    by (simp add: create_request_def admitted)
  with withinD [OF answer_request_adds [OF assms(2)]] checks
  have "book_adds (br_json br) (creatable br who new parameters now) s t" by blast
  with assms(1,4,5) obtain r where r: "r \<in> creatable br who new parameters now"
      "request_follows (request_to_row (br_json br) r) row"
    by (auto simp: book_adds_def stored_as_def)
  then obtain i k where k: "k \<noteq> RiskDeny" "r = new_request br i who new parameters k now"
    by (auto simp: creatable_def)
  have "risk_id k \<noteq> ''deny''" using k(1) by (cases k) auto
  with r(2) k(2) checks check_parameters_Inr [of "br_masking br" "br_json br" "nr_parameters new" parameters]
  show ?thesis by (auto simp: request_follows_def same_facts_def new_request_def)
qed

text \<open>
  Policy that denies an action leaves nothing to approve: no request is stored, whatever
  guard the action has and whatever fails, and when nothing fails the refusal is one audit
  event that names no request.
\<close>
theorem denied_stores_nothing:
  assumes "map_of (br_registry br) (nr_action new) = Some action"
    and "effective_risk (br_settings br) action = RiskDeny" and "nr_key new = None"
    and "create_request br az who new now s = (res, t)"
  shows "isl res \<and> rw_requests t = rw_requests s \<and>
    (\<forall>a. res \<noteq> Inl (BrPolicyDenied a) \<or>
      (\<exists>e. w_ledger t = w_ledger s @ [e] \<and> \<not> ae_allowed e \<and> ae_actor e = who \<and> ae_resource e = None))"
proof (cases "admit_request br az who new")
  case (Inl e)
  have "e \<noteq> BrPolicyDenied a" for a using Inl admit_request_not_policy by metis
  with Inl assms(4) show ?thesis by (auto simp: create_request_def)
next
  case (Inr x)
  then obtain parameters where "admit_request br az who new = Inr (action, parameters)"
    using assms(1) admit_request_Inr [of br az who new "fst x" "snd x"] by (cases x) auto
  then have admitted: "admit_request br az who new = Inr (action, parameters)" .
  have "classify br action who parameters None = ret RiskDeny"
    using assms(2) by (simp add: classify_def split: option.split)
  then have r: "refuse_by_policy br who (new_request br (w_uuid s (w_uuid_no s)) who new parameters RiskDeny now)
      (s\<lparr>w_uuid_no := Suc (w_uuid_no s)\<rparr>) = (res, t)"
    using assms(3,4)
    by (simp add: create_request_def admitted answer_request_def Let_def andthen_fresh)
  show ?thesis
    using refuse_by_policy_effect [OF r] by auto
qed

text \<open>
  An action runs without a person only where policy says so: the operator named its class
  as auto, or declared it so by default, or configured bounds that admit the request and did
  not pin the class. Bounds never undo a denial, and a request outside them never runs by itself.
\<close>
theorem auto_only_by_policy:
  assumes "classify br action requester parameters except_request s = (Inr k, t)"
  shows "(k = RiskDeny) = (effective_risk (br_settings br) action = RiskDeny) \<and>
    (k \<noteq> RiskAuto \<or>
     effective_risk (br_settings br) action = RiskAuto \<and>
       (\<forall>guard. pa_guard action \<noteq> Some guard \<or>
          fst (guard requester parameters except_request s) \<noteq> Inr BoundsOutside) \<or>
     \<not> has_override (br_settings br) (pa_id action) \<and>
       (\<exists>guard. pa_guard action = Some guard \<and>
          fst (guard requester parameters except_request s) = Inr BoundsWithin))"
proof (cases "pa_guard action")
  case None
  with assms show ?thesis by (auto simp: classify_def ret_def)
next
  case (Some guard)
  with assms show ?thesis
    by (cases "effective_risk (br_settings br) action")
       (auto simp: classify_def Let_def act_Inr split: if_splits)
qed

section \<open>Witnesses\<close>

definition demo_action :: "'z provider_action" where
  "demo_action = \<lparr>pa_id = ''demo.run'', pa_kind = ''dns.record.upsert'', pa_risk = RiskApprove,
     pa_validate = (\<lambda>_ _. Inr ()), pa_comparable = (\<lambda>p. p), pa_operation = (\<lambda>_. Inl ''no zone''),
     pa_guard = None, pa_approver = Some MachineProvision\<rparr>"

definition demo_broker :: "risk_class \<Rightarrow> 'z broker" where
  "demo_broker k = \<lparr>br_registry = [(''demo.run'', demo_action)],
     br_settings = \<lparr>bs_ttl = 60000, bs_overrides = [(''demo.run'', k)]\<rparr>, br_service = demo_service,
     br_masking = \<lparr>mk_text = (\<lambda>t. t), mk_json = (\<lambda>v. v), mk_failure = (\<lambda>t. t)\<rparr>,
     br_json = \<lparr>jt_print = (\<lambda>_. ''{}''), jt_parse = (\<lambda>_. Some (JObject []))\<rparr>, br_events = True\<rparr>"

definition demo_request_row :: "string \<Rightarrow> request_state \<Rightarrow> string option \<Rightarrow> request_row" where
  "demo_request_row i st decider =
     \<lparr>rr_id = i, rr_requester = ''agent'', rr_origin = ''api'', rr_action = ''demo.run'', rr_target = ''zone'',
      rr_parameters = ''{}'', rr_risk = ''approve'', rr_reason = ''why'', rr_state = request_state_id st,
      rr_decided_by = decider, rr_decided_at = None, rr_note = None, rr_operation = None, rr_failure = None,
      rr_correlation = None, rr_key = None, rr_created = 1, rr_expires = 100, rr_updated = 1\<rparr>"

definition demo_book :: "request_row list \<Rightarrow> req_world" where
  "demo_book rows = \<lparr>w_now = 10, w_faults = [], w_uuid = (\<lambda>n. replicate (Suc n) CHR ''u''), w_uuid_no = 0,
     w_ledger = [], w_pending_since = 0, ow_rows = [], ow_hub = hub_new ''e'' 8, rw_requests = rows\<rparr>"

lemma demo_guards_read: "guards_read (demo_broker k)"
  by (simp add: guards_read_def demo_broker_def demo_action_def)

lemma demo_book_wf:
  "book_wf [demo_request_row ''r1'' ReqPending None]" "book_wf [demo_request_row ''r1'' ReqDenied (Some ''alice'')]"
  by (simp_all add: book_wf_def request_keys_def row_ok_def book_entry_def demo_request_row_def
      request_state_of_def request_state_from_id_def request_states_def)

lemma demo_book_sel: "rw_requests (demo_book rows) = rows" "w_faults (demo_book rows) = []" "ow_rows (demo_book rows) = []"
  by (simp_all add: demo_book_def)

theorem broker_refines_book_witness:
  "\<exists>t. run_broker (demo_broker RiskApprove) [(allow_all, CallApprove ''alice'' ''r1'' 10)]
      (demo_book [demo_request_row ''r1'' ReqPending None]) = t \<and> book_wf (rw_requests t)"
  using broker_refines_book [OF _ demo_guards_read refl, of "demo_book [demo_request_row ''r1'' ReqPending None]"]
  by (simp add: demo_book_sel demo_book_wf)

theorem decision_final_witness:
  "\<exists>r'. r' \<in> set (rw_requests (run_broker (demo_broker RiskApprove) [(allow_all, CallApprove ''bob'' ''r1'' 10)]
      (demo_book [demo_request_row ''r1'' ReqDenied (Some ''alice'')]))) \<and>
    rr_decided_by r' = Some ''alice'' \<and> rr_state r' = ''denied''"
  using decision_final [OF _ demo_guards_read refl, of "demo_book [demo_request_row ''r1'' ReqDenied (Some ''alice'')]"
      "demo_request_row ''r1'' ReqDenied (Some ''alice'')"]
  by (auto simp: demo_book_sel demo_book_wf) (auto simp: demo_request_row_def)

lemma demo_broker_sel:
  "br_registry (demo_broker k) = [(''demo.run'', demo_action)]" "bs_ttl (br_settings (demo_broker k)) = 60000"
  "effective_risk (br_settings (demo_broker k)) demo_action = k" "br_events (demo_broker k) = True"
  "jt_parse (br_json (demo_broker k)) p = Some (JObject [])" "jt_print (br_json (demo_broker k)) v = ''{}''"
  "mk_text (br_masking (demo_broker k)) p = p" "mk_json (br_masking (demo_broker k)) v = v"
  "mk_failure (br_masking (demo_broker k)) p = p" "br_service (demo_broker k) = demo_service"
  "pa_id demo_action = ''demo.run''" "pa_kind demo_action = ''dns.record.upsert''" "pa_approver demo_action = Some MachineProvision"
  "pa_guard demo_action = None" "pa_operation demo_action r = Inl ''no zone''" "pa_validate demo_action p v = Inr ()"
  by (simp_all add: demo_broker_def demo_action_def effective_risk_def)

lemma demo_may: "requires_resource p \<longrightarrow> r \<noteq> None \<Longrightarrow> may allow_all who p r"
  by (simp add: may_def authorize_def allow_all_def decision_allow_def)

definition demo_new :: new_action_request where
  "demo_new = \<lparr>nr_action = ''demo.run'', nr_target = ''zone'', nr_parameters = JNull, nr_reason = ''why'',
     nr_origin = ''api'', nr_correlation = None, nr_key = None\<rparr>"

lemma demo_admitted: "admit_request (demo_broker k) allow_all ''agent'' demo_new = Inr (demo_action, JObject [])"
  by (simp add: admit_request_def demo_new_def check_then_def broker_allow_def authorize_def allow_all_def decision_allow_def
      demo_broker_sel validate_text_def refuse_when_def validate_idempotency_key_def check_parameters_def
      credential_like_def valid_action_id_def max_action_id_len_def is_ascii_lower_def is_ascii_digit_def
      is_continuation_def is_whitespace_def is_space_def char_count_def max_target_len_def max_reason_len_def
      max_origin_len_def without_newlines_def max_parameters_bytes_def max_parameter_depth_def)

lemma demo_new_sel: "nr_action demo_new = ''demo.run''" "nr_key demo_new = None"
  by (simp_all add: demo_new_def)

theorem denied_stores_nothing_witness:
  "isl (fst (create_request (demo_broker RiskDeny) allow_all ''agent'' demo_new 10 (demo_book []))) \<and>
   rw_requests (snd (create_request (demo_broker RiskDeny) allow_all ''agent'' demo_new 10 (demo_book []))) = []"
  using denied_stores_nothing [of "demo_broker RiskDeny" demo_new demo_action, OF _ _ _ prod.collapse [symmetric],
      of allow_all "''agent''" 10 "demo_book []"]
  by (simp add: demo_broker_sel demo_new_sel demo_book_sel)

theorem auto_only_by_policy_witness:
  "effective_risk (br_settings (demo_broker RiskAuto)) (demo_action :: unit provider_action) = RiskAuto \<and>
   fst (classify (demo_broker RiskAuto) demo_action ''agent'' JNull None (demo_book [])) = Inr RiskAuto"
proof -
  have k: "classify (demo_broker RiskAuto) demo_action ''agent'' JNull None (demo_book []) = (Inr RiskAuto, demo_book [])"
    by (simp add: classify_def demo_broker_sel ret_def)
  from auto_only_by_policy [OF k] k show ?thesis by (auto simp: demo_broker_sel)
qed

lemma no_fault_steps:
  "w_faults s = [] \<Longrightarrow> req_statement c s = (Inr (), s)"
  "w_faults s = [] \<Longrightarrow> append_intent_tx a s = (Inr (w_uuid s (w_uuid_no s)),
     s\<lparr>w_uuid_no := Suc (w_uuid_no s),
       w_ledger := w_ledger s @ [intent_event a (next_seq (w_ledger s)) (w_uuid s (w_uuid_no s)) (w_now s)]\<rparr>)"
  by (simp_all add: req_statement_def append_intent_tx_def act_simps external_def fresh_uuid_def)

lemma req_insert_ok:
  assumes "w_faults s = []" and "\<not> request_violation (rw_requests s) (request_to_row jt r)"
  shows "\<exists>t. req_insert jt r a s = (Inr (), t) \<and> w_faults t = [] \<and> rw_requests t = rw_requests s @ [request_to_row jt r]"
  using assms
  by (simp add: req_insert_def atomically_def andthen_def asks_def modify_def no_fault_steps)

lemma req_transition_ok:
  assumes "w_faults s = []" and "can_transition_action_request (tu_from u) (tu_to u)"
    and "rw_requests s = [row]" and "update_applies i u row" and "row_to_request jt (apply_update u row) = Inr x"
  shows "\<exists>t. req_transition jt i u a s = (Inr (Some x), t) \<and> w_faults t = [] \<and> ow_rows t = ow_rows s \<and>
    rw_requests t = [apply_update u row]"
proof -
  have "rr_id row = i" using assms(4) by (simp add: update_applies_def)
  with assms show ?thesis
    by (simp add: req_transition_def atomically_def andthen_def asks_def modify_def ret_def lift_def no_fault_steps
        validate_action_request_transition_def)
qed

lemma audit_keys: "\<not> forbidden_key ''actionId''" "\<not> forbidden_key ''target''" "\<not> forbidden_key ''riskClass''"
    "\<not> forbidden_key ''requester''" "\<not> forbidden_key ''from''" "\<not> forbidden_key ''to''"
  by code_simp+

lemma risk_id_length: "length (risk_id k) \<le> 2048"
  by (cases k) simp_all

lemma request_state_id_length: "length (request_state_id st) \<le> 2048"
  by (cases st) simp_all

lemma request_audit_ok:
  assumes "length (rr_action r) \<le> 2048" "length (rr_target r) \<le> 2048" "length (rr_requester r) \<le> 2048"
  shows "\<exists>a. request_audit actor action r old new [] = Inr a"
  using assms audit_keys risk_id_length [of "rr_risk r"] request_state_id_length
  by (cases old)
     (simp_all add: request_audit_def optional_fact_def metadata_insert_def max_metadata_value_bytes_def
        max_metadata_entries_def not_less)

lemma demo_uuid: "w_uuid (demo_book rows) 0 = ''u''" "w_uuid_no (demo_book rows) = 0"
  by (simp_all add: demo_book_def)

lemma demo_stores:
  "\<exists>res t. create_request (demo_broker RiskApprove) allow_all ''agent'' demo_new 10 (demo_book []) = (res, t) \<and>
     map rr_id (rw_requests t) = [''u'']"
proof -
  let ?br = "demo_broker RiskApprove :: unit broker" and ?s = "(demo_book [])\<lparr>w_uuid_no := Suc 0\<rparr>"
  let ?r = "new_request ?br ''u'' ''agent'' demo_new (JObject []) RiskApprove 10"
  have k: "classify ?br demo_action ''agent'' (JObject []) None = ret RiskApprove"
    by (simp add: classify_def demo_broker_sel)
  have "length (rr_action ?r) \<le> 2048" "length (rr_target ?r) \<le> 2048" "length (rr_requester ?r) \<le> 2048"
    by (simp_all add: new_request_def demo_new_def)
  from request_audit_ok [OF this] obtain a where
    a: "request_audit ''agent'' (permission_id ActionRequest) ?r None ReqPending [] = Inr a" by blast
  obtain t where t: "req_insert (br_json ?br) ?r a ?s = (Inr (), t)" "rw_requests t = [request_to_row (br_json ?br) ?r]"
    using req_insert_ok [of ?s "br_json ?br" ?r a] by (auto simp: demo_book_def request_violation_def)
  have "\<exists>u. port_insert ?br ?r a ?s = (Inr (), u) \<and> rw_requests u = rw_requests t"
    unfolding port_insert_def andthen_def t(1) by (simp add: notify_def demo_broker_sel publish_event_def modify_def)
  then obtain u where u: "port_insert ?br ?r a ?s = (Inr (), u)" "rw_requests u = rw_requests t" by blast
  have st: "rr_state ?r = ReqPending" by (simp add: new_request_def initial_decision_def)
  have "store_request ?br allow_all ''agent'' ?r 10 ?s = (Inr ?r, u)"
    unfolding store_request_def st a by (simp add: andthen_def lift_def attempt_def u ret_def)
  then have "create_request ?br allow_all ''agent'' demo_new 10 (demo_book []) = (Inr ?r, u)"
    by (simp add: create_request_def demo_admitted answer_request_def demo_new_sel k andthen_fresh Let_def demo_uuid)
  moreover have "rr_id ?r = ''u''" by (simp add: new_request_def)
  ultimately show ?thesis using t u by auto
qed

theorem stored_request_checked_witness:
  "\<exists>res t row. create_request (demo_broker RiskApprove) allow_all ''agent'' demo_new 10 (demo_book []) = (res, t) \<and>
     rw_requests t = [row] \<and> rr_requester row = ''agent'' \<and> rr_expires row = 60010"
proof -
  obtain res t where c: "create_request (demo_broker RiskApprove) allow_all ''agent'' demo_new 10 (demo_book []) = (res, t)"
    and "map rr_id (rw_requests t) = [''u'']" using demo_stores by (elim exE conjE)
  then obtain row where row: "rw_requests t = [row]" "rr_id row = ''u''" by auto
  from stored_request_checked [OF _ demo_guards_read c, of row] row c show ?thesis
    by (auto simp: demo_book_sel book_wf_def request_keys_def demo_broker_sel saturating_add_def sat_i64_def
        i64_min_def i64_max_def)
qed

definition demo_request_of :: "request_row \<Rightarrow> request_state \<Rightarrow> action_request" where
  "demo_request_of row st = with_fields row (JObject []) RiskApprove st"

lemma demo_row_request:
  assumes "rr_state row = request_state_id st" and "rr_risk row = ''approve''"
  shows "row_to_request (br_json (demo_broker k)) row = Inr (demo_request_of row st)"
proof -
  have "risk_from_id ''approve'' = Inr RiskApprove" by (simp add: risk_from_id_def)
  with assms show ?thesis
    by (simp add: demo_broker_sel row_to_request_def check_then_def demo_request_of_def)
qed

lemma demo_request_of_sel:
  "rr_id (demo_request_of row st) = rr_id row" "rr_state (demo_request_of row st) = st"
  "rr_action (demo_request_of row st) = rr_action row" "rr_target (demo_request_of row st) = rr_target row"
  "rr_requester (demo_request_of row st) = rr_requester row" "rr_expires (demo_request_of row st) = rr_expires row"
  "rr_decided_by (demo_request_of row st) = rr_decided_by row" "rr_operation (demo_request_of row st) = rr_operation row"
  by (simp_all add: demo_request_of_def with_fields_def)

lemma demo_transition:
  fixes s :: "'z req_world_scheme" and br :: "'z broker"
  assumes br: "br = demo_broker k" and "w_faults s = []" and "rw_requests s = [row]" and "update_applies i u row"
    and "can_transition_action_request (tu_from u) (tu_to u)" and "rr_risk row = ''approve''"
  shows "\<exists>t. port_transition br i u a s = (Inr (Some (demo_request_of (apply_update u row) (tu_to u))), t) \<and>
    w_faults t = [] \<and> ow_rows t = ow_rows s \<and> rw_requests t = [apply_update u row]"
proof -
  let ?x = "demo_request_of (apply_update u row) (tu_to u)"
  have "row_to_request (br_json br) (apply_update u row) = Inr ?x"
    using assms(6) by (simp add: br demo_row_request apply_update_def)
  then obtain t where t: "req_transition (br_json br) i u a s = (Inr (Some ?x), t)"
      "w_faults t = []" "ow_rows t = ow_rows s" "rw_requests t = [apply_update u row]"
    using req_transition_ok assms by blast
  show ?thesis
    unfolding port_transition_def andthen_def t(1)
    by (simp add: br notify_def demo_broker_sel publish_event_def modify_def ret_def t)
qed

lemma demo_audit:
  assumes "rr_action row = ''demo.run''" "rr_target row = ''zone''" "rr_requester row = ''agent''"
  shows "\<exists>a. request_audit actor action (demo_request_of row st) old new [] = Inr a"
  using request_audit_ok [of "demo_request_of row st"] assms by (simp add: demo_request_of_sel)

lemma demo_approves:
  "\<exists>x t. approve_request (demo_broker RiskApprove) allow_all ''alice'' ''r1'' 10
     (demo_book [demo_request_row ''r1'' ReqPending None]) = (Inr x, t) \<and> rr_state x = ReqFailed"
proof -
  let ?br = "demo_broker RiskApprove :: unit broker"
  let ?row = "demo_request_row ''r1'' ReqPending None" and ?s = "demo_book [demo_request_row ''r1'' ReqPending None]"
  let ?r = "demo_request_of ?row ReqPending"
  have row: "rr_id ?row = ''r1''" "rr_state ?row = request_state_id ReqPending" "rr_risk ?row = ''approve''"
      "rr_action ?row = ''demo.run''" "rr_target ?row = ''zone''" "rr_requester ?row = ''agent''" "rr_expires ?row = 100"
      "rr_operation ?row = None"
    by (simp_all add: demo_request_row_def)
  have faults: "w_faults ?s = []" by (simp add: demo_book_sel)
  have get: "req_get (br_json ?br) ''r1'' ?s = (Inr (Some ?r), ?s)"
    by (simp add: req_get_def read_request_def andthen_def no_fault_steps asks_def demo_book_sel row lift_def ret_def
        demo_row_request [OF row(2,3)])
  have found: "authorize_decision ?br allow_all ''alice'' ''r1'' ActionApprove ?s = (Inr ?r, ?s)"
    by (simp add: authorize_decision_def andthen_def map_err_def get lift_def ret_def broker_allow_def authorize_def
        allow_all_def decision_allow_def)
  have rec: "reconcile ?br allow_all ?r 10 ?s = (Inr ?r, ?s)"
    by (simp add: reconcile_def demo_request_of_sel row action_request_deadline_passed_def ret_def)
  obtain a where a: "request_audit ''alice'' (permission_id ActionApprove) ?r (Some ReqPending) ReqApproved [] = Inr a"
    using demo_audit row by blast
  let ?u = "\<lparr>tu_from = ReqPending, tu_to = ReqApproved, tu_decided_by = Some ''alice'', tu_note = None,
     tu_operation = None, tu_failure = None, tu_at = 10, tu_unexpired = True\<rparr>"
  let ?row1 = "apply_update ?u ?row" and ?r1 = "demo_request_of (apply_update ?u ?row) ReqApproved"
  obtain s1 where s1: "port_transition ?br ''r1'' ?u a ?s = (Inr (Some ?r1), s1)" "w_faults s1 = []"
      "ow_rows s1 = []" "rw_requests s1 = [?row1]"
    using demo_transition [of ?br RiskApprove ?s ?row "''r1''" ?u a] row faults
    by (auto simp: demo_book_sel update_applies_def can_transition_action_request_def)
  have decide: "decide_request ?br ?r ''alice'' ReqApproved None 10 ?s = (Inr ?r1, s1)"
    unfolding decide_request_def if_P [OF refl] a
    by (simp add: andthen_def lift_def map_err_def demo_request_of_sel row s1 ret_def)
  have row1: "rr_id ?row1 = ''r1''" "rr_action ?row1 = ''demo.run''" "rr_target ?row1 = ''zone''"
      "rr_requester ?row1 = ''agent''" "rr_risk ?row1 = ''approve''" "rr_state ?row1 = request_state_id ReqApproved"
      "rr_decided_by ?row1 = Some ''alice''" "rr_operation ?row1 = None"
    using row by (simp_all add: apply_update_def coalesce_def)
  obtain b where b: "request_audit system_actor ''action.fail'' ?r1 (Some ReqApproved) ReqFailed [] = Inr b"
    using demo_audit row1 by blast
  let ?v = "\<lparr>tu_from = ReqApproved, tu_to = ReqFailed, tu_decided_by = None, tu_note = None, tu_operation = None,
     tu_failure = Some ''the action could not start: no zone'', tu_at = 10, tu_unexpired = False\<rparr>"
  obtain s2 where s2: "port_transition ?br ''r1'' ?v b s1 = (Inr (Some (demo_request_of (apply_update ?v ?row1) ReqFailed)), s2)"
    using demo_transition [of ?br RiskApprove s1 ?row1 "''r1''" ?v b] row1 s1
    by (auto simp: update_applies_def can_transition_action_request_def)
  have failed: "fail_request ?br ?r1 ''the action could not start: no zone'' 10 s1 =
      (Inr (demo_request_of (apply_update ?v ?row1) ReqFailed), s2)"
    by (simp add: fail_request_def finish_request_def demo_request_of_sel row1 row b demo_broker_sel transition_or_load_def)
       (simp add: andthen_def map_err_def s2 ret_def)
  have none: "find_by_idempotency_key (broker_key ?r1) s1 = (Inr None, s1)"
    by (simp add: find_by_idempotency_key_def find_by_idempotency_def andthen_def statement_def map_err_def external_def
        s1 asks_def)
  have ok: "recheck ?br allow_all demo_action ?r1 = ret None"
    by (simp add: recheck_def demo_broker_sel demo_request_of_sel row1 row demo_may policy_auto_def
        requires_resource_def)
  have started: "start_request ?br allow_all ?r1 10 s1 = (Inr (demo_request_of (apply_update ?v ?row1) ReqFailed), s2)"
    by (simp add: start_request_def demo_broker_sel demo_request_of_sel row1 row create_and_link_def)
       (simp add: andthen_def map_err_def none ok ret_def failed)
  have held: "broker_allow allow_all ''alice'' MachineProvision None = Inr ()"
    by (simp add: demo_may requires_resource_def)
  have "approve_request ?br allow_all ''alice'' ''r1'' 10 ?s = (Inr (demo_request_of (apply_update ?v ?row1) ReqFailed), s2)"
    by (simp add: approve_request_def andthen_def found rec require_pending_def lift_def demo_request_of_sel row
        can_transition_action_request_def demo_broker_sel held decide started)
  then show ?thesis by (simp add: demo_request_of_sel)
qed

theorem approve_sound_witness:
  "\<exists>x t. approve_request (demo_broker RiskApprove) allow_all ''alice'' ''r1'' 10
     (demo_book [demo_request_row ''r1'' ReqPending None]) = (Inr x, t) \<and>
   may allow_all ''alice'' MachineProvision None"
proof -
  from demo_approves obtain x t where a: "approve_request (demo_broker RiskApprove) allow_all ''alice'' ''r1'' 10
     (demo_book [demo_request_row ''r1'' ReqPending None]) = (Inr x, t)" by blast
  from approve_sound [OF _ demo_guards_read a] a show ?thesis
    by (auto simp: demo_book_sel demo_book_wf demo_broker_sel opt_all_def split: if_splits)
qed

end
