(* ===== verification/Node_Facts.thy ===== *)
theory Node_Facts
  imports Prelude Interfaces Json
begin

text \<open>
  Capability facts and how a node collects them: the fact vocabulary of
  \<open>crates/fleet-core/src/machine.rs\<close>, the isolated probe runner of
  \<open>crates/fleetd/src/probes.rs\<close>, and the JSON form of a fact on the wire.
\<close>

section \<open>Facts\<close>

datatype capability_status = FactKnown | FactUnknown | FactUnavailable | FactStale

definition capability_id :: "capability_status \<Rightarrow> string" where
  "capability_id s = (case s of FactKnown \<Rightarrow> ''known'' | FactUnknown \<Rightarrow> ''unknown''
     | FactUnavailable \<Rightarrow> ''unavailable'' | FactStale \<Rightarrow> ''stale'')"

definition capability_from_id :: "string \<Rightarrow> capability_status option" where
  "capability_from_id t =
     (if t = ''known'' then Some FactKnown else if t = ''unknown'' then Some FactUnknown
      else if t = ''unavailable'' then Some FactUnavailable else if t = ''stale'' then Some FactStale else None)"

interpretation capability: text_enum capability_id "[FactKnown, FactUnknown, FactUnavailable, FactStale]" capability_from_id
proof unfold_locales
  fix x :: capability_status
  show "x \<in> set [FactKnown, FactUnknown, FactUnavailable, FactStale]" by (cases x) auto
  show "capability_from_id (capability_id x) = Some x"
    by (cases x) (simp_all add: capability_from_id_def capability_id_def)
qed (auto simp: capability_from_id_def capability_id_def split: if_splits)

record capability_fact =
  cf_namespace :: string
  cf_name :: string
  cf_value :: "string option"
  cf_status :: capability_status
  cf_observed :: int
  cf_source :: string

type_synonym fact_key = "string \<times> string"

definition key_of :: "capability_fact \<Rightarrow> fact_key" where
  "key_of f = (cf_namespace f, cf_name f)"

definition reserved_fact_namespace :: string where "reserved_fact_namespace = ''fleet''"

definition max_capability_facts :: nat where "max_capability_facts = 256"

definition fact_char :: "char \<Rightarrow> bool" where
  "fact_char c \<longleftrightarrow> is_ascii_lower c \<or> is_ascii_digit c \<or> c = CHR ''_'' \<or> c = CHR ''-''"

definition validate_part :: "string \<Rightarrow> string \<Rightarrow> string + unit" where
  "validate_part label part =
     (if part = [] \<or> length part > 64 then Inl (''capability '' @ label @ '' must be 1..=64 characters'')
      else if \<not> list_all fact_char part
      then Inl (''capability '' @ label @ '' must be lowercase [a-z0-9_-], not '' @ debug_str part)
      else Inr ())"

definition fact_validate :: "capability_fact \<Rightarrow> string + unit" where
  "fact_validate f =
     first_error [validate_part ''namespace'' (cf_namespace f), validate_part ''name'' (cf_name f)]"

definition effective_status :: "int \<Rightarrow> int \<Rightarrow> capability_fact \<Rightarrow> capability_status" where
  "effective_status now threshold f =
     (if cf_status f = FactKnown \<and> saturating_sub now (cf_observed f) > threshold then FactStale else cf_status f)"

section \<open>Probes\<close>

definition max_fact_value_bytes :: nat where "max_fact_value_bytes = 4 * 1024"
definition max_facts_per_report :: nat where "max_facts_per_report = max_capability_facts"

definition truncate_at_char_boundary :: "string \<Rightarrow> nat \<Rightarrow> string" where
  "truncate_at_char_boundary t bound = take (boundary_below t (min bound (length t))) t"

text \<open>What the thread of a probe comes to: an answer, a panic, a time-out, or a dead thread.\<close>

datatype 'a thread_end = ThreadAnswered 'a | ThreadPanicked | ThreadTimedOut | ThreadDied

definition run_isolated :: "'a thread_end \<Rightarrow> string + (string + 'a)" where
  "run_isolated e =
     (case e of
        ThreadAnswered x \<Rightarrow> Inr (Inr x)
      | ThreadPanicked \<Rightarrow> Inr (Inl ''the probe panicked; it is isolated from the others'')
      | ThreadTimedOut \<Rightarrow> Inl ''the probe did not answer within 2s''
      | ThreadDied \<Rightarrow> Inl ''the probe thread died before answering'')"

text \<open>A probe with what its run comes to in this collection.\<close>

record probe =
  pb_name :: string
  pb_version :: nat
  pb_run :: "(string + capability_fact list) thread_end"

record probe_error =
  pe_probe :: string
  pe_detail :: string

definition stamp_fact :: "string \<Rightarrow> nat \<Rightarrow> int \<Rightarrow> capability_fact \<Rightarrow> capability_fact" where
  "stamp_fact name version now f =
     f\<lparr>cf_value := map_option (\<lambda>v. if length v > max_fact_value_bytes
            then truncate_at_char_boundary v max_fact_value_bytes else v) (cf_value f),
       cf_source := ''fleetd/'' @ name @ ''/'' @ decimal version, cf_observed := now\<rparr>"

text \<open>The facts of one probe; \<open>None\<close> says that the bound of the report was reached.\<close>

fun add_facts :: "(capability_fact \<Rightarrow> capability_fact) \<Rightarrow> capability_fact list \<Rightarrow> capability_fact list \<Rightarrow>
    capability_fact list \<times> bool" where
  "add_facts stamp facts [] = (facts, False)"
| "add_facts stamp facts (f # fs) =
     (if length facts \<ge> max_facts_per_report then (facts, True) else add_facts stamp (facts @ [stamp f]) fs)"

fun runner_collect :: "int \<Rightarrow> probe list \<Rightarrow> capability_fact list \<Rightarrow> probe_error list \<Rightarrow>
    capability_fact list \<times> probe_error list" where
  "runner_collect now [] facts errors = (facts, errors)"
| "runner_collect now (p # ps) facts errors =
     (let failed = (\<lambda>d. runner_collect now ps facts (errors @ [\<lparr>pe_probe = pb_name p, pe_detail = d\<rparr>])) in
      case run_isolated (pb_run p) of
        Inr (Inr (Inr probe_facts)) \<Rightarrow>
          (case add_facts (stamp_fact (pb_name p) (pb_version p) now) facts probe_facts of
             (facts', True) \<Rightarrow> (facts', errors @ [\<lparr>pe_probe = pb_name p,
                pe_detail = ''the fact bound was reached; further facts are dropped''\<rparr>])
           | (facts', False) \<Rightarrow> runner_collect now ps facts' errors)
      | Inr (Inr (Inl d)) \<Rightarrow> failed d
      | Inr (Inl d) \<Rightarrow> failed d
      | Inl d \<Rightarrow> failed d)"

lemma truncate_length: "length (truncate_at_char_boundary t n) \<le> n"
  using boundary_below_le [of t "min n (length t)"] by (simp add: truncate_at_char_boundary_def)

definition fact_bounded :: "int \<Rightarrow> capability_fact \<Rightarrow> bool" where
  "fact_bounded now f \<longleftrightarrow> cf_observed f = now \<and>
     (case cf_value f of None \<Rightarrow> True | Some v \<Rightarrow> length v \<le> max_fact_value_bytes)"

lemma stamp_fact_bounded: "fact_bounded now (stamp_fact name version now f)"
  by (auto simp: fact_bounded_def stamp_fact_def truncate_length split: option.splits)

lemma add_facts_bounded:
  assumes "list_all (fact_bounded now) facts" and "length facts \<le> max_facts_per_report"
    and "add_facts (stamp_fact name version now) facts fs = (facts', b)"
  shows "list_all (fact_bounded now) facts' \<and> length facts' \<le> max_facts_per_report"
  using assms
proof (induction fs arbitrary: facts)
  case Nil
  then show ?case by simp
next
  case (Cons f fs)
  show ?case
  proof (cases "length facts \<ge> max_facts_per_report")
    case True
    with Cons.prems show ?thesis by simp
  next
    case False
    with Cons.prems show ?thesis by (intro Cons.IH [of "facts @ [stamp_fact name version now f]"]) (simp_all add: stamp_fact_bounded)
  qed
qed

text \<open>
  C26. Whatever the probes answer, panic or hang: a collection has at most 256 facts, every
  value is at most 4 KiB and every fact carries the time of the collection.
\<close>

theorem collection_bounded:
  "length (fst (runner_collect now ps [] [])) \<le> 256 \<and>
   list_all (fact_bounded now) (fst (runner_collect now ps [] []))"
proof -
  have "list_all (fact_bounded now) (fst (runner_collect now ps facts errors)) \<and>
      length (fst (runner_collect now ps facts errors)) \<le> max_facts_per_report"
    if "list_all (fact_bounded now) facts \<and> length facts \<le> max_facts_per_report" for facts errors
    using that
  proof (induction ps arbitrary: facts errors)
    case Nil
    then show ?case by simp
  next
    case (Cons p ps)
    note added = add_facts_bounded [OF conjunct1 [OF Cons.prems] conjunct2 [OF Cons.prems]]
    from Cons show ?case
      by (auto simp: Let_def split: sum.splits prod.splits bool.splits dest: added)
  qed
  from this [of "[]" "[]"] show ?thesis by (simp add: max_facts_per_report_def max_capability_facts_def)
qed

section \<open>The JSON form\<close>

definition json_option :: "string option \<Rightarrow> json" where
  "json_option v = (case v of None \<Rightarrow> JNull | Some t \<Rightarrow> JString t)"

definition fact_json :: "capability_fact \<Rightarrow> json" where
  "fact_json f = JObject
     [(''namespace'', JString (cf_namespace f)), (''name'', JString (cf_name f)), (''value'', json_option (cf_value f)),
      (''status'', JString (capability_id (cf_status f))), (''observedAt'', JInt (cf_observed f)),
      (''source'', JString (cf_source f))]"

text \<open>Reading: an optional text may be null, a unit variant is a text or an object with a null.\<close>

fun option_of_json :: "json \<Rightarrow> string option option" where
  "option_of_json JNull = Some None"
| "option_of_json (JString t) = Some (Some t)"
| "option_of_json _ = None"

fun capability_of_json :: "json \<Rightarrow> capability_status option" where
  "capability_of_json (JString t) = capability_from_id t"
| "capability_of_json (JObject [(t, JNull)]) = capability_from_id t"
| "capability_of_json _ = None"

fun i64_of_json :: "json \<Rightarrow> int option" where
  "i64_of_json (JInt n) = (if in_i64 n then Some n else None)"
| "i64_of_json _ = None"

definition fact_of_fields :: "json \<Rightarrow> json \<Rightarrow> json \<Rightarrow> json \<Rightarrow> json \<Rightarrow> json \<Rightarrow> capability_fact option" where
  "fact_of_fields ns n v st at src =
     (case (json_str ns, json_str n, option_of_json v, capability_of_json st, i64_of_json at, json_str src) of
        (Some ns, Some n, Some v, Some st, Some at, Some src) \<Rightarrow>
          Some \<lparr>cf_namespace = ns, cf_name = n, cf_value = v, cf_status = st, cf_observed = at, cf_source = src\<rparr>
      | _ \<Rightarrow> None)"

text \<open>A struct is read from an object, or from an array of its fields in order.\<close>

fun fact_of_json :: "json \<Rightarrow> capability_fact option" where
  "fact_of_json (JObject m) =
     (case (map_of m ''namespace'', map_of m ''name'', map_of m ''status'', map_of m ''observedAt'', map_of m ''source'') of
        (Some ns, Some n, Some st, Some at, Some src) \<Rightarrow>
          fact_of_fields ns n (case map_of m ''value'' of None \<Rightarrow> JNull | Some v \<Rightarrow> v) st at src
      | _ \<Rightarrow> None)"
| "fact_of_json (JArray [ns, n, v, st, at, src]) = fact_of_fields ns n v st at src"
| "fact_of_json _ = None"

fun all_of :: "'a option list \<Rightarrow> 'a list option" where
  "all_of [] = Some []"
| "all_of (None # xs) = None"
| "all_of (Some x # xs) = map_option ((#) x) (all_of xs)"

definition facts_of_json :: "json \<Rightarrow> capability_fact list option" where
  "facts_of_json v = (case json_array v of None \<Rightarrow> None | Some xs \<Rightarrow> all_of (map fact_of_json xs))"

definition facts_json :: "capability_fact list \<Rightarrow> json" where
  "facts_json fs = JArray (map fact_json fs)"

lemma option_of_json_option [simp]: "option_of_json (json_option v) = Some v"
  by (cases v) (simp_all add: json_option_def)

lemma fact_of_fact_json: "in_i64 (cf_observed f) \<Longrightarrow> fact_of_json (fact_json f) = Some f"
  by (simp add: fact_json_def fact_of_fields_def capability.roundtrip)

lemma facts_of_facts_json: "list_all (\<lambda>f. in_i64 (cf_observed f)) fs \<Longrightarrow> facts_of_json (facts_json fs) = Some fs"
  by (induction fs) (auto simp: facts_of_json_def facts_json_def fact_of_fact_json)

end
