(* ===== verification/Node_Journal.thy ===== *)
theory Node_Journal
  imports Audit_Ledger "HOL-Library.AList"
begin

text \<open>
  The command journal of a node, \<open>crates/fleetd/src/journal.rs\<close>: an append-only file of one
  JSON record per line, its in-memory index, the repair of a torn tail on opening, and the
  compaction that rewrites the file. Every system call is a step that may fail; a failing
  write may leave part of its bytes.
\<close>

section \<open>Records\<close>

record journal_fault =
  jf_code :: int
  jf_message :: string

record journal_result =
  js_status :: string
  js_exit :: "int option"
  js_truncated :: bool
  js_duration :: int
  js_stopped :: bool
  js_fault :: "journal_fault option"
  js_payload :: string

record journal_record =
  jr_operation :: string
  jr_kind :: string
  jr_accepted :: int
  jr_result :: "journal_result option"

datatype journal_error = JournalIo string | JournalRewrite string

definition journal_error_text :: "journal_error \<Rightarrow> string" where
  "journal_error_text e =
     (case e of
        JournalIo detail \<Rightarrow> ''journal io failed: '' @ detail
      | JournalRewrite detail \<Rightarrow> ''journal compaction failed: '' @ detail)"

text \<open>
  The serializer, the parser and the lossy decoding of bytes are the library's. The order in
  which a hash map yields its values is arbitrary and a parameter too.
\<close>

record journal_codec =
  jc_print :: "journal_record \<Rightarrow> string"
  jc_parse :: "string \<Rightarrow> journal_record option"
  jc_lossy :: "string \<Rightarrow> string"
  jc_order :: "journal_record list \<Rightarrow> journal_record list"

type_synonym journal_index = "(string \<times> journal_record) list"

text \<open>
  \<open>nd_partial\<close> is how many bytes a failing write leaves behind. After a compaction whose
  reopening failed the append handle still names the file that was replaced: \<open>nd_stale\<close>.
\<close>

record node_world = world +
  nd_file :: string
  nd_index :: journal_index
  nd_since :: nat
  nd_partial :: nat
  nd_stale :: bool

type_synonym ('z, 'a) nj_act = "('z node_world_scheme, journal_error, 'a) act"

definition compaction_threshold :: nat where "compaction_threshold = 512"

definition newline :: char where "newline = CHR 0x0A"

definition io_step :: "('z, unit) nj_act" where "io_step = map_err JournalIo external"

definition rewrite_step :: "('z, unit) nj_act" where "rewrite_step = map_err JournalRewrite external"

section \<open>Opening\<close>

text \<open>\<open>str::lines\<close>: the pieces between line feeds, without a carriage return before one.\<close>

definition strip_return :: "string \<Rightarrow> string" where
  "strip_return l = (if l \<noteq> [] \<and> last l = CHR 0x0D then butlast l else l)"

definition text_lines :: "string \<Rightarrow> string list" where
  "text_lines t =
     (let ps = split_on newline t in
      map strip_return (butlast ps) @ (if last ps = [] then [] else [last ps]))"

definition index_insert :: "journal_record \<Rightarrow> journal_index \<Rightarrow> journal_index" where
  "index_insert r idx = AList.update (jr_operation r) r idx"

fun load_lines :: "journal_codec \<Rightarrow> string list \<Rightarrow> journal_index \<Rightarrow> nat \<Rightarrow> journal_index \<times> nat" where
  "load_lines jc [] idx good = (idx, good)"
| "load_lines jc (l # ls) idx good =
     (case jc_parse jc l of
        Some r \<Rightarrow> load_lines jc ls (index_insert r idx) (good + length l + 1)
      | None \<Rightarrow> (idx, good))"

text \<open>
  \<open>fs::write\<close> truncates the file and then writes; a write that fails leaves the first
  \<open>nd_partial\<close> bytes.
\<close>

definition rewrite_file :: "string \<Rightarrow> ('z, unit) nj_act" where
  "rewrite_file t =
     andthen io_step (\<lambda>_.
     andthen (modify (\<lambda>s. s\<lparr>nd_file := []\<rparr>)) (\<lambda>_.
     (\<lambda>s. case io_step s of
        (Inr _, u) \<Rightarrow> (Inr (), u\<lparr>nd_file := t\<rparr>)
      | (Inl e, u) \<Rightarrow> (Inl e, u\<lparr>nd_file := take (nd_partial s) t\<rparr>))))"

definition journal_open :: "journal_codec \<Rightarrow> ('z, unit) nj_act" where
  "journal_open jc =
     andthen io_step (\<lambda>_.
     andthen io_step (\<lambda>_.
     andthen (asks (\<lambda>s. jc_lossy jc (nd_file s))) (\<lambda>content.
     case load_lines jc (text_lines content) [] 0 of
       (idx, good) \<Rightarrow>
         andthen (if good < length content
                  then rewrite_file (take good content) else ret ()) (\<lambda>_.
         andthen io_step (\<lambda>_.
         modify (\<lambda>s. s\<lparr>nd_index := idx, nd_since := 0, nd_stale := False\<rparr>))))))"

section \<open>Reading\<close>

definition record_count :: "'z node_world_scheme \<Rightarrow> nat" where
  "record_count s = length (nd_index s)"

definition is_in_flight :: "string \<Rightarrow> 'z node_world_scheme \<Rightarrow> bool" where
  "is_in_flight i s \<longleftrightarrow> (case map_of (nd_index s) i of None \<Rightarrow> False | Some r \<Rightarrow> jr_result r = None)"

definition terminal_result :: "string \<Rightarrow> 'z node_world_scheme \<Rightarrow> journal_result option" where
  "terminal_result i s = Option.bind (map_of (nd_index s) i) jr_result"

section \<open>Appending\<close>

text \<open>\<open>writeln!\<close> on a file is two writes: the line and the line feed.\<close>

definition write_bytes :: "string \<Rightarrow> ('z, unit) nj_act" where
  "write_bytes t =
     (\<lambda>s. case io_step s of
        (Inr _, u) \<Rightarrow> (Inr (), if nd_stale s then u else u\<lparr>nd_file := nd_file s @ t\<rparr>)
      | (Inl e, u) \<Rightarrow> (Inl e, if nd_stale s then u else u\<lparr>nd_file := nd_file s @ take (nd_partial s) t\<rparr>))"

fun write_temporary :: "string list \<Rightarrow> ('z, unit) nj_act" where
  "write_temporary [] = ret ()"
| "write_temporary (l # ls) =
     andthen rewrite_step (\<lambda>_. andthen rewrite_step (\<lambda>_. write_temporary ls))"

definition render :: "journal_codec \<Rightarrow> journal_record list \<Rightarrow> string" where
  "render jc rs = concat (map (\<lambda>r. jc_print jc r @ [newline]) rs)"

definition compact :: "journal_codec \<Rightarrow> ('z, unit) nj_act" where
  "compact jc =
     andthen (asks (\<lambda>s. jc_order jc (map snd (nd_index s)))) (\<lambda>rs.
     andthen rewrite_step (\<lambda>_.
     andthen (write_temporary (map (jc_print jc) rs)) (\<lambda>_.
     andthen rewrite_step (\<lambda>_.
     andthen rewrite_step (\<lambda>_.
     andthen (modify (\<lambda>s. s\<lparr>nd_file := render jc rs, nd_stale := True\<rparr>)) (\<lambda>_.
     andthen rewrite_step (\<lambda>_.
     modify (\<lambda>s. s\<lparr>nd_stale := False\<rparr>))))))))"

definition append_record :: "journal_codec \<Rightarrow> journal_record \<Rightarrow> ('z, unit) nj_act" where
  "append_record jc r =
     andthen (modify (\<lambda>s. s\<lparr>nd_index := index_insert r (nd_index s)\<rparr>)) (\<lambda>_.
     andthen (write_bytes (jc_print jc r)) (\<lambda>_.
     andthen (write_bytes [newline]) (\<lambda>_.
     andthen io_step (\<lambda>_.
     andthen (asks (\<lambda>s. nd_since s + 1)) (\<lambda>since.
     andthen (modify (\<lambda>s. s\<lparr>nd_since := since\<rparr>)) (\<lambda>_.
     if since \<ge> compaction_threshold
     then andthen (modify (\<lambda>s. s\<lparr>nd_since := 0\<rparr>)) (\<lambda>_. compact jc)
     else ret ()))))))"

definition record_accepted :: "journal_codec \<Rightarrow> string \<Rightarrow> string \<Rightarrow> ('z, unit) nj_act" where
  "record_accepted jc i kind =
     andthen (asks w_now) (\<lambda>now.
     append_record jc \<lparr>jr_operation = i, jr_kind = kind, jr_accepted = now, jr_result = None\<rparr>)"

definition record_result :: "journal_codec \<Rightarrow> string \<Rightarrow> journal_result \<Rightarrow> ('z, unit) nj_act" where
  "record_result jc i result =
     andthen (asks (\<lambda>s. map_of (nd_index s) i)) (\<lambda>found.
     case found of
       None \<Rightarrow> fail (JournalIo (''no accepted record for operation '' @ i))
     | Some r \<Rightarrow>
         let r' = r\<lparr>jr_result := Some result\<rparr> in
         andthen (modify (\<lambda>s. s\<lparr>nd_index := AList.update i r' (nd_index s)\<rparr>)) (\<lambda>_.
         append_record jc r'))"

section \<open>What the journal promises\<close>

text \<open>The abstract journal: the newest record of each operation.\<close>

definition latest_of :: "journal_record list \<Rightarrow> string \<Rightarrow> journal_record option" where
  "latest_of rs i = find (\<lambda>r. jr_operation r = i) (rev rs)"

text \<open>
  What is documented of the serializer, the parser and the decoder, for the records at hand:
  the line of a record has no line break, parses to the record, and no proper prefix of it
  parses, decoded or not; complete lines are decoded as they are.
\<close>

definition codec_ok :: "journal_codec \<Rightarrow> journal_record set \<Rightarrow> bool" where
  "codec_ok jc S \<longleftrightarrow>
     (\<forall>r \<in> S. jc_parse jc (jc_print jc r) = Some r \<and> newline \<notin> set (jc_print jc r) \<and>
        CHR 0x0D \<notin> set (jc_print jc r) \<and> jc_print jc r \<noteq> [] \<and>
        jc_lossy jc (jc_print jc r) = jc_print jc r \<and>
        (\<forall>k < length (jc_print jc r). jc_parse jc (jc_lossy jc (take k (jc_print jc r))) = None \<and>
           newline \<notin> set (jc_lossy jc (take k (jc_print jc r))))) \<and>
     (\<forall>rs t. set rs \<subseteq> S \<longrightarrow> jc_lossy jc (render jc rs @ t) = render jc rs @ jc_lossy jc t) \<and>
     (\<forall>t. jc_lossy jc t = [] \<longleftrightarrow> t = [])"

lemma text_lines_line:
  "newline \<notin> set l \<Longrightarrow> CHR 0x0D \<notin> set l \<Longrightarrow> text_lines (l @ newline # t) = l # text_lines t"
  by (auto simp: text_lines_def split_on_append strip_return_def Let_def dest: last_in_set)

lemma text_lines_torn: "newline \<notin> set t \<Longrightarrow> text_lines t = (if t = [] then [] else [t])"
  by (simp add: text_lines_def split_on_no_sep)

lemma text_lines_render:
  assumes "codec_ok jc (set rs)" and "newline \<notin> set t"
  shows "text_lines (render jc rs @ t) = map (jc_print jc) rs @ (if t = [] then [] else [t])"
  using assms
proof (induction rs)
  case Nil
  then show ?case by (simp add: render_def text_lines_torn)
next
  case (Cons r rs)
  from Cons.prems have r: "newline \<notin> set (jc_print jc r)" "CHR 0x0D \<notin> set (jc_print jc r)"
    and rs: "codec_ok jc (set rs)" by (auto simp: codec_ok_def)
  have "render jc (r # rs) @ t = jc_print jc r @ newline # (render jc rs @ t)" by (simp add: render_def)
  with Cons.IH [OF rs Cons.prems(2)] r show ?case by (simp add: text_lines_line)
qed

lemma load_lines_render:
  assumes "codec_ok jc (set rs)" and "ls = [] \<or> jc_parse jc (hd ls) = None"
  shows "load_lines jc (map (jc_print jc) rs @ ls) idx good =
    (fold index_insert rs idx, good + length (render jc rs))"
  using assms
proof (induction rs arbitrary: idx good)
  case Nil
  then show ?case by (cases ls) (auto simp: render_def)
next
  case (Cons r rs)
  from Cons.prems have r: "jc_parse jc (jc_print jc r) = Some r" and rs: "codec_ok jc (set rs)"
    by (auto simp: codec_ok_def)
  with Cons.IH [OF rs Cons.prems(2)] show ?case by (simp add: render_def)
qed

lemma index_of_records: "map_of (fold index_insert rs []) i = latest_of rs i"
proof (induction rs rule: rev_induct)
  case Nil
  then show ?case by (simp add: latest_of_def)
next
  case (snoc r rs)
  then show ?case by (simp add: latest_of_def index_insert_def update_conv')
qed

lemma journal_steps:
  assumes "w_faults s = []"
  shows "io_step s = (Inr (), s)" "rewrite_step s = (Inr (), s)"
  using assms by (simp_all add: io_step_def rewrite_step_def map_err_def external_def)

lemma rewrite_file_runs: "w_faults s = [] \<Longrightarrow> rewrite_file t s = (Inr (), s\<lparr>nd_file := t\<rparr>)"
  by (simp add: rewrite_file_def andthen_def modify_def journal_steps)

lemma journal_open_torn:
  assumes "codec_ok jc (set rs)" and "newline \<notin> set (jc_lossy jc t)"
    and "jc_lossy jc t = [] \<or> jc_parse jc (jc_lossy jc t) = None"
    and "nd_file s = render jc rs @ t" and "w_faults s = []"
  shows "journal_open jc s = (Inr (), s\<lparr>nd_file := render jc rs, nd_index := fold index_insert rs [],
    nd_since := 0, nd_stale := False\<rparr>)"
proof -
  let ?t = "jc_lossy jc t"
  have lossy: "jc_lossy jc (render jc rs @ t) = render jc rs @ ?t" using assms(1) by (simp add: codec_ok_def)
  have lines: "load_lines jc (text_lines (render jc rs @ ?t)) [] 0 = (fold index_insert rs [], length (render jc rs))"
    unfolding text_lines_render [OF assms(1,2)]
    using load_lines_render [OF assms(1), of "if ?t = [] then [] else [?t]"] assms(3) by (cases "?t = []") auto
  have empty: "?t = [] \<longleftrightarrow> t = []" using assms(1) by (simp add: codec_ok_def)
  show ?thesis
  proof (cases "t = []")
    case True
    with empty lossy lines assms(4,5) show ?thesis
      by (simp add: journal_open_def andthen_def asks_def modify_def ret_def journal_steps rewrite_file_runs)
  next
    case False
    with empty lossy lines assms(4,5) show ?thesis
      by (simp add: journal_open_def andthen_def asks_def modify_def ret_def journal_steps rewrite_file_runs)
  qed
qed

text \<open>The file holds the records, the index their newest per operation.\<close>

definition journal_ok :: "journal_codec \<Rightarrow> journal_record list \<Rightarrow> 'z node_world_scheme \<Rightarrow> bool" where
  "journal_ok jc rs s \<longleftrightarrow> nd_file s = render jc rs \<and> \<not> nd_stale s \<and> map_of (nd_index s) = latest_of rs \<and>
     distinct (map fst (nd_index s)) \<and> list_all (\<lambda>(i, r). jr_operation r = i) (nd_index s)"


lemma index_insert_ok:
  assumes "distinct (map fst idx)" and "list_all (\<lambda>(i, r). jr_operation r = i) idx"
  shows "distinct (map fst (index_insert r idx)) \<and> list_all (\<lambda>(i, r). jr_operation r = i) (index_insert r idx)"
proof -
  have "x \<in> set (AList.update k v xs) \<Longrightarrow> x = (k, v) \<or> x \<in> set xs" for x k v and xs :: "('a \<times> 'b) list"
    by (induction xs) (auto split: if_splits)
  then show ?thesis
    using assms distinct_update [of idx] by (fastforce simp: index_insert_def list_all_iff)
qed

lemma fold_index_ok:
  "distinct (map fst (fold index_insert rs [])) \<and> list_all (\<lambda>(i, r). jr_operation r = i) (fold index_insert rs [])"
  by (induction rs rule: rev_induct) (simp_all add: index_insert_ok)

lemma journal_open_ok:
  assumes "codec_ok jc (insert r (set rs))" and "k < length (jc_print jc r)"
    and "nd_file s = render jc rs @ take k (jc_print jc r)" and "w_faults s = []"
  shows "\<exists>t. journal_open jc s = (Inr (), t) \<and> journal_ok jc rs t \<and> w_faults t = [] \<and> w_now t = w_now s"
proof -
  let ?t = "take k (jc_print jc r)"
  have jc: "codec_ok jc (set rs)" using assms(1) by (auto simp: codec_ok_def)
  have t: "jc_parse jc (jc_lossy jc ?t) = None" "newline \<notin> set (jc_lossy jc ?t)"
    using assms(1,2) by (auto simp: codec_ok_def)
  from journal_open_torn [OF jc t(2) disjI2 [OF t(1)] assms(3,4)] fold_index_ok [of rs] assms(4) show ?thesis
    by (auto simp: journal_ok_def index_of_records fun_eq_iff)
qed


lemma latest_of_snoc: "latest_of (rs @ [r]) = (latest_of rs)(jr_operation r \<mapsto> r)"
  by (auto simp: latest_of_def fun_eq_iff)




lemma write_temporary_runs: "w_faults s = [] \<Longrightarrow> write_temporary ls s = (Inr (), s)"
  by (induction ls) (simp_all add: ret_def andthen_def journal_steps)

lemma compact_runs:
  "w_faults s = [] \<Longrightarrow> compact jc s =
    (Inr (), s\<lparr>nd_file := render jc (jc_order jc (map snd (nd_index s))), nd_stale := False\<rparr>)"
  by (simp add: compact_def andthen_def asks_def modify_def journal_steps write_temporary_runs)

lemma append_runs:
  assumes "w_faults s = []" and "\<not> nd_stale s"
  shows "append_record jc r s =
    (let t = s\<lparr>nd_index := index_insert r (nd_index s), nd_file := nd_file s @ jc_print jc r @ [newline]\<rparr> in
     if nd_since s + 1 \<ge> compaction_threshold
     then (Inr (), t\<lparr>nd_since := 0, nd_file := render jc (jc_order jc (map snd (nd_index t)))\<rparr>)
     else (Inr (), t\<lparr>nd_since := nd_since s + 1\<rparr>))"
  using assms
  by (simp add: append_record_def andthen_def asks_def modify_def ret_def write_bytes_def journal_steps compact_runs Let_def)






section \<open>Acknowledged calls\<close>


















section \<open>Properties\<close>


text \<open>
  C16. A crash that leaves any proper part of the line of a record loses that record only: the
  journal that is opened next is the one before the append.
\<close>

theorem torn_append_is_repaired:
  assumes "codec_ok jc (insert r (set rs))" and "journal_ok jc rs s"
    and "w_faults s = Some d # fs" and "nd_partial s < length (jc_print jc r)"
  shows "fst (append_record jc r s) = Inl (JournalIo d) \<and>
    (\<exists>u. journal_open jc ((snd (append_record jc r s))\<lparr>w_faults := []\<rparr>) = (Inr (), u) \<and> journal_ok jc rs u)"
proof -
  let ?t = "(snd (append_record jc r s))\<lparr>w_faults := []\<rparr>"
  have "fst (append_record jc r s) = Inl (JournalIo d)"
    and content: "nd_file ?t = render jc rs @ take (nd_partial s) (jc_print jc r)"
    using assms(2,3)
    by (simp_all add: append_record_def andthen_def modify_def write_bytes_def io_step_def map_err_def external_def journal_ok_def)
  moreover have "\<exists>u. journal_open jc ?t = (Inr (), u) \<and> journal_ok jc rs u"
    using journal_open_ok [OF assms(1,4) content] by auto
  ultimately show ?thesis by blast
qed


lemma journal_open_reads:
  assumes "w_faults s = []" and "load_lines jc (text_lines (jc_lossy jc (nd_file s))) [] 0 = (idx, good)"
  shows "journal_open jc s = (Inr (), s\<lparr>nd_file :=
      if good < length (jc_lossy jc (nd_file s)) then take good (jc_lossy jc (nd_file s)) else nd_file s,
    nd_index := idx, nd_since := 0, nd_stale := False\<rparr>)"
  using assms by (simp add: journal_open_def andthen_def asks_def modify_def ret_def journal_steps rewrite_file_runs)

lemma text_lines_records:
  "codec_ok jc (set rs) \<Longrightarrow> text_lines (render jc rs @ t) = map (jc_print jc) rs @ text_lines t"
proof (induction rs)
  case (Cons r rs)
  from Cons.prems have r: "newline \<notin> set (jc_print jc r)" "CHR 0x0D \<notin> set (jc_print jc r)"
    and rs: "codec_ok jc (set rs)" by (auto simp: codec_ok_def)
  have "render jc (r # rs) @ t = jc_print jc r @ newline # (render jc rs @ t)" by (simp add: render_def)
  with Cons.IH [OF rs] r show ?case by (simp add: text_lines_line)
qed (simp add: render_def)

text \<open>
  A line whose line feed was not written is kept on opening without being completed. The next
  record is appended to the same line, and the opening after that drops both records, the
  acknowledged one included.
\<close>

theorem unterminated_line_loses_records:
  assumes "codec_ok jc (insert r (insert q (set rs)))" and "journal_ok jc rs s"
    and "w_faults s = [None, Some d]" and "nd_partial s = 0"
    and "jc_lossy jc (jc_print jc r @ jc_print jc q @ [newline]) = jc_print jc r @ jc_print jc q @ [newline]"
    and "jc_parse jc (jc_print jc r @ jc_print jc q) = None"
  shows "\<exists>t u v. journal_open jc (snd (append_record jc r s)) = (Inr (), t) \<and>
    map_of (nd_index t) (jr_operation r) = Some r \<and> append_record jc q t = (Inr (), u) \<and>
    map_of (nd_index u) (jr_operation q) = Some q \<and>
    journal_open jc u = (Inr (), v) \<and> map_of (nd_index v) = latest_of rs"
proof -
  let ?s = "snd (append_record jc r s)"
  have jc: "codec_ok jc (set rs)" "codec_ok jc (set (rs @ [r]))" and line: "jc_lossy jc (jc_print jc r) = jc_print jc r"
      "newline \<notin> set (jc_print jc r)" "newline \<notin> set (jc_print jc q)" "CHR 0x0D \<notin> set (jc_print jc r)"
      "CHR 0x0D \<notin> set (jc_print jc q)" "jc_print jc r \<noteq> []"
    using assms(1) by (auto simp: codec_ok_def)
  have lossy: "jc_lossy jc (render jc rs @ t) = render jc rs @ jc_lossy jc t" for t
    using jc(1) by (simp add: codec_ok_def)
  have s: "nd_file ?s = render jc rs @ jc_print jc r" "w_faults ?s = []" "\<not> nd_stale ?s"
    using assms(2-4) by (simp_all add: append_record_def andthen_def modify_def write_bytes_def io_step_def
        map_err_def external_def journal_ok_def)
  have content: "jc_lossy jc (nd_file ?s) = render jc rs @ jc_print jc r" by (simp add: s lossy line)
  have "text_lines (render jc rs @ jc_print jc r) = map (jc_print jc) (rs @ [r])"
    using line by (simp add: text_lines_records [OF jc(1)] text_lines_torn)
  then have load: "load_lines jc (text_lines (jc_lossy jc (nd_file ?s))) [] 0 =
      (fold index_insert (rs @ [r]) [], length (render jc (rs @ [r])))"
    using load_lines_render [OF jc(2), of "[]"] by (simp add: content)
  have longer: "length (render jc (rs @ [r])) = Suc (length (render jc rs) + length (jc_print jc r))"
    by (simp add: render_def)
  let ?t = "?s\<lparr>nd_index := fold index_insert (rs @ [r]) [], nd_since := 0, nd_stale := False\<rparr>"
  have t: "journal_open jc ?s = (Inr (), ?t)"
    using journal_open_reads [OF s(2) load] by (simp add: content longer)
  let ?u = "?t\<lparr>nd_index := index_insert q (nd_index ?t), nd_file := render jc rs @ jc_print jc r @ jc_print jc q @ [newline],
    nd_since := 1\<rparr>"
  have u: "append_record jc q ?t = (Inr (), ?u)"
    using s by (subst append_runs) (simp_all add: compaction_threshold_def Let_def)
  have content': "jc_lossy jc (nd_file ?u) = render jc rs @ (jc_print jc r @ jc_print jc q) @ newline # []"
    by (simp add: lossy assms(5))
  have "text_lines (jc_lossy jc (nd_file ?u)) = map (jc_print jc) rs @ [jc_print jc r @ jc_print jc q]"
    unfolding content' text_lines_records [OF jc(1)]
    using line by (subst text_lines_line) (auto simp: text_lines_torn)
  then have "load_lines jc (text_lines (jc_lossy jc (nd_file ?u))) [] 0 = (fold index_insert rs [], length (render jc rs))"
    using load_lines_render [OF jc(1), of "[jc_print jc r @ jc_print jc q]"] assms(6) by simp
  from journal_open_reads [OF _ this] s(2) obtain v where "journal_open jc ?u = (Inr (), v)"
      "nd_index v = fold index_insert rs []" by auto
  moreover have "map_of (nd_index ?t) = latest_of (rs @ [r])" by (simp only: fun_eq_iff index_of_records) (simp add: index_of_records del: fold_append fold_simps)
  ultimately show ?thesis
    using t u by (auto simp: index_of_records latest_of_snoc index_insert_def update_conv' fun_eq_iff)
qed

section \<open>Witnesses\<close>

definition demo_a :: journal_record where
  "demo_a = \<lparr>jr_operation = ''a'', jr_kind = ''node.noop'', jr_accepted = 1, jr_result = None\<rparr>"

definition demo_b :: journal_record where
  "demo_b = \<lparr>jr_operation = ''b'', jr_kind = ''node.noop'', jr_accepted = 2, jr_result = None\<rparr>"

definition demo_codec :: journal_codec where
  "demo_codec = \<lparr>jc_print = (\<lambda>r. ''{'' @ jr_operation r @ ''}''),
     jc_parse = (\<lambda>l. if l = ''{a}'' then Some demo_a else if l = ''{b}'' then Some demo_b else None),
     jc_lossy = (\<lambda>t. t), jc_order = rev\<rparr>"

definition demo_node :: "string option list \<Rightarrow> node_world" where
  "demo_node faults = \<lparr>w_now = 10, w_faults = faults, w_uuid = (\<lambda>n. replicate (Suc n) CHR ''u''), w_uuid_no = 0,
     w_ledger = [], w_pending_since = 0, nd_file = ''{a}'' @ [newline], nd_index = [(''a'', demo_a)], nd_since = 511,
     nd_partial = 0, nd_stale = False\<rparr>"

lemma demo_codec_ok: "codec_ok demo_codec {demo_a, demo_b}"
  by (simp add: codec_ok_def demo_codec_def demo_a_def demo_b_def newline_def All_less_Suc render_def)

lemma demo_node_ok: "journal_ok demo_codec [demo_a] (demo_node fs)"
  by (simp add: journal_ok_def demo_node_def demo_codec_def demo_a_def render_def latest_of_def fun_eq_iff)



theorem torn_append_is_repaired_witness:
  "\<exists>u. journal_open demo_codec ((snd (append_record demo_codec demo_b (demo_node [Some ''full''])))\<lparr>w_faults := []\<rparr>) = (Inr (), u) \<and>
    journal_ok demo_codec [demo_a] u"
  using torn_append_is_repaired [of demo_codec demo_b "[demo_a]" "demo_node [Some ''full'']" "''full''" "[]"]
    demo_codec_ok demo_node_ok by (auto simp: demo_node_def demo_codec_def insert_commute)

theorem unterminated_line_loses_records_witness:
  "\<exists>t u v. journal_open demo_codec (snd (append_record demo_codec demo_b (demo_node [None, Some ''crash'']))) = (Inr (), t) \<and>
    append_record demo_codec demo_b t = (Inr (), u) \<and> journal_open demo_codec u = (Inr (), v) \<and>
    map_of (nd_index v) = latest_of [demo_a]"
proof -
  have codec: "codec_ok demo_codec (insert demo_b (insert demo_b (set [demo_a])))"
    using demo_codec_ok by (simp add: insert_commute)
  from unterminated_line_loses_records [OF codec demo_node_ok, of "[None, Some ''crash'']" "''crash''"] show ?thesis
    by (auto simp: demo_node_def demo_codec_def demo_b_def)
qed

end
