(* ===== verification/Node_Inventory.thy ===== *)
theory Node_Inventory
  imports Node_Facts Node_Journal Operation_Store
    "HOL-Library.List_Lexorder" "HOL-Library.Char_ord" "HOL-Library.Option_ord"
begin

text \<open>
  Inventory collection over an unreliable delivery: the node's baseline and its full or delta
  reports (\<open>crates/fleetd/src/inventory.rs\<close>), and the controller's side, which asks with the
  revision it last stored, checks a report and records facts and snapshot
  (\<open>crates/fleet-controller/src/gateway.rs\<close>, \<open>crates/fleet-storage-sqlite/src/machines.rs\<close>).
\<close>

section \<open>The node\<close>

record baseline =
  bl_revision :: nat
  bl_facts :: "capability_fact list"

record inventory_report =
  ir_schema :: nat
  ir_mode :: string
  ir_revision :: nat
  ir_baseline :: "nat option"
  ir_facts :: "capability_fact list"
  ir_errors :: "probe_error list"

record inventory_codec =
  ic_print :: "baseline \<Rightarrow> string"
  ic_parse :: "string \<Rightarrow> baseline option"

record inventory_world = node_world +
  iv_baseline :: "baseline option"
  iv_file :: "string option"

type_synonym ('z, 'a) iv_act = "('z inventory_world_scheme, string, 'a) act"

definition inventory_schema_version :: nat where "inventory_schema_version = 1"

definition inventory_error_text :: "string \<Rightarrow> string" where
  "inventory_error_text d = ''inventory state io failed: '' @ d"

definition inventory_open :: "inventory_codec \<Rightarrow> ('z, unit) iv_act" where
  "inventory_open ic = map_err inventory_error_text
     (andthen external (\<lambda>_.
      andthen external (\<lambda>_.
      modify (\<lambda>s. s\<lparr>iv_baseline := Option.bind (iv_file s) (ic_parse ic)\<rparr>))))"

definition node_revision :: "'z inventory_world_scheme \<Rightarrow> nat option" where
  "node_revision s = map_option bl_revision (iv_baseline s)"

definition sort_facts :: "capability_fact list \<Rightarrow> capability_fact list" where
  "sort_facts = sort_key (\<lambda>f. (cf_namespace f, cf_name f, cf_value f))"

text \<open>A hash map built from the recorded facts: the last of equal keys stays.\<close>

definition recorded_fact :: "capability_fact list \<Rightarrow> fact_key \<Rightarrow> (string option \<times> capability_status) option" where
  "recorded_fact fs = map_of (rev (map (\<lambda>f. (key_of f, cf_value f, cf_status f)) fs))"

definition changed_facts :: "capability_fact list \<Rightarrow> capability_fact list \<Rightarrow> capability_fact list" where
  "changed_facts previous facts =
     filter (\<lambda>f. recorded_fact previous (key_of f) \<noteq> Some (cf_value f, cf_status f)) facts"

definition report_parts :: "baseline option \<Rightarrow> nat option \<Rightarrow> capability_fact list \<Rightarrow>
    string \<times> nat option \<times> capability_fact list" where
  "report_parts base expected facts =
     (case base of
        Some b \<Rightarrow> if expected = Some (bl_revision b)
                  then (''delta'', Some (bl_revision b), changed_facts (bl_facts b) facts)
                  else (''full'', None, facts)
      | None \<Rightarrow> (''full'', None, facts))"

definition next_revision :: "baseline option \<Rightarrow> nat" where
  "next_revision base = (case base of None \<Rightarrow> 1 | Some b \<Rightarrow> bl_revision b + 1)"

definition inventory_persist :: "inventory_codec \<Rightarrow> baseline \<Rightarrow> ('z, unit) iv_act" where
  "inventory_persist ic b = map_err inventory_error_text
     (andthen external (\<lambda>_.
      andthen external (\<lambda>_.
      modify (\<lambda>s. s\<lparr>iv_file := Some (ic_print ic b)\<rparr>))))"

definition inventory_collect :: "inventory_codec \<Rightarrow> probe list \<Rightarrow> nat option \<Rightarrow> ('z, inventory_report) iv_act" where
  "inventory_collect ic probes expected =
     andthen (asks (\<lambda>s. runner_collect (w_now s) probes [] [])) (\<lambda>(collected, errors).
     let facts = sort_facts collected in
     andthen (asks iv_baseline) (\<lambda>base.
     case report_parts base expected facts of
       (mode, base_revision, changed) \<Rightarrow>
         let b = \<lparr>bl_revision = next_revision base, bl_facts = facts\<rparr> in
         andthen (modify (\<lambda>s. s\<lparr>iv_baseline := Some b\<rparr>)) (\<lambda>_.
         andthen (inventory_persist ic b) (\<lambda>_.
         ret \<lparr>ir_schema = inventory_schema_version, ir_mode = mode, ir_revision = bl_revision b,
              ir_baseline = base_revision, ir_facts = changed, ir_errors = errors\<rparr>))))"

section \<open>The report on the wire\<close>

definition error_json :: "probe_error \<Rightarrow> json" where
  "error_json e = JObject [(''probe'', JString (pe_probe e)), (''detail'', JString (pe_detail e))]"

definition report_json :: "inventory_report \<Rightarrow> json" where
  "report_json r = JObject
     [(''schemaVersion'', JInt (int (ir_schema r))), (''mode'', JString (ir_mode r)),
      (''revision'', JInt (int (ir_revision r))),
      (''baselineRevision'', case ir_baseline r of None \<Rightarrow> JNull | Some n \<Rightarrow> JInt (int n)),
      (''facts'', facts_json (ir_facts r)), (''probeErrors'', JArray (map error_json (ir_errors r)))]"

text \<open>
  The JSON library, the lossy decoding of bytes and the redaction of JSON strings are
  parameters; \<open>jx_agent\<close> is the version text of the controller.
\<close>

record json_codec =
  jx_print :: "json \<Rightarrow> string"
  jx_parse :: "string \<Rightarrow> string + json"
  jx_lossy :: "string \<Rightarrow> string"
  jx_redact :: "json \<Rightarrow> json"
  jx_agent :: string

text \<open>The payload of the result: cut at the bound of the command, with a flag.\<close>

definition bounded_payload :: "json_codec \<Rightarrow> nat \<Rightarrow> inventory_report \<Rightarrow> string \<times> bool" where
  "bounded_payload jx bound r =
     (let payload = jx_print jx (report_json r) in
      (jx_lossy jx (take bound payload), length payload > bound))"

section \<open>The controller\<close>

record snapshot =
  sn_id :: string
  sn_machine :: string
  sn_at :: int
  sn_source :: string
  sn_payload :: string

record control_world = world +
  ct_machines :: "string list"
  ct_caps :: "string \<Rightarrow> fact_key \<Rightarrow> capability_fact option"
  ct_snaps :: "snapshot list"

type_synonym ('z, 'a) ct_act = "('z control_world_scheme, port_failure, 'a) act"

definition machine_statement :: "string \<Rightarrow> ('z, unit) ct_act" where
  "machine_statement context = map_err (\<lambda>d. PortBackend (''machine '' @ context @ '' failed: '' @ d)) external"

definition no_machine :: "string \<Rightarrow> port_failure" where
  "no_machine m = PortNotFound (''machine '' @ debug_str m)"

definition require_machine :: "string \<Rightarrow> ('z, unit) ct_act" where
  "require_machine m =
     andthen (machine_statement ''require_machine'') (\<lambda>_.
     andthen (asks ct_machines) (\<lambda>ms. if m \<in> set ms then ret () else fail (no_machine m)))"

definition reserved_fact :: "capability_fact \<Rightarrow> bool" where
  "reserved_fact f \<longleftrightarrow> to_ascii_lowercase (cf_namespace f) = reserved_fact_namespace"

definition upsert_fact :: "string \<Rightarrow> capability_fact \<Rightarrow> 'z control_world_scheme \<Rightarrow> 'z control_world_scheme" where
  "upsert_fact m f s = s\<lparr>ct_caps := (ct_caps s)(m := (ct_caps s m)(key_of f \<mapsto> f))\<rparr>"

fun upsert_facts :: "string \<Rightarrow> capability_fact list \<Rightarrow> ('z, unit) ct_act" where
  "upsert_facts m [] = ret ()"
| "upsert_facts m (f # fs) =
     (if reserved_fact f then upsert_facts m fs
      else andthen (machine_statement ''record_capabilities'') (\<lambda>_.
           andthen (modify (upsert_fact m f)) (\<lambda>_. upsert_facts m fs)))"

definition undo_caps :: "'z control_world_scheme \<Rightarrow> 'z control_world_scheme \<Rightarrow> 'z control_world_scheme" where
  "undo_caps s t = t\<lparr>ct_caps := ct_caps s\<rparr>"

definition record_capabilities :: "string \<Rightarrow> capability_fact list \<Rightarrow> ('z, unit) ct_act" where
  "record_capabilities m facts = atomically undo_caps
     (andthen (machine_statement ''record_capabilities'') (\<lambda>_.
      andthen (require_machine m) (\<lambda>_.
      andthen (upsert_facts m facts) (\<lambda>_. machine_statement ''record_capabilities''))))"

definition record_snapshot :: "string \<Rightarrow> string \<Rightarrow> string \<Rightarrow> int \<Rightarrow> ('z, unit) ct_act" where
  "record_snapshot m source payload at =
     andthen fresh_uuid (\<lambda>id.
     andthen (machine_statement ''record_snapshot'') (\<lambda>_.
     andthen (asks ct_machines) (\<lambda>ms.
     if m \<notin> set ms then fail (no_machine m)
     else modify (\<lambda>s. s\<lparr>ct_snaps := ct_snaps s @
            [\<lparr>sn_id = id, sn_machine = m, sn_at = at, sn_source = source, sn_payload = payload\<rparr>]\<rparr>))))"

text \<open>\<open>ORDER BY collected_at DESC, id DESC LIMIT 1\<close>.\<close>

definition latest_snapshot :: "string \<Rightarrow> snapshot list \<Rightarrow> snapshot option" where
  "latest_snapshot m snaps =
     (case rev (sort_key (\<lambda>n. (sn_at n, sn_id n)) (filter (\<lambda>n. sn_machine n = m) snaps)) of
        [] \<Rightarrow> None | n # _ \<Rightarrow> Some n)"

definition snapshot_revision :: "json_codec \<Rightarrow> snapshot \<Rightarrow> nat option" where
  "snapshot_revision jx n =
     (case jx_parse jx (sn_payload n) of Inl _ \<Rightarrow> None | Inr r \<Rightarrow> json_u64 (json_index ''revision'' r))"

definition latest_inventory_revision :: "json_codec \<Rightarrow> string \<Rightarrow> ('z, nat option) ct_act" where
  "latest_inventory_revision jx m =
     andthen (map_err (\<lambda>d. PortBackend (''latest_inventory_revision: '' @ d)) external) (\<lambda>_.
     asks (\<lambda>s. Option.bind (latest_snapshot m (ct_snaps s)) (snapshot_revision jx)))"

definition max_report_bytes :: nat where "max_report_bytes = 256 * 1024"
definition max_snapshot_bytes :: nat where "max_snapshot_bytes = 64 * 1024"
definition max_report_facts :: nat where "max_report_facts = max_capability_facts"

definition clamp_observed :: "int \<Rightarrow> capability_fact \<Rightarrow> capability_fact" where
  "clamp_observed now f = (if cf_observed f \<le> 0 \<or> cf_observed f > now then f\<lparr>cf_observed := now\<rparr> else f)"

fun json_put :: "string \<Rightarrow> json \<Rightarrow> json \<Rightarrow> json" where
  "json_put k v (JObject m) = JObject (AList.update k v m)"
| "json_put k v j = j"

text \<open>The checks of a report, in the order of the code: the facts to record and the snapshot.\<close>

definition check_report :: "json_codec \<Rightarrow> int \<Rightarrow> string \<Rightarrow> string + (capability_fact list \<times> string)" where
  "check_report jx now payload =
     (if length payload > max_report_bytes then Inl ''the inventory report exceeds 256 KiB''
      else case jx_parse jx (jx_lossy jx payload) of
        Inl e \<Rightarrow> Inl (''the inventory report is not JSON: '' @ e)
      | Inr report \<Rightarrow>
          if json_u64 (json_index ''schemaVersion'' report) \<noteq> Some 1
          then Inl ''the inventory report does not carry schema version 1''
          else let report = jx_redact jx report in
          case facts_of_json (json_index ''facts'' report) of
            None \<Rightarrow> Inl ''the inventory report's facts are malformed''
          | Some facts \<Rightarrow>
              if length facts > max_report_facts then Inl ''the inventory report carries too many facts''
              else case first_error (map fact_validate facts) of
                Inl d \<Rightarrow> Inl (''the inventory report has a malformed fact: '' @ d)
              | Inr _ \<Rightarrow>
                  let facts' = map (clamp_observed now) facts;
                      report = (if facts' \<noteq> facts then json_put ''facts'' (facts_json facts') report else report);
                      snapshot = jx_print jx report
                  in if length snapshot > max_snapshot_bytes
                     then Inl ''the inventory report exceeds 64 KiB once redacted'' else Inr (facts', snapshot))"

definition ingest_report :: "json_codec \<Rightarrow> string \<Rightarrow> string \<Rightarrow> ('z control_world_scheme, string, nat) act" where
  "ingest_report jx m payload =
     andthen (asks w_now) (\<lambda>now.
     andthen (lift (check_report jx now payload)) (\<lambda>(facts, snapshot).
     andthen (map_err (\<lambda>f. ''the facts could not be recorded: '' @ port_failure_text f)
               (record_capabilities m facts)) (\<lambda>_.
     andthen (map_err (\<lambda>f. ''the snapshot could not be recorded: '' @ port_failure_text f)
               (record_snapshot m (''fleetd/'' @ jx_agent jx) snapshot now)) (\<lambda>_.
     ret (length facts)))))"


section \<open>One round\<close>

text \<open>
  The controller asks with the revision the operation names, or else with that of its newest
  snapshot, the node collects and answers, and the answer is ingested unless it is lost. Each round has its own probes, clocks, failing
  calls, and bound; the flag says that the report was ingested.
\<close>

record round =
  rd_expected :: "nat option"
  rd_probes :: "probe list"
  rd_node_now :: int
  rd_control_now :: int
  rd_node_faults :: "string option list"
  rd_control_faults :: "string option list"
  rd_bound :: nat
  rd_lost :: bool

type_synonym fleet_pair = "inventory_world \<times> control_world"

definition asked_revision :: "json_codec \<Rightarrow> string \<Rightarrow> round \<Rightarrow> ('z, nat option) ct_act" where
  "asked_revision jx m rd =
     (case rd_expected rd of Some explicit \<Rightarrow> ret (Some explicit) | None \<Rightarrow> latest_inventory_revision jx m)"

definition inventory_round :: "inventory_codec \<Rightarrow> json_codec \<Rightarrow> string \<Rightarrow> round \<Rightarrow> fleet_pair \<Rightarrow> bool \<times> fleet_pair" where
  "inventory_round ic jx m rd p =
     (case p of (n, c) \<Rightarrow>
      let c = c\<lparr>w_now := rd_control_now rd, w_faults := rd_control_faults rd\<rparr>;
          n = n\<lparr>w_now := rd_node_now rd, w_faults := rd_node_faults rd\<rparr> in
      case asked_revision jx m rd c of
        (Inl _, c) \<Rightarrow> (False, n, c)
      | (Inr expected, c) \<Rightarrow>
          (case inventory_collect ic (rd_probes rd) expected n of
             (Inl _, n) \<Rightarrow> (False, n, c)
           | (Inr report, n) \<Rightarrow>
               if rd_lost rd then (False, n, c)
               else (case ingest_report jx m (fst (bounded_payload jx (rd_bound rd) report)) c of
                       (Inl _, c) \<Rightarrow> (False, n, c)
                     | (Inr _, c) \<Rightarrow> (True, n, c))))"

fun inventory_rounds :: "inventory_codec \<Rightarrow> json_codec \<Rightarrow> string \<Rightarrow> round list \<Rightarrow> fleet_pair \<Rightarrow> fleet_pair" where
  "inventory_rounds ic jx m [] p = p"
| "inventory_rounds ic jx m (rd # rds) p = inventory_rounds ic jx m rds (snd (inventory_round ic jx m rd p))"

definition round_facts :: "round \<Rightarrow> capability_fact list" where
  "round_facts rd = fst (runner_collect (rd_node_now rd) (rd_probes rd) [] [])"

section \<open>What is documented of the wire\<close>

definition scrub_fact :: "(string \<Rightarrow> string) \<Rightarrow> capability_fact \<Rightarrow> capability_fact" where
  "scrub_fact sc f = f\<lparr>cf_value := map_option sc (cf_value f), cf_source := sc (cf_source f)\<rparr>"

definition scrub_error :: "(string \<Rightarrow> string) \<Rightarrow> probe_error \<Rightarrow> probe_error" where
  "scrub_error sc e = \<lparr>pe_probe = sc (pe_probe e), pe_detail = sc (pe_detail e)\<rparr>"

definition scrub_report :: "(string \<Rightarrow> string) \<Rightarrow> inventory_report \<Rightarrow> inventory_report" where
  "scrub_report sc r = r\<lparr>ir_errors := map (scrub_error sc) (ir_errors r), ir_facts := map (scrub_fact sc) (ir_facts r)\<rparr>"

text \<open>What a report that passes the checks is stored as.\<close>

definition stored_facts :: "(string \<Rightarrow> string) \<Rightarrow> int \<Rightarrow> inventory_report \<Rightarrow> capability_fact list" where
  "stored_facts sc now r = map (\<lambda>f. clamp_observed now (scrub_fact sc f)) (ir_facts r)"

definition stored_report :: "(string \<Rightarrow> string) \<Rightarrow> int \<Rightarrow> inventory_report \<Rightarrow> inventory_report" where
  "stored_report sc now r = scrub_report sc r\<lparr>ir_facts := stored_facts sc now r\<rparr>"

text \<open>
  Of the libraries, for the reports that occur: printing and parsing are inverse, no proper
  part of a printed report parses, and redaction scrubs the values, sources and error texts.
\<close>

definition wire_fits :: "json_codec \<Rightarrow> (string \<Rightarrow> string) \<Rightarrow> int \<Rightarrow> inventory_report \<Rightarrow> bool" where
  "wire_fits jx sc now r \<longleftrightarrow>
     jx_parse jx (jx_print jx (report_json r)) = Inr (report_json r) \<and>
     jx_lossy jx (jx_print jx (report_json r)) = jx_print jx (report_json r) \<and>
     jx_redact jx (report_json r) = report_json (scrub_report sc r) \<and>
     jx_parse jx (jx_print jx (report_json (stored_report sc now r))) = Inr (report_json (stored_report sc now r)) \<and>
     list_all (\<lambda>k. isl (jx_parse jx (jx_lossy jx (jx_lossy jx (take k (jx_print jx (report_json r)))))))
       [0..<length (jx_print jx (report_json r))]"

definition round_report :: "inventory_codec \<Rightarrow> json_codec \<Rightarrow> string \<Rightarrow> round \<Rightarrow> fleet_pair \<Rightarrow> inventory_report option" where
  "round_report ic jx m rd p =
     (case p of (n, c) \<Rightarrow>
      (case fst (asked_revision jx m rd (c\<lparr>w_now := rd_control_now rd, w_faults := rd_control_faults rd\<rparr>)) of
         Inl _ \<Rightarrow> None
       | Inr expected \<Rightarrow>
           (case fst (inventory_collect ic (rd_probes rd) expected
               (n\<lparr>w_now := rd_node_now rd, w_faults := rd_node_faults rd\<rparr>)) of Inl _ \<Rightarrow> None | Inr r \<Rightarrow> Some r)))"

definition round_fits :: "inventory_codec \<Rightarrow> json_codec \<Rightarrow> (string \<Rightarrow> string) \<Rightarrow> string \<Rightarrow> round \<Rightarrow> fleet_pair \<Rightarrow> bool" where
  "round_fits ic jx sc m rd p \<longleftrightarrow> distinct (map key_of (round_facts rd)) \<and>
     (case round_report ic jx m rd p of None \<Rightarrow> True | Some r \<Rightarrow> wire_fits jx sc (rd_control_now rd) r)"

fun rounds_fit :: "inventory_codec \<Rightarrow> json_codec \<Rightarrow> (string \<Rightarrow> string) \<Rightarrow> string \<Rightarrow> round list \<Rightarrow> fleet_pair \<Rightarrow> bool" where
  "rounds_fit ic jx sc m [] p \<longleftrightarrow> True"
| "rounds_fit ic jx sc m (rd # rds) p \<longleftrightarrow>
     rd_expected rd = None \<and> round_fits ic jx sc m rd p \<and> rounds_fit ic jx sc m rds (snd (inventory_round ic jx m rd p))"

lemma report_json_fields [simp]:
  "json_index ''schemaVersion'' (report_json r) = JInt (int (ir_schema r))"
  "json_index ''revision'' (report_json r) = JInt (int (ir_revision r))"
  "json_index ''facts'' (report_json r) = facts_json (ir_facts r)"
  "json_put ''facts'' (facts_json fs) (report_json r) = report_json (r\<lparr>ir_facts := fs\<rparr>)"
  by (simp_all add: report_json_def json_index_def)

lemma fact_of_fact_json_eq: "fact_of_json (fact_json f) = Some g \<Longrightarrow> g = f"
  by (auto simp: fact_json_def fact_of_fields_def capability.roundtrip split: option.splits if_splits)

lemma facts_of_facts_json_eq: "facts_of_json (facts_json fs) = Some gs \<Longrightarrow> gs = fs"
proof (induction fs arbitrary: gs)
  case (Cons f fs)
  then show ?case
    by (cases "fact_of_json (fact_json f)")
       (auto simp: facts_of_json_def facts_json_def dest: fact_of_fact_json_eq)
qed (simp add: facts_of_json_def facts_json_def)

lemma check_report_stores:
  assumes "wire_fits jx sc now r" and "check_report jx now (fst (bounded_payload jx bound r)) = Inr (facts, snapshot)"
  shows "facts = stored_facts sc now r \<and> snapshot = jx_print jx (report_json (stored_report sc now r))"
proof -
  let ?text = "jx_print jx (report_json r)"
  have whole: "length ?text \<le> bound"
  proof (rule ccontr)
    assume "\<not> length ?text \<le> bound"
    then have "bound < length ?text" by simp
    with assms(1) obtain e where "jx_parse jx (jx_lossy jx (jx_lossy jx (take bound ?text))) = Inl e"
      unfolding wire_fits_def list_all_iff isl_def by fastforce
    with assms(2) show False by (auto simp: check_report_def bounded_payload_def Let_def split: if_splits)
  qed
  with assms(1) have "jx_parse jx (jx_lossy jx (fst (bounded_payload jx bound r))) = Inr (report_json r)"
    by (simp add: wire_fits_def bounded_payload_def Let_def)
  moreover have "jx_redact jx (report_json r) = report_json (scrub_report sc r)" using assms(1) by (simp add: wire_fits_def)
  ultimately have "facts = stored_facts sc now r \<and> snapshot = jx_print jx (report_json (scrub_report sc r\<lparr>ir_facts := facts\<rparr>))"
    using assms(2)
    by (auto simp: check_report_def Let_def stored_facts_def scrub_report_def dest!: facts_of_facts_json_eq
        split: if_splits option.splits sum.splits)
  then show ?thesis by (simp add: stored_report_def)
qed


section \<open>What the tables hold after a call\<close>

definition key_distinct :: "capability_fact list \<Rightarrow> bool" where
  "key_distinct fs \<longleftrightarrow> distinct (map key_of fs)"

definition keyed :: "capability_fact list \<Rightarrow> fact_key \<Rightarrow> capability_fact option" where
  "keyed fs = map_of (rev (map (\<lambda>f. (key_of f, f)) (filter (\<lambda>f. \<not> reserved_fact f) fs)))"

lemma keyed_Some: "keyed fs k = Some f \<Longrightarrow> f \<in> set fs \<and> key_of f = k \<and> \<not> reserved_fact f"
  by (auto simp: keyed_def dest!: map_of_SomeD)

lemma keyed_distinct: "key_distinct fs \<Longrightarrow> f \<in> set fs \<Longrightarrow> \<not> reserved_fact f \<Longrightarrow> keyed fs (key_of f) = Some f"
  unfolding keyed_def key_distinct_def
  by (intro map_of_is_SomeI)
     (auto simp: rev_map [symmetric] comp_def distinct_map filter_map intro: inj_on_subset)

lemma keyed_None: "(\<And>f. f \<in> set fs \<Longrightarrow> key_of f \<noteq> k) \<Longrightarrow> keyed fs k = None"
  by (cases "keyed fs k") (auto dest!: keyed_Some)

lemma machine_statement_frame:
  assumes "machine_statement context c = (r, c')"
  shows "ct_caps c' = ct_caps c \<and> ct_snaps c' = ct_snaps c \<and> ct_machines c' = ct_machines c \<and> w_now c' = w_now c"
  using assms by (auto simp: machine_statement_def map_err_def external_def split: list.splits option.splits)

lemma upsert_facts_frame:
  "upsert_facts m fs c = (r, c') \<Longrightarrow> ct_snaps c' = ct_snaps c \<and> ct_machines c' = ct_machines c \<and> w_now c' = w_now c"
proof (induction fs arbitrary: c)
  case (Cons f fs)
  show ?case
  proof (cases "reserved_fact f")
    case False
    obtain r1 c1 where c1: "machine_statement ''record_capabilities'' c = (r1, c1)" by fastforce
    note frame = machine_statement_frame [OF c1]
    show ?thesis
    proof (cases r1)
      case (Inr u)
      with Cons.prems False c1 have "upsert_facts m fs (upsert_fact m f c1) = (r, c')"
        by (simp add: andthen_def modify_def)
      from Cons.IH [OF this] frame show ?thesis by (simp add: upsert_fact_def)
    qed (use Cons.prems False c1 frame in \<open>simp add: andthen_def\<close>)
  qed (use Cons in simp)
qed (simp add: ret_def)

lemma upsert_facts_caps:
  "upsert_facts m fs c = (Inr (), c') \<Longrightarrow> ct_caps c' = (ct_caps c)(m := ct_caps c m ++ keyed fs)"
proof (induction fs arbitrary: c)
  case (Cons f fs)
  show ?case
  proof (cases "reserved_fact f")
    case False
    obtain r1 c1 where c1: "machine_statement ''record_capabilities'' c = (r1, c1)" by fastforce
    note frame = machine_statement_frame [OF c1]
    from Cons.prems False c1 have "upsert_facts m fs (upsert_fact m f c1) = (Inr (), c')"
      by (cases r1) (simp_all add: andthen_def modify_def)
    from Cons.IH [OF this] frame False show ?thesis
      by (auto simp: upsert_fact_def keyed_def fun_eq_iff map_add_def split: option.splits)
  qed (use Cons in \<open>simp add: keyed_def\<close>)
qed (simp add: ret_def keyed_def)

lemma record_capabilities_result:
  assumes "record_capabilities m fs c = (r, c')"
  shows "ct_snaps c' = ct_snaps c \<and> ct_machines c' = ct_machines c \<and> w_now c' = w_now c \<and>
    ct_caps c' = (if isl r then ct_caps c else (ct_caps c)(m := ct_caps c m ++ keyed fs))"
proof -
  obtain r1 c1 where c1: "machine_statement ''record_capabilities'' c = (r1, c1)" by fastforce
  obtain r2 c2 where c2: "require_machine m c1 = (r2, c2)" by fastforce
  obtain r3 c3 where c3: "upsert_facts m fs c2 = (r3, c3)" by fastforce
  obtain r4 c4 where c4: "machine_statement ''record_capabilities'' c3 = (r4, c4)" by fastforce
  from c2 have f2: "ct_caps c2 = ct_caps c1 \<and> ct_snaps c2 = ct_snaps c1 \<and> ct_machines c2 = ct_machines c1 \<and> w_now c2 = w_now c1"
    by (auto simp: require_machine_def andthen_def asks_def ret_def fail_def
        split: prod.splits sum.splits if_splits dest: machine_statement_frame)
  have run: "record_capabilities m fs c =
      (case r1 of Inl e \<Rightarrow> (Inl e, undo_caps c c1) | Inr _ \<Rightarrow>
       case r2 of Inl e \<Rightarrow> (Inl e, undo_caps c c2) | Inr _ \<Rightarrow>
       case r3 of Inl e \<Rightarrow> (Inl e, undo_caps c c3) | Inr _ \<Rightarrow>
       case r4 of Inl e \<Rightarrow> (Inl e, undo_caps c c4) | Inr _ \<Rightarrow> (r4, c4))"
    using c1 c2 c3 c4 by (simp add: record_capabilities_def atomically_def andthen_def split: sum.split)
  note frames = machine_statement_frame [OF c1] f2 upsert_facts_frame [OF c3] machine_statement_frame [OF c4]
  show ?thesis
  proof (cases "isl r1 \<or> isl r2 \<or> isl r3 \<or> isl r4")
    case True
    then have "\<exists>e k. record_capabilities m fs c = (Inl e, undo_caps c k) \<and> k \<in> {c1, c2, c3, c4}"
      unfolding run by (auto split: sum.split)
    with assms frames show ?thesis by (auto simp: undo_caps_def)
  next
    case False
    then have "record_capabilities m fs c = (Inr (), c4)" and r3: "r3 = Inr ()"
      unfolding run by (cases r3; auto split: sum.split)+
    with assms frames upsert_facts_caps [OF c3 [unfolded r3]] show ?thesis by auto
  qed
qed

lemma record_snapshot_result:
  assumes "record_snapshot m source payload at c = (r, c')"
  shows "ct_caps c' = ct_caps c \<and>
    (if isl r then ct_snaps c' = ct_snaps c
     else \<exists>id. ct_snaps c' = ct_snaps c @ [\<lparr>sn_id = id, sn_machine = m, sn_at = at, sn_source = source, sn_payload = payload\<rparr>])"
  using assms
  by (auto simp: record_snapshot_def andthen_def fresh_uuid_def asks_def fail_def modify_def
      split: prod.splits sum.splits if_splits dest!: machine_statement_frame)

lemma ingest_report_result:
  assumes "ingest_report jx m payload c = (r, c')"
  shows "isl r \<and> ct_snaps c' = ct_snaps c \<or>
    (\<exists>facts snapshot id. check_report jx (w_now c) payload = Inr (facts, snapshot) \<and> r = Inr (length facts) \<and>
      ct_caps c' = (ct_caps c)(m := ct_caps c m ++ keyed facts) \<and>
      ct_snaps c' = ct_snaps c @ [\<lparr>sn_id = id, sn_machine = m, sn_at = w_now c, sn_source = ''fleetd/'' @ jx_agent jx,
        sn_payload = snapshot\<rparr>])"
proof (cases "check_report jx (w_now c) payload")
  case (Inl e)
  with assms show ?thesis by (auto simp: ingest_report_def andthen_def asks_def lift_def)
next
  case (Inr checked)
  obtain facts snapshot where checked: "checked = (facts, snapshot)" by fastforce
  obtain r1 c1 where c1: "record_capabilities m facts c = (r1, c1)" by fastforce
  obtain r2 c2 where c2: "record_snapshot m (''fleetd/'' @ jx_agent jx) snapshot (w_now c) c1 = (r2, c2)" by fastforce
  show ?thesis
    using assms Inr checked c1 c2 record_capabilities_result [OF c1] record_snapshot_result [OF c2]
    by (cases r1; cases r2) (auto simp: ingest_report_def andthen_def asks_def lift_def map_err_def ret_def)
qed


section \<open>The controller never confuses two baselines\<close>

definition agrees :: "(string \<Rightarrow> string) \<Rightarrow> string \<Rightarrow> capability_fact list \<Rightarrow> control_world \<Rightarrow> bool" where
  "agrees sc m fs c \<longleftrightarrow>
     (\<forall>f \<in> set fs. \<not> reserved_fact f \<longrightarrow>
        (\<exists>g. ct_caps c m (key_of f) = Some g \<and> cf_value g = map_option sc (cf_value f) \<and> cf_status g = cf_status f))"

text \<open>
  A stored snapshot is not ahead of the node, and when it carries the node's own revision the
  controller's facts agree with the node's baseline.
\<close>

definition inventory_inv :: "json_codec \<Rightarrow> (string \<Rightarrow> string) \<Rightarrow> string \<Rightarrow> fleet_pair \<Rightarrow> bool" where
  "inventory_inv jx sc m p \<longleftrightarrow>
     (case p of (n, c) \<Rightarrow>
      \<forall>sn \<in> set (ct_snaps c). sn_machine sn = m \<longrightarrow>
        (\<forall>k. snapshot_revision jx sn = Some k \<longrightarrow>
           (\<exists>b. iv_baseline n = Some b \<and> k \<le> bl_revision b \<and> (k = bl_revision b \<longrightarrow> agrees sc m (bl_facts b) c))))"

lemma inventory_invD:
  "inventory_inv jx sc m (n, c) \<Longrightarrow> sn \<in> set (ct_snaps c) \<Longrightarrow> sn_machine sn = m \<Longrightarrow> snapshot_revision jx sn = Some k \<Longrightarrow>
    \<exists>b. iv_baseline n = Some b \<and> k \<le> bl_revision b \<and> (k = bl_revision b \<longrightarrow> agrees sc m (bl_facts b) c)"
  by (auto simp: inventory_inv_def)

lemma latest_snapshot_in: "latest_snapshot m snaps = Some sn \<Longrightarrow> sn \<in> set snaps \<and> sn_machine sn = m"
proof -
  let ?xs = "sort_key (\<lambda>n. (sn_at n, sn_id n)) (filter (\<lambda>n. sn_machine n = m) snaps)"
  assume "latest_snapshot m snaps = Some sn"
  then obtain ys where "rev ?xs = sn # ys" by (auto simp: latest_snapshot_def split: list.splits)
  then have "sn \<in> set (rev ?xs)" by (simp only: list.set_intros)
  then show ?thesis by simp
qed

lemma collect_result:
  assumes "inventory_collect ic probes expected n = (r, n')" and "facts = sort_facts (fst (runner_collect (w_now n) probes [] []))"
  shows "iv_baseline n' = Some \<lparr>bl_revision = next_revision (iv_baseline n), bl_facts = facts\<rparr> \<and>
    (\<forall>report. r = Inr report \<longrightarrow> ir_revision report = next_revision (iv_baseline n) \<and> ir_schema report = 1 \<and>
       (ir_mode report, ir_baseline report, ir_facts report) = report_parts (iv_baseline n) expected facts)"
proof -
  obtain collected errors where c: "runner_collect (w_now n) probes [] [] = (collected, errors)" by fastforce
  obtain mode base changed where p: "report_parts (iv_baseline n) expected facts = (mode, base, changed)"
    by (metis prod_cases3)
  let ?n = "n\<lparr>iv_baseline := Some \<lparr>bl_revision = next_revision (iv_baseline n), bl_facts = facts\<rparr>\<rparr>"
  obtain r1 n1 where w: "inventory_persist ic \<lparr>bl_revision = next_revision (iv_baseline n), bl_facts = facts\<rparr> ?n = (r1, n1)"
    by fastforce
  have "iv_baseline n1 = iv_baseline ?n"
    using w by (auto simp: inventory_persist_def map_err_def andthen_def external_def modify_def
        split: list.splits option.splits)
  then show ?thesis
    using assms c p w
    by (cases r1) (auto simp: inventory_collect_def andthen_def asks_def modify_def ret_def Let_def inventory_schema_version_def)
qed

lemma key_distinct_sort [simp]: "key_distinct (sort_facts fs) = key_distinct fs"
  by (simp add: key_distinct_def distinct_map sort_facts_def)

lemma set_sort_facts [simp]: "set (sort_facts fs) = set fs"
  by (simp add: sort_facts_def)

lemma stored_fact_same [simp]:
  "key_of (clamp_observed now (scrub_fact sc f)) = key_of f"
  "reserved_fact (clamp_observed now (scrub_fact sc f)) = reserved_fact f"
  "cf_value (clamp_observed now (scrub_fact sc f)) = map_option sc (cf_value f)"
  "cf_status (clamp_observed now (scrub_fact sc f)) = cf_status f"
  by (simp_all add: clamp_observed_def scrub_fact_def key_of_def reserved_fact_def)

lemma keyed_stored: "keyed (stored_facts sc now r) = map_option (\<lambda>f. clamp_observed now (scrub_fact sc f)) \<circ> keyed (ir_facts r)"
proof -
  let ?h = "\<lambda>f. clamp_observed now (scrub_fact sc f)" and ?fs = "filter (\<lambda>f. \<not> reserved_fact f) (ir_facts r)"
  have "rev (map (\<lambda>f. (key_of f, ?h f)) ?fs) = map (\<lambda>(k, f). (k, ?h f)) (rev (map (\<lambda>f. (key_of f, f)) ?fs))"
    by (simp add: rev_map)
  then show ?thesis
    by (simp add: keyed_def stored_facts_def filter_map comp_def map_of_map)
qed

lemma changed_subset: "set (changed_facts previous facts) \<subseteq> set facts"
  by (auto simp: changed_facts_def)

lemma key_distinct_changed: "key_distinct facts \<Longrightarrow> key_distinct (changed_facts previous facts)"
  by (auto simp: key_distinct_def changed_facts_def distinct_map_filter)

lemma unchanged_not_sent:
  assumes "key_distinct facts" and "f \<in> set facts"
    and "recorded_fact previous (key_of f) = Some (cf_value f, cf_status f)"
  shows "keyed (changed_facts previous facts) (key_of f) = None"
proof (rule keyed_None)
  fix h assume h: "h \<in> set (changed_facts previous facts)"
  with assms(3) have "h \<noteq> f" and "h \<in> set facts" by (auto simp: changed_facts_def)
  with assms(1,2) show "key_of h \<noteq> key_of f" by (auto simp: key_distinct_def distinct_map dest: inj_onD)
qed

text \<open>What one report brings to the controller when its base is what the controller holds.\<close>

lemma report_brings:
  assumes "key_distinct facts" and "(mode, base_revision, changed) = report_parts base expected facts"
    and "\<And>b. base = Some b \<Longrightarrow> expected = Some (bl_revision b) \<Longrightarrow> agrees sc m (bl_facts b) c"
    and "f \<in> set facts" and "\<not> reserved_fact f" and "ir_facts r = changed"
  shows "\<exists>g. (ct_caps c m ++ keyed (stored_facts sc now r)) (key_of f) = Some g \<and>
    cf_value g = map_option sc (cf_value f) \<and> cf_status g = cf_status f"
proof (cases "f \<in> set changed")
  case True
  have "key_distinct changed"
    using assms(1,2) by (auto simp: report_parts_def key_distinct_changed split: option.splits if_splits)
  then have "keyed changed (key_of f) = Some f" using True assms(5) by (rule keyed_distinct)
  with assms(6) show ?thesis by (simp add: keyed_stored)
next
  case False
  then obtain b where b: "base = Some b" "expected = Some (bl_revision b)" "changed = changed_facts (bl_facts b) facts"
    using assms(2,4) by (auto simp: report_parts_def split: option.splits if_splits)
  with False assms(4) have rec: "recorded_fact (bl_facts b) (key_of f) = Some (cf_value f, cf_status f)"
    by (simp add: changed_facts_def)
  then obtain f0 where f0: "f0 \<in> set (bl_facts b)" "key_of f0 = key_of f" "cf_value f0 = cf_value f" "cf_status f0 = cf_status f"
    by (auto simp: recorded_fact_def dest!: map_of_SomeD)
  then have "\<not> reserved_fact f0" using assms(5) by (simp add: key_of_def reserved_fact_def)
  with assms(3) [OF b(1,2)] f0 have "\<exists>g. ct_caps c m (key_of f) = Some g \<and> cf_value g = map_option sc (cf_value f) \<and> cf_status g = cf_status f"
    by (auto simp: agrees_def)
  moreover have "keyed changed (key_of f) = None"
    using unchanged_not_sent [OF assms(1,4) rec] b(3) by simp
  ultimately show ?thesis by (simp add: keyed_stored assms(6) map_add_def)
qed


lemma latest_revision_result:
  "latest_inventory_revision jx m c = (r, c') \<Longrightarrow> ct_snaps c' = ct_snaps c \<and> ct_caps c' = ct_caps c \<and> w_now c' = w_now c \<and>
    (\<forall>x. r = Inr x \<longrightarrow> x = Option.bind (latest_snapshot m (ct_snaps c)) (snapshot_revision jx))"
  by (auto simp: latest_inventory_revision_def andthen_def asks_def map_err_def external_def
      split: prod.splits sum.splits list.splits option.splits)

text \<open>A collection moves the node's revision past every stored snapshot.\<close>

lemma collected_is_ahead:
  assumes "inventory_inv jx sc m (n, c)" and "iv_baseline n' = Some b" and "bl_revision b = next_revision (iv_baseline n)"
    and "sn \<in> set (ct_snaps c)" and "sn_machine sn = m" and "snapshot_revision jx sn = Some k"
  shows "k < bl_revision b"
  using inventory_invD [OF assms(1,4-6)] assms(3) by (auto simp: next_revision_def)

lemma collected_keeps_inv:
  assumes "inventory_inv jx sc m (n, c)" and "iv_baseline n' = Some b" and "bl_revision b = next_revision (iv_baseline n)"
    and "ct_snaps k = ct_snaps c"
  shows "inventory_inv jx sc m (n', k)"
  using collected_is_ahead [OF assms(1-3)] assms(2,4) by (fastforce simp: inventory_inv_def)

text \<open>An ingested report makes the controller agree with the collected facts.\<close>

lemma ingested_agrees:
  assumes "wire_fits jx sc now report" and "key_distinct facts" and "inventory_inv jx sc m (n, c)"
    and "expected = Option.bind (latest_snapshot m (ct_snaps c)) (snapshot_revision jx)"
    and "(mode, base, ir_facts report) = report_parts (iv_baseline n) expected facts"
    and "check_report jx now (fst (bounded_payload jx bound report)) = Inr (stored, body)"
    and "ct_caps k = (ct_caps c)(m := ct_caps c m ++ keyed stored)"
  shows "agrees sc m facts k"
proof -
  have "agrees sc m (bl_facts b) c" if "iv_baseline n = Some b" "expected = Some (bl_revision b)" for b
  proof -
    from that(2) assms(4) obtain sn where "latest_snapshot m (ct_snaps c) = Some sn"
        "snapshot_revision jx sn = Some (bl_revision b)" by (auto simp: bind_eq_Some_conv)
    with latest_snapshot_in inventory_invD [OF assms(3)] that(1) show ?thesis by fastforce
  qed
  from report_brings [OF assms(2,5) this, of _ report] check_report_stores [OF assms(1,6)] assms(7) show ?thesis
    by (auto simp: agrees_def)
qed

lemma ingested_keeps_inv:
  assumes "wire_fits jx sc now report" and "inventory_inv jx sc m (n, c)" and "agrees sc m (bl_facts b) k"
    and "iv_baseline n' = Some b" and "bl_revision b = next_revision (iv_baseline n)"
    and "check_report jx now (fst (bounded_payload jx bound report)) = Inr (stored, body)"
    and "ir_revision report = bl_revision b" and "ct_snaps k = ct_snaps c @ [sn]" and "sn_payload sn = body"
  shows "inventory_inv jx sc m (n', k)"
proof -
  have "i = bl_revision b" if "snapshot_revision jx sn = Some i" for i
    using that check_report_stores [OF assms(1,6)] assms(1,7,9)
    by (auto simp: snapshot_revision_def wire_fits_def stored_report_def scrub_report_def split: if_splits)
  moreover have "i < bl_revision b" if "q \<in> set (ct_snaps c)" "sn_machine q = m" "snapshot_revision jx q = Some i" for q i
    using collected_is_ahead [OF assms(2,4,5) that] .
  ultimately show ?thesis using assms(3,4,8) by (fastforce simp: inventory_inv_def)
qed

text \<open>One round: the invariant is kept, and an ingested report makes the controller agree.\<close>

lemma round_result:
  assumes "rd_expected rd = None" and "round_fits ic jx sc m rd p" and "inventory_inv jx sc m p"
    and "inventory_round ic jx m rd p = (b, q)"
  shows "inventory_inv jx sc m q \<and> (b \<longrightarrow> agrees sc m (round_facts rd) (snd q))"
proof -
  obtain n c where p: "p = (n, c)" by fastforce
  define n0 where "n0 = n\<lparr>w_now := rd_node_now rd, w_faults := rd_node_faults rd\<rparr>"
  define c0 where "c0 = c\<lparr>w_now := rd_control_now rd, w_faults := rd_control_faults rd\<rparr>"
  have inv: "inventory_inv jx sc m (n0, c0)"
    using assms(3) by (simp add: inventory_inv_def agrees_def p n0_def c0_def)
  obtain r1 c1 where c1: "latest_inventory_revision jx m c0 = (r1, c1)" by fastforce
  note asked = latest_revision_result [OF c1]
  with inv have inv1: "inventory_inv jx sc m (n0, c1)" by (simp add: inventory_inv_def agrees_def)
  have run: "inventory_round ic jx m rd p =
      (case r1 of Inl _ \<Rightarrow> (False, n0, c1)
       | Inr expected \<Rightarrow>
          (case inventory_collect ic (rd_probes rd) expected n0 of
             (Inl _, n) \<Rightarrow> (False, n, c1)
           | (Inr report, n) \<Rightarrow>
               if rd_lost rd then (False, n, c1)
               else (case ingest_report jx m (fst (bounded_payload jx (rd_bound rd) report)) c1 of
                       (Inl _, c) \<Rightarrow> (False, n, c) | (Inr _, c) \<Rightarrow> (True, n, c))))"
    using c1 by (simp add: inventory_round_def asked_revision_def assms(1) p n0_def [symmetric] c0_def [symmetric] split: sum.split)
  show ?thesis
  proof (cases r1)
    case (Inl e)
    with assms(4) run inv1 show ?thesis by auto
  next
    case (Inr expected)
    define facts where "facts = sort_facts (round_facts rd)"
    obtain r2 n2 where n2: "inventory_collect ic (rd_probes rd) expected n0 = (r2, n2)" by fastforce
    have now: "w_now n0 = rd_node_now rd" by (simp add: n0_def)
    note collected = collect_result [OF n2, unfolded now, folded round_facts_def, OF facts_def]
    let ?b = "\<lparr>bl_revision = next_revision (iv_baseline n0), bl_facts = facts\<rparr>"
    note base = conjunct1 [OF collected]
    note older = collected_keeps_inv [OF inv1 base, simplified]
    show ?thesis
    proof (cases "isl r2 \<or> rd_lost rd")
      case True
      then have "inventory_round ic jx m rd p = (False, n2, c1)" using run Inr n2 by (auto split: sum.split)
      with assms(4) older [of c1] show ?thesis by auto
    next
      case False
      then obtain report where report: "r2 = Inr report" by (cases r2) auto
      obtain r3 c3 where c3: "ingest_report jx m (fst (bounded_payload jx (rd_bound rd) report)) c1 = (r3, c3)" by fastforce
      from False report run Inr n2 c3 assms(4) have q: "b = (\<not> isl r3) \<and> q = (n2, c3)" by (auto split: sum.splits)
      from ingest_report_result [OF c3] consider "isl r3" "ct_snaps c3 = ct_snaps c1"
        | stored body id where "\<not> isl r3"
          "check_report jx (w_now c1) (fst (bounded_payload jx (rd_bound rd) report)) = Inr (stored, body)"
          "ct_caps c3 = (ct_caps c1)(m := ct_caps c1 m ++ keyed stored)"
          "ct_snaps c3 = ct_snaps c1 @ [\<lparr>sn_id = id, sn_machine = m, sn_at = w_now c1,
            sn_source = ''fleetd/'' @ jx_agent jx, sn_payload = body\<rparr>]"
        by auto
      then show ?thesis
      proof cases
        case 1
        with q older [of c3] show ?thesis by simp
      next
        case 2
        have rep: "ir_revision report = next_revision (iv_baseline n0)"
            "(ir_mode report, ir_baseline report, ir_facts report) = report_parts (iv_baseline n0) expected facts"
          using collected report by simp_all
        have fits: "wire_fits jx sc (w_now c1) report" and "key_distinct (round_facts rd)"
          using assms(2) c1 Inr n2 report asked
          by (simp_all add: round_fits_def round_report_def asked_revision_def assms(1) p n0_def [symmetric] c0_def [symmetric] key_distinct_def)
            (simp add: c0_def)
        then have agree: "agrees sc m facts c3"
          using ingested_agrees [OF fits _ inv1 _ rep(2) 2(2,3)] asked Inr by (simp add: facts_def)
        have "inventory_inv jx sc m (n2, c3)"
          using ingested_keeps_inv [OF fits inv1 _ base _ 2(2) _ 2(4)] agree rep(1) by simp
        with agree q show ?thesis by (simp add: agrees_def facts_def)
      qed
    qed
  qed
qed

lemma rounds_keep_inv:
  assumes "rounds_fit ic jx sc m rds p" and "inventory_inv jx sc m p"
  shows "inventory_inv jx sc m (inventory_rounds ic jx m rds p)"
  using assms
proof (induction rds arbitrary: p)
  case (Cons rd rds)
  with round_result [of rd ic jx sc m p] show ?case by (cases "inventory_round ic jx m rd p") auto
qed simp

lemma rounds_fit_snoc:
  "rounds_fit ic jx sc m (rds @ [rd]) p \<longleftrightarrow>
    rounds_fit ic jx sc m rds p \<and> rd_expected rd = None \<and> round_fits ic jx sc m rd (inventory_rounds ic jx m rds p)"
  by (induction rds arbitrary: p) auto

section \<open>Properties\<close>

text \<open>
  Reports may be lost, cut, refused or half stored, statements and files may fail and clocks may
  differ: as long as no operation names a revision of its own, the collected keys are distinct
  and the wire behaves as documented, whenever a report is ingested the controller holds the
  value (scrubbed) and the status the node has just collected, for every fact outside the
  reserved namespace.
\<close>

theorem inventory_converges:
  assumes "rounds_fit ic jx sc m (rds @ [rd]) p" and "inventory_inv jx sc m p"
    and "inventory_round ic jx m rd (inventory_rounds ic jx m rds p) = (True, n, c)"
  shows "agrees sc m (round_facts rd) c"
  using round_result [OF _ _ rounds_keep_inv [OF _ assms(2)] assms(3)] assms(1) by (simp add: rounds_fit_snoc)


definition capability_freshness_ms :: int where "capability_freshness_ms = 24 * 60 * 60 * 1000"

text \<open>The revision a round asks with when the store can be read.\<close>

definition revision_asked :: "json_codec \<Rightarrow> string \<Rightarrow> round \<Rightarrow> control_world \<Rightarrow> nat option" where
  "revision_asked jx m rd c =
     (case rd_expected rd of Some explicit \<Rightarrow> Some explicit
      | None \<Rightarrow> Option.bind (latest_snapshot m (ct_snaps c)) (snapshot_revision jx))"

lemma asked_revision_result:
  "asked_revision jx m rd c = (r, c') \<Longrightarrow> ct_snaps c' = ct_snaps c \<and> ct_caps c' = ct_caps c \<and> w_now c' = w_now c \<and>
    (\<forall>x. r = Inr x \<longrightarrow> x = revision_asked jx m rd c)"
  by (auto simp: asked_revision_def revision_asked_def ret_def split: option.splits dest!: latest_revision_result)

lemma ingested_round:
  assumes "inventory_round ic jx m rd (n, c) = (True, n', c')"
    and "expected = revision_asked jx m rd c"
  obtains report mode base stored body where "round_report ic jx m rd (n, c) = Some report"
    and "(mode, base, ir_facts report) = report_parts (iv_baseline n) expected (sort_facts (round_facts rd))"
    and "check_report jx (rd_control_now rd) (fst (bounded_payload jx (rd_bound rd) report)) = Inr (stored, body)"
    and "ct_caps c' = (ct_caps c)(m := ct_caps c m ++ keyed stored)"
proof -
  define n0 where "n0 = n\<lparr>w_now := rd_node_now rd, w_faults := rd_node_faults rd\<rparr>"
  define c0 where "c0 = c\<lparr>w_now := rd_control_now rd, w_faults := rd_control_faults rd\<rparr>"
  obtain r1 c1 where c1: "asked_revision jx m rd c0 = (r1, c1)" by fastforce
  have asked: "revision_asked jx m rd c0 = expected"
    by (simp add: assms(2) revision_asked_def c0_def split: option.split)
  from c1 have r1: "r1 = Inr expected" and same: "ct_caps c1 = ct_caps c" "w_now c1 = rd_control_now rd"
    using asked_revision_result [OF c1] assms(1) asked
    by (auto simp: inventory_round_def n0_def [symmetric] c0_def [symmetric] split: sum.splits) (auto simp: c0_def)
  obtain r2 n2 where n2: "inventory_collect ic (rd_probes rd) expected n0 = (r2, n2)" by fastforce
  then obtain report where r2: "r2 = Inr report"
    using assms(1) c1 r1 by (cases r2) (simp_all add: inventory_round_def n0_def [symmetric] c0_def [symmetric])
  have lost: "\<not> rd_lost rd"
    using assms(1) c1 r1 n2 r2 by (auto simp: inventory_round_def n0_def [symmetric] c0_def [symmetric])
  obtain r3 c3 where c3: "ingest_report jx m (fst (bounded_payload jx (rd_bound rd) report)) c1 = (r3, c3)" by fastforce
  then have "\<not> isl r3" "c' = c3"
    using assms(1) c1 r1 n2 r2 lost
    by (auto simp: inventory_round_def n0_def [symmetric] c0_def [symmetric] split: sum.splits)
  then obtain stored body where
      "check_report jx (rd_control_now rd) (fst (bounded_payload jx (rd_bound rd) report)) = Inr (stored, body)"
      "ct_caps c' = (ct_caps c)(m := ct_caps c m ++ keyed stored)"
    using ingest_report_result [OF c3] same by auto
  moreover have "round_report ic jx m rd (n, c) = Some report"
    using c1 r1 n2 r2 by (simp add: round_report_def n0_def [symmetric] c0_def [symmetric])
  moreover have "(ir_mode report, ir_baseline report, ir_facts report) =
      report_parts (iv_baseline n) expected (sort_facts (round_facts rd))"
    using collect_result [OF n2 refl] r2 by (simp add: round_facts_def n0_def)
  ultimately show thesis using that by blast
qed

text \<open>
  C25. A fact that does not change is left out of every delta, so the controller keeps the time
  of the report that first brought it: after the freshness threshold the fact counts as stale
  although every round has observed it.
\<close>

theorem unchanged_fact_goes_stale:
  assumes "round_fits ic jx sc m rd (n, c)" and "inventory_round ic jx m rd (n, c) = (True, n', c')"
    and "iv_baseline n = Some b"
    and "revision_asked jx m rd c = Some (bl_revision b)"
    and "f \<in> set (round_facts rd)" and "recorded_fact (bl_facts b) (key_of f) = Some (cf_value f, cf_status f)"
    and "ct_caps c m (key_of f) = Some g" and "cf_status g = FactKnown"
    and "saturating_sub (rd_control_now rd) (cf_observed g) > capability_freshness_ms"
  shows "ct_caps c' m (key_of f) = Some g \<and>
    effective_status (rd_control_now rd) capability_freshness_ms g = FactStale"
proof -
  obtain report mode base stored body where r: "round_report ic jx m rd (n, c) = Some report"
      "(mode, base, ir_facts report) = report_parts (iv_baseline n) (Some (bl_revision b)) (sort_facts (round_facts rd))"
      "check_report jx (rd_control_now rd) (fst (bounded_payload jx (rd_bound rd) report)) = Inr (stored, body)"
      "ct_caps c' = (ct_caps c)(m := ct_caps c m ++ keyed stored)"
    using ingested_round [OF assms(2) assms(4) [symmetric]] .
  from r(1) assms(1) have fits: "wire_fits jx sc (rd_control_now rd) report" "key_distinct (round_facts rd)"
    by (simp_all add: round_fits_def key_distinct_def)
  have "ir_facts report = changed_facts (bl_facts b) (sort_facts (round_facts rd))"
    using r(2) assms(3) by (simp add: report_parts_def)
  then have "keyed stored (key_of f) = None"
    using unchanged_not_sent [of "sort_facts (round_facts rd)" f "bl_facts b"] fits(2) assms(5,6)
      check_report_stores [OF fits(1) r(3)] by (simp add: keyed_stored)
  with r(4) assms(7-9) show ?thesis by (simp add: map_add_def effective_status_def)
qed

section \<open>Witnesses\<close>

definition demo_probe :: probe where
  "demo_probe = \<lparr>pb_name = ''os'', pb_version = 1, pb_run = ThreadAnswered (Inr
     [\<lparr>cf_namespace = ''os'', cf_name = ''family'', cf_value = Some ''linux'', cf_status = FactKnown, cf_observed = 0,
       cf_source = []\<rparr>])\<rparr>"

definition demo_fact :: "int \<Rightarrow> capability_fact" where
  "demo_fact now = \<lparr>cf_namespace = ''os'', cf_name = ''family'', cf_value = Some ''linux'', cf_status = FactKnown,
     cf_observed = now, cf_source = ''fleetd/os/1''\<rparr>"

definition demo_report :: "nat \<Rightarrow> int \<Rightarrow> inventory_report" where
  "demo_report k now = \<lparr>ir_schema = 1, ir_mode = ''full'', ir_revision = k, ir_baseline = None,
     ir_facts = [demo_fact now], ir_errors = []\<rparr>"

definition demo_delta :: inventory_report where
  "demo_delta = \<lparr>ir_schema = 1, ir_mode = ''delta'', ir_revision = 2, ir_baseline = Some 1, ir_facts = [], ir_errors = []\<rparr>"

definition demo_jx :: "(string \<times> json) list \<Rightarrow> json_codec" where
  "demo_jx table = \<lparr>jx_print = (\<lambda>v. case json_index ''revision'' v of JInt k \<Rightarrow> ''{'' @ decimal_int k @ ''}'' | _ \<Rightarrow> ''{}''),
     jx_parse = (\<lambda>t. case map_of table t of None \<Rightarrow> Inl ''EOF'' | Some v \<Rightarrow> Inr v),
     jx_lossy = (\<lambda>t. t), jx_redact = (\<lambda>v. v), jx_agent = ''1''\<rparr>"

definition demo_ic :: inventory_codec where
  "demo_ic = \<lparr>ic_print = (\<lambda>b. decimal (bl_revision b)), ic_parse = (\<lambda>t. None)\<rparr>"

definition demo_round :: "int \<Rightarrow> bool \<Rightarrow> round" where
  "demo_round now lost = \<lparr>rd_expected = None, rd_probes = [demo_probe], rd_node_now = now, rd_control_now = now, rd_node_faults = [],
     rd_control_faults = [], rd_bound = 4096, rd_lost = lost\<rparr>"

definition demo_pair :: fleet_pair where
  "demo_pair =
     (\<lparr>w_now = 0, w_faults = [], w_uuid = (\<lambda>n. replicate (Suc n) CHR ''u''), w_uuid_no = 0, w_ledger = [], w_pending_since = 0,
       nd_file = [], nd_index = [], nd_since = 0, nd_partial = 0, nd_stale = False, iv_baseline = None, iv_file = None\<rparr>,
      \<lparr>w_now = 0, w_faults = [], w_uuid = (\<lambda>n. replicate (Suc n) CHR ''u''), w_uuid_no = 0, w_ledger = [], w_pending_since = 0,
       ct_machines = [''m''], ct_caps = (\<lambda>_ _. None), ct_snaps = []\<rparr>)"

definition demo_table :: "(string \<times> json) list" where
  "demo_table = [(''{1}'', report_json (demo_report 1 5)), (''{2}'', report_json demo_delta),
     (''{3}'', report_json (demo_report 3 7))]"

lemmas demo_defs = demo_ic_def demo_jx_def demo_table_def demo_report_def demo_delta_def demo_fact_def demo_round_def demo_pair_def demo_probe_def

lemmas round_runs = inventory_round_def round_report_def asked_revision_def revision_asked_def latest_inventory_revision_def inventory_collect_def
  inventory_persist_def ingest_report_def record_capabilities_def record_snapshot_def require_machine_def
  machine_statement_def atomically_def act_simps external_def fresh_uuid_def report_parts_def next_revision_def
  bounded_payload_def check_report_def round_facts_def sort_facts_def runner_collect.simps run_isolated_def
  stamp_fact_def max_fact_value_bytes_def max_facts_per_report_def max_capability_facts_def max_report_bytes_def
  max_report_facts_def max_snapshot_bytes_def u64_max_def inventory_schema_version_def latest_snapshot_def
  snapshot_revision_def fact_validate_def validate_part_def fact_char_def text_simps clamp_observed_def
  reserved_fact_def to_ascii_lowercase_def ascii_lower_def reserved_fact_namespace_def upsert_fact_def

lemmas round_texts = decimal_int_def decimal.simps Let_def option.map_id scrub_report_def stored_report_def
  stored_facts_def scrub_fact_def facts_json_def facts_of_json_def fact_json_def report_json_def json_index_def
  fact_of_fields_def key_of_def recorded_fact_def changed_facts_def in_i64_def i64_min_def i64_max_def
  capability_id_def capability_from_id_def

lemma demo_digits:
  "char_of (49::nat) = CHR ''1''" "char_of (50::nat) = CHR ''2''" "char_of (51::nat) = CHR ''3''"
  by code_simp+

theorem inventory_converges_witness:
  "\<exists>n c. inventory_round demo_ic (demo_jx demo_table) ''m'' (demo_round 7 False)
     (inventory_rounds demo_ic (demo_jx demo_table) ''m'' [demo_round 5 False, demo_round 6 True] demo_pair) = (True, n, c) \<and>
    agrees (\<lambda>t. t) ''m'' (round_facts (demo_round 7 False)) c"
proof -
  let ?jx = "demo_jx demo_table" and ?rds = "[demo_round 5 False, demo_round 6 True]"
  have fit: "rounds_fit demo_ic ?jx (\<lambda>t. t) ''m'' (?rds @ [demo_round 7 False]) demo_pair"
    by (simp add: demo_defs round_runs round_fits_def wire_fits_def round_texts demo_digits)
  have inv: "inventory_inv ?jx (\<lambda>t. t) ''m'' demo_pair" by (simp add: inventory_inv_def demo_pair_def)
  have "fst (inventory_round demo_ic ?jx ''m'' (demo_round 7 False) (inventory_rounds demo_ic ?jx ''m'' ?rds demo_pair)) = True"
    by (simp add: demo_defs round_runs round_texts demo_digits)
  then obtain n c where "inventory_round demo_ic ?jx ''m'' (demo_round 7 False)
      (inventory_rounds demo_ic ?jx ''m'' ?rds demo_pair) = (True, n, c)" by (metis prod.collapse)
  with inventory_converges [OF fit inv this] show ?thesis by blast
qed

theorem unchanged_fact_goes_stale_witness:
  "\<exists>n c n' c'. inventory_round demo_ic (demo_jx [(''{1}'', report_json (demo_report 1 5)), (''{2}'', report_json demo_delta)])
       ''m'' (demo_round 90000000 False) (n, c) = (True, n', c') \<and>
     ct_caps c' ''m'' (''os'', ''family'') = Some (demo_fact 5) \<and>
     effective_status 90000000 capability_freshness_ms (demo_fact 5) = FactStale"
proof -
  let ?jx = "demo_jx [(''{1}'', report_json (demo_report 1 5)), (''{2}'', report_json demo_delta)]"
  let ?rd = "demo_round 90000000 False"
  define q where "q = snd (inventory_round demo_ic ?jx ''m'' (demo_round 5 False) demo_pair)"
  obtain n c where nc: "q = (n, c)" by fastforce
  have run: "iv_baseline (fst q) = Some \<lparr>bl_revision = 1, bl_facts = [demo_fact 5]\<rparr>"
    "ct_caps (snd q) ''m'' (''os'', ''family'') = Some (demo_fact 5)"
    "revision_asked ?jx ''m'' ?rd (snd q) = Some 1"
    "round_fits demo_ic ?jx (\<lambda>t. t) ''m'' ?rd q" "fst (inventory_round demo_ic ?jx ''m'' ?rd q) = True"
    unfolding q_def
    by (simp_all add: demo_defs round_runs round_fits_def wire_fits_def round_texts demo_digits)
  then have n: "iv_baseline n = Some \<lparr>bl_revision = 1, bl_facts = [demo_fact 5]\<rparr>"
    and c: "ct_caps c ''m'' (''os'', ''family'') = Some (demo_fact 5)"
      "revision_asked ?jx ''m'' ?rd c = Some 1"
    and fit: "round_fits demo_ic ?jx (\<lambda>t. t) ''m'' ?rd (n, c)" by (simp_all add: nc)
  from run(5) obtain n' c' where run: "inventory_round demo_ic ?jx ''m'' ?rd (n, c) = (True, n', c')"
    unfolding nc by (metis prod.collapse)
  have f: "demo_fact 90000000 \<in> set (round_facts ?rd)"
    by (simp add: demo_defs round_runs round_texts demo_digits)
  have "ct_caps c' ''m'' (''os'', ''family'') = Some (demo_fact 5) \<and>
      effective_status 90000000 capability_freshness_ms (demo_fact 5) = FactStale"
    using unchanged_fact_goes_stale [OF fit run n _ f] c
    by (simp add: demo_fact_def demo_round_def key_of_def recorded_fact_def saturating_sub_def sat_i64_def i64_min_def i64_max_def
        capability_freshness_ms_def)
  with run show ?thesis by blast
qed

end
