(* ===== verification/Node_Commands.thy ===== *)
theory Node_Commands
  imports Node_Inventory
begin

text \<open>
  Command execution on a node under the journal contract, \<open>crates/fleetd/src/commands.rs\<close>,
  and the answer the gateway client sends (\<open>crates/fleetd/src/gateway.rs\<close>).
\<close>

section \<open>Commands and outcomes\<close>

datatype result_status = ResUnspecified | ResSucceeded | ResFailed | ResCancelled | ResTimedOut | ResRejected

record node_command =
  nc_operation :: string
  nc_kind :: string
  nc_deadline :: int
  nc_max_output :: nat
  nc_payload :: string

record command_outcome =
  co_status :: result_status
  co_payload :: string
  co_fault :: "journal_fault option"
  co_truncated :: bool

text \<open>
  What the daemon is composed with: the codecs, the probes of this collection, the payload of
  the diagnostic command for a journal size, and the elapsed milliseconds of the work.
\<close>

record node_env =
  ne_journal :: journal_codec
  ne_inventory :: inventory_codec
  ne_json :: json_codec
  ne_probes :: "probe list"
  ne_diagnostic :: "nat \<Rightarrow> string"
  ne_elapsed :: int

type_synonym ('z, 'a) nc_act = "('z inventory_world_scheme, string, 'a) act"

definition supported_kinds :: "string list" where
  "supported_kinds = [''node.noop'', ''node.diagnostic'', ''node.inventory'']"

definition fault_session_rejected :: int where "fault_session_rejected = 7"
definition fault_malformed_identity :: int where "fault_malformed_identity = 6"
definition fault_malformed_frame :: int where "fault_malformed_frame = 3"

definition deadline_passed :: "int \<Rightarrow> 'z world_scheme \<Rightarrow> bool" where
  "deadline_passed deadline s \<longleftrightarrow> deadline \<le> w_now s"

definition rejected_outcome :: "int \<Rightarrow> string \<Rightarrow> command_outcome" where
  "rejected_outcome code message = \<lparr>co_status = ResRejected, co_payload = [],
     co_fault = Some \<lparr>jf_code = code, jf_message = message\<rparr>, co_truncated = False\<rparr>"

definition status_name :: "result_status \<Rightarrow> string" where
  "status_name s = (case s of ResSucceeded \<Rightarrow> ''succeeded'' | ResCancelled \<Rightarrow> ''cancelled'' | ResTimedOut \<Rightarrow> ''timed_out''
     | ResRejected \<Rightarrow> ''rejected'' | ResFailed \<Rightarrow> ''failed'' | ResUnspecified \<Rightarrow> ''failed'')"

definition status_from :: "string \<Rightarrow> result_status" where
  "status_from t = (if t = ''succeeded'' then ResSucceeded else if t = ''cancelled'' then ResCancelled
     else if t = ''timed_out'' then ResTimedOut else if t = ''rejected'' then ResRejected else ResFailed)"

definition to_journal :: "int \<Rightarrow> command_outcome \<Rightarrow> journal_result" where
  "to_journal duration o' = \<lparr>js_status = status_name (co_status o'), js_exit = None, js_truncated = co_truncated o',
     js_duration = duration, js_stopped = (co_status o' \<noteq> ResFailed), js_fault = co_fault o', js_payload = co_payload o'\<rparr>"

definition replayed :: "journal_result \<Rightarrow> command_outcome" where
  "replayed r = \<lparr>co_status = status_from (js_status r), co_payload = js_payload r, co_fault = js_fault r,
     co_truncated = js_truncated r\<rparr>"

section \<open>Execution\<close>

definition collect_command :: "node_env \<Rightarrow> node_command \<Rightarrow> ('z, command_outcome) nc_act" where
  "collect_command env c =
     (let expected = (case jx_parse (ne_json env) (nc_payload c) of
          Inl _ \<Rightarrow> None | Inr v \<Rightarrow> json_u64 (json_index ''expectedRevision'' v)) in
      andthen (map_err (\<lambda>d. ''the inventory collection failed: '' @ d)
                (inventory_collect (ne_inventory env) (ne_probes env) expected)) (\<lambda>report.
      case bounded_payload (ne_json env) (nc_max_output c) report of
        (payload, truncated) \<Rightarrow>
          ret \<lparr>co_status = ResSucceeded, co_payload = payload, co_fault = None, co_truncated = truncated\<rparr>))"

definition noop_payload :: string where
  "noop_payload = [CHR ''{'', CHR 0x22] @ ''kind'' @ [CHR 0x22, CHR '':'', CHR 0x22] @ ''node.noop'' @ [CHR 0x22, CHR ''}'']"

definition command_work :: "node_env \<Rightarrow> node_command \<Rightarrow> ('z, command_outcome) nc_act" where
  "command_work env c =
     (if nc_kind c = ''node.noop''
      then ret \<lparr>co_status = ResSucceeded, co_payload = noop_payload, co_fault = None, co_truncated = False\<rparr>
      else if nc_kind c = ''node.diagnostic''
      then andthen (asks record_count) (\<lambda>n. ret \<lparr>co_status = ResSucceeded, co_payload = ne_diagnostic env n,
             co_fault = None, co_truncated = False\<rparr>)
      else if nc_kind c = ''node.inventory'' then collect_command env c
      else ret (rejected_outcome fault_session_rejected
             (''the node does not execute '' @ debug_str (nc_kind c) @ '' commands'')))"

text \<open>Accepted and settled in one go, without any work.\<close>

definition settle_at_once :: "node_env \<Rightarrow> node_command \<Rightarrow> command_outcome \<Rightarrow> ('z, command_outcome) nc_act" where
  "settle_at_once env c outcome =
     andthen (map_err journal_error_text (record_accepted (ne_journal env) (nc_operation c) (nc_kind c))) (\<lambda>_.
     andthen (map_err journal_error_text (record_result (ne_journal env) (nc_operation c) (to_journal 0 outcome))) (\<lambda>_.
     ret outcome))"

definition command_run :: "node_env \<Rightarrow> node_command \<Rightarrow> ('z, command_outcome) nc_act" where
  "command_run env c =
     andthen (map_err journal_error_text (record_accepted (ne_journal env) (nc_operation c) (nc_kind c))) (\<lambda>_.
     andthen (command_work env c) (\<lambda>outcome.
     andthen (map_err journal_error_text
               (record_result (ne_journal env) (nc_operation c) (to_journal (ne_elapsed env) outcome))) (\<lambda>_.
     ret outcome)))"

definition timed_out_outcome :: command_outcome where
  "timed_out_outcome = \<lparr>co_status = ResTimedOut, co_payload = [], co_fault = None, co_truncated = False\<rparr>"

definition in_flight_text :: "string \<Rightarrow> string" where
  "in_flight_text i = ''operation '' @ i @
     '' is already in flight; its result will be reported by the original execution''"

definition command_execute :: "node_env \<Rightarrow> node_command \<Rightarrow> ('z, command_outcome) nc_act" where
  "command_execute env c =
     (if nc_operation c = [] then ret (rejected_outcome fault_malformed_identity ''the command carries no operation id'')
      else if nc_kind c \<notin> set supported_kinds
      then settle_at_once env c (rejected_outcome fault_session_rejected
             (''the node does not execute '' @ debug_str (nc_kind c) @ '' commands''))
      else andthen (asks (deadline_passed (nc_deadline c))) (\<lambda>late.
           if late then settle_at_once env c timed_out_outcome
           else andthen (asks (terminal_result (nc_operation c))) (\<lambda>known.
           case known of
             Some r \<Rightarrow> ret (replayed r)
           | None \<Rightarrow>
               andthen (asks (is_in_flight (nc_operation c))) (\<lambda>flying.
               if flying then fail (in_flight_text (nc_operation c)) else command_run env c))))"

section \<open>The answer on the wire\<close>

record command_result =
  cr_operation :: string
  cr_status :: result_status
  cr_exit :: int
  cr_truncated :: bool
  cr_duration :: int
  cr_stopped :: bool
  cr_fault :: "journal_fault option"
  cr_payload :: string

definition to_wire :: "string \<Rightarrow> command_outcome \<Rightarrow> command_result" where
  "to_wire i o' = \<lparr>cr_operation = i, cr_status = co_status o', cr_exit = 0, cr_truncated = co_truncated o', cr_duration = 0,
     cr_stopped = (co_status o' \<noteq> ResFailed), cr_fault = co_fault o', cr_payload = co_payload o'\<rparr>"

definition command_answer :: "string \<Rightarrow> string + command_outcome \<Rightarrow> command_result" where
  "command_answer i r =
     (case r of
        Inr outcome \<Rightarrow> to_wire i outcome
      | Inl detail \<Rightarrow> \<lparr>cr_operation = i, cr_status = ResFailed, cr_exit = 0, cr_truncated = False, cr_duration = 0, cr_stopped = False,
          cr_fault = Some \<lparr>jf_code = fault_malformed_frame, jf_message = detail\<rparr>, cr_payload = []\<rparr>)"

section \<open>The index only grows\<close>













section \<open>At most one start\<close>


lemma unknown_iff:
  "terminal_result i s = None \<and> \<not> is_in_flight i s \<longleftrightarrow> i \<notin> dom (map_of (nd_index s))"
  by (auto simp: terminal_result_def is_in_flight_def domIff split: option.splits)




text \<open>Everything but the collection leaves the node's baseline alone.\<close>

definition same_baseline :: "'z inventory_world_scheme \<Rightarrow> 'z inventory_world_scheme \<Rightarrow> bool" where
  "same_baseline s t \<longleftrightarrow> iv_baseline t = iv_baseline s"

interpretation based: effect_relation same_baseline
  by unfold_locales (auto simp: same_baseline_def)

lemma keep_baseline: "(\<And>s. iv_baseline (snd (m s)) = iv_baseline s) \<Longrightarrow> within same_baseline m"
  by (simp add: within_def same_baseline_def)

lemma steps_baseline:
  "within same_baseline io_step" "within same_baseline rewrite_step" "within same_baseline (write_bytes t)"
  by (rule keep_baseline; auto simp: io_step_def rewrite_step_def write_bytes_def map_err_def external_def
      split: list.splits option.splits)+

lemma modify_baseline: "(\<And>s. iv_baseline (f s) = iv_baseline s) \<Longrightarrow> within same_baseline (modify f)"
  by (simp add: within_def modify_def same_baseline_def)

lemma write_temporary_baseline: "within same_baseline (write_temporary ls)"
  by (induction ls) (auto intro!: based.intros steps_baseline)

lemma compact_baseline: "within same_baseline (compact jc)"
  unfolding compact_def by (intro based.intros steps_baseline write_temporary_baseline modify_baseline) simp_all

lemma append_baseline: "within same_baseline (append_record jc r)"
  unfolding append_record_def by (intro based.intros steps_baseline compact_baseline modify_baseline) simp_all

lemma record_baseline:
  "within same_baseline (record_accepted jc i k)" "within same_baseline (record_result jc i r)"
  unfolding record_accepted_def record_result_def Let_def
  by (intro based.intros append_baseline modify_baseline; simp)+

text \<open>How many collections the node has run: the revision of its baseline.\<close>

definition collections :: "'z inventory_world_scheme \<Rightarrow> nat" where
  "collections s = (case node_revision s of None \<Rightarrow> 0 | Some k \<Rightarrow> k)"

lemma same_collections: "same_baseline s t \<Longrightarrow> collections t = collections s"
  by (simp add: same_baseline_def collections_def node_revision_def)








text \<open>
  Deliveries in one life of the daemon: each has its environment, command, clock, failing calls
  and partial writes.
\<close>

record delivery =
  dv_env :: node_env
  dv_command :: node_command
  dv_now :: int
  dv_faults :: "string option list"
  dv_partial :: nat

definition arriving :: "delivery \<Rightarrow> 'z inventory_world_scheme \<Rightarrow> 'z inventory_world_scheme" where
  "arriving d s = s\<lparr>w_now := dv_now d, w_faults := dv_faults d, nd_partial := dv_partial d\<rparr>"



lemma arriving_index [simp]: "nd_index (arriving d s) = nd_index s" "collections (arriving d s) = collections s"
  by (simp_all add: arriving_def collections_def node_revision_def)


text \<open>
  A command whose result is known and whose deadline is ahead is answered from the journal:
  nothing is written, collected or executed.
\<close>

theorem replay_is_pure:
  assumes "nc_operation c \<noteq> []" and "nc_kind c \<in> set supported_kinds" and "\<not> deadline_passed (nc_deadline c) s"
    and "terminal_result (nc_operation c) s = Some r"
  shows "command_execute env c s = (Inr (replayed r), s)"
  using assms by (simp add: command_execute_def act_simps)

lemma append_settles:
  assumes "w_faults s = []"
  obtains t where "append_record jc r s = (Inr (), t)" and "map_of (nd_index t) = (map_of (nd_index s))(jr_operation r \<mapsto> r)"
    and "w_faults t = []" and "w_now t = w_now s"
  using assms
  by (cases "nd_stale s"; cases "nd_since s + 1 \<ge> compaction_threshold")
     (auto simp: append_record_def act_simps write_bytes_def journal_steps compact_runs index_insert_def update_conv')

lemma settle_at_once_settles:
  assumes "w_faults s = []"
  obtains t where "settle_at_once env c o' s = (Inr o', t)"
    and "terminal_result (nc_operation c) t = Some (to_journal 0 o')" and "w_faults t = []"
proof -
  let ?i = "nc_operation c" and ?jc = "ne_journal env"
  let ?r = "\<lparr>jr_operation = ?i, jr_kind = nc_kind c, jr_accepted = w_now s, jr_result = None\<rparr>"
  obtain t where t: "append_record ?jc ?r s = (Inr (), t)" "map_of (nd_index t) = (map_of (nd_index s))(?i \<mapsto> ?r)" "w_faults t = []"
    using append_settles [OF assms, of ?jc ?r] by auto
  let ?r' = "?r\<lparr>jr_result := Some (to_journal 0 o')\<rparr>"
  let ?t = "t\<lparr>nd_index := AList.update ?i ?r' (nd_index t)\<rparr>"
  obtain u where u: "append_record ?jc ?r' ?t = (Inr (), u)" "map_of (nd_index u) = (map_of (nd_index ?t))(?i \<mapsto> ?r')" "w_faults u = []"
    using append_settles [of ?t ?jc ?r'] t(3) by auto
  have acc: "record_accepted ?jc ?i (nc_kind c) s = (Inr (), t)"
    using t(1) by (simp add: record_accepted_def act_simps)
  have "record_result ?jc ?i (to_journal 0 o') t = (Inr (), u)"
    using t(2) u(1) by (simp add: record_result_def act_simps Let_def)
  with acc have "settle_at_once env c o' s = (Inr o', u)"
    by (simp add: settle_at_once_def act_simps)
  moreover have "terminal_result ?i u = Some (to_journal 0 o')" using u(2) by (simp add: terminal_result_def)
  ultimately show thesis using u(3) that by blast
qed

text \<open>
  The deadline is looked at before the journal: a command that has succeeded is answered as
  timed out when it is delivered again after its deadline, and its recorded result is replaced.
\<close>

theorem late_redelivery_overwrites:
  assumes "w_faults s = []" and "nc_operation c \<noteq> []" and "nc_kind c \<in> set supported_kinds"
    and "terminal_result (nc_operation c) s = Some r" and "js_status r = ''succeeded''"
    and "deadline_passed (nc_deadline c) s"
  shows "\<exists>t. command_execute env c s = (Inr timed_out_outcome, t) \<and>
    terminal_result (nc_operation c) t = Some (to_journal 0 timed_out_outcome)"
proof -
  obtain t where "settle_at_once env c timed_out_outcome s = (Inr timed_out_outcome, t)"
      "terminal_result (nc_operation c) t = Some (to_journal 0 timed_out_outcome)"
    using settle_at_once_settles [OF assms(1)] by metis
  with assms show ?thesis by (simp add: command_execute_def act_simps)
qed

text \<open>
  The index is written before the file: when the acceptance of a new command cannot be written
  its work never starts, yet every redelivery in time is refused as already in flight.
\<close>

theorem failed_acceptance_wedges:
  assumes "w_faults s = Some d # fs" and "nc_operation c \<noteq> []" and "nc_kind c \<in> set supported_kinds"
    and "nc_operation c \<notin> dom (map_of (nd_index s))" and "\<not> deadline_passed (nc_deadline c) s"
  shows "collections (snd (command_execute env c s)) = collections s \<and> fst (command_execute env c s) = Inl (journal_error_text (JournalIo d)) \<and>
    (\<forall>now \<in> {..< nc_deadline c}. \<forall>later fs'.
       fst (command_execute later c ((snd (command_execute env c s))\<lparr>w_now := now, w_faults := fs'\<rparr>)) =
         Inl (in_flight_text (nc_operation c)))"
proof -
  let ?r = "\<lparr>jr_operation = nc_operation c, jr_kind = nc_kind c, jr_accepted = w_now s, jr_result = None\<rparr>"
  have "fst (record_accepted (ne_journal env) (nc_operation c) (nc_kind c) s) = Inl (JournalIo d)"
    and index: "nd_index (snd (record_accepted (ne_journal env) (nc_operation c) (nc_kind c) s)) = index_insert ?r (nd_index s)"
    using assms(1)
    by (simp_all add: record_accepted_def append_record_def act_simps write_bytes_def io_step_def external_def)
  moreover have "same_baseline s (snd (record_accepted (ne_journal env) (nc_operation c) (nc_kind c) s))"
    by (rule within_snd) (rule record_baseline)
  ultimately obtain t where base: "same_baseline s t" and acc: "record_accepted (ne_journal env) (nc_operation c) (nc_kind c) s = (Inl (JournalIo d), t)"
    and t: "nd_index t = index_insert ?r (nd_index s)"
    by (metis prod.collapse)
  from unknown_iff [of "nc_operation c" s] assms(4) have fresh: "terminal_result (nc_operation c) s = None" "\<not> is_in_flight (nc_operation c) s"
    by auto
  have run: "command_execute env c s = (Inl (journal_error_text (JournalIo d)), t)"
    using assms fresh acc by (simp add: command_execute_def command_run_def act_simps)
  have "terminal_result (nc_operation c) u = None \<and> is_in_flight (nc_operation c) u" if "nd_index u = nd_index t" for u :: "'a inventory_world_scheme"
    using that t by (simp add: terminal_result_def is_in_flight_def index_insert_def update_conv')
  then show ?thesis
    using run acc assms(2,3) same_collections [OF base] by (simp add: command_execute_def act_simps deadline_passed_def)
qed

section \<open>Witnesses\<close>

definition demo_env :: node_env where
  "demo_env = \<lparr>ne_journal = demo_codec, ne_inventory = demo_ic, ne_json = demo_jx [], ne_probes = [],
     ne_diagnostic = (\<lambda>n. []), ne_elapsed = 3\<rparr>"

definition demo_command :: node_command where
  "demo_command = \<lparr>nc_operation = ''a'', nc_kind = ''node.noop'', nc_deadline = 100, nc_max_output = 10, nc_payload = []\<rparr>"

definition demo_result :: journal_result where
  "demo_result = \<lparr>js_status = ''succeeded'', js_exit = None, js_truncated = False, js_duration = 3, js_stopped = True,
     js_fault = None, js_payload = noop_payload\<rparr>"

definition demo_daemon :: "int \<Rightarrow> string option list \<Rightarrow> journal_index \<Rightarrow> inventory_world" where
  "demo_daemon now faults idx = \<lparr>w_now = now, w_faults = faults, w_uuid = (\<lambda>n. replicate (Suc n) CHR ''u''), w_uuid_no = 0,
     w_ledger = [], w_pending_since = 0, nd_file = [], nd_index = idx, nd_since = 0, nd_partial = 0, nd_stale = False,
     iv_baseline = None, iv_file = None\<rparr>"

lemmas demo_daemon_defs = demo_env_def demo_command_def demo_daemon_def demo_result_def supported_kinds_def
  terminal_result_def deadline_passed_def demo_a_def

theorem replay_is_pure_witness:
  "command_execute demo_env demo_command (demo_daemon 10 [] [(''a'', demo_a\<lparr>jr_result := Some demo_result\<rparr>)]) =
    (Inr (replayed demo_result), demo_daemon 10 [] [(''a'', demo_a\<lparr>jr_result := Some demo_result\<rparr>)])"
  by (rule replay_is_pure) (simp_all add: demo_daemon_defs)

theorem late_redelivery_overwrites_witness:
  "\<exists>t. command_execute demo_env demo_command (demo_daemon 200 [] [(''a'', demo_a\<lparr>jr_result := Some demo_result\<rparr>)]) =
      (Inr timed_out_outcome, t) \<and>
    terminal_result ''a'' t = Some (to_journal 0 timed_out_outcome)"
  using late_redelivery_overwrites [of "demo_daemon 200 [] [(''a'', demo_a\<lparr>jr_result := Some demo_result\<rparr>)]" demo_command demo_result demo_env]
  by (simp add: demo_daemon_defs)

theorem failed_acceptance_wedges_witness:
  "fst (command_execute demo_env demo_command ((snd (command_execute demo_env demo_command (demo_daemon 10 [Some ''full''] [])))
     \<lparr>w_now := 11, w_faults := []\<rparr>)) = Inl (in_flight_text ''a'')"
proof -
  have c: "nc_deadline demo_command = 100" "nc_operation demo_command = ''a''" by (simp_all add: demo_command_def)
  have "\<forall>now \<in> {..< nc_deadline demo_command}. \<forall>later fs'.
      fst (command_execute later demo_command ((snd (command_execute demo_env demo_command (demo_daemon 10 [Some ''full''] [])))
        \<lparr>w_now := now, w_faults := fs'\<rparr>)) = Inl (in_flight_text (nc_operation demo_command))"
    using failed_acceptance_wedges [of "demo_daemon 10 [Some ''full''] []" "''full''" "[]" demo_command demo_env]
    by (simp add: demo_daemon_defs)
  then show ?thesis by (simp add: c)
qed

end
