(* ===== verification/Lab_Template.thy ===== *)
theory Lab_Template
  imports Values Audit_Ledger
begin

text \<open>
  The Lab primitives of \<open>crates/fleet-core/src/lab.rs\<close>: the enumerations with their stable
  ids, the validation of template content (resources, SSH trust, interactive user, audio,
  hardware) and the lease with its readiness, expiry and extension rules. An \<open>i64\<close> is an
  \<open>int\<close> and \<open>checked_add\<close> is written out; a \<open>u32\<close> or \<open>u16\<close> is a \<open>nat\<close>.
\<close>

section \<open>Enumerations\<close>

datatype readiness_probe = GuestAgent | SshExec | ProjectReady
datatype guest_os = Linux | Windows
datatype exec_session = ServiceSession | Interactive
datatype cleanup_strategy = Destroy | Revert | Keep
datatype guest_state = Provisioning | Provisioned | Booting | Bootstrapping | Ready | NeverReady
datatype hardware_kind = Usb

datatype lease_state =
    LeaseRequested | LeaseQueued | LeaseReserving | LeaseProvisioning | LeaseBooting
  | LeaseBootstrapping | LeaseReady | LeaseReleasing | LeaseReleased | LeaseFailed
  | LeaseCleanupFailed

fun probe_id :: "readiness_probe \<Rightarrow> string" where
  "probe_id GuestAgent = ''guest_agent''"
| "probe_id SshExec = ''ssh_exec''"
| "probe_id ProjectReady = ''project_ready''"

definition unrecognized :: "string \<Rightarrow> string \<Rightarrow> string + 'a" where
  "unrecognized what other = Inl (''unrecognized '' @ what @ '' '' @ debug_str other)"

definition probe_from_id :: "string \<Rightarrow> string + readiness_probe" where
  "probe_from_id t =
     (if t = ''guest_agent'' then Inr GuestAgent
      else if t = ''ssh_exec'' then Inr SshExec
      else if t = ''project_ready'' then Inr ProjectReady
      else unrecognized ''readiness probe'' t)"

fun guest_os_id :: "guest_os \<Rightarrow> string" where
  "guest_os_id Linux = ''linux''"
| "guest_os_id Windows = ''windows''"

definition guest_os_from_id :: "string \<Rightarrow> string + guest_os" where
  "guest_os_from_id t =
     (if t = ''linux'' then Inr Linux
      else if t = ''windows'' then Inr Windows
      else unrecognized ''guest OS'' t)"

fun session_id :: "exec_session \<Rightarrow> string" where
  "session_id ServiceSession = ''service''"
| "session_id Interactive = ''interactive''"

definition session_from_id :: "string \<Rightarrow> string + exec_session" where
  "session_from_id t =
     (if t = ''service'' then Inr ServiceSession
      else if t = ''interactive'' then Inr Interactive
      else Inl (''unrecognized session '' @ debug_str t @ ''; use service or interactive''))"

fun cleanup_id :: "cleanup_strategy \<Rightarrow> string" where
  "cleanup_id Destroy = ''destroy''"
| "cleanup_id Revert = ''revert''"
| "cleanup_id Keep = ''keep''"

definition cleanup_from_id :: "string \<Rightarrow> string + cleanup_strategy" where
  "cleanup_from_id t =
     (if t = ''destroy'' then Inr Destroy
      else if t = ''revert'' then Inr Revert
      else if t = ''keep'' then Inr Keep
      else unrecognized ''cleanup strategy'' t)"

fun guest_id :: "guest_state \<Rightarrow> string" where
  "guest_id Provisioning = ''provisioning''"
| "guest_id Provisioned = ''provisioned''"
| "guest_id Booting = ''booting''"
| "guest_id Bootstrapping = ''bootstrapping''"
| "guest_id Ready = ''ready''"
| "guest_id NeverReady = ''never_ready''"

definition guest_from_id :: "string \<Rightarrow> string + guest_state" where
  "guest_from_id t =
     (if t = ''provisioning'' then Inr Provisioning
      else if t = ''provisioned'' then Inr Provisioned
      else if t = ''booting'' then Inr Booting
      else if t = ''bootstrapping'' then Inr Bootstrapping
      else if t = ''ready'' then Inr Ready
      else if t = ''never_ready'' then Inr NeverReady
      else unrecognized ''guest state'' t)"

fun hardware_kind_id :: "hardware_kind \<Rightarrow> string" where
  "hardware_kind_id Usb = ''usb''"

definition hardware_kind_from_id :: "string \<Rightarrow> string + hardware_kind" where
  "hardware_kind_from_id t = (if t = ''usb'' then Inr Usb else unrecognized ''hardware kind'' t)"

fun lease_id_text :: "lease_state \<Rightarrow> string" where
  "lease_id_text LeaseRequested = ''requested''"
| "lease_id_text LeaseQueued = ''queued''"
| "lease_id_text LeaseReserving = ''reserving''"
| "lease_id_text LeaseProvisioning = ''provisioning''"
| "lease_id_text LeaseBooting = ''booting''"
| "lease_id_text LeaseBootstrapping = ''bootstrapping''"
| "lease_id_text LeaseReady = ''ready''"
| "lease_id_text LeaseReleasing = ''releasing''"
| "lease_id_text LeaseReleased = ''released''"
| "lease_id_text LeaseFailed = ''failed''"
| "lease_id_text LeaseCleanupFailed = ''cleanup_failed''"

definition lease_from_id :: "string \<Rightarrow> string + lease_state" where
  "lease_from_id t =
     (if t = ''requested'' then Inr LeaseRequested
      else if t = ''queued'' then Inr LeaseQueued
      else if t = ''reserving'' then Inr LeaseReserving
      else if t = ''provisioning'' then Inr LeaseProvisioning
      else if t = ''booting'' then Inr LeaseBooting
      else if t = ''bootstrapping'' then Inr LeaseBootstrapping
      else if t = ''ready'' then Inr LeaseReady
      else if t = ''releasing'' then Inr LeaseReleasing
      else if t = ''released'' then Inr LeaseReleased
      else if t = ''failed'' then Inr LeaseFailed
      else if t = ''cleanup_failed'' then Inr LeaseCleanupFailed
      else unrecognized ''lease state'' t)"

definition lease_terminal :: "lease_state \<Rightarrow> bool" where
  "lease_terminal st \<longleftrightarrow> st = LeaseReleased \<or> st = LeaseFailed \<or> st = LeaseCleanupFailed"

text \<open>The parsers read exactly the ids: each enumeration satisfies the shared contract.\<close>

definition answer :: "'e + 'a \<Rightarrow> 'a option" where
  "answer r = (case r of Inl _ \<Rightarrow> None | Inr x \<Rightarrow> Some x)"

lemma answer_simps [simp]: "answer (Inr x) = Some x" "answer (Inl e) = None"
  by (simp_all add: answer_def)

lemma answer_Some: "answer r = Some x \<longleftrightarrow> r = Inr x"
  by (cases r) simp_all

lemma unrecognized_not_Inr [simp]: "unrecognized w t \<noteq> Inr x"
  by (simp add: unrecognized_def)

interpretation probe_ids: text_enum probe_id "[GuestAgent, SshExec, ProjectReady]" "\<lambda>t. answer (probe_from_id t)"
proof unfold_locales
  fix x :: readiness_probe and s
  show "x \<in> set [GuestAgent, SshExec, ProjectReady]" by (cases x) simp_all
  show "answer (probe_from_id (probe_id x)) = Some x" by (cases x) (simp_all add: probe_from_id_def)
  show "answer (probe_from_id s) = Some x \<Longrightarrow> s = probe_id x"
    by (auto simp: answer_Some probe_from_id_def split: if_splits)
qed simp

interpretation guest_os_ids: text_enum guest_os_id "[Linux, Windows]" "\<lambda>t. answer (guest_os_from_id t)"
proof unfold_locales
  fix x :: guest_os and s
  show "x \<in> set [Linux, Windows]" by (cases x) simp_all
  show "answer (guest_os_from_id (guest_os_id x)) = Some x" by (cases x) (simp_all add: guest_os_from_id_def)
  show "answer (guest_os_from_id s) = Some x \<Longrightarrow> s = guest_os_id x"
    by (auto simp: answer_Some guest_os_from_id_def split: if_splits)
qed simp

interpretation session_ids: text_enum session_id "[ServiceSession, Interactive]" "\<lambda>t. answer (session_from_id t)"
proof unfold_locales
  fix x :: exec_session and s
  show "x \<in> set [ServiceSession, Interactive]" by (cases x) simp_all
  show "answer (session_from_id (session_id x)) = Some x" by (cases x) (simp_all add: session_from_id_def)
  show "answer (session_from_id s) = Some x \<Longrightarrow> s = session_id x"
    by (auto simp: answer_Some session_from_id_def split: if_splits)
qed simp

interpretation cleanup_ids: text_enum cleanup_id "[Destroy, Revert, Keep]" "\<lambda>t. answer (cleanup_from_id t)"
proof unfold_locales
  fix x :: cleanup_strategy and s
  show "x \<in> set [Destroy, Revert, Keep]" by (cases x) simp_all
  show "answer (cleanup_from_id (cleanup_id x)) = Some x" by (cases x) (simp_all add: cleanup_from_id_def)
  show "answer (cleanup_from_id s) = Some x \<Longrightarrow> s = cleanup_id x"
    by (auto simp: answer_Some cleanup_from_id_def split: if_splits)
qed simp

interpretation guest_ids: text_enum guest_id
  "[Provisioning, Provisioned, Booting, Bootstrapping, Ready, NeverReady]" "\<lambda>t. answer (guest_from_id t)"
proof unfold_locales
  fix x :: guest_state and s
  show "x \<in> set [Provisioning, Provisioned, Booting, Bootstrapping, Ready, NeverReady]"
    by (cases x) simp_all
  show "answer (guest_from_id (guest_id x)) = Some x" by (cases x) (simp_all add: guest_from_id_def)
  show "answer (guest_from_id s) = Some x \<Longrightarrow> s = guest_id x"
    by (auto simp: answer_Some guest_from_id_def split: if_splits)
qed simp

interpretation lease_ids: text_enum lease_id_text
  "[LeaseRequested, LeaseQueued, LeaseReserving, LeaseProvisioning, LeaseBooting, LeaseBootstrapping,
    LeaseReady, LeaseReleasing, LeaseReleased, LeaseFailed, LeaseCleanupFailed]" "\<lambda>t. answer (lease_from_id t)"
proof unfold_locales
  fix x :: lease_state and s
  show "x \<in> set [LeaseRequested, LeaseQueued, LeaseReserving, LeaseProvisioning, LeaseBooting,
      LeaseBootstrapping, LeaseReady, LeaseReleasing, LeaseReleased, LeaseFailed, LeaseCleanupFailed]"
    by (cases x) simp_all
  show "answer (lease_from_id (lease_id_text x)) = Some x" by (cases x) (simp_all add: lease_from_id_def)
  show "answer (lease_from_id s) = Some x \<Longrightarrow> s = lease_id_text x"
    by (auto simp: answer_Some lease_from_id_def split: if_splits)
qed simp

lemma from_id_ids [simp]:
  "probe_from_id (probe_id p) = Inr p" "guest_os_from_id (guest_os_id g) = Inr g"
  "cleanup_from_id (cleanup_id c) = Inr c" "guest_from_id (guest_id s) = Inr s"
  "lease_from_id (lease_id_text l) = Inr l"
  using probe_ids.roundtrip guest_os_ids.roundtrip cleanup_ids.roundtrip guest_ids.roundtrip lease_ids.roundtrip
  by (simp_all add: answer_Some)

section \<open>Interactive users and sessions\<close>

definition max_interactive_user_len :: nat where "max_interactive_user_len = 20"

definition first_char_in :: "string \<Rightarrow> string \<Rightarrow> bool" where
  "first_char_in cs s \<longleftrightarrow> (case s of [] \<Rightarrow> False | c # _ \<Rightarrow> c \<in> set cs)"

definition validate_interactive_user_name :: "string \<Rightarrow> string + unit" where
  "validate_interactive_user_name user =
     refuse_when (user = [] \<or> length user > max_interactive_user_len \<or> first_char_in ''-.'' user \<or>
         \<not> list_all (\<lambda>b. is_ascii_alnum b \<or> b \<in> set ''_-.'') user)
       (''the interactive user must be a local account name of 1..='' @ decimal max_interactive_user_len @
        '' characters from A-Z a-z 0-9 _ - .'')"

definition session_resolve :: "exec_session \<Rightarrow> guest_os \<Rightarrow> string option \<Rightarrow> string + string option" where
  "session_resolve session os interactive_user =
     (case session of
        ServiceSession \<Rightarrow> Inr None
      | Interactive \<Rightarrow>
          if os \<noteq> Windows then Inl ''unsupported: --session interactive runs only on Windows guests''
          else (case interactive_user of
              None \<Rightarrow> Inl ''the lease's template declares no interactive user, so there is no desktop session to run in''
            | Some user \<Rightarrow> check_then (validate_interactive_user_name user) (\<lambda>_. Inr (Some user))))"

section \<open>Audio and hardware\<close>

definition lab_audio_devices :: "string list" where
  "lab_audio_devices = [''ich9-intel-hda'', ''intel-hda'', ''AC97'']"
definition lab_audio_drivers :: "string list" where "lab_audio_drivers = [''none'']"

record lab_audio =
  la_device :: string
  la_driver :: string

definition audio_validate :: "lab_audio \<Rightarrow> string + unit" where
  "audio_validate a = first_error
     [refuse_when (la_device a \<notin> set lab_audio_devices)
        (''the audio device must be one of '' @ join_text '', '' lab_audio_devices),
      refuse_when (la_driver a \<notin> set lab_audio_drivers)
        (''the audio driver must be one of '' @ join_text '', '' lab_audio_drivers)]"

definition max_lab_hardware :: nat where "max_lab_hardware = 4"
definition max_lab_hardware_mapping_len :: nat where "max_lab_hardware_mapping_len = 64"

record lab_hardware =
  lh_kind :: hardware_kind
  lh_mapping :: string

definition is_valid_hardware_mapping_id :: "string \<Rightarrow> bool" where
  "is_valid_hardware_mapping_id mapping \<longleftrightarrow>
     (case mapping of
        [] \<Rightarrow> False
      | first # rest \<Rightarrow> is_ascii_alnum first \<and> length mapping \<le> max_lab_hardware_mapping_len \<and>
          list_all (\<lambda>b. is_ascii_alnum b \<or> b \<in> set ''-_.'') rest)"

definition hardware_validate :: "lab_hardware \<Rightarrow> string + unit" where
  "hardware_validate h = refuse_when (\<not> is_valid_hardware_mapping_id (lh_mapping h))
     (''the hardware mapping id must be 1..='' @ decimal max_lab_hardware_mapping_len @
      '' characters: letters, digits, '-', '_' and '.', starting with a letter or digit'')"

fun validate_devices :: "lab_hardware list \<Rightarrow> lab_hardware list \<Rightarrow> string + unit" where
  "validate_devices earlier [] = Inr ()"
| "validate_devices earlier (device # rest) =
     check_then (hardware_validate device) (\<lambda>_.
     if list_ex (\<lambda>e. lh_kind e = lh_kind device \<and> lh_mapping e = lh_mapping device) earlier
     then Inl (''the hardware mapping '' @ lh_mapping device @ '' is declared more than once'')
     else validate_devices (earlier @ [device]) rest)"

definition validate_lab_hardware :: "lab_hardware list \<Rightarrow> string + unit" where
  "validate_lab_hardware hardware =
     (if length hardware > max_lab_hardware
      then Inl (''a template declares at most '' @ decimal max_lab_hardware @ '' hardware devices'')
      else validate_devices [] hardware)"

section \<open>Template content\<close>

record template_content =
  tc_name :: string
  tc_description :: string
  tc_image_version_id :: string
  tc_cores :: nat
  tc_memory_mib :: nat
  tc_disk_gib :: nat
  tc_bootstrap_project_id :: "string option"
  tc_readiness_probe :: readiness_probe
  tc_readiness_command :: "string option"
  tc_ssh_user :: string
  tc_ssh_port :: nat
  tc_ssh_trust_mode :: string
  tc_ssh_fingerprint :: "string option"
  tc_readiness_deadline_seconds :: nat
  tc_ttl_seconds :: nat
  tc_cleanup :: cleanup_strategy
  tc_audio :: "lab_audio option"
  tc_guest_os :: guest_os
  tc_interactive_user :: "string option"
  tc_hardware :: "lab_hardware list"

definition default_content :: template_content where
  "default_content =
     \<lparr>tc_name = [], tc_description = [], tc_image_version_id = [], tc_cores = 0, tc_memory_mib = 0,
      tc_disk_gib = 0, tc_bootstrap_project_id = None, tc_readiness_probe = GuestAgent,
      tc_readiness_command = None, tc_ssh_user = ''root'', tc_ssh_port = 22,
      tc_ssh_trust_mode = ''tofu'', tc_ssh_fingerprint = None, tc_readiness_deadline_seconds = 0,
      tc_ttl_seconds = 0, tc_cleanup = Destroy, tc_audio = None, tc_guest_os = Linux,
      tc_interactive_user = None, tc_hardware = []\<rparr>"

definition validate_interactive_user :: "template_content \<Rightarrow> string + unit" where
  "validate_interactive_user t =
     (case tc_interactive_user t of
        None \<Rightarrow> Inr ()
      | Some user \<Rightarrow>
          if tc_guest_os t \<noteq> Windows then Inl ''an interactive user needs a windows guest''
          else validate_interactive_user_name user)"

text \<open>The canonical unpadded base64 of 32 bytes: 43 symbols, two zero bits in the last.\<close>

definition bad_fingerprint :: "string option \<Rightarrow> bool" where
  "bad_fingerprint fingerprint \<longleftrightarrow>
     (case fingerprint of
        None \<Rightarrow> True
      | Some v \<Rightarrow>
          (case strip_prefix ''SHA256:'' v of
             None \<Rightarrow> True
           | Some digest \<Rightarrow> length digest \<noteq> 43 \<or>
               \<not> list_all (\<lambda>b. is_ascii_alnum b \<or> b \<in> set ''+/'') digest \<or>
               \<not> (digest \<noteq> [] \<and> last digest \<in> set ''AEIMQUYcgkosw048'')))"

definition validate_ssh :: "template_content \<Rightarrow> string + unit" where
  "validate_ssh t = first_error
     [refuse_when (tc_ssh_user t = [] \<or> length (tc_ssh_user t) > 64 \<or> first_char_in ''-'' (tc_ssh_user t) \<or>
         \<not> list_all (\<lambda>b. is_ascii_alnum b \<or> b \<in> set ''_-'') (tc_ssh_user t) \<or> tc_ssh_port t = 0)
        ''the Lab SSH user or port is invalid'',
      refuse_when (tc_ssh_trust_mode t \<notin> {''tofu'', ''pinned''}) ''Lab SSH trust must be tofu or pinned'',
      refuse_when (tc_ssh_trust_mode t = ''pinned'' \<and> bad_fingerprint (tc_ssh_fingerprint t))
        ''pinned Lab SSH trust requires an OpenSSH SHA256 fingerprint'']"

definition is_blank :: "string \<Rightarrow> bool" where
  "is_blank s \<longleftrightarrow> list_all is_whitespace (scalars s)"

definition content_validate :: "template_content \<Rightarrow> string + unit" where
  "content_validate t = first_error
     [refuse_when (char_count (tc_name t) = 0 \<or> char_count (tc_name t) > 128) ''the name must be 1..=128 characters'',
      refuse_when (char_count (tc_description t) > 512) ''the description must be at most 512 characters'',
      refuse_when (tc_image_version_id t = [] \<or> length (tc_image_version_id t) > 128)
        ''the image version pin must be 1..=128 characters'',
      refuse_when (tc_cores t = 0 \<or> tc_cores t > 64) ''the cores must be 1..=64'',
      refuse_when (tc_memory_mib t < 16 \<or> tc_memory_mib t > 262144) ''the memory must be 16..=262144 MiB'',
      refuse_when (tc_disk_gib t = 0 \<or> tc_disk_gib t > 4096) ''the disk must be 1..=4096 GiB'',
      refuse_when (tc_readiness_deadline_seconds t = 0 \<or> tc_readiness_deadline_seconds t > 3600)
        ''the readiness deadline must be 1..=3600 seconds'',
      refuse_when (tc_ttl_seconds t = 0 \<or> tc_ttl_seconds t > 30 * 24 * 3600) ''the TTL must be 1..=2592000 seconds'',
      refuse_when (tc_readiness_probe t = SshExec \<and> opt_all (\<lambda>c. c = []) (tc_readiness_command t))
        ''the ssh_exec probe requires a readiness command'',
      validate_ssh t,
      validate_interactive_user t,
      (case tc_audio t of None \<Rightarrow> Inr () | Some audio \<Rightarrow> audio_validate audio),
      validate_lab_hardware (tc_hardware t),
      refuse_when (tc_readiness_probe t = ProjectReady \<and> opt_all is_blank (tc_bootstrap_project_id t))
        ''the project_ready probe requires a bootstrap project'']"

section \<open>Leases\<close>

definition max_lab_lease_lifetime_millis :: int where
  "max_lab_lease_lifetime_millis = 30 * 24 * 3600000"

record lease =
  le_id :: string
  le_template_version_id :: string
  le_owner :: string
  le_purpose :: string
  le_project_id :: "string option"
  le_state :: lease_state
  le_provision_id :: "string option"
  le_cleanup :: cleanup_strategy
  le_ttl_seconds :: nat
  le_created_at :: int
  le_max_lifetime_at :: int
  le_ready_at :: "int option"
  le_expires_at :: "int option"
  le_cleanup_attempts :: nat
  le_cleanup_next_at :: "int option"

definition mark_ready :: "lease \<Rightarrow> int \<Rightarrow> string + lease" where
  "mark_ready l now =
     (if le_state l \<notin> {LeaseProvisioning, LeaseBooting, LeaseBootstrapping}
      then Inl ''only provisioning, booting, or bootstrapping leases can become ready''
      else if le_provision_id l = None then Inl ''a ready lease must be linked to a provision record''
      else if le_ttl_seconds l = 0 then Inl ''the lease TTL must be greater than zero''
      else case checked_i64 (int (le_ttl_seconds l) * 1000) of
          None \<Rightarrow> Inl ''the lease TTL deadline overflows''
        | Some ttl_millis \<Rightarrow>
            (case checked_i64 (now + ttl_millis) of
               None \<Rightarrow> Inl ''the lease TTL deadline overflows''
             | Some ttl_deadline \<Rightarrow> Inr (l\<lparr>le_state := LeaseReady, le_ready_at := Some now,
                   le_expires_at := Some (min ttl_deadline (le_max_lifetime_at l))\<rparr>)))"

definition ttl_expired :: "lease \<Rightarrow> int \<Rightarrow> bool" where
  "ttl_expired l now \<longleftrightarrow> le_state l = LeaseReady \<and>
     (case le_expires_at l of None \<Rightarrow> False | Some expires_at \<Rightarrow> now \<ge> expires_at)"

definition extend_expiry :: "lease \<Rightarrow> int \<Rightarrow> nat \<Rightarrow> string + int" where
  "extend_expiry l now by_seconds =
     (if le_state l \<noteq> LeaseReady then Inl ''only ready leases can be extended''
      else case le_expires_at l of
          None \<Rightarrow> Inl ''the ready lease has no expiry deadline''
        | Some current_expiry \<Rightarrow>
            if current_expiry \<le> now then Inl ''the lease TTL has already expired''
            else if by_seconds = 0 then Inl ''the extension must be greater than zero seconds''
            else (case checked_i64 (int by_seconds * 1000) of
                None \<Rightarrow> Inl ''the extension is too large''
              | Some extension_millis \<Rightarrow>
                  (case checked_i64 (current_expiry + extension_millis) of
                     None \<Rightarrow> Inl ''the extension deadline overflows''
                   | Some new_expiry \<Rightarrow>
                       if new_expiry > le_max_lifetime_at l
                       then Inl ''the extension exceeds the lease's maximum lifetime''
                       else Inr new_expiry)))"

text \<open>What the two rules promise: a live deadline that never passes the absolute one.\<close>

lemma mark_ready_Inr:
  assumes "mark_ready l now = Inr m"
  shows "le_state l \<in> {LeaseProvisioning, LeaseBooting, LeaseBootstrapping} \<and> le_provision_id l \<noteq> None \<and>
    (\<exists>e. m = l\<lparr>le_state := LeaseReady, le_ready_at := Some now, le_expires_at := Some e\<rparr> \<and>
         e \<le> le_max_lifetime_at l \<and> e \<le> now + int (le_ttl_seconds l) * 1000)"
  using assms by (auto simp: mark_ready_def checked_i64_def split: if_splits option.splits)

lemma extend_expiry_Inr:
  assumes "extend_expiry l now by_seconds = Inr e"
  shows "le_state l = LeaseReady \<and> (\<exists>c. le_expires_at l = Some c \<and> now < c \<and> c < e) \<and> e \<le> le_max_lifetime_at l"
  using assms by (auto simp: extend_expiry_def checked_i64_def split: if_splits option.splits)

lemma no_extension_after_expiry: "ttl_expired l now \<Longrightarrow> isl (extend_expiry l now by_seconds)"
  by (auto simp: ttl_expired_def extend_expiry_def split: option.splits)

end
