(* ===== verification/Lab_Store.thy ===== *)
theory Lab_Store
  imports Lab_Template Operation_Store
begin

text \<open>
  The Lab tables of \<open>crates/fleet-storage-sqlite/src/lab.rs\<close> and the records of
  \<open>crates/fleet-application/src/lab.rs\<close> they hold: leases, provisions, template drafts and
  published versions. One SQL statement is one atomic step that may fail, a transaction
  undoes its writes. Columns whose \<open>CHECK\<close> admits only the ids of an enumeration hold the
  parsed value, and a JSON column its document. A violated foreign key of a project, a machine
  or an operation counts among the failures a statement may have.
\<close>

section \<open>Records\<close>

record provision =
  pv_id :: string
  pv_template_version_id :: string
  pv_lease_id :: "string option"
  pv_state :: guest_state
  pv_node :: "string option"
  pv_vmid :: "nat option"
  pv_clone_upid :: "string option"
  pv_guest_ipv4 :: "string option"
  pv_machine_id :: "string option"
  pv_endpoint_id :: "string option"
  pv_ready_project_operation_id :: "string option"
  pv_readiness_deadline_at :: "int option"
  pv_failed_step :: "string option"
  pv_account_id :: "string option"
  pv_idempotency_key :: "string option"
  pv_ready_at :: "int option"
  pv_created_at :: int
  pv_updated_at :: int

record new_provision =
  np_template_version_id :: string
  np_lease_id :: "string option"
  np_idempotency_key :: "string option"
  np_readiness_deadline_at :: "int option"

record new_lease =
  nl_template_version_id :: string
  nl_purpose :: string
  nl_project_id :: "string option"
  nl_cleanup :: cleanup_strategy
  nl_ttl_seconds :: nat

record lease_filter =
  lf_project_id :: "string option"
  lf_purpose :: "string option"
  lf_purpose_prefix :: "string option"
  lf_states :: "lease_state list"
  lf_owner :: "string option"

record lab_template =
  lt_id :: string
  lt_content :: template_content
  lt_published_from :: "string option"
  lt_created_at :: int
  lt_updated_at :: int

record template_version =
  tv_id :: string
  tv_template_id :: string
  tv_name :: string
  tv_content :: template_content
  tv_image_digest :: string
  tv_published_by :: string
  tv_published_at :: int

datatype keyed_lease_create = LeaseCreated lease | LeaseReplay lease string
datatype attach_outcome = Attached | AlreadyAttached | AttachConflict
datatype clone_target = TargetReserved provision | TargetHeldBy string

text \<open>
  A row of \<open>lab_leases\<close>: the lease as written, and the three columns that are not read as
  they are: the maximum lifetime, which older rows do not have, and the two of keyed creation.
\<close>

record lease_row =
  lr_lease :: lease
  lr_max_lifetime_at :: "int option"
  lr_idempotency_key :: "string option"
  lr_idempotency_fingerprint :: "string option"

record lab_world = op_world +
  lw_leases :: "lease_row list"
  lw_provisions :: "provision list"
  lw_templates :: "lab_template list"
  lw_versions :: "template_version list"

type_synonym ('z, 'a) lab_act = "('z lab_world_scheme, string, 'a) act"

abbreviation row_id :: "lease_row \<Rightarrow> string" where "row_id r \<equiv> le_id (lr_lease r)"

definition row_to_lease :: "lease_row \<Rightarrow> lease" where
  "row_to_lease r = (lr_lease r)\<lparr>le_max_lifetime_at :=
     (case lr_max_lifetime_at r of
        Some m \<Rightarrow> m
      | None \<Rightarrow> saturating_add (le_created_at (lr_lease r)) max_lab_lease_lifetime_millis)\<rparr>"

text \<open>\<open>COALESCE(max_lifetime_at, created_at + ?5)\<close>\<close>

definition row_cap :: "lease_row \<Rightarrow> int" where
  "row_cap r = (case lr_max_lifetime_at r of
     Some m \<Rightarrow> m | None \<Rightarrow> le_created_at (lr_lease r) + max_lab_lease_lifetime_millis)"

definition lab_statement :: "string \<Rightarrow> ('z, unit) lab_act" where
  "lab_statement context = map_err (\<lambda>d. context @ '' failed: '' @ d) external"

definition update_leases :: "(lease_row \<Rightarrow> bool) \<Rightarrow> (lease \<Rightarrow> lease) \<Rightarrow> ('z, nat) lab_act" where
  "update_leases P f = (\<lambda>s. (Inr (length (filter P (lw_leases s))),
     s\<lparr>lw_leases := map (\<lambda>r. if P r then r\<lparr>lr_lease := f (lr_lease r)\<rparr> else r) (lw_leases s)\<rparr>))"

definition update_provisions :: "(provision \<Rightarrow> bool) \<Rightarrow> (provision \<Rightarrow> provision) \<Rightarrow> ('z, nat) lab_act" where
  "update_provisions P f = (\<lambda>s. (Inr (length (filter P (lw_provisions s))),
     s\<lparr>lw_provisions := map (\<lambda>r. if P r then f r else r) (lw_provisions s)\<rparr>))"

definition newest :: "('a \<Rightarrow> int) \<Rightarrow> ('a \<Rightarrow> string) \<Rightarrow> 'a list \<Rightarrow> 'a list" where
  "newest at key xs = rev (sort_key (\<lambda>x. (at x, key x)) xs)"

definition undo_lab :: "'z lab_world_scheme \<Rightarrow> 'z lab_world_scheme \<Rightarrow> 'z lab_world_scheme" where
  "undo_lab s t = t\<lparr>lw_leases := lw_leases s, lw_provisions := lw_provisions s,
     lw_templates := lw_templates s, lw_versions := lw_versions s\<rparr>"

section \<open>Leases\<close>

definition lease_by_id :: "string \<Rightarrow> lease_row list \<Rightarrow> lease_row option" where
  "lease_by_id i rows = find (\<lambda>r. row_id r = i) rows"

definition lease_get :: "string \<Rightarrow> ('z, lease) lab_act" where
  "lease_get i =
     andthen (lab_statement ''get'') (\<lambda>_.
     andthen (asks (\<lambda>s. lease_by_id i (lw_leases s))) (\<lambda>found.
     case found of
       None \<Rightarrow> fail (''lease '' @ i @ '' not found'')
     | Some r \<Rightarrow> ret (row_to_lease r)))"

definition lease_by_key :: "string \<Rightarrow> lease_row list \<Rightarrow> lease_row option" where
  "lease_by_key key rows = find (\<lambda>r. lr_idempotency_key r = Some key) rows"

definition lease_find_key :: "string \<Rightarrow> ('z, (lease \<times> string) option) lab_act" where
  "lease_find_key key =
     andthen (lab_statement ''find'') (\<lambda>_.
     asks (\<lambda>s. map_option (\<lambda>r. (row_to_lease r,
        case lr_idempotency_fingerprint r of None \<Rightarrow> [] | Some f \<Rightarrow> f)) (lease_by_key key (lw_leases s))))"

definition new_lease_row ::
    "string \<Rightarrow> new_lease \<Rightarrow> string \<Rightarrow> int \<Rightarrow> int \<Rightarrow> (string \<times> string) option \<Rightarrow> lease_row" where
  "new_lease_row i new owner now max_lifetime keyed =
     \<lparr>lr_lease = \<lparr>le_id = i, le_template_version_id = nl_template_version_id new, le_owner = owner,
        le_purpose = nl_purpose new, le_project_id = nl_project_id new, le_state = LeaseRequested,
        le_provision_id = None, le_cleanup = nl_cleanup new, le_ttl_seconds = nl_ttl_seconds new,
        le_created_at = now, le_max_lifetime_at = max_lifetime, le_ready_at = None,
        le_expires_at = None, le_cleanup_attempts = 0, le_cleanup_next_at = None\<rparr>,
      lr_max_lifetime_at = Some max_lifetime, lr_idempotency_key = map_option fst keyed,
      lr_idempotency_fingerprint = map_option snd keyed\<rparr>"

definition creation_cap :: "int \<Rightarrow> string + int" where
  "creation_cap now = (case checked_i64 (now + max_lab_lease_lifetime_millis) of
     None \<Rightarrow> Inl ''the lease creation time exceeds the maximum lifetime range'' | Some m \<Rightarrow> Inr m)"

definition unique_failure :: string where
  "unique_failure = ''create failed: error returned from database: (code: 2067) UNIQUE constraint failed''"

text \<open>\<open>CHECK (ttl_seconds > 0)\<close> and the primary key of the insert; the identifier is fresh.\<close>

definition lease_insert_refused :: "lease_row list \<Rightarrow> string \<Rightarrow> new_lease \<Rightarrow> string option" where
  "lease_insert_refused rows i new =
     (if nl_ttl_seconds new = 0
      then Some ''create failed: error returned from database: (code: 275) CHECK constraint failed''
      else if list_ex (\<lambda>r. row_id r = i) rows then Some unique_failure else None)"

definition insert_lease_row :: "string \<Rightarrow> new_lease \<Rightarrow> lease_row \<Rightarrow> ('z, unit) lab_act" where
  "insert_lease_row i new row =
     andthen (asks (\<lambda>s. lease_insert_refused (lw_leases s) i new)) (\<lambda>refused.
     case refused of
       Some e \<Rightarrow> fail e
     | None \<Rightarrow> modify (\<lambda>s. s\<lparr>lw_leases := lw_leases s @ [row]\<rparr>))"

definition lease_create :: "new_lease \<Rightarrow> string \<Rightarrow> int \<Rightarrow> ('z, lease) lab_act" where
  "lease_create new owner now =
     andthen fresh_uuid (\<lambda>i.
     andthen (lift (creation_cap now)) (\<lambda>max_lifetime.
     andthen (lab_statement ''create'') (\<lambda>_.
     andthen (insert_lease_row i new (new_lease_row i new owner now max_lifetime None)) (\<lambda>_.
     lease_get i))))"

text \<open>A violated unique index, of the key or of the identifier, reads the lease of the key.\<close>

definition lease_create_keyed ::
    "new_lease \<Rightarrow> string \<Rightarrow> int \<Rightarrow> string \<Rightarrow> string \<Rightarrow> ('z, keyed_lease_create) lab_act" where
  "lease_create_keyed new owner now key fingerprint =
     andthen fresh_uuid (\<lambda>i.
     andthen (lift (creation_cap now)) (\<lambda>max_lifetime.
     andthen (lab_statement ''create'') (\<lambda>_.
     andthen (asks (\<lambda>s. lease_by_key key (lw_leases s))) (\<lambda>taken.
     andthen (attempt (if taken \<noteq> None \<and> nl_ttl_seconds new \<noteq> 0 then fail unique_failure
        else insert_lease_row i new (new_lease_row i new owner now max_lifetime (Some (key, fingerprint))))) (\<lambda>inserted.
     case inserted of
       Inr _ \<Rightarrow> andthen (lease_get i) (\<lambda>l. ret (LeaseCreated l))
     | Inl e \<Rightarrow>
         if e = unique_failure
         then andthen (lease_find_key key) (\<lambda>found.
              case found of
                Some (l, stored) \<Rightarrow> ret (LeaseReplay l stored)
              | None \<Rightarrow> fail unique_failure)
         else fail e)))))"

text \<open>
  The filter as the query applies it, column by column, and as \<open>LeaseFilter::matches\<close> states
  it. \<open>substr(purpose, 1, n)\<close> takes the first \<open>n\<close> characters.
\<close>

definition query_matches :: "lease_filter \<Rightarrow> lease \<Rightarrow> bool" where
  "query_matches f l \<longleftrightarrow>
     opt_all (\<lambda>p. le_project_id l = Some p) (lf_project_id f) \<and>
     opt_all (\<lambda>p. le_purpose l = p) (lf_purpose f) \<and>
     opt_all (\<lambda>p. take_chars (char_count p) (le_purpose l) = p) (lf_purpose_prefix f) \<and>
     (lf_states f \<noteq> [] \<longrightarrow> lease_id_text (le_state l) \<in> set (map lease_id_text (lf_states f))) \<and>
     opt_all (\<lambda>w. le_owner l = w) (lf_owner f)"

definition filter_lease :: "lease_filter \<Rightarrow> lease \<Rightarrow> bool" where
  "filter_lease f l \<longleftrightarrow>
     opt_all (\<lambda>p. le_project_id l = Some p) (lf_project_id f) \<and>
     opt_all (\<lambda>p. le_purpose l = p) (lf_purpose f) \<and>
     opt_all (\<lambda>p. starts_with p (le_purpose l)) (lf_purpose_prefix f) \<and>
     (lf_states f = [] \<or> le_state l \<in> set (lf_states f)) \<and>
     opt_all (\<lambda>w. le_owner l = w) (lf_owner f)"

definition newest_leases :: "lease list \<Rightarrow> lease list" where
  "newest_leases ls = newest le_created_at le_id ls"

definition lease_search :: "lease_filter \<Rightarrow> ('z, lease list) lab_act" where
  "lease_search f =
     andthen (lab_statement ''search'') (\<lambda>_.
     asks (\<lambda>s. newest_leases (filter (query_matches f) (map row_to_lease (lw_leases s)))))"

definition lease_list :: "string option \<Rightarrow> ('z, lease list) lab_act" where
  "lease_list project =
     andthen (lab_statement ''list'') (\<lambda>_.
     asks (\<lambda>s. newest_leases (filter (\<lambda>l. opt_all (\<lambda>p. le_project_id l = Some p) project)
       (map row_to_lease (lw_leases s)))))"

definition lease_update :: "lease \<Rightarrow> ('z, unit) lab_act" where
  "lease_update l =
     andthen (lab_statement ''update'') (\<lambda>_.
     andthen (update_leases (\<lambda>r. row_id r = le_id l)
       (\<lambda>o'. o'\<lparr>le_state := le_state l, le_provision_id := le_provision_id l, le_cleanup := le_cleanup l,
          le_ready_at := le_ready_at l, le_expires_at := le_expires_at l,
          le_cleanup_attempts := le_cleanup_attempts l, le_cleanup_next_at := le_cleanup_next_at l\<rparr>)) (\<lambda>n.
     if n = 0 then fail (''lease '' @ le_id l @ '' not found'') else ret ()))"

definition lease_expired :: "int \<Rightarrow> ('z, lease list) lab_act" where
  "lease_expired now =
     andthen (lab_statement ''expired'') (\<lambda>_.
     asks (\<lambda>s. filter (\<lambda>l. le_state l = LeaseReady \<and> (case le_expires_at l of None \<Rightarrow> False | Some e \<Rightarrow> e \<le> now))
       (map row_to_lease (lw_leases s))))"

definition extend_ready :: "string \<Rightarrow> int \<Rightarrow> int \<Rightarrow> int \<Rightarrow> ('z, bool) lab_act" where
  "extend_ready i observed now new_expiry =
     andthen (lab_statement ''extend'') (\<lambda>_.
     andthen (update_leases (\<lambda>r. row_id r = i \<and> le_state (lr_lease r) = LeaseReady \<and>
          le_expires_at (lr_lease r) = Some observed \<and> observed > now \<and> new_expiry \<le> row_cap r)
       (\<lambda>l. l\<lparr>le_expires_at := Some new_expiry\<rparr>)) (\<lambda>n.
     ret (n = 1)))"

definition attach_provision :: "string \<Rightarrow> string \<Rightarrow> ('z, attach_outcome) lab_act" where
  "attach_provision i p =
     andthen (lab_statement ''attach provision'') (\<lambda>_.
     andthen (update_leases (\<lambda>r. row_id r = i \<and> le_state (lr_lease r) = LeaseRequested \<and>
          le_provision_id (lr_lease r) = None)
       (\<lambda>l. l\<lparr>le_state := LeaseProvisioning, le_provision_id := Some p\<rparr>)) (\<lambda>n.
     if n = 1 then ret Attached
     else andthen (lab_statement ''read linked provision'') (\<lambda>_.
          andthen (asks (\<lambda>s. lease_by_id i (lw_leases s))) (\<lambda>current.
          ret (case current of
                 None \<Rightarrow> AttachConflict
               | Some r \<Rightarrow>
                   if le_state (lr_lease r) \<in> {LeaseProvisioning, LeaseBooting, LeaseBootstrapping} \<and>
                      le_provision_id (lr_lease r) = Some p
                   then AlreadyAttached else AttachConflict)))))"

definition claim_for_release :: "string \<Rightarrow> lease_state \<Rightarrow> int \<Rightarrow> int \<Rightarrow> ('z, bool) lab_act" where
  "claim_for_release i observed observed_expiry now =
     andthen (lab_statement ''claim'') (\<lambda>_.
     andthen (update_leases (\<lambda>r. row_id r = i \<and> le_state (lr_lease r) = observed \<and>
          le_expires_at (lr_lease r) = Some observed_expiry \<and> observed_expiry \<le> now)
       (\<lambda>l. l\<lparr>le_state := LeaseReleasing\<rparr>)) (\<lambda>n.
     ret (n = 1)))"

definition lease_transition ::
    "string \<Rightarrow> lease_state \<Rightarrow> string option \<Rightarrow> lease_state \<Rightarrow> ('z, bool) lab_act" where
  "lease_transition i observed p to =
     andthen (lab_statement ''transition'') (\<lambda>_.
     andthen (update_leases (\<lambda>r. row_id r = i \<and> le_state (lr_lease r) = observed \<and>
          le_provision_id (lr_lease r) = p)
       (\<lambda>l. l\<lparr>le_state := to\<rparr>)) (\<lambda>n.
     ret (n = 1)))"

definition lease_rearm :: "string \<Rightarrow> nat \<Rightarrow> nat \<Rightarrow> ('z, bool) lab_act" where
  "lease_rearm i observed attempts =
     andthen (lab_statement ''re-arm'') (\<lambda>_.
     andthen (update_leases (\<lambda>r. row_id r = i \<and> le_state (lr_lease r) = LeaseCleanupFailed \<and>
          le_cleanup_attempts (lr_lease r) = observed)
       (\<lambda>l. l\<lparr>le_state := LeaseReleasing, le_cleanup_attempts := attempts, le_cleanup_next_at := None\<rparr>)) (\<lambda>n.
     ret (n = 1)))"

definition record_failed_cleanup :: "nat \<Rightarrow> lease \<Rightarrow> ('z, bool) lab_act" where
  "record_failed_cleanup observed failed =
     andthen (lab_statement ''recording the failed cleanup'') (\<lambda>_.
     andthen (update_leases (\<lambda>r. row_id r = le_id failed \<and> le_state (lr_lease r) = LeaseReleasing \<and>
          le_cleanup_attempts (lr_lease r) = observed)
       (\<lambda>l. l\<lparr>le_state := le_state failed, le_cleanup_attempts := le_cleanup_attempts failed,
             le_cleanup_next_at := le_cleanup_next_at failed\<rparr>)) (\<lambda>n.
     ret (n = 1)))"

definition lease_owner_of :: "string \<Rightarrow> ('z, string option) lab_act" where
  "lease_owner_of i =
     andthen (map_err (\<lambda>d. ''lease owner lookup failed: '' @ d) external) (\<lambda>_.
     asks (\<lambda>s. map_option (\<lambda>r. le_owner (lr_lease r)) (lease_by_id i (lw_leases s))))"

section \<open>Provisions\<close>

definition provision_by_id :: "string \<Rightarrow> provision list \<Rightarrow> provision option" where
  "provision_by_id i ps = find (\<lambda>p. pv_id p = i) ps"

definition provision_get :: "string \<Rightarrow> ('z, provision) lab_act" where
  "provision_get i =
     andthen (lab_statement ''get'') (\<lambda>_.
     andthen (asks (\<lambda>s. provision_by_id i (lw_provisions s))) (\<lambda>found.
     case found of None \<Rightarrow> fail (''provision '' @ i @ '' not found'') | Some p \<Rightarrow> ret p))"

definition provision_find_key :: "string \<Rightarrow> ('z, provision option) lab_act" where
  "provision_find_key key =
     andthen (lab_statement ''find_by_idempotency_key'') (\<lambda>_.
     asks (\<lambda>s. find (\<lambda>p. pv_idempotency_key p = Some key) (lw_provisions s)))"

definition new_provision_row :: "string \<Rightarrow> new_provision \<Rightarrow> int \<Rightarrow> provision" where
  "new_provision_row i new now =
     \<lparr>pv_id = i, pv_template_version_id = np_template_version_id new, pv_lease_id = np_lease_id new,
      pv_state = Provisioning, pv_node = None, pv_vmid = None, pv_clone_upid = None,
      pv_guest_ipv4 = None, pv_machine_id = None, pv_endpoint_id = None,
      pv_ready_project_operation_id = None, pv_readiness_deadline_at = np_readiness_deadline_at new,
      pv_failed_step = None, pv_account_id = None, pv_idempotency_key = np_idempotency_key new,
      pv_ready_at = None, pv_created_at = now, pv_updated_at = now\<rparr>"

text \<open>The primary key and the two unique indexes, on the idempotency key and on the lease.\<close>

definition provision_violation :: "provision list \<Rightarrow> string \<Rightarrow> new_provision \<Rightarrow> bool" where
  "provision_violation ps i new \<longleftrightarrow>
     list_ex (\<lambda>p. pv_id p = i \<or>
       (np_idempotency_key new \<noteq> None \<and> pv_idempotency_key p = np_idempotency_key new) \<or>
       (np_lease_id new \<noteq> None \<and> pv_lease_id p = np_lease_id new)) ps"

definition lease_link_missing :: "lease_row list \<Rightarrow> string option \<Rightarrow> bool" where
  "lease_link_missing rows link \<longleftrightarrow>
     (case link of None \<Rightarrow> False | Some l \<Rightarrow> lease_by_id l rows = None)"

definition provision_create :: "new_provision \<Rightarrow> int \<Rightarrow> ('z, provision) lab_act" where
  "provision_create new now =
     andthen fresh_uuid (\<lambda>i.
     andthen (lab_statement ''create'') (\<lambda>_.
     andthen (asks (\<lambda>s. provision_violation (lw_provisions s) i new)) (\<lambda>violated.
     andthen (asks (\<lambda>s. lease_link_missing (lw_leases s) (np_lease_id new))) (\<lambda>unlinked.
     if violated
     then (case np_idempotency_key new of
             None \<Rightarrow> fail unique_failure
           | Some key \<Rightarrow> andthen (provision_find_key key) (\<lambda>found.
               case found of None \<Rightarrow> fail unique_failure | Some p \<Rightarrow> ret p))
     else if unlinked
     then fail ''create failed: error returned from database: (code: 787) FOREIGN KEY constraint failed''
     else andthen (modify (\<lambda>s. s\<lparr>lw_provisions := lw_provisions s @ [new_provision_row i new now]\<rparr>)) (\<lambda>_.
          provision_get i)))))"

definition provision_update :: "provision \<Rightarrow> ('z, unit) lab_act" where
  "provision_update rec =
     andthen (asks w_now) (\<lambda>now.
     andthen (lab_statement ''update'') (\<lambda>_.
     andthen (update_provisions (\<lambda>p. pv_id p = pv_id rec \<and> (pv_state p \<noteq> NeverReady \<or> pv_state rec = NeverReady))
       (\<lambda>p. p\<lparr>pv_state := pv_state rec, pv_node := pv_node rec, pv_vmid := pv_vmid rec,
          pv_clone_upid := pv_clone_upid rec, pv_guest_ipv4 := pv_guest_ipv4 rec,
          pv_machine_id := pv_machine_id rec, pv_endpoint_id := pv_endpoint_id rec,
          pv_ready_project_operation_id := pv_ready_project_operation_id rec,
          pv_readiness_deadline_at := pv_readiness_deadline_at rec, pv_failed_step := pv_failed_step rec,
          pv_account_id := pv_account_id rec, pv_ready_at := pv_ready_at rec, pv_updated_at := now\<rparr>)) (\<lambda>n.
     if n \<noteq> 0 then ret ()
     else andthen (attempt (provision_get (pv_id rec))) (\<lambda>stored.
          case stored of
            Inr p \<Rightarrow> if pv_state p = NeverReady
                     then fail (''provision '' @ pv_id rec @ '' is never_ready and cannot change'') else ret ()
          | Inl _ \<Rightarrow> ret ()))))"

definition in_flight_guest :: "guest_state \<Rightarrow> bool" where
  "in_flight_guest st \<longleftrightarrow> st \<in> {Provisioning, Provisioned, Booting, Bootstrapping}"

definition provision_abandon :: "string \<Rightarrow> ('z, provision option) lab_act" where
  "provision_abandon i =
     andthen (asks w_now) (\<lambda>now.
     andthen (lab_statement ''abandon'') (\<lambda>_.
     andthen (update_provisions (\<lambda>p. pv_id p = i \<and> in_flight_guest (pv_state p))
       (\<lambda>p. p\<lparr>pv_state := NeverReady,
          pv_failed_step := (case pv_failed_step p of None \<Rightarrow> Some ''interrupted'' | Some t \<Rightarrow> Some t),
          pv_updated_at := now\<rparr>)) (\<lambda>n.
     if n = 0 then ret None else andthen (provision_get i) (\<lambda>p. ret (Some p)))))"

text \<open>
  Readiness: in one transaction the linked lease starts its TTL, unless it already has, and
  the record becomes ready.
\<close>

definition ready_lease :: "provision \<Rightarrow> string \<Rightarrow> int \<Rightarrow> int \<Rightarrow> ('z, int) lab_act" where
  "ready_lease rec l ready_at expires_at =
     andthen (lab_statement ''mark linked lease ready'') (\<lambda>_.
     andthen (update_leases (\<lambda>r. row_id r = l \<and>
          le_state (lr_lease r) \<in> {LeaseProvisioning, LeaseBooting, LeaseBootstrapping} \<and>
          le_provision_id (lr_lease r) = Some (pv_id rec) \<and> le_ready_at (lr_lease r) = None \<and>
          le_expires_at (lr_lease r) = None \<and> expires_at \<le> row_cap r)
       (\<lambda>x. x\<lparr>le_state := LeaseReady, le_ready_at := Some ready_at, le_expires_at := Some expires_at\<rparr>)) (\<lambda>n.
     if n \<noteq> 0 then ret ready_at
     else andthen (lab_statement ''read linked lease'') (\<lambda>_.
          andthen (asks (\<lambda>s. lease_by_id l (lw_leases s))) (\<lambda>current.
          case current of
            None \<Rightarrow> fail (''lease '' @ l @ '' not found'')
          | Some r \<Rightarrow>
              if le_state (lr_lease r) = LeaseReady \<and> le_provision_id (lr_lease r) = Some (pv_id rec) \<and>
                 le_ready_at (lr_lease r) \<noteq> None \<and> le_expires_at (lr_lease r) \<noteq> None
              then ret (the (le_ready_at (lr_lease r)))
              else fail ''the linked lease changed before readiness was committed''))))"

definition complete_ready_tx :: "provision \<Rightarrow> int option \<Rightarrow> int \<Rightarrow> ('z, unit) lab_act" where
  "complete_ready_tx rec lease_expires_at ready_at = atomically undo_lab
     (andthen (lab_statement ''begin readiness transaction'') (\<lambda>_.
      andthen (case (pv_lease_id rec, lease_expires_at) of
                 (Some l, Some e) \<Rightarrow> ready_lease rec l ready_at e | _ \<Rightarrow> ret ready_at) (\<lambda>effective.
      andthen (asks w_now) (\<lambda>now.
      andthen (lab_statement ''complete provision readiness'') (\<lambda>_.
      andthen (update_provisions (\<lambda>p. pv_id p = pv_id rec \<and> pv_lease_id p = pv_lease_id rec \<and>
           (pv_state p \<in> {Provisioning, Booting, Bootstrapping} \<or>
            (pv_state p = Ready \<and> pv_ready_at p = Some effective)))
        (\<lambda>p. p\<lparr>pv_state := Ready, pv_node := pv_node rec, pv_vmid := pv_vmid rec,
           pv_clone_upid := pv_clone_upid rec, pv_guest_ipv4 := pv_guest_ipv4 rec,
           pv_ready_at := Some effective, pv_updated_at := now\<rparr>)) (\<lambda>n.
      if n \<noteq> 1 then fail (''provision '' @ pv_id rec @ '' was missing or linked to a different lease'')
      else lab_statement ''commit readiness transaction''))))))"

definition complete_ready :: "provision \<Rightarrow> int option \<Rightarrow> ('z, unit) lab_act" where
  "complete_ready rec lease_expires_at =
     (case pv_ready_at rec of
        None \<Rightarrow> fail ''a completed provision must carry its ready state and timestamp''
      | Some ready_at \<Rightarrow>
          if pv_state rec \<noteq> Ready then fail ''a completed provision must carry its ready state and timestamp''
          else if (pv_lease_id rec \<noteq> None) \<noteq> (lease_expires_at \<noteq> None)
          then fail ''a linked lease and its expiry must be completed together''
          else complete_ready_tx rec lease_expires_at ready_at)"

definition provision_find_machine :: "string \<Rightarrow> ('z, provision option) lab_act" where
  "provision_find_machine m =
     andthen external (\<lambda>_. asks (\<lambda>s. find (\<lambda>p. pv_machine_id p = Some m) (lw_provisions s)))"

definition provision_list :: "('z, provision list) lab_act" where
  "provision_list =
     andthen (lab_statement ''list'') (\<lambda>_.
     asks (\<lambda>s. newest pv_created_at pv_id (lw_provisions s)))"

text \<open>
  Who holds a VMID: a record of the same account, or one of the two without an account,
  whose saga runs or whose lease is not released yet.
\<close>

definition same_cluster :: "string option \<Rightarrow> string option \<Rightarrow> bool" where
  "same_cluster a b \<longleftrightarrow> a = None \<or> b = None \<or> a = b"

definition holding :: "lease_row list \<Rightarrow> provision \<Rightarrow> bool" where
  "holding rows p \<longleftrightarrow> pv_state p = Provisioning \<or>
     list_ex (\<lambda>r. pv_lease_id p = Some (row_id r) \<and> le_state (lr_lease r) \<noteq> LeaseReleased) rows"

definition vmid_holder :: "lease_row list \<Rightarrow> provision list \<Rightarrow> nat \<Rightarrow> provision \<Rightarrow> provision option" where
  "vmid_holder rows ps vmid rec =
     (case sort_key (\<lambda>p. (pv_created_at p, pv_id p))
        (filter (\<lambda>p. pv_vmid p = Some vmid \<and> pv_id p \<noteq> pv_id rec \<and>
           same_cluster (pv_account_id p) (pv_account_id rec) \<and> holding rows p) ps) of
        [] \<Rightarrow> None | p # _ \<Rightarrow> Some p)"

definition reserve_update :: "string \<Rightarrow> string \<Rightarrow> nat \<Rightarrow> ('z, nat) lab_act" where
  "reserve_update i node vmid =
     andthen (asks w_now) (\<lambda>now.
     andthen (lab_statement ''reserve clone target'') (\<lambda>_.
     update_provisions (\<lambda>p. pv_id p = i \<and> pv_state p = Provisioning \<and> pv_clone_upid p = None \<and> pv_vmid p = None)
       (\<lambda>p. p\<lparr>pv_node := Some node, pv_vmid := Some vmid, pv_updated_at := now\<rparr>)))"

definition read_reservation :: "string \<Rightarrow> ('z, clone_target) lab_act" where
  "read_reservation i =
     andthen (lab_statement ''read reservation'') (\<lambda>_.
     andthen (asks (\<lambda>s. provision_by_id i (lw_provisions s))) (\<lambda>reserved.
     case reserved of
       None \<Rightarrow> fail ''read reservation failed: no rows returned by a query that expected to return at least one row''
     | Some p \<Rightarrow> andthen (lab_statement ''commit reservation transaction'') (\<lambda>_. ret (TargetReserved p))))"

definition reserve_for :: "provision \<Rightarrow> string \<Rightarrow> string \<Rightarrow> nat \<Rightarrow> ('z, clone_target) lab_act" where
  "reserve_for rec i node vmid =
     andthen (lab_statement ''read VMID holder'') (\<lambda>_.
     andthen (asks (\<lambda>s. vmid_holder (lw_leases s) (lw_provisions s) vmid rec)) (\<lambda>holder.
     case holder of
       Some h \<Rightarrow> ret (TargetHeldBy (pv_id h))
     | None \<Rightarrow> andthen (reserve_update i node vmid) (\<lambda>_. read_reservation i)))"

definition reserve_checked :: "provision \<Rightarrow> string \<Rightarrow> string \<Rightarrow> nat \<Rightarrow> ('z, clone_target) lab_act" where
  "reserve_checked rec i node vmid =
     (if pv_state rec \<noteq> Provisioning
      then fail (''provision '' @ i @ '' is '' @ guest_id (pv_state rec) @ '' and cannot reserve a clone target'')
      else if pv_clone_upid rec \<noteq> None
      then fail (''provision '' @ i @ '' already started its clone; its target is fixed'')
      else if pv_vmid rec \<noteq> None then ret (TargetReserved rec)
      else reserve_for rec i node vmid)"

definition reserve_clone_target :: "string \<Rightarrow> string \<Rightarrow> nat \<Rightarrow> ('z, clone_target) lab_act" where
  "reserve_clone_target i node vmid = atomically undo_lab
     (andthen (lab_statement ''begin reservation transaction'') (\<lambda>_.
      andthen (lab_statement ''read provision'') (\<lambda>_.
      andthen (asks (\<lambda>s. provision_by_id i (lw_provisions s))) (\<lambda>found.
      case found of
        None \<Rightarrow> fail (''provision '' @ i @ '' not found'')
      | Some rec \<Rightarrow> reserve_checked rec i node vmid))))"

section \<open>Templates and versions\<close>

definition template_get :: "string \<Rightarrow> ('z, lab_template) lab_act" where
  "template_get i =
     andthen (lab_statement ''get'') (\<lambda>_.
     andthen (asks (\<lambda>s. find (\<lambda>t. lt_id t = i) (lw_templates s))) (\<lambda>found.
     case found of None \<Rightarrow> fail (''template '' @ i @ '' not found'') | Some t \<Rightarrow> ret t))"

definition template_list :: "('z, lab_template list) lab_act" where
  "template_list =
     andthen (lab_statement ''list'') (\<lambda>_.
     asks (\<lambda>s. newest lt_updated_at lt_id (lw_templates s)))"

definition name_taken :: "string \<Rightarrow> string" where
  "name_taken name = ''the template name '' @ debug_str name @ '' is already taken''"

definition template_create :: "template_content \<Rightarrow> int \<Rightarrow> ('z, lab_template) lab_act" where
  "template_create content now =
     andthen fresh_uuid (\<lambda>i.
     andthen (lab_statement ''create'') (\<lambda>_.
     andthen (asks (\<lambda>s. list_ex (\<lambda>t. lt_id t = i \<or> tc_name (lt_content t) = tc_name content) (lw_templates s))) (\<lambda>violated.
     if violated then fail (name_taken (tc_name content))
     else andthen (modify (\<lambda>s. s\<lparr>lw_templates := lw_templates s @
              [\<lparr>lt_id = i, lt_content = content, lt_published_from = None, lt_created_at = now, lt_updated_at = now\<rparr>]\<rparr>)) (\<lambda>_.
          template_get i))))"

definition template_update :: "string \<Rightarrow> template_content \<Rightarrow> int \<Rightarrow> ('z, lab_template) lab_act" where
  "template_update i content now =
     andthen (lab_statement ''update'') (\<lambda>_.
     andthen (asks (\<lambda>s. list_ex (\<lambda>t. lt_id t = i) (lw_templates s) \<and>
         list_ex (\<lambda>t. lt_id t \<noteq> i \<and> tc_name (lt_content t) = tc_name content) (lw_templates s))) (\<lambda>violated.
     if violated
     then fail ''update failed: error returned from database: (code: 2067) UNIQUE constraint failed: lab_templates.name''
     else andthen (asks (\<lambda>s. list_ex (\<lambda>t. lt_id t = i) (lw_templates s))) (\<lambda>known.
          andthen (modify (\<lambda>s. s\<lparr>lw_templates := map (\<lambda>t. if lt_id t = i
              then t\<lparr>lt_content := content, lt_updated_at := now\<rparr> else t) (lw_templates s)\<rparr>)) (\<lambda>_.
          if known then template_get i else fail (''template '' @ i @ '' not found'')))))"

definition template_delete :: "string \<Rightarrow> ('z, unit) lab_act" where
  "template_delete i =
     andthen (lab_statement ''delete'') (\<lambda>_.
     andthen (asks (\<lambda>s. list_ex (\<lambda>t. lt_id t = i) (lw_templates s))) (\<lambda>known.
     andthen (modify (\<lambda>s. s\<lparr>lw_templates := filter (\<lambda>t. lt_id t \<noteq> i) (lw_templates s)\<rparr>)) (\<lambda>_.
     if known then ret () else fail (''template '' @ i @ '' not found''))))"

definition version_get :: "string \<Rightarrow> ('z, template_version) lab_act" where
  "version_get i =
     andthen (lab_statement ''get_version'') (\<lambda>_.
     andthen (asks (\<lambda>s. find (\<lambda>v. tv_id v = i) (lw_versions s))) (\<lambda>found.
     case found of None \<Rightarrow> fail (''version '' @ i @ '' not found'') | Some v \<Rightarrow> ret v))"

text \<open>The insert does nothing when the version id is taken; \<open>publish_tx\<close> answers whether it inserted.\<close>

definition publish_tx :: "string \<Rightarrow> template_version \<Rightarrow> ('z, bool) lab_act" where
  "publish_tx t v = atomically undo_lab
     (andthen (lab_statement ''publish'') (\<lambda>_.
      andthen (lab_statement ''publish'') (\<lambda>_.
      andthen (asks (\<lambda>s. list_ex (\<lambda>x. lt_id x = t) (lw_templates s))) (\<lambda>known.
      andthen (modify (\<lambda>s. s\<lparr>lw_templates := map (\<lambda>x. if lt_id x = t
          then x\<lparr>lt_published_from := Some (tv_id v)\<rparr> else x) (lw_templates s)\<rparr>)) (\<lambda>_.
      if \<not> known then fail (''template '' @ t @ '' not found'')
      else
        andthen (lab_statement ''publish'') (\<lambda>_.
        andthen (asks (\<lambda>s. list_ex (\<lambda>x. tv_id x = tv_id v) (lw_versions s))) (\<lambda>taken.
        andthen (modify (\<lambda>s. if taken then s else s\<lparr>lw_versions := lw_versions s @ [v]\<rparr>)) (\<lambda>_.
        andthen (lab_statement ''publish'') (\<lambda>_.
        ret (\<not> taken))))))))))"

definition version_publish :: "string \<Rightarrow> template_version \<Rightarrow> ('z, template_version) lab_act" where
  "version_publish t v =
     andthen (publish_tx t v) (\<lambda>inserted. if inserted then ret v else version_get (tv_id v))"

end
