(* ===== verification/Lab_Lease.thy ===== *)
theory Lab_Lease
  imports Lab_Store Operation_Service Credentials
begin

text \<open>
  The Lab use cases of \<open>crates/fleet-application/src/lab.rs\<close>: templates and publishing,
  leases from creation to release, provisioning, the cleanup rounds and the rules the sweeper
  and the reports read. What lies outside the Lab is a parameter record: the printing of
  documents, the project registry, the image pins and the pool membership.
\<close>

datatype lab_error =
    LabDenied decision
  | LabInvalid string
  | LabNotFound string
  | LabConflict string
  | LabBusy string
  | LabPinRefused string
  | LabBackend string string

definition lab_error_text :: "lab_error \<Rightarrow> string" where
  "lab_error_text e =
     (case e of
        LabDenied d \<Rightarrow> ''denied: '' @ decision_text d
      | LabInvalid detail \<Rightarrow> ''invalid request: '' @ detail
      | LabNotFound what \<Rightarrow> ''not found: '' @ what
      | LabConflict detail \<Rightarrow> ''conflict: '' @ detail
      | LabBusy detail \<Rightarrow> ''busy: '' @ detail
      | LabPinRefused detail \<Rightarrow> ''the image pin was refused: '' @ detail
      | LabBackend context detail \<Rightarrow> ''lab '' @ context @ '' failed: '' @ detail)"

datatype member_state = MemberFilling | MemberAvailable | MemberLeased | MemberQuarantined

record pool_member =
  pm_id :: string
  pm_pool_id :: string
  pm_account_id :: string
  pm_vmid :: nat
  pm_node :: "string option"
  pm_name :: "string option"
  pm_state :: member_state
  pm_lease_id :: "string option"
  pm_draining :: bool
  pm_detail :: "string option"
  pm_created_at :: int
  pm_updated_at :: int

text \<open>\<open>lb_promoted\<close> answers the content digest of a promoted image version.\<close>

record lab =
  lb_print :: "json \<Rightarrow> string"
  lb_projects :: "string \<Rightarrow> port_failure + unit"
  lb_promoted :: "string \<Rightarrow> string + string option"
  lb_members :: "(string \<Rightarrow> nat \<Rightarrow> string + pool_member option) option"

type_synonym ('z, 'a) lease_act = "('z lab_world_scheme, lab_error, 'a) act"

definition lab_allow :: "authorizer \<Rightarrow> string \<Rightarrow> permission \<Rightarrow> string option \<Rightarrow> lab_error + unit" where
  "lab_allow az who p r = (case authorize az (access who p r) of Inl d \<Rightarrow> Inl (LabDenied d) | Inr _ \<Rightarrow> Inr ())"

definition lab_backend :: "string \<Rightarrow> ('z lab_world_scheme, string, 'a) act \<Rightarrow> ('z, 'a) lease_act" where
  "lab_backend context m = map_err (LabBackend context) m"

text \<open>A port answers a text; one that says \<open>not found\<close> is told apart by it.\<close>

definition lab_lookup :: "string \<Rightarrow> string \<Rightarrow> ('z lab_world_scheme, string, 'a) act \<Rightarrow> ('z, 'a) lease_act" where
  "lab_lookup context what m = map_err (\<lambda>detail.
     if text_contains ''not found'' detail then LabNotFound what else LabBackend context detail) m"

definition find_lease :: "string \<Rightarrow> ('z, lease) lease_act" where
  "find_lease i = lab_lookup ''leases'' (''lease '' @ i) (lease_get i)"

definition scope_lease :: "string \<Rightarrow> lease \<Rightarrow> lab_error + unit" where
  "scope_lease who l =
     (if owner_scope_permits who (le_owner l) then Inr () else Inl (LabNotFound (''lease '' @ le_id l)))"

definition lab_metadata :: "string \<Rightarrow> (string \<times> string) option \<Rightarrow> lab_error + metadata" where
  "lab_metadata event entry =
     (case metadata_insert_all ((''event'', event) # (case entry of None \<Rightarrow> [] | Some kv \<Rightarrow> [kv])) [] of
        Inl e \<Rightarrow> Inl (LabBackend ''audit'' (metadata_error_text e)) | Inr m \<Rightarrow> Inr m)"

definition lab_audit ::
    "string \<Rightarrow> permission \<Rightarrow> string option \<Rightarrow> string \<Rightarrow> (string \<times> string) option \<Rightarrow> ('z, unit) lease_act" where
  "lab_audit who action resource event entry =
     andthen (lift (lab_metadata event entry)) (\<lambda>m.
     lab_backend ''audit'' (record_intent
       \<lparr>ai_actor = who, ai_action = permission_id action, ai_resource = resource,
        ai_decision = decision_allow, ai_correlation = None, ai_operation = None, ai_metadata = m\<rparr>))"

section \<open>The guard on destroy targets\<close>

definition guard_destroy_target :: "nat \<Rightarrow> bool \<Rightarrow> nat list \<Rightarrow> string + unit" where
  "guard_destroy_target vmid is_template promoted =
     (if is_template then Inl (''VMID '' @ decimal vmid @ '' is a template; Lab cleanup never destroys a template'')
      else if vmid \<in> set promoted then
        Inl (''VMID '' @ decimal vmid @ '' is a protected image build artifact (a promoted version's build or a '' @
             ''promotion's pinned build); Lab cleanup never destroys an image template'')
      else Inr ())"

section \<open>Templates\<close>

definition validate_pin :: "lab \<Rightarrow> string \<Rightarrow> lab_error + string" where
  "validate_pin lb v =
     (case lb_promoted lb v of
        Inl detail \<Rightarrow> Inl (if text_contains ''not found'' detail
          then LabPinRefused (''the image version '' @ v @ '' does not exist; only promoted versions can be pinned'')
          else LabBackend ''image_pins'' detail)
      | Inr None \<Rightarrow> Inl (LabPinRefused (''the image version '' @ v @ '' is not promoted; only promoted versions can be pinned''))
      | Inr (Some digest) \<Rightarrow> Inr digest)"

definition require_template :: "string \<Rightarrow> ('z, lab_template) lease_act" where
  "require_template i = lab_lookup ''templates'' (''template '' @ i) (template_get i)"

definition content_ok :: "template_content \<Rightarrow> lab_error + unit" where
  "content_ok c = (case content_validate c of Inl detail \<Rightarrow> Inl (LabInvalid detail) | Inr u \<Rightarrow> Inr u)"

definition name_conflict :: "string \<Rightarrow> bool" where
  "name_conflict detail \<longleftrightarrow> text_contains ''taken'' detail \<or> text_contains ''UNIQUE'' detail"

definition create_template :: "lab \<Rightarrow> authorizer \<Rightarrow> string \<Rightarrow> template_content \<Rightarrow> int \<Rightarrow> ('z, lab_template) lease_act" where
  "create_template lb az who content now =
     andthen (lift (lab_allow az who LabConfig None)) (\<lambda>_.
     andthen (lift (content_ok content)) (\<lambda>_.
     andthen (lift (validate_pin lb (tc_image_version_id content))) (\<lambda>_.
     andthen (lab_audit who LabConfig None ''lab_template_creating'' (Some (''name'', tc_name content))) (\<lambda>_.
     map_err (\<lambda>detail. if name_conflict detail then LabConflict detail else LabBackend ''templates'' detail)
       (template_create content now)))))"

definition get_template :: "authorizer \<Rightarrow> string \<Rightarrow> string \<Rightarrow> ('z, lab_template) lease_act" where
  "get_template az who i =
     andthen (lift (lab_allow az who LabRead (Some i))) (\<lambda>_. require_template i)"

definition list_templates :: "authorizer \<Rightarrow> string \<Rightarrow> ('z, lab_template list) lease_act" where
  "list_templates az who =
     andthen (lift (lab_allow az who LabRead None)) (\<lambda>_. lab_backend ''templates'' template_list)"

definition update_template ::
    "lab \<Rightarrow> authorizer \<Rightarrow> string \<Rightarrow> string \<Rightarrow> template_content \<Rightarrow> int \<Rightarrow> ('z, lab_template) lease_act" where
  "update_template lb az who i content now =
     andthen (lift (lab_allow az who LabConfig (Some i))) (\<lambda>_.
     andthen (lift (content_ok content)) (\<lambda>_.
     andthen (lift (validate_pin lb (tc_image_version_id content))) (\<lambda>_.
     andthen (lab_audit who LabConfig (Some i) ''lab_template_updating'' None) (\<lambda>_.
     map_err (\<lambda>detail.
         if text_contains ''not found'' detail then LabNotFound (''template '' @ i)
         else if name_conflict detail then LabConflict detail else LabBackend ''templates'' detail)
       (template_update i content now)))))"

definition delete_template :: "authorizer \<Rightarrow> string \<Rightarrow> string \<Rightarrow> ('z, unit) lease_act" where
  "delete_template az who i =
     andthen (lift (lab_allow az who LabConfig (Some i))) (\<lambda>_.
     andthen (lab_audit who LabConfig (Some i) ''lab_template_deleting'' None) (\<lambda>_.
     lab_lookup ''templates'' (''template '' @ i) (template_delete i)))"

text \<open>
  The version a publish freezes. Its id is the draft and the first 16 characters of the pinned
  image's digest (a SHA-256 in hexadecimal); the content is not part of it.
\<close>

definition frozen_version :: "lab_template \<Rightarrow> string \<Rightarrow> string \<Rightarrow> int \<Rightarrow> template_version" where
  "frozen_version t digest who now =
     \<lparr>tv_id = lt_id t @ ''@'' @ take 16 digest, tv_template_id = lt_id t, tv_name = tc_name (lt_content t),
      tv_content = lt_content t, tv_image_digest = digest, tv_published_by = who, tv_published_at = now\<rparr>"

definition publish_template :: "lab \<Rightarrow> authorizer \<Rightarrow> string \<Rightarrow> string \<Rightarrow> int \<Rightarrow> ('z, template_version) lease_act" where
  "publish_template lb az who i now =
     andthen (lift (lab_allow az who LabConfig (Some i))) (\<lambda>_.
     andthen (require_template i) (\<lambda>t.
     andthen (lift (validate_pin lb (tc_image_version_id (lt_content t)))) (\<lambda>digest.
     andthen (lab_audit who LabConfig (Some i) ''lab_template_publishing'' (Some (''digest'', digest))) (\<lambda>_.
     lab_backend ''versions'' (version_publish i (frozen_version t digest who now))))))"

definition get_template_version :: "authorizer \<Rightarrow> string \<Rightarrow> string \<Rightarrow> ('z, template_version) lease_act" where
  "get_template_version az who v =
     andthen (lift (lab_allow az who LabRead (Some v))) (\<lambda>_.
     lab_lookup ''versions'' (''version '' @ v) (version_get v))"

section \<open>Creating leases\<close>

definition max_lease_idempotency_key_chars :: nat where "max_lease_idempotency_key_chars = 128"

definition lease_fingerprint :: "lab \<Rightarrow> new_lease \<Rightarrow> string" where
  "lease_fingerprint lb new = lb_print lb (JObject
     [(''projectId'', case nl_project_id new of None \<Rightarrow> JNull | Some p \<Rightarrow> JString p),
      (''purpose'', JString (nl_purpose new)),
      (''templateVersionId'', JString (nl_template_version_id new))])"

definition lease_idempotency_scope ::
    "lab \<Rightarrow> string \<Rightarrow> string \<Rightarrow> new_lease \<Rightarrow> lab_error + (string \<times> string)" where
  "lease_idempotency_scope lb who key new =
     (if \<not> (key \<noteq> [] \<and> char_count key \<le> max_lease_idempotency_key_chars \<and> list_all is_ascii_graphic key)
      then Inl (LabInvalid (''the idempotency key must be 1..='' @ decimal max_lease_idempotency_key_chars @
             '' printable ASCII characters''))
      else Inr (the (scoped_key ''lab-lease-create'' (resource_owner who) [key]), lease_fingerprint lb new))"

definition replayed_lease :: "lease \<Rightarrow> string \<Rightarrow> string \<Rightarrow> lab_error + (lease \<times> bool)" where
  "replayed_lease l stored fingerprint =
     (if stored = fingerprint then Inr (l, False)
      else Inl (LabConflict ''the idempotency key was already used for a different lease request''))"

definition resolve_lease_project :: "lab \<Rightarrow> string option \<Rightarrow> string option \<Rightarrow> lab_error + string option" where
  "resolve_lease_project lb explicit bootstrap =
     (let known = (\<lambda>i what. case lb_projects lb i of
            Inr _ \<Rightarrow> Inr (Some i)
          | Inl (PortNotFound _) \<Rightarrow> Inl (LabInvalid what)
          | Inl failure \<Rightarrow> Inl (LabBackend ''projects'' (port_failure_text failure)))
      in case (explicit, bootstrap) of
           (Some i, _) \<Rightarrow> known i (''project '' @ i @ '' does not exist'')
         | (None, Some i) \<Rightarrow> known i (''the template version's bootstrap project '' @ i @
             '' no longer exists; supply an explicit project id for the lease'')
         | (None, None) \<Rightarrow> Inr None)"

text \<open>An unknown version is out of scope for a delegated credential, as one outside its list is.\<close>

definition lease_version :: "string \<Rightarrow> string \<Rightarrow> ('z, template_version) lease_act" where
  "lease_version who v = map_err (\<lambda>detail.
     if text_contains ''not found'' detail
     then (if is_delegated_principal who then LabDenied (decision_deny OutOfScope) else LabNotFound (''version '' @ v))
     else LabBackend ''versions'' detail) (version_get v)"

definition check_purpose :: "string \<Rightarrow> lab_error + unit" where
  "check_purpose purpose = refuse_when (purpose = [] \<or> char_count purpose > 512)
     (LabInvalid ''the purpose must be 1..=512 characters'')"

definition inherit_lease :: "new_lease \<Rightarrow> template_version \<Rightarrow> string option \<Rightarrow> new_lease" where
  "inherit_lease new v project = new\<lparr>nl_project_id := project, nl_cleanup := tc_cleanup (tv_content v),
     nl_ttl_seconds := tc_ttl_seconds (tv_content v)\<rparr>"

definition insert_lease ::
    "string \<Rightarrow> template_version \<Rightarrow> new_lease \<Rightarrow> (string \<times> string) option \<Rightarrow> int \<Rightarrow> ('z, lease \<times> bool) lease_act" where
  "insert_lease who v inherited keyed now =
     (case keyed of
        None \<Rightarrow> andthen (lab_backend ''leases'' (lease_create inherited (resource_owner who) now)) (\<lambda>l. ret (l, True))
      | Some (key, fingerprint) \<Rightarrow>
          andthen (lab_backend ''leases'' (lease_create_keyed inherited (resource_owner who) now key fingerprint)) (\<lambda>r.
          case r of
            LeaseCreated l \<Rightarrow> ret (l, True)
          | LeaseReplay l stored \<Rightarrow>
              andthen (lab_audit who LabLease (Some (tv_id v)) ''lab_lease_create_replayed'' (Some (''leaseId'', le_id l))) (\<lambda>_.
              lift (replayed_lease l stored fingerprint))))"

definition create_new_lease ::
    "lab \<Rightarrow> authorizer \<Rightarrow> string \<Rightarrow> new_lease \<Rightarrow> (string \<times> string) option \<Rightarrow> int \<Rightarrow> ('z, lease \<times> bool) lease_act" where
  "create_new_lease lb az who new keyed now =
     andthen (lease_version who (nl_template_version_id new)) (\<lambda>v.
     andthen (lift (lab_allow az who LabTemplateUse (Some (template_use_resource (tv_template_id v) (tv_id v))))) (\<lambda>_.
     andthen (lift (refuse_when (is_delegated_principal who \<and>
         (nl_project_id new \<noteq> None \<or> tc_cleanup (tv_content v) = Keep)) (LabDenied (decision_deny OutOfScope)))) (\<lambda>_.
     andthen (lift (check_purpose (nl_purpose new))) (\<lambda>_.
     andthen (lift (resolve_lease_project lb (nl_project_id new) (tc_bootstrap_project_id (tv_content v)))) (\<lambda>project.
     andthen (lab_audit who LabLease (Some (tv_id v)) ''lab_lease_creating''
         (map_option (\<lambda>p. (''projectId'', p)) project)) (\<lambda>_.
     insert_lease who v (inherit_lease new v project) keyed now))))))"

definition create_lease_idempotent ::
    "lab \<Rightarrow> authorizer \<Rightarrow> string \<Rightarrow> new_lease \<Rightarrow> string option \<Rightarrow> int \<Rightarrow> ('z, lease \<times> bool) lease_act" where
  "create_lease_idempotent lb az who new key now =
     andthen (lift (lab_allow az who LabLease (Some (nl_template_version_id new)))) (\<lambda>_.
     case key of
       None \<Rightarrow> create_new_lease lb az who new None now
     | Some k \<Rightarrow>
         andthen (lift (lease_idempotency_scope lb who k new)) (\<lambda>keyed.
         andthen (lab_backend ''leases'' (lease_find_key (fst keyed))) (\<lambda>found.
         case found of
           Some (l, stored) \<Rightarrow> lift (replayed_lease l stored (snd keyed))
         | None \<Rightarrow> create_new_lease lb az who new (Some keyed) now)))"

definition create_lease :: "lab \<Rightarrow> authorizer \<Rightarrow> string \<Rightarrow> new_lease \<Rightarrow> int \<Rightarrow> ('z, lease) lease_act" where
  "create_lease lb az who new now =
     andthen (create_lease_idempotent lb az who new None now) (\<lambda>(l, _). ret l)"

section \<open>Reading leases\<close>

definition list_leases :: "authorizer \<Rightarrow> string \<Rightarrow> string option \<Rightarrow> ('z, lease list) lease_act" where
  "list_leases az who project =
     andthen (lift (lab_allow az who LabLeaseRead None)) (\<lambda>_.
     andthen (lab_backend ''leases'' (lease_list project)) (\<lambda>ls.
     ret (filter (\<lambda>l. owner_scope_permits who (le_owner l)) ls)))"

definition search_leases ::
    "authorizer \<Rightarrow> string \<Rightarrow> lease_filter \<Rightarrow> string option \<Rightarrow> ('z, lease list) lease_act" where
  "search_leases az who f owner_scope =
     andthen (lift (lab_allow az who LabLeaseRead None)) (\<lambda>_.
     let scope = (case delegated_owner_identity who of Some i \<Rightarrow> Some i | None \<Rightarrow> owner_scope) in
     case scope of
       None \<Rightarrow> lab_backend ''leases'' (lease_search f)
     | Some w \<Rightarrow>
         (case lf_owner f of
            Some owner \<Rightarrow> if owner \<noteq> w then ret [] else lab_backend ''leases'' (lease_search (f\<lparr>lf_owner := Some w\<rparr>))
          | None \<Rightarrow> lab_backend ''leases'' (lease_search (f\<lparr>lf_owner := Some w\<rparr>))))"

definition get_lease :: "authorizer \<Rightarrow> string \<Rightarrow> string \<Rightarrow> ('z, lease) lease_act" where
  "get_lease az who i =
     andthen (lift (lab_allow az who LabLeaseRead (Some i))) (\<lambda>_.
     andthen (find_lease i) (\<lambda>l.
     andthen (lift (scope_lease who l)) (\<lambda>_. ret l)))"

section \<open>Cleanup rounds\<close>

definition max_cleanup_attempts :: nat where "max_cleanup_attempts = 5"

definition cleanup_backoff_millis :: "nat \<Rightarrow> int" where
  "cleanup_backoff_millis attempts = min (60000 * 2 ^ min (attempts - 1) 6) (60 * 60000)"

definition u32_succ :: "nat \<Rightarrow> nat" where "u32_succ n = min (n + 1) u32_max"

definition record_cleanup_failure :: "lease \<Rightarrow> int \<Rightarrow> lease" where
  "record_cleanup_failure l now =
     (let attempts = u32_succ (le_cleanup_attempts l); in_round = attempts mod max_cleanup_attempts in
      if in_round = 0
      then l\<lparr>le_state := LeaseCleanupFailed, le_cleanup_attempts := attempts, le_cleanup_next_at := None\<rparr>
      else l\<lparr>le_state := LeaseReleasing, le_cleanup_attempts := attempts,
             le_cleanup_next_at := Some (saturating_add now (cleanup_backoff_millis in_round))\<rparr>)"

text \<open>\<open>next_multiple_of\<close>; it stays in \<open>u32\<close>, whose maximum is a multiple of five.\<close>

definition next_multiple_of :: "nat \<Rightarrow> nat \<Rightarrow> nat" where
  "next_multiple_of n k = (if n mod k = 0 then n else n + (k - n mod k))"

definition rearm_cleanup :: "lease \<Rightarrow> lease" where
  "rearm_cleanup l = l\<lparr>le_state := LeaseReleasing,
     le_cleanup_attempts := next_multiple_of (max (le_cleanup_attempts l) 1) max_cleanup_attempts,
     le_cleanup_next_at := None\<rparr>"

definition cleanup_due :: "lease \<Rightarrow> int \<Rightarrow> bool" where
  "cleanup_due l now \<longleftrightarrow> le_state l = LeaseReleasing \<and> opt_all (\<lambda>due. due \<le> now) (le_cleanup_next_at l)"

definition cleanup_operation :: "lab \<Rightarrow> lease \<Rightarrow> string option \<Rightarrow> new_operation" where
  "cleanup_operation lb l correlation =
     \<lparr>no_kind = ''lab.cleanup'',
      no_key = Some (''lab-cleanup:'' @ le_id l @ '':'' @ decimal (le_cleanup_attempts l)),
      no_deadline = None, no_correlation = correlation,
      no_payload = Some (lb_print lb (JObject [(''leaseId'', JString (le_id l))])), no_review = None\<rparr>"

section \<open>Releasing, extending, sweeping\<close>

text \<open>
  The release reads the lease, checks and audits, and then writes the copy it read: two steps,
  each its own definition.
\<close>

definition release_action :: "bool \<Rightarrow> permission" where
  "release_action keep = (if keep then LabKeep else LabLease)"

definition release_check :: "authorizer \<Rightarrow> string \<Rightarrow> string \<Rightarrow> bool \<Rightarrow> ('z, lease) lease_act" where
  "release_check az who i keep =
     andthen (lift (lab_allow az who (release_action keep) (Some i))) (\<lambda>_.
     andthen (find_lease i) (\<lambda>l.
     andthen (lift (scope_lease who l)) (\<lambda>_.
     andthen (lift (refuse_when (lease_terminal (le_state l))
         (LabInvalid (''the lease '' @ i @ '' is already '' @ lease_id_text (le_state l))))) (\<lambda>_.
     andthen (lab_audit who (release_action keep) (Some i)
         (if keep then ''lab_lease_keeping'' else ''lab_lease_releasing'') None) (\<lambda>_.
     ret l)))))"

definition release_write :: "lease \<Rightarrow> bool \<Rightarrow> ('z, lease) lease_act" where
  "release_write l keep =
     (let updated = l\<lparr>le_state := LeaseReleasing, le_cleanup := (if keep then Keep else le_cleanup l)\<rparr> in
      andthen (lab_backend ''leases'' (lease_update updated)) (\<lambda>_. ret updated))"

definition release_lease :: "authorizer \<Rightarrow> string \<Rightarrow> string \<Rightarrow> bool \<Rightarrow> ('z, lease) lease_act" where
  "release_lease az who i keep = andthen (release_check az who i keep) (\<lambda>l. release_write l keep)"

definition retry_cleanup :: "authorizer \<Rightarrow> string \<Rightarrow> string \<Rightarrow> ('z, lease) lease_act" where
  "retry_cleanup az who i =
     andthen (lift (lab_allow az who LabLease (Some i))) (\<lambda>_.
     andthen (find_lease i) (\<lambda>l.
     andthen (lift (scope_lease who l)) (\<lambda>_.
     andthen (lift (refuse_when (le_state l \<noteq> LeaseCleanupFailed)
         (LabInvalid (''the lease '' @ i @ '' is '' @ lease_id_text (le_state l) @
            ''; only a cleanup_failed lease can retry its cleanup'')))) (\<lambda>_.
     andthen (lab_audit who LabLease (Some i) ''lab_lease_cleanup_rearm_requested''
         (Some (''failedAttempts'', decimal (le_cleanup_attempts l)))) (\<lambda>_.
     andthen (lab_backend ''leases''
         (lease_rearm i (le_cleanup_attempts l) (le_cleanup_attempts (rearm_cleanup l)))) (\<lambda>won.
     if \<not> won then fail (LabConflict ''the lease changed before its cleanup could be re-armed'')
     else andthen (attempt (lab_audit who LabLease (Some i) ''lab_lease_cleanup_rearmed''
            (Some (''failedAttempts'', decimal (le_cleanup_attempts l))))) (\<lambda>_.
          ret (rearm_cleanup l))))))))"

definition extend_lease :: "authorizer \<Rightarrow> string \<Rightarrow> string \<Rightarrow> nat \<Rightarrow> int \<Rightarrow> ('z, lease) lease_act" where
  "extend_lease az who i by_seconds now =
     andthen (lift (lab_allow az who LabExtend (Some i))) (\<lambda>_.
     andthen (find_lease i) (\<lambda>l.
     andthen (lift (scope_lease who l)) (\<lambda>_.
     case le_expires_at l of
       None \<Rightarrow> fail (LabInvalid ''only ready leases with a TTL deadline can be extended'')
     | Some observed \<Rightarrow>
         andthen (map_err LabInvalid (lift (extend_expiry l now by_seconds))) (\<lambda>new_expiry.
         andthen (lab_audit who LabExtend (Some i) ''lab_lease_extension_requested'' None) (\<lambda>_.
         andthen (lab_backend ''leases'' (extend_ready i observed now new_expiry)) (\<lambda>extended.
         if \<not> extended
         then fail (LabConflict ''the lease changed state or expiry before it could be extended'')
         else ret (l\<lparr>le_expires_at := Some new_expiry\<rparr>)))))))"

fun sweep_leases :: "string \<Rightarrow> int \<Rightarrow> lease list \<Rightarrow> ('z, lease list) lease_act" where
  "sweep_leases who now [] = ret []"
| "sweep_leases who now (l # ls) =
     (case le_expires_at l of
        None \<Rightarrow> sweep_leases who now ls
      | Some observed \<Rightarrow>
          andthen (lab_audit who LabLease (Some (le_id l)) ''lab_lease_expiring'' None) (\<lambda>_.
          andthen (lab_backend ''leases'' (claim_for_release (le_id l) LeaseReady observed now)) (\<lambda>claimed.
          andthen (sweep_leases who now ls) (\<lambda>released.
          ret (if claimed then l\<lparr>le_state := LeaseReleasing\<rparr> # released else released)))))"

definition sweep_expired :: "authorizer \<Rightarrow> string \<Rightarrow> int \<Rightarrow> ('z, lease list) lease_act" where
  "sweep_expired az who now =
     andthen (lift (lab_allow az who LabLease None)) (\<lambda>_.
     andthen (lab_backend ''leases'' (lease_expired now)) (\<lambda>expired.
     sweep_leases who now expired))"

section \<open>Provisioning\<close>

definition pre_boot_allowance_millis :: int where "pre_boot_allowance_millis = 30 * 60 * 1000"
definition stuck_grace_millis :: int where "stuck_grace_millis = 10 * 60 * 1000"

definition lease_provision_record_key :: "string \<Rightarrow> string \<Rightarrow> string" where
  "lease_provision_record_key who lease_id = resource_owner who @ '':lab-lease:'' @ lease_id"

definition lease_provision_operation_key :: "string \<Rightarrow> string \<Rightarrow> string" where
  "lease_provision_operation_key who lease_id = resource_owner who @ '':lab-lease-provision:'' @ lease_id"

definition attach_lease_provision :: "lease option \<Rightarrow> provision \<Rightarrow> ('z, bool) lease_act" where
  "attach_lease_provision l p =
     (case l of
        None \<Rightarrow> ret False
      | Some l \<Rightarrow>
          if pv_lease_id p \<noteq> Some (le_id l)
          then fail (LabConflict ''the provision record is not linked to this lease'')
          else andthen (lab_backend ''leases'' (attach_provision (le_id l) (pv_id p))) (\<lambda>attached.
               case attached of
                 Attached \<Rightarrow> ret True
               | AlreadyAttached \<Rightarrow> ret False
               | AttachConflict \<Rightarrow>
                   fail (LabConflict (''lease '' @ le_id l @ '' changed before provisioning started''))))"

definition awaiting_provision :: "string \<Rightarrow> string \<Rightarrow> string \<Rightarrow> ('z, lease) lease_act" where
  "awaiting_provision who version lease_id =
     andthen (find_lease lease_id) (\<lambda>l.
     andthen (lift (scope_lease who l)) (\<lambda>_.
     andthen (lift (refuse_when (le_template_version_id l \<noteq> version)
         (LabInvalid ''the lease uses a different template version''))) (\<lambda>_.
     andthen (lift (refuse_when (le_state l \<noteq> LeaseRequested \<and>
         \<not> (le_state l \<in> {LeaseProvisioning, LeaseBooting, LeaseBootstrapping} \<and> le_provision_id l \<noteq> None))
         (LabConflict (''lease '' @ lease_id @ '' is not awaiting provisioning'')))) (\<lambda>_.
     ret l))))"

definition provision_key :: "string \<Rightarrow> string option \<Rightarrow> string option \<Rightarrow> string option" where
  "provision_key who lease_id key =
     (case lease_id of
        Some i \<Rightarrow> Some (lease_provision_record_key who i)
      | None \<Rightarrow> (case key of None \<Rightarrow> None | Some k \<Rightarrow> scoped_key ''lab-provision'' who [k]))"

definition replay_provision :: "lease option \<Rightarrow> string option \<Rightarrow> provision \<Rightarrow> ('z, provision \<times> bool) lease_act" where
  "replay_provision l lease_id existing =
     (if pv_lease_id existing \<noteq> lease_id
      then fail (LabConflict ''the idempotency key is already attached to another lease'')
      else if pv_state existing = NeverReady
      then fail (LabConflict ''this lease's provision attempt is terminal; release it and request a replacement lease'')
      else andthen (attach_lease_provision l existing) (\<lambda>changed. ret (existing, changed)))"

definition readiness_deadline :: "template_version \<Rightarrow> int \<Rightarrow> int" where
  "readiness_deadline v now = saturating_add now (saturating_add
     (sat_i64 (int (tc_readiness_deadline_seconds (tv_content v)) * 1000)) pre_boot_allowance_millis)"

definition new_saga ::
    "string \<Rightarrow> lease option \<Rightarrow> string option \<Rightarrow> string option \<Rightarrow> template_version \<Rightarrow> int \<Rightarrow> ('z, provision \<times> bool) lease_act" where
  "new_saga version l lease_id key v now =
     andthen (lab_backend ''provisions'' (provision_create
         \<lparr>np_template_version_id = version, np_lease_id = lease_id, np_idempotency_key = key,
          np_readiness_deadline_at = Some (readiness_deadline v now)\<rparr> now)) (\<lambda>p.
     andthen (attach_lease_provision l p) (\<lambda>changed. ret (p, changed)))"

definition start_provision_with_outcome ::
    "lab \<Rightarrow> authorizer \<Rightarrow> string \<Rightarrow> string \<Rightarrow> string option \<Rightarrow> string option \<Rightarrow> int \<Rightarrow> ('z, provision \<times> bool) lease_act" where
  "start_provision_with_outcome lb az who version lease_id key now =
     andthen (lift (lab_allow az who (if lease_id \<noteq> None then LabLeaseProvision else LabProvision)
         (Some (case lease_id of None \<Rightarrow> version | Some i \<Rightarrow> i)))) (\<lambda>_.
     andthen (case lease_id of None \<Rightarrow> ret None
              | Some i \<Rightarrow> andthen (awaiting_provision who version i) (\<lambda>l. ret (Some l))) (\<lambda>l.
     andthen (lab_lookup ''versions'' (''version '' @ version) (version_get version)) (\<lambda>v.
     andthen (lift (validate_pin lb (tc_image_version_id (tv_content v)))) (\<lambda>_.
     andthen (lab_audit who LabProvision (Some (case lease_id of None \<Rightarrow> version | Some i \<Rightarrow> i))
         ''lab_provision_starting'' (Some (''digest'', tv_image_digest v))) (\<lambda>_.
     case provision_key who lease_id key of
       None \<Rightarrow> new_saga version l lease_id None v now
     | Some k \<Rightarrow>
         andthen (lab_backend ''provisions'' (provision_find_key k)) (\<lambda>found.
         case found of
           Some existing \<Rightarrow> replay_provision l lease_id existing
         | None \<Rightarrow> new_saga version l lease_id (Some k) v now))))))"

definition start_provision ::
    "lab \<Rightarrow> authorizer \<Rightarrow> string \<Rightarrow> string \<Rightarrow> string option \<Rightarrow> string option \<Rightarrow> int \<Rightarrow> ('z, provision) lease_act" where
  "start_provision lb az who version lease_id key now =
     andthen (start_provision_with_outcome lb az who version lease_id key now) (\<lambda>(p, _). ret p)"

definition check_provision_account :: "string \<Rightarrow> string option \<Rightarrow> lab_error + unit" where
  "check_provision_account who account = refuse_when (account \<noteq> None \<and> is_delegated_principal who)
     (LabDenied (decision_deny OutOfScope))"

definition start_lease_provision ::
    "lab \<Rightarrow> authorizer \<Rightarrow> string \<Rightarrow> string \<Rightarrow> string option \<Rightarrow> int \<Rightarrow> ('z, provision \<times> bool) lease_act" where
  "start_lease_provision lb az who lease_id key now =
     andthen (lift (lab_allow az who LabLeaseProvision (Some lease_id))) (\<lambda>_.
     andthen (find_lease lease_id) (\<lambda>l.
     andthen (lift (scope_lease who l)) (\<lambda>_.
     start_provision_with_outcome lb az who (le_template_version_id l) (Some lease_id) key now)))"

definition list_provisions :: "authorizer \<Rightarrow> string \<Rightarrow> ('z, provision list) lease_act" where
  "list_provisions az who =
     andthen (lift (lab_allow az who LabRead None)) (\<lambda>_. lab_backend ''provisions'' provision_list)"

definition get_provision :: "authorizer \<Rightarrow> string \<Rightarrow> string \<Rightarrow> ('z, provision) lease_act" where
  "get_provision az who i =
     andthen (lift (lab_allow az who LabLeaseRead (Some i))) (\<lambda>_.
     andthen (lab_lookup ''provisions'' (''provision '' @ i) (provision_get i)) (\<lambda>p.
     if \<not> is_delegated_principal who then ret p
     else (case pv_lease_id p of
             None \<Rightarrow> fail (LabNotFound (''provision '' @ i))
           | Some lease_id \<Rightarrow>
               andthen (lab_backend ''leases'' (lease_get lease_id)) (\<lambda>l.
               if \<not> owner_scope_permits who (le_owner l) then fail (LabNotFound (''provision '' @ i))
               else ret p))))"

section \<open>Commands on a leased guest\<close>

definition max_lab_exec_script_bytes :: nat where "max_lab_exec_script_bytes = 64 * 1024"
definition max_lab_exec_timeout_seconds :: nat where "max_lab_exec_timeout_seconds = 900"
definition interactive_exec_margin_seconds :: nat where "interactive_exec_margin_seconds = 90"
definition max_lab_exec_interactive_seconds :: nat where
  "max_lab_exec_interactive_seconds = max_lab_exec_timeout_seconds - interactive_exec_margin_seconds"

definition lease_exec_ready :: "lease \<Rightarrow> int \<Rightarrow> string + unit" where
  "lease_exec_ready l now =
     (if le_state l \<noteq> LeaseReady
      then Inl (''the lease is '' @ lease_id_text (le_state l) @ ''; commands run only on a ready lease'')
      else case le_expires_at l of
          None \<Rightarrow> Inl ''the lease has no expiry deadline''
        | Some expires \<Rightarrow> if expires > now then Inr () else Inl ''the lease has expired'')"

definition exec_request_ok :: "string \<Rightarrow> nat \<Rightarrow> exec_session \<Rightarrow> lab_error + unit" where
  "exec_request_ok script timeout_seconds session = first_error
     [refuse_when (is_blank script \<or> length script > max_lab_exec_script_bytes)
        (LabInvalid (''the command must be non-empty and at most '' @ decimal max_lab_exec_script_bytes @ '' bytes'')),
      refuse_when (timeout_seconds = 0 \<or> timeout_seconds > max_lab_exec_timeout_seconds)
        (LabInvalid (''timeoutSeconds must be 1..='' @ decimal max_lab_exec_timeout_seconds)),
      refuse_when (session = Interactive \<and> timeout_seconds > max_lab_exec_interactive_seconds)
        (LabInvalid (''an interactive exec's timeoutSeconds must be at most '' @ decimal max_lab_exec_interactive_seconds @
           ''; use exec-detached for longer commands''))]"

definition exec_machine :: "lease \<Rightarrow> ('z, unit) lease_act" where
  "exec_machine l =
     andthen (case le_provision_id l of None \<Rightarrow> ret None
              | Some p \<Rightarrow> andthen (lab_backend ''provisions'' (provision_get p)) (\<lambda>x. ret (Some x))) (\<lambda>rec.
     lift (refuse_when (opt_all (\<lambda>p. pv_machine_id p = None \<or> pv_endpoint_id p = None) rec)
       (LabInvalid ''the lease's guest has no registered Lab machine to run on'')))"

definition guest_of :: "lease \<Rightarrow> ('z, guest_os \<times> string option) lease_act" where
  "guest_of l = andthen (lab_backend ''templates'' (version_get (le_template_version_id l))) (\<lambda>v.
     ret (tc_guest_os (tv_content v), tc_interactive_user (tv_content v)))"

definition exec_operation ::
    "lab \<Rightarrow> string \<Rightarrow> string \<Rightarrow> string \<Rightarrow> nat \<Rightarrow> exec_session \<Rightarrow> guest_os \<Rightarrow> string option \<Rightarrow> string option \<Rightarrow> new_operation" where
  "exec_operation lb who i script timeout_seconds session os interactive_user key =
     \<lparr>no_kind = ''lab.exec'',
      no_key = (case key of None \<Rightarrow> None | Some k \<Rightarrow> scoped_key ''lab-exec'' who [i, k]),
      no_deadline = None, no_correlation = None,
      no_payload = Some (lb_print lb (JObject
        [(''leaseId'', JString i), (''script'', JString script), (''timeoutSeconds'', JInt (int timeout_seconds)),
         (''guestOs'', JString (guest_os_id os)), (''session'', JString (session_id session)),
         (''interactiveUser'', case interactive_user of None \<Rightarrow> JNull | Some u \<Rightarrow> JString u)])),
      no_review = None\<rparr>"

definition exec_lease ::
    "lab \<Rightarrow> authorizer \<Rightarrow> string \<Rightarrow> string \<Rightarrow> string \<Rightarrow> nat \<Rightarrow> exec_session \<Rightarrow> string option \<Rightarrow> int \<Rightarrow> ('z, new_operation) lease_act" where
  "exec_lease lb az who i script timeout_seconds session key now =
     andthen (lift (lab_allow az who LabExec (Some i))) (\<lambda>_.
     andthen (lift (exec_request_ok script timeout_seconds session)) (\<lambda>_.
     andthen (find_lease i) (\<lambda>l.
     andthen (lift (scope_lease who l)) (\<lambda>_.
     andthen (map_err LabInvalid (lift (lease_exec_ready l now))) (\<lambda>_.
     andthen (exec_machine l) (\<lambda>_.
     andthen (guest_of l) (\<lambda>(os, template_user).
     andthen (map_err LabInvalid (lift (session_resolve session os template_user))) (\<lambda>interactive_user.
     andthen (lab_audit who LabExec (Some i) ''lab_exec_requested'' (Some (''session'', session_id session))) (\<lambda>_.
     ret (exec_operation lb who i script timeout_seconds session os interactive_user key))))))))))"

section \<open>What the sweeper decides\<close>

definition in_flight_lease :: "lease_state \<Rightarrow> bool" where
  "in_flight_lease st \<longleftrightarrow> st \<in> {LeaseProvisioning, LeaseBooting, LeaseBootstrapping}"

definition provision_to_abandon :: "lease \<Rightarrow> provision \<Rightarrow> bool" where
  "provision_to_abandon l p \<longleftrightarrow>
     le_state l \<notin> {LeaseRequested, LeaseProvisioning, LeaseBooting, LeaseBootstrapping, LeaseReady} \<and>
     in_flight_guest (pv_state p) \<and> le_provision_id l = Some (pv_id p) \<and> pv_lease_id p = Some (le_id l)"

definition provision_compensation :: "lease_state \<Rightarrow> bool \<Rightarrow> lease_state option" where
  "provision_compensation st allocated =
     (if in_flight_lease st \<or> st = LeaseFailed
      then (if allocated then Some LeaseReleasing else if in_flight_lease st then Some LeaseFailed else None)
      else None)"

definition lease_allocated :: "lease \<Rightarrow> provision option \<Rightarrow> bool" where
  "lease_allocated l rec \<longleftrightarrow>
     (case rec of None \<Rightarrow> False | Some p \<Rightarrow> pv_lease_id p = Some (le_id l) \<and> pv_vmid p \<noteq> None)"

definition stuck_due :: "lease \<Rightarrow> provision option \<Rightarrow> int \<Rightarrow> bool" where
  "stuck_due l rec now \<longleftrightarrow>
     (if le_state l = LeaseFailed then True
      else if in_flight_lease (le_state l)
      then (case Option.bind rec pv_readiness_deadline_at of
              None \<Rightarrow> False | Some deadline \<Rightarrow> saturating_add deadline stuck_grace_millis \<le> now) \<or>
           le_max_lifetime_at l \<le> now
      else False)"

definition stuck_compensation :: "lease \<Rightarrow> provision option \<Rightarrow> int \<Rightarrow> lease_state option" where
  "stuck_compensation l rec now =
     (if stuck_due l rec now then provision_compensation (le_state l) (lease_allocated l rec) else None)"

definition guest_owned :: "provision option \<Rightarrow> lease option \<Rightarrow> string \<Rightarrow> nat \<Rightarrow> bool" where
  "guest_owned rec l account vmid \<longleftrightarrow>
     (case rec of
        None \<Rightarrow> False
      | Some p \<Rightarrow>
          if pv_vmid p \<noteq> Some vmid \<or> pv_account_id p \<noteq> Some account then False
          else if pv_lease_id p = None then True
          else (case l of
                  None \<Rightarrow> False
                | Some l \<Rightarrow> le_provision_id l = Some (pv_id p) \<and>
                    (case le_state l of
                       LeaseReleased \<Rightarrow> le_cleanup l = Keep | LeaseFailed \<Rightarrow> False | _ \<Rightarrow> True)))"

datatype provision_guest_fate =
    NotAllocated | Present | Destroyed | Kept | ReturnedToPool | QuarantinedInPool

fun fate_id :: "provision_guest_fate \<Rightarrow> string" where
  "fate_id NotAllocated = ''not_allocated''"
| "fate_id Present = ''present''"
| "fate_id Destroyed = ''destroyed''"
| "fate_id Kept = ''kept''"
| "fate_id ReturnedToPool = ''returned_to_pool''"
| "fate_id QuarantinedInPool = ''quarantined_in_pool''"

interpretation fate_ids: text_ids fate_id "[NotAllocated, Present, Destroyed, Kept, ReturnedToPool, QuarantinedInPool]"
proof unfold_locales
  fix x :: provision_guest_fate
  show "x \<in> set [NotAllocated, Present, Destroyed, Kept, ReturnedToPool, QuarantinedInPool]" by (cases x) simp_all
qed simp

definition may_be_pooled :: "provision \<Rightarrow> bool" where
  "may_be_pooled p \<longleftrightarrow> pv_vmid p \<noteq> None \<and> pv_account_id p \<noteq> None \<and> pv_clone_upid p = None"

definition linked_lease :: "provision \<Rightarrow> lease option \<Rightarrow> lease option" where
  "linked_lease p l = (case l of None \<Rightarrow> None | Some x \<Rightarrow> if le_provision_id x = Some (pv_id p) then Some x else None)"

definition provision_guest :: "provision \<Rightarrow> lease option \<Rightarrow> pool_member option \<Rightarrow> provision_guest_fate" where
  "provision_guest p l member =
     (if pv_vmid p = None then NotAllocated
      else case linked_lease p l of
          None \<Rightarrow> Present
        | Some x \<Rightarrow>
            if le_state x \<noteq> LeaseReleased then Present
            else (case (if may_be_pooled p then member else None) of
                    Some m \<Rightarrow> if pm_state m = MemberQuarantined then QuarantinedInPool else ReturnedToPool
                  | None \<Rightarrow> (case le_cleanup x of
                      Destroy \<Rightarrow> Destroyed | Keep \<Rightarrow> Kept | Revert \<Rightarrow> ReturnedToPool)))"

record provision_view =
  vw_record :: provision
  vw_guest :: provision_guest_fate
  vw_lease_state :: "lease_state option"

definition provision_view_new :: "provision \<Rightarrow> lease option \<Rightarrow> pool_member option \<Rightarrow> provision_view" where
  "provision_view_new p l member = \<lparr>vw_record = p, vw_guest = provision_guest p (linked_lease p l) member,
     vw_lease_state = map_option le_state (linked_lease p l)\<rparr>"

definition view_member :: "lab \<Rightarrow> provision \<Rightarrow> lease option \<Rightarrow> lab_error + pool_member option" where
  "view_member lb p l =
     (case (lb_members lb, l) of
        (Some member_for_guest, Some x) \<Rightarrow>
          if le_state x = LeaseReleased \<and> may_be_pooled p
          then (case (pv_account_id p, pv_vmid p) of
                  (Some account, Some vmid) \<Rightarrow>
                    (case member_for_guest account vmid of
                       Inl detail \<Rightarrow> Inl (LabBackend ''pool members'' detail) | Inr m \<Rightarrow> Inr m)
                | _ \<Rightarrow> Inr None)
          else Inr None
      | _ \<Rightarrow> Inr None)"

fun collect_views :: "lab \<Rightarrow> (string \<Rightarrow> lease option) \<Rightarrow> provision list \<Rightarrow> lab_error + provision_view list" where
  "collect_views lb lease_for [] = Inr []"
| "collect_views lb lease_for (p # ps) =
     check_then (view_member lb p (lease_for (pv_id p))) (\<lambda>member.
     check_then (collect_views lb lease_for ps) (\<lambda>views.
     Inr (provision_view_new p (lease_for (pv_id p)) member # views)))"

text \<open>The index by provision keeps the last lease of the listing that names one.\<close>

definition lease_index :: "lease list \<Rightarrow> string \<Rightarrow> lease option" where
  "lease_index ls i = find (\<lambda>l. le_provision_id l = Some i) (rev ls)"

definition list_provision_views :: "lab \<Rightarrow> authorizer \<Rightarrow> string \<Rightarrow> ('z, provision_view list) lease_act" where
  "list_provision_views lb az who =
     andthen (list_provisions az who) (\<lambda>ps.
     andthen (lab_backend ''leases'' (lease_list None)) (\<lambda>ls.
     lift (collect_views lb (lease_index ls) ps)))"

end
