(* ===== verification/Lab_Invariants.thy ===== *)
theory Lab_Invariants
  imports Lab_Lease
begin

text \<open>
  What the Lab calls keep, in any order and with failing statements: the facts of a lease
  decided at its creation and its absolute lifetime, along calls that may write back copies
  they read earlier; and the one winner among the calls that compete for a deadline.
\<close>

section \<open>Leases along any calls\<close>

definition deadline_ok :: "lease_row \<Rightarrow> bool" where
  "deadline_ok r \<longleftrightarrow> opt_all (\<lambda>e. e \<le> row_cap r) (le_expires_at (lr_lease r))"

definition row_sound :: "lease_row \<Rightarrow> bool" where
  "row_sound r \<longleftrightarrow> deadline_ok r \<and> row_cap r \<le> le_created_at (lr_lease r) + max_lab_lease_lifetime_millis"

definition lease_kept :: "lease_row \<Rightarrow> lease_row \<Rightarrow> bool" where
  "lease_kept r r' \<longleftrightarrow>
     row_id r' = row_id r \<and> le_owner (lr_lease r') = le_owner (lr_lease r) \<and>
     le_purpose (lr_lease r') = le_purpose (lr_lease r) \<and>
     le_project_id (lr_lease r') = le_project_id (lr_lease r) \<and>
     le_template_version_id (lr_lease r') = le_template_version_id (lr_lease r) \<and>
     le_created_at (lr_lease r') = le_created_at (lr_lease r) \<and>
     le_ttl_seconds (lr_lease r') = le_ttl_seconds (lr_lease r) \<and>
     lr_max_lifetime_at r' = lr_max_lifetime_at r \<and> lr_idempotency_key r' = lr_idempotency_key r \<and>
     lr_idempotency_fingerprint r' = lr_idempotency_fingerprint r \<and>
     (deadline_ok r \<longrightarrow> deadline_ok r')"

definition leases_follow :: "'z lab_world_scheme \<Rightarrow> 'z lab_world_scheme \<Rightarrow> bool" where
  "leases_follow s t \<longleftrightarrow>
     (\<exists>olds new. lw_leases t = olds @ new \<and> list_all2 lease_kept (lw_leases s) olds \<and> list_all row_sound new) \<and>
     (distinct (map row_id (lw_leases s)) \<longrightarrow> distinct (map row_id (lw_leases t)))"

lemma lease_kept_refl [simp]: "lease_kept r r"
  by (simp add: lease_kept_def)

lemma lease_kept_trans: "lease_kept a b \<Longrightarrow> lease_kept b c \<Longrightarrow> lease_kept a c"
  by (simp add: lease_kept_def)

lemma lease_kept_cap: "lease_kept r r' \<Longrightarrow> row_cap r' = row_cap r"
  by (auto simp: lease_kept_def row_cap_def split: option.splits)

lemma row_cap_set [simp]:
  "le_created_at l = le_created_at (lr_lease r) \<Longrightarrow> row_cap (r\<lparr>lr_lease := l\<rparr>) = row_cap r"
  by (simp add: row_cap_def split: option.splits)

lemma lease_kept_sound: "lease_kept r r' \<Longrightarrow> row_sound r \<Longrightarrow> row_sound r'"
  using lease_kept_cap [of r r'] by (simp add: row_sound_def lease_kept_def)

lemma list_all_kept: "list_all2 lease_kept xs ys \<Longrightarrow> list_all row_sound xs \<Longrightarrow> list_all row_sound ys"
  by (induction rule: list_all2_induct) (auto intro: lease_kept_sound)

lemma leases_same_follow: "lw_leases t = lw_leases s \<Longrightarrow> leases_follow s t"
  unfolding leases_follow_def
  by (intro conjI exI [of _ "lw_leases s"] exI [of _ "[]"]) (simp_all add: list_all2_same)

lemma leases_follow_trans:
  assumes "leases_follow s t" and "leases_follow t u"
  shows "leases_follow s u"
proof -
  from assms(1) obtain olds new where t: "lw_leases t = olds @ new"
    "list_all2 lease_kept (lw_leases s) olds" "list_all row_sound new" by (auto simp: leases_follow_def)
  from assms(2) obtain olds' new' where u: "lw_leases u = olds' @ new'"
    "list_all2 lease_kept (lw_leases t) olds'" "list_all row_sound new'" by (auto simp: leases_follow_def)
  from u(2) t(1) obtain a b where ab: "olds' = a @ b" "list_all2 lease_kept olds a" "list_all2 lease_kept new b"
    by (auto simp: list_all2_append1)
  have "list_all2 lease_kept (lw_leases s) a"
    using t(2) ab(2) by (rule list_all2_trans [rotated 1]) (auto intro: lease_kept_trans)
  moreover have "list_all row_sound (b @ new')" using list_all_kept [OF ab(3) t(3)] u(3) by simp
  moreover have "lw_leases u = a @ b @ new'" using u(1) ab(1) by simp
  moreover have "distinct (map row_id (lw_leases s)) \<longrightarrow> distinct (map row_id (lw_leases u))"
    using assms by (simp add: leases_follow_def)
  ultimately show ?thesis unfolding leases_follow_def by blast
qed

interpretation follow: effect_relation "leases_follow :: 'z lab_world_scheme \<Rightarrow> 'z lab_world_scheme \<Rightarrow> bool"
  by unfold_locales (auto intro: leases_same_follow leases_follow_trans)

lemma same_leases_follow: "(\<And>s. lw_leases (snd (m s)) = lw_leases s) \<Longrightarrow> within leases_follow m"
  by (rule withinI, rule leases_same_follow) simp

lemma frame_leases: "world_frame s t \<Longrightarrow> lw_leases (t :: 'z lab_world_scheme) = lw_leases s"
  and frame_provisions: "world_frame s t \<Longrightarrow> lw_provisions t = lw_provisions s"
  and frame_versions: "world_frame s t \<Longrightarrow> lw_versions t = lw_versions s"
  and frame_templates: "world_frame s t \<Longrightarrow> lw_templates t = lw_templates s"
proof -
  assume "world_frame s t"
  then have "world.more t = world.more s" by (rule world_frame_more)
  then show "lw_leases t = lw_leases s" and "lw_provisions t = lw_provisions s"
    and "lw_versions t = lw_versions s" and "lw_templates t = lw_templates s"
    by (cases s, cases t, simp)+
qed

lemma frame_follow: "within world_frame m \<Longrightarrow> within (leases_follow :: 'z lab_world_scheme \<Rightarrow> _) m"
  by (rule same_leases_follow, rule frame_leases, rule within_snd)

lemma mapped_leases_follow:
  assumes "lw_leases t = map g (lw_leases s)" and "\<forall>r \<in> set (lw_leases s). lease_kept r (g r)"
  shows "leases_follow s t"
proof -
  from assms have ids: "map row_id (lw_leases t) = map row_id (lw_leases s)" by (simp add: lease_kept_def)
  from assms have "list_all2 lease_kept (lw_leases s) (lw_leases t)" by (simp add: list_all2_conv_all_nth)
  with ids show ?thesis
    unfolding leases_follow_def by (intro conjI exI [of _ "lw_leases t"] exI [of _ "[]"]) simp_all
qed

lemma update_leases_follow:
  assumes "\<And>r. P r \<Longrightarrow> lease_kept r (r\<lparr>lr_lease := f (lr_lease r)\<rparr>)"
  shows "within leases_follow (update_leases P f)"
  by (rule withinI, rule mapped_leases_follow [where g = "\<lambda>r. if P r then r\<lparr>lr_lease := f (lr_lease r)\<rparr> else r"])
     (simp_all add: update_leases_def assms)

lemma lab_statement_frame: "within world_frame (lab_statement c)"
  unfolding lab_statement_def by (intro frame.intros external_frame)

lemmas statement_follow = lab_statement_frame [THEN frame_follow]
  and uuid_follow = fresh_uuid_frame [THEN frame_follow]
  and external_follow = external_frame [THEN frame_follow]
  and intent_follow = record_intent_frame [THEN frame_follow]

lemma lab_audit_frame: "within world_frame (lab_audit who a r e f)"
  unfolding lab_audit_def lab_backend_def by (intro frame.intros record_intent_frame)

lemmas audit_follow = lab_audit_frame [THEN frame_follow]

text \<open>Every statement on the leases is such a step; the reads and the other tables leave them alone.\<close>

lemma lease_get_frame: "within world_frame (lease_get i)"
  unfolding lease_get_def by (intro frame.intros lab_statement_frame)

lemma find_lease_frame: "within world_frame (find_lease i)"
  unfolding find_lease_def lab_lookup_def by (intro frame.intros lease_get_frame)

lemma lease_find_key_frame: "within world_frame (lease_find_key k)"
  unfolding lease_find_key_def by (intro frame.intros lab_statement_frame)

lemma version_get_frame: "within world_frame (version_get v)"
  unfolding version_get_def by (intro frame.intros lab_statement_frame)

lemma extend_ready_follow: "within leases_follow (extend_ready i o' now e)"
  unfolding extend_ready_def
  by (intro follow.intros statement_follow update_leases_follow)
     (auto simp: lease_kept_def deadline_ok_def opt_all_def)

lemma attach_provision_follow: "within leases_follow (attach_provision i p)"
  unfolding attach_provision_def
  by (intro follow.intros statement_follow update_leases_follow)
     (auto simp: lease_kept_def deadline_ok_def)

lemma claim_follow: "within leases_follow (claim_for_release i st o' now)"
  unfolding claim_for_release_def
  by (intro follow.intros statement_follow update_leases_follow)
     (auto simp: lease_kept_def deadline_ok_def)

lemma transition_follow: "within leases_follow (lease_transition i st p to)"
  unfolding lease_transition_def
  by (intro follow.intros statement_follow update_leases_follow)
     (auto simp: lease_kept_def deadline_ok_def)

lemma rearm_follow: "within leases_follow (lease_rearm i n m)"
  unfolding lease_rearm_def
  by (intro follow.intros statement_follow update_leases_follow)
     (auto simp: lease_kept_def deadline_ok_def)

lemma record_failed_follow: "within leases_follow (record_failed_cleanup n l)"
  unfolding record_failed_cleanup_def
  by (intro follow.intros statement_follow update_leases_follow)
     (auto simp: lease_kept_def deadline_ok_def)

lemma lease_update_follow:
  assumes "\<forall>r \<in> set (lw_leases s). row_id r = le_id l \<longrightarrow> opt_all (\<lambda>e. e \<le> row_cap r) (le_expires_at l)"
  shows "leases_follow s (snd (lease_update l s))"
proof -
  obtain r u where st: "lab_statement ''update'' s = (r, u)" by fastforce
  have u: "lw_leases u = lw_leases s"
    using frame_leases [OF withinD [OF lab_statement_frame st]] .
  show ?thesis
  proof (cases r)
    case (Inl e)
    with st u show ?thesis by (simp add: lease_update_def act_simps leases_same_follow)
  next
    case (Inr x)
    let ?g = "\<lambda>r. if row_id r = le_id l then r\<lparr>lr_lease := (lr_lease r)\<lparr>le_state := le_state l,
       le_provision_id := le_provision_id l, le_cleanup := le_cleanup l, le_ready_at := le_ready_at l,
       le_expires_at := le_expires_at l, le_cleanup_attempts := le_cleanup_attempts l,
       le_cleanup_next_at := le_cleanup_next_at l\<rparr>\<rparr> else r"
    from Inr st u have "lw_leases (snd (lease_update l s)) = map ?g (lw_leases s)"
      by (simp add: lease_update_def update_leases_def act_simps)
    then show ?thesis
      by (rule mapped_leases_follow) (use assms in \<open>auto simp: lease_kept_def deadline_ok_def\<close>)
  qed
qed

lemma new_row_sound:
  "creation_cap now = Inr m \<Longrightarrow> row_sound (new_lease_row i new owner now m keyed)"
  by (simp add: creation_cap_def checked_i64_def row_sound_def deadline_ok_def row_cap_def new_lease_row_def
      opt_all_def split: option.splits if_splits)

lemma insert_lease_follow:
  assumes "row_sound x" and "\<not> list_ex (\<lambda>r. row_id r = row_id x) (lw_leases s)"
  shows "leases_follow s (s\<lparr>lw_leases := lw_leases s @ [x]\<rparr>)"
  unfolding leases_follow_def using assms
  by (intro conjI exI [of _ "lw_leases s"] exI [of _ "[x]"]) (auto simp: list_all2_same list_ex_iff)

lemma insert_row_follow:
  assumes "creation_cap now = Inr m"
  shows "within leases_follow (insert_lease_row i new (new_lease_row i new owner now m keyed))"
proof (rule withinI)
  fix s :: "'z lab_world_scheme"
  let ?x = "new_lease_row i new owner now m keyed"
  show "leases_follow s (snd (insert_lease_row i new ?x s))"
  proof (cases "lease_insert_refused (lw_leases s) i new")
    case None
    then have "\<not> list_ex (\<lambda>r. row_id r = row_id ?x) (lw_leases s)"
      by (simp add: lease_insert_refused_def new_lease_row_def split: if_splits)
    with None new_row_sound [OF assms] show ?thesis
      by (simp add: insert_lease_row_def act_simps insert_lease_follow)
  qed (simp add: insert_lease_row_def act_simps leases_same_follow)
qed

lemma lease_get_follow: "within leases_follow (lease_get i)"
  and find_lease_follow: "within leases_follow (find_lease i)"
  and lease_find_key_follow: "within leases_follow (lease_find_key k)"
  and version_get_follow: "within leases_follow (version_get v)"
  by (rule frame_follow, rule lease_get_frame find_lease_frame lease_find_key_frame version_get_frame)+

lemma lease_create_follow: "within leases_follow (lease_create new owner now)"
  unfolding lease_create_def
  by (intro follow.andthen follow.lift_then uuid_follow statement_follow insert_row_follow lease_get_follow)

lemma lease_create_keyed_follow: "within leases_follow (lease_create_keyed new owner now key fingerprint)"
  unfolding lease_create_keyed_def
  by (intro follow.andthen follow.lift_then follow.attempt follow.case_sum follow.case_option
      follow.case_prod follow.cond follow.asks follow.ret follow.fail uuid_follow statement_follow insert_row_follow lease_get_follow
      lease_find_key_follow)

lemma same_provisions_follow: "within leases_follow (update_provisions P f)"
  by (rule same_leases_follow) (simp add: update_provisions_def)

lemma provision_get_frame: "within world_frame (provision_get i)"
  unfolding provision_get_def by (intro frame.intros lab_statement_frame)

lemma provision_find_key_frame: "within world_frame (provision_find_key k)"
  unfolding provision_find_key_def by (intro frame.intros lab_statement_frame)

lemmas provision_reads_follow = provision_get_frame [THEN frame_follow] provision_find_key_frame [THEN frame_follow]

lemma provision_create_follow: "within leases_follow (provision_create new now)"
proof -
  have "within leases_follow (modify (\<lambda>s. s\<lparr>lw_provisions := lw_provisions s @ [x]\<rparr>))" for x
    by (rule same_leases_follow) (simp add: modify_def)
  then show ?thesis unfolding provision_create_def
    by (intro follow.intros uuid_follow statement_follow provision_reads_follow)
qed

lemma undo_lab_follow:
  fixes m :: "('z lab_world_scheme, 'e, 'a) act"
  assumes m: "within leases_follow m"
  shows "within leases_follow (atomically undo_lab m)"
proof (rule withinI)
  fix s
  obtain r t where mt: "m s = (r, t)" by fastforce
  show "leases_follow s (snd (atomically undo_lab m s))"
  proof (cases r)
    case (Inl e)
    with mt show ?thesis by (simp add: atomically_def undo_lab_def leases_same_follow)
  next
    case (Inr x)
    with mt withinD [OF m mt] show ?thesis by (simp add: atomically_def)
  qed
qed

lemma ready_lease_follow: "within leases_follow (ready_lease p l a e)"
  unfolding ready_lease_def
  by (intro follow.intros statement_follow update_leases_follow)
     (auto simp: lease_kept_def deadline_ok_def opt_all_def)

lemma complete_ready_follow: "within leases_follow (complete_ready p e)"
  unfolding complete_ready_def complete_ready_tx_def
  by (intro follow.intros undo_lab_follow statement_follow ready_lease_follow same_provisions_follow)

lemmas lease_statements_follow = extend_ready_follow attach_provision_follow claim_follow transition_follow
  rearm_follow record_failed_follow lease_create_follow lease_create_keyed_follow provision_create_follow
  statement_follow audit_follow lease_get_follow find_lease_follow lease_find_key_follow version_get_follow
  provision_reads_follow

lemma backend_follow: "within leases_follow m \<Longrightarrow> within leases_follow (lab_backend c m)"
  and lookup_follow: "within leases_follow m \<Longrightarrow> within leases_follow (lab_lookup c w m)"
  unfolding lab_backend_def lab_lookup_def by (rule follow.map_err, assumption)+

lemma keyed_case_follow:
  "(\<And>l. within leases_follow (f l)) \<Longrightarrow> (\<And>l x. within leases_follow (g l x)) \<Longrightarrow>
   within leases_follow (case r of LeaseCreated l \<Rightarrow> f l | LeaseReplay l x \<Rightarrow> g l x)"
  by (cases r) auto

lemma attach_case_follow:
  "within leases_follow f \<Longrightarrow> within leases_follow g \<Longrightarrow> within leases_follow h \<Longrightarrow>
   within leases_follow (case r of Attached \<Rightarrow> f | AlreadyAttached \<Rightarrow> g | AttachConflict \<Rightarrow> h)"
  by (cases r) auto

lemmas follow_intros = follow.intros backend_follow lookup_follow keyed_case_follow attach_case_follow

lemma create_lease_follow: "within leases_follow (create_lease_idempotent lb az who new key now)"
  unfolding create_lease_idempotent_def create_new_lease_def lease_version_def insert_lease_def
  by (intro follow_intros lease_statements_follow)

lemma retry_follow: "within leases_follow (retry_cleanup az who i)"
  unfolding retry_cleanup_def by (intro follow_intros lease_statements_follow)

lemma extend_follow: "within leases_follow (extend_lease az who i n now)"
  unfolding extend_lease_def by (intro follow_intros lease_statements_follow)

lemma sweep_leases_follow: "within leases_follow (sweep_leases who now ls)"
  by (induction ls) (auto intro!: follow_intros lease_statements_follow split: option.split)

lemma lease_expired_follow: "within leases_follow (lease_expired now)"
  unfolding lease_expired_def by (intro follow_intros statement_follow)

lemma sweep_follow: "within leases_follow (sweep_expired az who now)"
  unfolding sweep_expired_def by (intro follow_intros sweep_leases_follow lease_expired_follow)

lemma start_lease_provision_follow: "within leases_follow (start_lease_provision lb az who i key now)"
  unfolding start_lease_provision_def start_provision_with_outcome_def awaiting_provision_def
    replay_provision_def new_saga_def attach_lease_provision_def
  by (intro follow_intros lease_statements_follow)

lemma release_check_frame: "within world_frame (release_check az who i keep)"
  unfolding release_check_def by (intro frame.intros find_lease_frame lab_audit_frame)

section \<open>Lab calls, interleaved\<close>

text \<open>
  The state of the calls is the store and the copies of leases that were read and may still
  be written back: by a release, and by the cleanup executor, which marks its copy released
  or failed.
\<close>

inductive lab_step :: "'z lab_world_scheme \<times> lease set \<Rightarrow> 'z lab_world_scheme \<times> lease set \<Rightarrow> bool" where
  step_create: "lab_step (s, C) (snd (create_lease_idempotent lb az who new key now s), C)"
| step_provision: "lab_step (s, C) (snd (start_lease_provision lb az who i key now s), C)"
| step_ready: "lab_step (s, C) (snd (complete_ready p e s), C)"
| step_extend: "lab_step (s, C) (snd (extend_lease az who i n now s), C)"
| step_sweep: "lab_step (s, C) (snd (sweep_expired az who now s), C)"
| step_compensate: "lab_step (s, C) (snd (lease_transition i st p to s), C)"
| step_abandoned: "lab_step (s, C) (snd (record_failed_cleanup n l s), C)"
| step_retry: "lab_step (s, C) (snd (retry_cleanup az who i s), C)"
| step_read: "lease_get i s = (Inr l, t) \<Longrightarrow> lab_step (s, C) (t, insert l C)"
| step_check: "release_check az who i keep s = (Inr l, t) \<Longrightarrow> lab_step (s, C) (t, insert l C)"
| step_release: "l \<in> C \<Longrightarrow> lab_step (s, C) (snd (release_write l keep s), C)"
| step_released: "l \<in> C \<Longrightarrow>
    lab_step (s, C) (snd (lease_update (l\<lparr>le_state := LeaseReleased, le_cleanup_next_at := None\<rparr>) s), C)"
| step_failed: "l \<in> C \<Longrightarrow> lab_step (s, C) (snd (lease_update (record_cleanup_failure l now) s), C)"
| step_clock: "lab_step (s, C) (s\<lparr>w_now := now, w_faults := fs\<rparr>, C)"

definition copy_sound :: "lease_row list \<Rightarrow> lease \<Rightarrow> bool" where
  "copy_sound rows l \<longleftrightarrow>
     (\<exists>r \<in> set rows. row_id r = le_id l) \<and>
     (\<forall>r \<in> set rows. row_id r = le_id l \<longrightarrow> opt_all (\<lambda>e. e \<le> row_cap r) (le_expires_at l))"

definition lab_sound :: "'z lab_world_scheme \<times> lease set \<Rightarrow> bool" where
  "lab_sound p \<longleftrightarrow> distinct (map row_id (lw_leases (fst p))) \<and> list_all row_sound (lw_leases (fst p)) \<and>
     (\<forall>l \<in> snd p. copy_sound (lw_leases (fst p)) l)"

lemma same_key: "distinct (map f xs) \<Longrightarrow> x \<in> set xs \<Longrightarrow> y \<in> set xs \<Longrightarrow> f x = f y \<Longrightarrow> x = y"
  by (simp add: distinct_map inj_on_def)

lemma follow_copy:
  assumes "leases_follow s t" and "copy_sound (lw_leases s) l" and "distinct (map row_id (lw_leases s))"
  shows "copy_sound (lw_leases t) l"
proof -
  from assms(1) obtain olds new where t: "lw_leases t = olds @ new"
    "list_all2 lease_kept (lw_leases s) olds" by (auto simp: leases_follow_def)
  from assms(2) obtain r where r: "r \<in> set (lw_leases s)" "row_id r = le_id l"
    "opt_all (\<lambda>e. e \<le> row_cap r) (le_expires_at l)" by (auto simp: copy_sound_def)
  from r(1) obtain n where "n < length (lw_leases s)" "r = lw_leases s ! n" by (auto simp: in_set_conv_nth)
  with t(2) have r': "olds ! n \<in> set olds" "lease_kept r (olds ! n)" by (auto simp: list_all2_conv_all_nth)
  let ?r' = "olds ! n"
  have in_t: "?r' \<in> set (lw_leases t)" "row_id ?r' = le_id l" "row_cap ?r' = row_cap r"
    using t(1) r(2) r' lease_kept_cap [OF r'(2)] by (simp_all add: lease_kept_def)
  have d: "distinct (map row_id (lw_leases t))" using assms by (simp add: leases_follow_def)
  have "opt_all (\<lambda>e. e \<le> row_cap x) (le_expires_at l)" if "x \<in> set (lw_leases t)" "row_id x = le_id l" for x
  proof -
    have "x = ?r'" using d that(1) in_t(1) by (rule same_key) (simp add: that(2) in_t(2))
    then show ?thesis using in_t(3) r(3) by simp
  qed
  with in_t(1,2) show ?thesis unfolding copy_sound_def by blast
qed

lemma follow_sound:
  assumes "leases_follow s t" and "lab_sound (s, C)"
  shows "lab_sound (t, C)"
proof -
  from assms(1) obtain olds new where "lw_leases t = olds @ new"
    "list_all2 lease_kept (lw_leases s) olds" "list_all row_sound new" by (auto simp: leases_follow_def)
  with assms(2) have "list_all row_sound (lw_leases t)" by (auto simp: lab_sound_def dest: list_all_kept)
  moreover have "distinct (map row_id (lw_leases t))"
    using assms by (simp add: lab_sound_def leases_follow_def)
  moreover have "\<forall>l \<in> C. copy_sound (lw_leases t) l"
    using assms follow_copy by (auto simp: lab_sound_def)
  ultimately show ?thesis by (simp add: lab_sound_def)
qed

lemma read_copy_sound:
  assumes "lease_get i s = (Inr l, t)" and "lab_sound (s, C)"
  shows "copy_sound (lw_leases s) l"
proof -
  obtain u where st: "lab_statement ''get'' s = (Inr (), u)"
    using assms(1) by (auto simp: lease_get_def andthen_Inr)
  then have "lw_leases u = lw_leases s" by (rule frame_leases [OF withinD [OF lab_statement_frame]])
  with st assms(1) obtain r where r: "lease_by_id i (lw_leases s) = Some r" "l = row_to_lease r"
    by (auto simp: lease_get_def act_simps split: option.splits)
  then have in_s: "r \<in> set (lw_leases s)" "row_id r = i"
    by (auto simp: lease_by_id_def dest: find_Some_in)
  have d: "distinct (map row_id (lw_leases s))" using assms(2) by (simp add: lab_sound_def)
  have id_l: "le_id l = row_id r" by (simp add: r(2) row_to_lease_def)
  have "row_sound r" using assms(2) in_s by (auto simp: lab_sound_def list_all_iff)
  then have e: "opt_all (\<lambda>e. e \<le> row_cap r) (le_expires_at l)"
    using r(2) by (simp add: row_sound_def deadline_ok_def row_to_lease_def)
  have "opt_all (\<lambda>e. e \<le> row_cap x) (le_expires_at l)" if "x \<in> set (lw_leases s)" "row_id x = le_id l" for x
  proof -
    have "x = r" using d that(1) in_s(1) by (rule same_key) (simp add: that(2) id_l)
    then show ?thesis using e by simp
  qed
  with in_s(1) id_l show ?thesis unfolding copy_sound_def by auto
qed

lemma check_copy_sound:
  assumes "release_check az who i keep s = (Inr l, t)" and "lab_sound (s, C)"
  shows "copy_sound (lw_leases s) l"
proof -
  obtain u where "lease_get i s = (Inr l, u)"
    using assms(1) by (auto simp: release_check_def find_lease_def lab_lookup_def act_Inr)
  then show ?thesis using assms(2) by (rule read_copy_sound)
qed

lemma write_copy_follow:
  assumes "lab_sound (s, C)" and "l \<in> C" and "le_id l' = le_id l" and "le_expires_at l' = le_expires_at l"
  shows "leases_follow s (snd (lease_update l' s))"
  using assms by (intro lease_update_follow) (auto simp: lab_sound_def copy_sound_def)

lemma call_follows:
  "within leases_follow m \<Longrightarrow> lab_sound (s, C) \<Longrightarrow>
   leases_follow (fst (s, C)) (fst (snd (m s), C)) \<and> lab_sound (snd (m s), C)"
  using within_snd follow_sound by fastforce

lemma step_follows:
  assumes "lab_step p q" and "lab_sound p"
  shows "leases_follow (fst p) (fst q) \<and> lab_sound q"
  using assms
proof (induction rule: lab_step.induct)
  case (step_read i s l t C)
  have "leases_follow s t" using withinD [OF lease_get_follow step_read(1)] .
  with read_copy_sound [OF step_read(1,2)] follow_sound [OF _ step_read(2)] step_read(2)
  show ?case by (auto simp: lab_sound_def intro: follow_copy)
next
  case (step_check az who i keep s l t C)
  have "leases_follow s t" using withinD [OF frame_follow [OF release_check_frame] step_check(1)] .
  with check_copy_sound [OF step_check(1,2)] follow_sound [OF _ step_check(2)] step_check(2)
  show ?case by (auto simp: lab_sound_def intro: follow_copy)
next
  case (step_release l C s keep)
  let ?l = "l\<lparr>le_state := LeaseReleasing, le_cleanup := (if keep then Keep else le_cleanup l)\<rparr>"
  have "snd (release_write l keep s) = snd (lease_update ?l s)"
    by (auto simp: release_write_def lab_backend_def act_simps Let_def split: prod.splits sum.splits)
  with write_copy_follow [OF step_release(2,1), of ?l] follow_sound [OF _ step_release(2)]
  show ?case by simp
next
  case (step_released l C s)
  from write_copy_follow [OF step_released(2,1)] follow_sound [OF _ step_released(2)]
  show ?case by simp
next
  case (step_failed l C s now)
  have "le_id (record_cleanup_failure l now) = le_id l"
    "le_expires_at (record_cleanup_failure l now) = le_expires_at l"
    by (simp_all add: record_cleanup_failure_def Let_def)
  from write_copy_follow [OF step_failed(2,1) this] follow_sound [OF _ step_failed(2)]
  show ?case by simp
next
  case (step_clock s C fs now)
  have "leases_follow s (s\<lparr>w_now := now, w_faults := fs\<rparr>)" by (simp add: leases_same_follow)
  with follow_sound step_clock show ?case by fastforce
qed (rule call_follows, rule create_lease_follow start_lease_provision_follow complete_ready_follow
    extend_follow sweep_follow transition_follow record_failed_follow retry_follow, assumption)+

lemma steps_follow:
  assumes "lab_step\<^sup>*\<^sup>* p q" and "lab_sound p"
  shows "leases_follow (fst p) (fst q) \<and> lab_sound q"
  using assms
proof (induction rule: rtranclp_induct)
  case base
  then show ?case by (simp add: follow.refl)
next
  case (step q r)
  with step_follows [OF step(2)] show ?case by (blast intro: leases_follow_trans)
qed

section \<open>One winner per deadline\<close>

lemma filter_by_id:
  "distinct (map row_id rows) \<Longrightarrow> filter (\<lambda>r. row_id r = i \<and> Q r) rows =
     (case lease_by_id i rows of None \<Rightarrow> [] | Some r \<Rightarrow> if Q r then [r] else [])"
proof (induction rows)
  case (Cons a rows)
  show ?case
  proof (cases "row_id a = i")
    case True
    from Cons.prems have "row_id a \<notin> row_id ` set rows" by simp
    with True have "\<forall>r \<in> set rows. row_id r \<noteq> i" by (metis image_eqI)
    then have "filter (\<lambda>r. row_id r = i \<and> Q r) rows = []" by (auto simp: filter_empty_conv)
    with True show ?thesis by (simp add: lease_by_id_def)
  next
    case False
    with Cons show ?thesis by (simp add: lease_by_id_def)
  qed
qed (simp add: lease_by_id_def)

lemma lookup_updated:
  assumes "\<And>l. le_id (f l) = le_id l"
  shows "lease_by_id i (map (\<lambda>r. if row_id r = i \<and> Q r then r\<lparr>lr_lease := f (lr_lease r)\<rparr> else r) rows) =
     map_option (\<lambda>r. if Q r then r\<lparr>lr_lease := f (lr_lease r)\<rparr> else r) (lease_by_id i rows)"
  by (induction rows) (auto simp: lease_by_id_def assms)

text \<open>A conditional update of one lease: when its condition held it counts one row, else nothing changes.\<close>

lemma update_by_id:
  assumes "distinct (map row_id (lw_leases s))" and "\<And>l. le_id (f l) = le_id l"
    and "update_leases (\<lambda>r. row_id r = i \<and> Q r) f s = (Inr n, t)"
  shows "(case lease_by_id i (lw_leases s) of
      None \<Rightarrow> n = 0 \<and> lw_leases t = lw_leases s
    | Some r \<Rightarrow> if Q r then n = 1 \<and> lease_by_id i (lw_leases t) = Some (r\<lparr>lr_lease := f (lr_lease r)\<rparr>)
               else n = 0 \<and> lw_leases t = lw_leases s)"
proof -
  let ?g = "\<lambda>r. if row_id r = i \<and> Q r then r\<lparr>lr_lease := f (lr_lease r)\<rparr> else r"
  from assms(3) have n: "n = length (filter (\<lambda>r. row_id r = i \<and> Q r) (lw_leases s))"
    and t: "lw_leases t = map ?g (lw_leases s)" by (auto simp: update_leases_def)
  have id_map: "map ?g (lw_leases s) = lw_leases s" if "filter (\<lambda>r. row_id r = i \<and> Q r) (lw_leases s) = []"
    by (rule map_idI) (use that in \<open>auto simp: filter_empty_conv\<close>)
  show ?thesis
    using n t id_map filter_by_id [OF assms(1), of i Q] lookup_updated [OF assms(2), of i Q "lw_leases s"]
    by (auto split: option.splits if_splits)
qed

datatype deadline_move = ExtendTo (observed: int) int int | ExpireAt (observed: int) int

definition deadline_of :: "'z lab_world_scheme \<Rightarrow> string \<Rightarrow> (lease_state \<times> int option) option" where
  "deadline_of w i = map_option (\<lambda>r. (le_state (lr_lease r), le_expires_at (lr_lease r))) (lease_by_id i (lw_leases w))"

fun deadline_act :: "string \<Rightarrow> deadline_move \<Rightarrow> ('z, bool) lab_act" where
  "deadline_act i (ExtendTo e now new_expiry) = extend_ready i e now new_expiry"
| "deadline_act i (ExpireAt e now) = claim_for_release i LeaseReady e now"

definition deadline_cas :: "string \<Rightarrow> deadline_move \<Rightarrow> 'z lab_world_scheme \<Rightarrow> bool \<times> 'z lab_world_scheme" where
  "deadline_cas i u w = (case deadline_act i u w of (r, w') \<Rightarrow> (r = Inr True, w'))"

fun move_target :: "deadline_move \<Rightarrow> lease_state \<times> int option" where
  "move_target (ExtendTo e now new_expiry) = (LeaseReady, Some new_expiry)"
| "move_target (ExpireAt e now) = (LeaseReleasing, Some e)"


lemma statement_run:
  "lab_statement c s = (r, u) \<Longrightarrow> (lw_leases u = lw_leases s \<and> lw_provisions u = lw_provisions s \<and>
     lw_versions u = lw_versions s \<and> lw_templates u = lw_templates s \<and> w_ledger u = w_ledger s)"
  using frame_leases frame_provisions frame_versions frame_templates withinD [OF lab_statement_frame]
  by (auto simp: lab_statement_def map_err_def split: prod.splits sum.splits dest!: external_eq)

text \<open>What a conditional update behind one statement does, seen at its lease.\<close>

definition guarded_update ::
    "string \<Rightarrow> string \<Rightarrow> (lease_row \<Rightarrow> bool) \<Rightarrow> (lease \<Rightarrow> lease) \<Rightarrow> ('z, bool) lab_act" where
  "guarded_update c i Q f =
     andthen (lab_statement c) (\<lambda>_. andthen (update_leases (\<lambda>r. row_id r = i \<and> Q r) f) (\<lambda>n. ret (n = 1)))"

lemma guarded_update_run:
  assumes "distinct (map row_id (lw_leases s))" and "\<And>l. le_id (f l) = le_id l"
    and "guarded_update c i Q f s = (x, t)"
  shows "x = Inr True \<longrightarrow> (\<exists>r. lease_by_id i (lw_leases s) = Some r \<and> Q r \<and>
       lease_by_id i (lw_leases t) = Some (r\<lparr>lr_lease := f (lr_lease r)\<rparr>))"
    and "x \<noteq> Inr True \<longrightarrow> lw_leases t = lw_leases s"
proof -
  obtain y u where st: "lab_statement c s = (y, u)" by fastforce
  note u = statement_run [OF st]
  obtain n v where up: "update_leases (\<lambda>r. row_id r = i \<and> Q r) f u = (Inr n, v)"
    by (auto simp: update_leases_def)
  have d: "distinct (map row_id (lw_leases u))" using assms(1) u by simp
  note run = update_by_id [OF d assms(2) up]
  have xt: "(x, t) = (case y of Inl e \<Rightarrow> (Inl e, u) | Inr _ \<Rightarrow> (Inr (n = 1), v))"
    using assms(3) st up by (auto simp: guarded_update_def act_simps split: sum.splits)
  show "x = Inr True \<longrightarrow> (\<exists>r. lease_by_id i (lw_leases s) = Some r \<and> Q r \<and>
       lease_by_id i (lw_leases t) = Some (r\<lparr>lr_lease := f (lr_lease r)\<rparr>))"
    using xt run u by (auto split: sum.splits option.splits if_splits)
  show "x \<noteq> Inr True \<longrightarrow> lw_leases t = lw_leases s"
    using xt run u by (auto split: sum.splits option.splits if_splits)
qed

lemma extend_ready_guarded:
  "extend_ready i e now new_expiry = guarded_update ''extend'' i
     (\<lambda>r. le_state (lr_lease r) = LeaseReady \<and> le_expires_at (lr_lease r) = Some e \<and> e > now \<and> new_expiry \<le> row_cap r)
     (\<lambda>l. l\<lparr>le_expires_at := Some new_expiry\<rparr>)"
  and claim_guarded:
  "claim_for_release i st e now = guarded_update ''claim'' i
     (\<lambda>r. le_state (lr_lease r) = st \<and> le_expires_at (lr_lease r) = Some e \<and> e \<le> now)
     (\<lambda>l. l\<lparr>le_state := LeaseReleasing\<rparr>)"
  by (simp_all add: extend_ready_def claim_for_release_def guarded_update_def)

interpretation deadline: compare_and_set
  "\<lambda>w. distinct (map row_id (lw_leases w))" deadline_of deadline_cas
  "\<lambda>u. (LeaseReady, Some (observed u))" move_target
proof unfold_locales
  fix w w' :: "'z lab_world_scheme" and i u
  assume ok: "distinct (map row_id (lw_leases w))"
  have "leases_follow w (snd (deadline_act i u w))"
    by (cases u) (simp_all add: within_snd extend_ready_follow claim_follow)
  with ok show "distinct (map row_id (lw_leases (snd (deadline_cas i u w))))"
    by (simp add: deadline_cas_def leases_follow_def split_beta)
  show "deadline_cas i u w = (True, w') \<Longrightarrow>
      deadline_of w i = Some (LeaseReady, Some (observed u)) \<and> deadline_of w' i = Some (move_target u)"
    using ok by (cases u) (auto simp: deadline_cas_def deadline_of_def extend_ready_guarded claim_guarded
        split: prod.splits dest!: guarded_update_run(1) [rotated 2])
  show "deadline_cas i u w = (False, w') \<Longrightarrow> deadline_of w' i = deadline_of w i"
    using ok by (cases u) (auto simp: deadline_cas_def deadline_of_def extend_ready_guarded claim_guarded
        split: prod.splits dest!: guarded_update_run(2) [rotated 2])
qed

end
