(* ===== verification/Lab_Vmids.thy ===== *)
theory Lab_Vmids
  imports Lab_Invariants
begin

text \<open>
  The reservation of clone targets: no two records of one Proxmox account hold the same VMID,
  along any statements on leases and provisions that do not put a released lease back.
\<close>

section \<open>One holder per VMID\<close>

definition vmid_exclusive :: "'z lab_world_scheme \<Rightarrow> bool" where
  "vmid_exclusive s \<longleftrightarrow>
     (\<forall>p \<in> set (lw_provisions s). \<forall>q \<in> set (lw_provisions s).
        pv_id p \<noteq> pv_id q \<longrightarrow> pv_vmid p \<noteq> None \<longrightarrow> pv_vmid p = pv_vmid q \<longrightarrow>
        holding (lw_leases s) p \<longrightarrow> holding (lw_leases s) q \<longrightarrow> \<not> same_cluster (pv_account_id p) (pv_account_id q))"

lemma same_cluster_sym: "same_cluster a b = same_cluster b a"
  by (auto simp: same_cluster_def)

text \<open>A change that makes nothing hold a VMID anew; an account may be filled in.\<close>

definition narrows :: "string option \<Rightarrow> string option \<Rightarrow> bool" where
  "narrows a b \<longleftrightarrow> a = None \<or> a = b"

lemma narrows_apart: "narrows a b \<Longrightarrow> narrows c d \<Longrightarrow> \<not> same_cluster a c \<Longrightarrow> \<not> same_cluster b d"
  by (auto simp: narrows_def same_cluster_def)

lemma narrows_refl [simp]: "narrows a a"
  by (simp add: narrows_def)

lemma narrows_trans: "narrows a b \<Longrightarrow> narrows b c \<Longrightarrow> narrows a c"
  by (auto simp: narrows_def)

definition no_new_hold :: "'z lab_world_scheme \<Rightarrow> 'z lab_world_scheme \<Rightarrow> bool" where
  "no_new_hold s t \<longleftrightarrow>
     (distinct (map pv_id (lw_provisions s)) \<longrightarrow> distinct (map pv_id (lw_provisions t))) \<and>
     (\<forall>q \<in> set (lw_provisions t). pv_vmid q \<noteq> None \<longrightarrow> holding (lw_leases t) q \<longrightarrow>
        (\<exists>p \<in> set (lw_provisions s). pv_id p = pv_id q \<and> pv_vmid p = pv_vmid q \<and>
           narrows (pv_account_id p) (pv_account_id q) \<and> holding (lw_leases s) p))"

interpretation holds: effect_relation "no_new_hold :: 'z lab_world_scheme \<Rightarrow> 'z lab_world_scheme \<Rightarrow> bool"
proof unfold_locales
  fix s t u :: "'z lab_world_scheme"
  show "no_new_hold s s" by (auto simp: no_new_hold_def)
  assume st: "no_new_hold s t" and tu: "no_new_hold t u"
  have "distinct (map pv_id (lw_provisions s)) \<longrightarrow> distinct (map pv_id (lw_provisions u))"
    using st tu by (simp add: no_new_hold_def)
  moreover have "\<exists>p \<in> set (lw_provisions s). pv_id p = pv_id q \<and> pv_vmid p = pv_vmid q \<and>
        narrows (pv_account_id p) (pv_account_id q) \<and> holding (lw_leases s) p"
    if "q \<in> set (lw_provisions u)" "pv_vmid q \<noteq> None" "holding (lw_leases u) q" for q
  proof -
    from that tu obtain p where p: "p \<in> set (lw_provisions t)" "pv_id p = pv_id q" "pv_vmid p = pv_vmid q"
      "narrows (pv_account_id p) (pv_account_id q)" "holding (lw_leases t) p" by (auto simp: no_new_hold_def)
    moreover have "pv_vmid p \<noteq> None" using p(3) that(2) by simp
    ultimately show ?thesis using st narrows_trans unfolding no_new_hold_def by metis
  qed
  ultimately show "no_new_hold s u" unfolding no_new_hold_def by blast
qed

lemma no_new_hold_exclusive:
  assumes "no_new_hold s t" and "vmid_exclusive s"
  shows "vmid_exclusive t"
  unfolding vmid_exclusive_def
proof (intro ballI impI)
  fix p q
  assume p: "p \<in> set (lw_provisions t)" and q: "q \<in> set (lw_provisions t)" and ne: "pv_id p \<noteq> pv_id q"
    and v: "pv_vmid p \<noteq> None" "pv_vmid p = pv_vmid q" and h: "holding (lw_leases t) p" "holding (lw_leases t) q"
  from p v(1) h(1) assms(1) obtain p' where p': "p' \<in> set (lw_provisions s)" "pv_id p' = pv_id p"
    "pv_vmid p' = pv_vmid p" "narrows (pv_account_id p') (pv_account_id p)" "holding (lw_leases s) p'"
    unfolding no_new_hold_def by metis
  have "pv_vmid q \<noteq> None" using v by simp
  with q h(2) assms(1) obtain q' where q': "q' \<in> set (lw_provisions s)" "pv_id q' = pv_id q"
    "pv_vmid q' = pv_vmid q" "narrows (pv_account_id q') (pv_account_id q)" "holding (lw_leases s) q'"
    unfolding no_new_hold_def by metis
  have "\<not> same_cluster (pv_account_id p') (pv_account_id q')"
    using assms(2) p' q' ne v unfolding vmid_exclusive_def by metis
  with narrows_apart p'(4) q'(4) show "\<not> same_cluster (pv_account_id p) (pv_account_id q)" by blast
qed

lemma same_tables_hold:
  "lw_leases t = lw_leases s \<Longrightarrow> lw_provisions t = lw_provisions s \<Longrightarrow> no_new_hold s t"
  by (auto simp: no_new_hold_def)

lemma statement_hold: "within no_new_hold (lab_statement c)"
  by (rule withinI, rule same_tables_hold) (use statement_run in \<open>metis prod.collapse\<close>)+

lemma frame_hold: "within world_frame m \<Longrightarrow> within (no_new_hold :: 'z lab_world_scheme \<Rightarrow> _) m"
  by (rule withinI, rule same_tables_hold) (auto dest: within_snd frame_leases frame_provisions)

text \<open>Leases that were released stay released: then no record holds anew.\<close>

lemma update_leases_hold:
  assumes "\<And>r. P r \<Longrightarrow> le_id (f (lr_lease r)) = row_id r"
    and "\<And>r. P r \<Longrightarrow> le_state (lr_lease r) = LeaseReleased \<Longrightarrow> le_state (f (lr_lease r)) = LeaseReleased"
  shows "within no_new_hold (update_leases P f)"
proof (rule withinI)
  fix s :: "'z lab_world_scheme"
  have "holding (lw_leases s) p" if "holding (lw_leases (snd (update_leases P f s))) p" for p
    using that assms by (fastforce simp: holding_def update_leases_def list_ex_iff split: if_splits)
  then show "no_new_hold s (snd (update_leases P f s))"
    by (auto simp: no_new_hold_def update_leases_def)
qed

lemma update_provisions_hold:
  assumes "\<And>p. p \<in> set (lw_provisions s) \<Longrightarrow> P p \<Longrightarrow> pv_id (f p) = pv_id p \<and> pv_vmid (f p) = pv_vmid p \<and>
      narrows (pv_account_id p) (pv_account_id (f p)) \<and> pv_lease_id (f p) = pv_lease_id p \<and>
      (pv_state (f p) = Provisioning \<longrightarrow> pv_state p = Provisioning)"
  shows "no_new_hold s (snd (update_provisions P f s))"
proof -
  let ?g = "\<lambda>p. if P p then f p else p"
  have t: "lw_provisions (snd (update_provisions P f s)) = map ?g (lw_provisions s)"
    "lw_leases (snd (update_provisions P f s)) = lw_leases s" by (simp_all add: update_provisions_def)
  have "map pv_id (map ?g (lw_provisions s)) = map pv_id (lw_provisions s)" using assms by simp
  then have d: "distinct (map pv_id (map ?g (lw_provisions s))) = distinct (map pv_id (lw_provisions s))" by (simp only:)
  have h: "\<exists>p \<in> set (lw_provisions s). pv_id p = pv_id (?g x) \<and> pv_vmid p = pv_vmid (?g x) \<and>
      narrows (pv_account_id p) (pv_account_id (?g x)) \<and> holding (lw_leases s) p"
    if "x \<in> set (lw_provisions s)" "holding (lw_leases s) (?g x)" for x
    using that assms [OF that(1)] by (intro bexI [of _ x]; cases "P x") (auto simp: holding_def)
  show ?thesis unfolding no_new_hold_def t
  proof (intro conjI ballI impI)
    fix q
    assume "q \<in> set (map ?g (lw_provisions s))" "holding (lw_leases s) q"
    then obtain x where "x \<in> set (lw_provisions s)" "q = ?g x" "holding (lw_leases s) (?g x)" by auto
    then show "\<exists>p \<in> set (lw_provisions s). pv_id p = pv_id q \<and> pv_vmid p = pv_vmid q \<and>
        narrows (pv_account_id p) (pv_account_id q) \<and> holding (lw_leases s) p" using h by simp
  qed (simp only: d)
qed

lemma update_provisions_within_hold:
  assumes "\<And>p. P p \<Longrightarrow> pv_id (f p) = pv_id p \<and> pv_vmid (f p) = pv_vmid p \<and>
      pv_account_id (f p) = pv_account_id p \<and> pv_lease_id (f p) = pv_lease_id p \<and>
      (pv_state (f p) = Provisioning \<longrightarrow> pv_state p = Provisioning)"
  shows "within no_new_hold (update_provisions P f)"
  by (rule withinI, rule update_provisions_hold) (use assms in simp)

lemmas frames_hold = statement_hold fresh_uuid_frame [THEN frame_hold] lease_get_frame [THEN frame_hold]
  lease_find_key_frame [THEN frame_hold] provision_get_frame [THEN frame_hold]
  provision_find_key_frame [THEN frame_hold]

lemma guarded_leases_hold:
  "within no_new_hold (extend_ready i e now n)"
  "within no_new_hold (attach_provision i x)"
  "st \<noteq> LeaseReleased \<Longrightarrow> within no_new_hold (claim_for_release i st e now)"
  "st \<noteq> LeaseReleased \<Longrightarrow> within no_new_hold (lease_transition i st p to)"
  "within no_new_hold (lease_rearm i m m')"
  "within no_new_hold (record_failed_cleanup m l)"
  unfolding extend_ready_def attach_provision_def claim_for_release_def lease_transition_def lease_rearm_def
    record_failed_cleanup_def
  by (intro holds.intros frames_hold update_leases_hold; force)+

lemma abandon_hold: "within no_new_hold (provision_abandon i)"
  unfolding provision_abandon_def
  by (intro holds.intros frames_hold update_provisions_within_hold; force)

lemma asks_then: "andthen (asks g) f s = f (g s) s"
  by (simp add: act_simps)

lemma uuid_then: "andthen fresh_uuid f s = f (w_uuid s (w_uuid_no s)) (s\<lparr>w_uuid_no := Suc (w_uuid_no s)\<rparr>)"
  by (simp add: act_simps fresh_uuid_def)

lemma modify_then: "andthen (modify g) f s = f () (g s)"
  by (simp add: act_simps)

lemma insert_provision_hold:
  assumes "\<not> provision_violation (lw_provisions s) i new"
  shows "no_new_hold s (s\<lparr>lw_provisions := lw_provisions s @ [new_provision_row i new now]\<rparr>)"
  using assms by (auto simp: no_new_hold_def new_provision_row_def provision_violation_def list_ex_iff)

lemma create_provision_hold: "within no_new_hold (provision_create new now)"
proof -
  let ?replay = "case np_idempotency_key new of None \<Rightarrow> fail unique_failure
           | Some key \<Rightarrow> andthen (provision_find_key key) (\<lambda>found.
               case found of None \<Rightarrow> fail unique_failure | Some p \<Rightarrow> ret p)"
  let ?tail = "\<lambda>i. andthen (asks (\<lambda>s. provision_violation (lw_provisions s) i new)) (\<lambda>violated.
     andthen (asks (\<lambda>s. lease_link_missing (lw_leases s) (np_lease_id new))) (\<lambda>unlinked.
     if violated then ?replay
     else if unlinked
     then fail ''create failed: error returned from database: (code: 787) FOREIGN KEY constraint failed''
     else andthen (modify (\<lambda>s. s\<lparr>lw_provisions := lw_provisions s @ [new_provision_row i new now]\<rparr>)) (\<lambda>_.
          provision_get i)))"
  have r: "within no_new_hold ?replay" by (intro holds.intros frames_hold)
  have tail: "within no_new_hold (?tail i)" for i
  proof (rule withinI)
    fix s :: "'z lab_world_scheme"
    show "no_new_hold s (snd (?tail i s))"
    proof (cases "provision_violation (lw_provisions s) i new")
      case True
      with within_snd [OF r] show ?thesis by (simp only: asks_then if_True)
    next
      case False
      let ?t = "s\<lparr>lw_provisions := lw_provisions s @ [new_provision_row i new now]\<rparr>"
      have "no_new_hold ?t (snd (provision_get i ?t))" by (rule within_snd) (rule frames_hold)
      with insert_provision_hold [OF False] have "no_new_hold s (snd (provision_get i ?t))" by (rule holds.trans)
      with False show ?thesis by (simp add: asks_then modify_then holds.refl fail_def)
    qed
  qed
  show ?thesis unfolding provision_create_def
    by (rule holds.andthen, rule frames_hold, rule holds.andthen, rule frames_hold, rule tail)
qed

lemma hold_after_statement:
  assumes "\<And>u. lw_provisions u = lw_provisions s \<Longrightarrow> lw_leases u = lw_leases s \<Longrightarrow> w_now u = w_now s \<Longrightarrow> no_new_hold u (snd (f u))"
  shows "no_new_hold s (snd (andthen (lab_statement c) (\<lambda>_. f) s))"
proof -
  obtain r u where st: "lab_statement c s = (r, u)" by fastforce
  note same = statement_run [OF st]
  have now: "w_now u = w_now s" using withinD [OF lab_statement_frame st] by (simp add: world_frame_def)
  have su: "no_new_hold s u" using same by (simp add: same_tables_hold)
  show ?thesis
  proof (cases r)
    case (Inl e)
    with st su show ?thesis by (simp add: act_simps)
  next
    case (Inr x)
    with assms [of u] same now have "no_new_hold u (snd (f u))" by simp
    with su have "no_new_hold s (snd (f u))" by (rule holds.trans)
    with st Inr show ?thesis by (simp add: act_simps)
  qed
qed

text \<open>A copy written back holds nothing anew unless the row was released and the copy is not.\<close>

definition stays_released :: "lease_row list \<Rightarrow> lease \<Rightarrow> bool" where
  "stays_released rows l \<longleftrightarrow>
     list_all (\<lambda>r. row_id r = le_id l \<and> le_state (lr_lease r) = LeaseReleased \<longrightarrow> le_state l = LeaseReleased) rows"

lemma lease_update_hold:
  assumes "stays_released (lw_leases s) l"
  shows "no_new_hold s (snd (lease_update l s))"
  unfolding lease_update_def
proof (rule hold_after_statement)
  fix u :: "'z lab_world_scheme"
  assume u: "lw_provisions u = lw_provisions s" "lw_leases u = lw_leases s"
  let ?f = "\<lambda>o'. o'\<lparr>le_state := le_state l, le_provision_id := le_provision_id l, le_cleanup := le_cleanup l,
          le_ready_at := le_ready_at l, le_expires_at := le_expires_at l,
          le_cleanup_attempts := le_cleanup_attempts l, le_cleanup_next_at := le_cleanup_next_at l\<rparr>"
  obtain n v where up: "update_leases (\<lambda>r. row_id r = le_id l) ?f u = (Inr n, v)" by (auto simp: update_leases_def)
  have v: "v = u\<lparr>lw_leases := map (\<lambda>r. if row_id r = le_id l then r\<lparr>lr_lease := ?f (lr_lease r)\<rparr> else r) (lw_leases u)\<rparr>"
    using up by (simp add: update_leases_def)
  have "holding (lw_leases u) p" if "holding (lw_leases v) p" for p
    using that assms u by (fastforce simp: holding_def v list_ex_iff stays_released_def list_all_iff split: if_splits)
  then have "no_new_hold u v" by (auto simp: no_new_hold_def v)
  with up show "no_new_hold u (snd (andthen (update_leases (\<lambda>r. row_id r = le_id l) ?f)
      (\<lambda>n. if n = 0 then fail (''lease '' @ le_id l @ '' not found'') else ret ()) u))"
    by (simp add: act_simps)
qed

text \<open>A new lease has an identifier no record names.\<close>

definition unnamed :: "'z lab_world_scheme \<Rightarrow> string \<Rightarrow> bool" where
  "unnamed s i \<longleftrightarrow> list_all (\<lambda>p. pv_lease_id p \<noteq> Some i) (lw_provisions s)"

lemma insert_lease_hold:
  assumes "unnamed s i" and "row_id x = i"
  shows "no_new_hold s (snd (insert_lease_row i new x s))"
proof -
  let ?t = "s\<lparr>lw_leases := lw_leases s @ [x]\<rparr>"
  have "holding (lw_leases s) p" if "p \<in> set (lw_provisions s)" "holding (lw_leases ?t) p" for p
    using that assms by (auto simp: holding_def unnamed_def list_all_iff)
  then have "no_new_hold s ?t" by (auto simp: no_new_hold_def)
  then show ?thesis
    by (simp add: insert_lease_row_def act_simps holds.refl split: option.split)
qed

lemma hold_chain:
  "no_new_hold s (snd (m s)) \<Longrightarrow> (\<And>x. within no_new_hold (f x)) \<Longrightarrow> no_new_hold s (snd (andthen m f s))"
  by (cases "m s") (auto simp: act_simps intro: holds.trans within_snd split: sum.splits)

lemma hold_then:
  assumes "m s = (r, u)" and "no_new_hold s u" and "\<And>x. r = Inr x \<Longrightarrow> no_new_hold u (snd (f x u))"
  shows "no_new_hold s (snd (andthen m f s))"
  using assms by (cases r) (auto simp: act_simps intro: holds.trans)

lemma lease_create_hold:
  assumes "unnamed s (w_uuid s (w_uuid_no s))"
  shows "no_new_hold s (snd (lease_create new owner now s))"
proof -
  let ?i = "w_uuid s (w_uuid_no s)" and ?s = "s\<lparr>w_uuid_no := Suc (w_uuid_no s)\<rparr>"
  have ss: "no_new_hold s ?s" by (simp add: same_tables_hold)
  have "no_new_hold ?s (snd (andthen (lift (creation_cap now)) (\<lambda>m. andthen (lab_statement ''create'') (\<lambda>_.
      andthen (insert_lease_row ?i new (new_lease_row ?i new owner now m None)) (\<lambda>_. lease_get ?i))) ?s))"
  proof (cases "creation_cap now")
    case (Inr m)
    have "no_new_hold ?s (snd (andthen (lab_statement ''create'') (\<lambda>_.
      andthen (insert_lease_row ?i new (new_lease_row ?i new owner now m None)) (\<lambda>_. lease_get ?i)) ?s))"
    proof (rule hold_after_statement)
      fix u :: "'z lab_world_scheme"
      assume "lw_provisions u = lw_provisions ?s"
      with assms have "unnamed u ?i" by (simp add: unnamed_def)
      then show "no_new_hold u (snd (andthen (insert_lease_row ?i new (new_lease_row ?i new owner now m None)) (\<lambda>_. lease_get ?i) u))"
        by (intro hold_chain insert_lease_hold frames_hold) (simp_all add: new_lease_row_def)
    qed
    with Inr show ?thesis by simp
  qed (simp add: holds.refl)
  with ss have "no_new_hold s (snd (andthen (lift (creation_cap now)) (\<lambda>m. andthen (lab_statement ''create'') (\<lambda>_.
      andthen (insert_lease_row ?i new (new_lease_row ?i new owner now m None)) (\<lambda>_. lease_get ?i))) ?s))"
    by (rule holds.trans)
  then show ?thesis by (simp only: lease_create_def uuid_then)
qed


lemma uuid_next_unnamed: "unnamed s i \<Longrightarrow> unnamed (s\<lparr>w_uuid_no := n\<rparr>) i"
  by (simp add: unnamed_def)

lemma attempt_insert_hold:
  assumes "unnamed s i" and "row_id x = i"
  shows "no_new_hold s (snd (attempt (if b then fail e else insert_lease_row i new x) s))"
  using insert_lease_hold [OF assms, of new]
  by (cases "insert_lease_row i new x s") (simp add: attempt_def fail_def holds.refl)

lemma lease_create_keyed_hold:
  assumes "unnamed s (w_uuid s (w_uuid_no s))"
  shows "no_new_hold s (snd (lease_create_keyed new owner now key fingerprint s))"
proof -
  let ?i = "w_uuid s (w_uuid_no s)" and ?s = "s\<lparr>w_uuid_no := Suc (w_uuid_no s)\<rparr>"
  let ?settle = "\<lambda>inserted. case inserted of
       Inr _ \<Rightarrow> andthen (lease_get ?i) (\<lambda>l. ret (LeaseCreated l))
     | Inl e \<Rightarrow>
         if e = unique_failure
         then andthen (lease_find_key key) (\<lambda>found.
              case found of Some (l, stored) \<Rightarrow> ret (LeaseReplay l stored) | None \<Rightarrow> fail unique_failure)
         else fail e"
  let ?insert = "\<lambda>m. andthen (asks (\<lambda>s. lease_by_key key (lw_leases s))) (\<lambda>taken.
     andthen (attempt (if taken \<noteq> None \<and> nl_ttl_seconds new \<noteq> 0 then fail unique_failure
        else insert_lease_row ?i new (new_lease_row ?i new owner now m (Some (key, fingerprint))))) ?settle)"
  have settle: "within no_new_hold (?settle x)" for x
    by (intro holds.intros frames_hold)
  have writes: "no_new_hold u (snd (?insert m u))" if "unnamed u ?i" for u :: "'a lab_world_scheme" and m
    unfolding asks_then
    by (rule hold_chain [OF attempt_insert_hold settle]) (simp_all add: that new_lease_row_def)
  have ss: "no_new_hold s ?s" by (simp add: same_tables_hold)
  have "no_new_hold ?s (snd (andthen (lift (creation_cap now)) (\<lambda>m. andthen (lab_statement ''create'') (\<lambda>_. ?insert m)) ?s))"
  proof (cases "creation_cap now")
    case (Inr m)
    have "no_new_hold ?s (snd (andthen (lab_statement ''create'') (\<lambda>_. ?insert m) ?s))"
    proof (rule hold_after_statement)
      fix u :: "'a lab_world_scheme"
      assume "lw_provisions u = lw_provisions ?s"
      with assms have "unnamed u ?i" by (simp add: unnamed_def)
      then show "no_new_hold u (snd (?insert m u))" by (rule writes)
    qed
    with Inr show ?thesis by simp
  qed (simp add: holds.refl)
  with ss have "no_new_hold s (snd (andthen (lift (creation_cap now)) (\<lambda>m. andthen (lab_statement ''create'') (\<lambda>_. ?insert m)) ?s))"
    by (rule holds.trans)
  then show ?thesis by (simp only: lease_create_keyed_def uuid_then)
qed

text \<open>The record a saga completes or saves: it carries the VMID the store has for it.\<close>

definition record_current :: "'z lab_world_scheme \<Rightarrow> provision \<Rightarrow> bool" where
  "record_current s rec \<longleftrightarrow> list_all (\<lambda>p. pv_id p = pv_id rec \<longrightarrow> pv_vmid p = pv_vmid rec \<and>
     narrows (pv_account_id p) (pv_account_id rec) \<and>
     (pv_state rec = Provisioning \<longrightarrow> pv_state p = Provisioning)) (lw_provisions s)"

lemma provision_update_hold:
  assumes "record_current s rec"
  shows "no_new_hold s (snd (provision_update rec s))"
proof -
  let ?K = "\<lambda>now. andthen (lab_statement ''update'') (\<lambda>_.
     andthen (update_provisions (\<lambda>p. pv_id p = pv_id rec \<and> (pv_state p \<noteq> NeverReady \<or> pv_state rec = NeverReady))
       (\<lambda>p. p\<lparr>pv_state := pv_state rec, pv_node := pv_node rec, pv_vmid := pv_vmid rec,
          pv_clone_upid := pv_clone_upid rec, pv_guest_ipv4 := pv_guest_ipv4 rec,
          pv_machine_id := pv_machine_id rec, pv_endpoint_id := pv_endpoint_id rec,
          pv_ready_project_operation_id := pv_ready_project_operation_id rec,
          pv_readiness_deadline_at := pv_readiness_deadline_at rec, pv_failed_step := pv_failed_step rec,
          pv_account_id := pv_account_id rec, pv_ready_at := pv_ready_at rec, pv_updated_at := now\<rparr>)) (\<lambda>n.
     if n \<noteq> 0 then ret ()
     else andthen (attempt (provision_get (pv_id rec))) (\<lambda>stored.
          case stored of
            Inr p \<Rightarrow> if pv_state p = NeverReady
                     then fail (''provision '' @ pv_id rec @ '' is never_ready and cannot change'') else ret ()
          | Inl _ \<Rightarrow> ret ())))"
  have "no_new_hold s (snd (?K now s))" for now
  proof (rule hold_after_statement, rule hold_chain)
    fix u :: "'z lab_world_scheme"
    assume "lw_provisions u = lw_provisions s"
    with assms have c: "record_current u rec" by (simp add: record_current_def)
    show "no_new_hold u (snd (update_provisions (\<lambda>p. pv_id p = pv_id rec \<and> (pv_state p \<noteq> NeverReady \<or> pv_state rec = NeverReady))
       (\<lambda>p. p\<lparr>pv_state := pv_state rec, pv_node := pv_node rec, pv_vmid := pv_vmid rec,
          pv_clone_upid := pv_clone_upid rec, pv_guest_ipv4 := pv_guest_ipv4 rec,
          pv_machine_id := pv_machine_id rec, pv_endpoint_id := pv_endpoint_id rec,
          pv_ready_project_operation_id := pv_ready_project_operation_id rec,
          pv_readiness_deadline_at := pv_readiness_deadline_at rec, pv_failed_step := pv_failed_step rec,
          pv_account_id := pv_account_id rec, pv_ready_at := pv_ready_at rec, pv_updated_at := now\<rparr>) u))"
      by (rule update_provisions_hold) (use c in \<open>auto simp: record_current_def list_all_iff\<close>)
  next
    fix n :: nat
    show "within no_new_hold (if n \<noteq> 0 then ret ()
     else andthen (attempt (provision_get (pv_id rec))) (\<lambda>stored.
          case stored of
            Inr p \<Rightarrow> if pv_state p = NeverReady
                     then fail (''provision '' @ pv_id rec @ '' is never_ready and cannot change'') else ret ()
          | Inl _ \<Rightarrow> ret ()))"
      by (intro holds.intros frames_hold)
  qed
  then show ?thesis by (simp only: provision_update_def asks_then)
qed

lemma ready_lease_hold: "within no_new_hold (ready_lease rec l a e)"
  unfolding ready_lease_def by (intro holds.intros frames_hold update_leases_hold) auto

definition same_provisions :: "'z lab_world_scheme \<Rightarrow> 'z lab_world_scheme \<Rightarrow> bool" where
  "same_provisions s t \<longleftrightarrow> lw_provisions t = lw_provisions s"

interpretation sameprov: effect_relation "same_provisions :: 'z lab_world_scheme \<Rightarrow> 'z lab_world_scheme \<Rightarrow> bool"
  by unfold_locales (simp_all add: same_provisions_def)

lemma frame_same_provisions: "within world_frame m \<Longrightarrow> within (same_provisions :: 'z lab_world_scheme \<Rightarrow> _) m"
  by (rule withinI) (auto simp: same_provisions_def dest: within_snd frame_provisions)

lemma update_leases_same_provisions: "within same_provisions (update_leases P f)"
  by (rule withinI) (simp add: same_provisions_def update_leases_def)

lemma ready_lease_same_provisions: "within same_provisions (ready_lease rec l a e)"
  unfolding ready_lease_def
  by (intro sameprov.intros lab_statement_frame [THEN frame_same_provisions] update_leases_same_provisions)

lemma undo_lab_hold_at: "no_new_hold s (snd (m s)) \<Longrightarrow> no_new_hold s (snd (atomically undo_lab m s))"
  by (cases "m s") (auto simp: atomically_def undo_lab_def same_tables_hold split: sum.splits)

lemma complete_ready_hold:
  fixes s :: "'z lab_world_scheme"
  assumes "record_current s rec"
  shows "no_new_hold s (snd (complete_ready rec e s))"
proof -
  let ?f = "\<lambda>effective now p. p\<lparr>pv_state := Ready, pv_node := pv_node rec, pv_vmid := pv_vmid rec,
           pv_clone_upid := pv_clone_upid rec, pv_guest_ipv4 := pv_guest_ipv4 rec,
           pv_ready_at := Some effective, pv_updated_at := now\<rparr>"
  let ?P = "\<lambda>effective p. pv_id p = pv_id rec \<and> pv_lease_id p = pv_lease_id rec \<and>
           (pv_state p \<in> {Provisioning, Booting, Bootstrapping} \<or> (pv_state p = Ready \<and> pv_ready_at p = Some effective))"
  let ?fin = "\<lambda>n. if n \<noteq> 1 then fail (''provision '' @ pv_id rec @ '' was missing or linked to a different lease'')
      else lab_statement ''commit readiness transaction''"
  let ?tail = "\<lambda>effective. andthen (asks w_now) (\<lambda>now. andthen (lab_statement ''complete provision readiness'') (\<lambda>_.
      andthen (update_provisions (?P effective) (?f effective now)) ?fin))"
  have tail: "no_new_hold u (snd (?tail effective u))" if "lw_provisions u = lw_provisions s" for u :: "'z lab_world_scheme" and effective
  proof -
    have "no_new_hold u (snd (andthen (lab_statement ''complete provision readiness'') (\<lambda>_.
      andthen (update_provisions (?P effective) (?f effective now)) ?fin) u))" for now
    proof (rule hold_after_statement, rule hold_chain)
      fix v :: "'z lab_world_scheme"
      assume "lw_provisions v = lw_provisions u"
      with assms that have "record_current v rec" by (simp add: record_current_def)
      then show "no_new_hold v (snd (update_provisions (?P effective) (?f effective now) v))"
        by (intro update_provisions_hold) (auto simp: record_current_def list_all_iff)
    qed (intro holds.intros frames_hold)
    then show ?thesis by (simp only: asks_then)
  qed
  let ?lease = "\<lambda>ready_at. case (pv_lease_id rec, e) of (Some l, Some x) \<Rightarrow> ready_lease rec l ready_at x | _ \<Rightarrow> ret ready_at"
  have hl: "within no_new_hold (?lease a)" "within same_provisions (?lease a)" for a
    by (intro holds.intros ready_lease_hold sameprov.intros ready_lease_same_provisions)+
  have body: "no_new_hold s (snd (andthen (lab_statement ''begin readiness transaction'') (\<lambda>_. andthen (?lease a) ?tail) s))" for a
  proof (rule hold_after_statement)
    fix u :: "'z lab_world_scheme"
    assume u: "lw_provisions u = lw_provisions s"
    obtain r v where v: "?lease a u = (r, v)" by fastforce
    then show "no_new_hold u (snd (andthen (?lease a) ?tail u))"
    proof (rule hold_then)
      show "no_new_hold u v" using withinD [OF hl(1) v] .
      have "lw_provisions v = lw_provisions s" using withinD [OF hl(2) v] u by (simp add: same_provisions_def)
      then show "no_new_hold v (snd (?tail x v))" for x by (rule tail)
    qed
  qed
  have "no_new_hold s (snd (complete_ready_tx rec e a s))" for a
    unfolding complete_ready_tx_def by (rule undo_lab_hold_at, rule body)
  then show ?thesis by (auto simp: complete_ready_def fail_def holds.refl split: option.split)
qed

text \<open>The reservation: a VMID is granted only when no record of the same account holds it.\<close>

lemma no_holder:
  assumes "vmid_holder rows ps vmid rec = None" and "p \<in> set ps" and "pv_vmid p = Some vmid"
    and "pv_id p \<noteq> pv_id rec" and "holding rows p"
  shows "\<not> same_cluster (pv_account_id p) (pv_account_id rec)"
proof
  assume c: "same_cluster (pv_account_id p) (pv_account_id rec)"
  let ?qs = "filter (\<lambda>p. pv_vmid p = Some vmid \<and> pv_id p \<noteq> pv_id rec \<and>
           same_cluster (pv_account_id p) (pv_account_id rec) \<and> holding rows p) ps"
  have "p \<in> set (sort_key (\<lambda>p. (pv_created_at p, pv_id p)) ?qs)" using assms(2-5) c by simp
  moreover have "sort_key (\<lambda>p. (pv_created_at p, pv_id p)) ?qs = []"
    using assms(1) unfolding vmid_holder_def
    by (cases "sort_key (\<lambda>p. (pv_created_at p, pv_id p)) ?qs") simp_all
  ultimately show False by (simp only: list.set empty_iff)
qed

definition reserve_row :: "string \<Rightarrow> string \<Rightarrow> nat \<Rightarrow> int \<Rightarrow> provision \<Rightarrow> provision" where
  "reserve_row i node vmid now p = (if pv_id p = i \<and> pv_state p = Provisioning \<and> pv_clone_upid p = None \<and> pv_vmid p = None
     then p\<lparr>pv_node := Some node, pv_vmid := Some vmid, pv_updated_at := now\<rparr> else p)"

lemma reserve_write_exclusive:
  assumes "vmid_exclusive s" and "provision_by_id i (lw_provisions s) = Some rec"
    and "distinct (map pv_id (lw_provisions s))"
    and "vmid_holder (lw_leases s) (lw_provisions s) vmid rec = None"
    and t: "lw_provisions t = map (reserve_row i node vmid now) (lw_provisions s)" "lw_leases t = lw_leases s"
  shows "vmid_exclusive t"
  unfolding vmid_exclusive_def
proof (intro ballI impI)
  have rec: "rec \<in> set (lw_provisions s)" "pv_id rec = i"
    using assms(2) by (auto simp: provision_by_id_def dest: find_Some_in)
  have same: "x = rec" if "x \<in> set (lw_provisions s)" "pv_id x = i" for x
    using same_key [OF assms(3) that(1) rec(1)] that(2) rec(2) by simp
  have keep: "reserve_row i node vmid now x = x" if "x \<in> set (lw_provisions s)" "pv_id x \<noteq> i" for x
    using that by (simp add: reserve_row_def)
  have fields: "pv_id (reserve_row i node vmid now x) = pv_id x"
    "pv_account_id (reserve_row i node vmid now x) = pv_account_id x"
    "holding rows (reserve_row i node vmid now x) = holding rows x" for rows x
    by (auto simp: reserve_row_def holding_def)
  have taken: "\<not> same_cluster (pv_account_id x) (pv_account_id rec)"
    if "x \<in> set (lw_provisions s)" "pv_id x \<noteq> i" "pv_vmid x \<noteq> None" "holding (lw_leases s) x" "holding (lw_leases s) rec"
      "pv_vmid x = pv_vmid (reserve_row i node vmid now rec)" for x
  proof (cases "pv_vmid (reserve_row i node vmid now rec) = pv_vmid rec")
    case True
    with that rec assms(1) show ?thesis unfolding vmid_exclusive_def by metis
  next
    case False
    then have "pv_vmid (reserve_row i node vmid now rec) = Some vmid"
      by (auto simp: reserve_row_def split: if_splits)
    with that rec(2) no_holder [OF assms(4) that(1)] show ?thesis by simp
  qed
  fix p q
  assume pq: "p \<in> set (lw_provisions t)" "q \<in> set (lw_provisions t)" "pv_id p \<noteq> pv_id q" "pv_vmid p \<noteq> None"
    "pv_vmid p = pv_vmid q" "holding (lw_leases t) p" "holding (lw_leases t) q"
  then obtain x y where x: "x \<in> set (lw_provisions s)" "p = reserve_row i node vmid now x"
    and y: "y \<in> set (lw_provisions s)" "q = reserve_row i node vmid now y" by (auto simp: t)
  have h: "holding (lw_leases s) x" "holding (lw_leases s) y" "pv_id x \<noteq> pv_id y"
    using pq x y by (simp_all add: t fields)
  have "\<not> same_cluster (pv_account_id x) (pv_account_id y)"
  proof (cases "pv_id x = i")
    case True
    with h(3) have "pv_id y \<noteq> i" by simp
    moreover have "x = rec" using same x(1) True .
    ultimately have "\<not> same_cluster (pv_account_id y) (pv_account_id rec)"
      using taken [OF y(1)] keep [OF y(1)] pq(4,5) h y(2) x(2) by metis
    with \<open>x = rec\<close> show ?thesis using same_cluster_sym by metis
  next
    case False
    show ?thesis
    proof (cases "pv_id y = i")
      case True
      then have "y = rec" using same y(1) by simp
      with taken [OF x(1) False] keep [OF x(1) False] pq(4,5) h x(2) y(2) show ?thesis by metis
    next
      case n: False
      with keep x y False pq(4,5) have "p = x" "q = y" by simp_all
      with pq(4,5) h assms(1) x(1) y(1) show ?thesis unfolding vmid_exclusive_def by metis
    qed
  qed
  then show "\<not> same_cluster (pv_account_id p) (pv_account_id q)" by (simp add: x y fields)
qed


definition vmid_ok :: "'z lab_world_scheme \<Rightarrow> bool" where
  "vmid_ok s \<longleftrightarrow> vmid_exclusive s \<and> distinct (map pv_id (lw_provisions s))"

lemma hold_ok: "no_new_hold s t \<Longrightarrow> vmid_ok s \<Longrightarrow> vmid_ok t"
  using no_new_hold_exclusive by (auto simp: vmid_ok_def no_new_hold_def)

lemma reserve_write_ok:
  assumes "vmid_ok s" and "provision_by_id i (lw_provisions s) = Some rec"
    and "vmid_holder (lw_leases s) (lw_provisions s) vmid rec = None"
    and t: "lw_provisions t = map (reserve_row i node vmid now) (lw_provisions s)" "lw_leases t = lw_leases s"
  shows "vmid_ok t"
proof -
  have "map pv_id (lw_provisions t) = map pv_id (lw_provisions s)" by (simp add: t reserve_row_def)
  then have "distinct (map pv_id (lw_provisions t))" using assms(1) by (simp only: vmid_ok_def)
  with assms(1) reserve_write_exclusive [OF _ assms(2) _ assms(3) t] show ?thesis by (simp add: vmid_ok_def)
qed


definition same_tables :: "'z lab_world_scheme \<Rightarrow> 'z lab_world_scheme \<Rightarrow> bool" where
  "same_tables s t \<longleftrightarrow> lw_leases t = lw_leases s \<and> lw_provisions t = lw_provisions s"

lemma same_tables_ok: "same_tables s t \<Longrightarrow> vmid_ok s \<Longrightarrow> vmid_ok t"
  by (auto simp: same_tables_def intro: hold_ok same_tables_hold)

lemma statement_then:
  assumes "vmid_ok s" and "\<And>u. same_tables s u \<Longrightarrow> vmid_ok u \<Longrightarrow> vmid_ok (snd (f u))"
  shows "vmid_ok (snd (andthen (lab_statement c) (\<lambda>_. f) s))"
proof -
  obtain r u where st: "lab_statement c s = (r, u)" by fastforce
  then have u: "same_tables s u" using statement_run [OF st] by (simp add: same_tables_def)
  then have "vmid_ok u" using assms(1) same_tables_ok by blast
  with u assms(2) st show ?thesis by (cases r) (auto simp: act_simps)
qed

lemma read_reservation_hold: "within no_new_hold (read_reservation i)"
  unfolding read_reservation_def by (intro holds.intros frames_hold)

lemma reserve_update_ok:
  assumes "vmid_ok s" and "provision_by_id i (lw_provisions s) = Some rec"
    and "vmid_holder (lw_leases s) (lw_provisions s) vmid rec = None"
  shows "vmid_ok (snd (reserve_update i node vmid s))"
  unfolding reserve_update_def asks_then using assms(1)
proof (rule statement_then)
  fix u :: "'a lab_world_scheme"
  assume u: "same_tables s u" "vmid_ok u"
  let ?P = "\<lambda>p. pv_id p = i \<and> pv_state p = Provisioning \<and> pv_clone_upid p = None \<and> pv_vmid p = None"
  let ?f = "\<lambda>p. p\<lparr>pv_node := Some node, pv_vmid := Some vmid, pv_updated_at := w_now s\<rparr>"
  have "provision_by_id i (lw_provisions u) = Some rec"
    and "vmid_holder (lw_leases u) (lw_provisions u) vmid rec = None"
    using u(1) assms(2,3) by (simp_all add: same_tables_def)
  moreover have "lw_provisions (snd (update_provisions ?P ?f u)) = map (reserve_row i node vmid (w_now s)) (lw_provisions u)"
    by (simp add: update_provisions_def reserve_row_def)
  moreover have "lw_leases (snd (update_provisions ?P ?f u)) = lw_leases u" by (simp add: update_provisions_def)
  ultimately show "vmid_ok (snd (update_provisions ?P ?f u))" by (rule reserve_write_ok [OF u(2)])
qed

lemma then_hold:
  "vmid_ok (snd (m s)) \<Longrightarrow> (\<And>x. within no_new_hold (f x)) \<Longrightarrow> vmid_ok (snd (andthen m f s))"
  by (cases "m s") (auto simp: act_simps intro: hold_ok within_snd split: sum.splits)

lemma reserve_checked_ok:
  assumes "vmid_ok s" and "provision_by_id i (lw_provisions s) = Some rec"
  shows "vmid_ok (snd (reserve_checked rec i node vmid s))"
proof -
  have "vmid_ok (snd (reserve_for rec i node vmid s))"
    unfolding reserve_for_def using assms(1)
  proof (rule statement_then)
    fix u :: "'a lab_world_scheme"
    assume u: "same_tables s u" "vmid_ok u"
    show "vmid_ok (snd (andthen (asks (\<lambda>s. vmid_holder (lw_leases s) (lw_provisions s) vmid rec)) (\<lambda>holder.
     case holder of
       Some h \<Rightarrow> ret (TargetHeldBy (pv_id h))
     | None \<Rightarrow> andthen (reserve_update i node vmid) (\<lambda>_. read_reservation i)) u))"
    proof (cases "vmid_holder (lw_leases u) (lw_provisions u) vmid rec")
      case None
      have "vmid_ok (snd (reserve_update i node vmid u))"
        by (rule reserve_update_ok [OF u(2) _ None]) (use u(1) assms(2) in \<open>simp add: same_tables_def\<close>)
      with None show ?thesis by (simp add: asks_then then_hold read_reservation_hold)
    qed (simp add: asks_then u(2) ret_def)
  qed
  with assms(1) show ?thesis by (simp add: reserve_checked_def fail_def ret_def)
qed

lemma undo_lab_ok: "vmid_ok s \<Longrightarrow> vmid_ok (snd (m s)) \<Longrightarrow> vmid_ok (snd (atomically undo_lab m s))"
proof (cases "m s")
  case (Pair r t)
  assume "vmid_ok s" "vmid_ok (snd (m s))"
  moreover have "same_tables s (undo_lab s t)" by (simp add: same_tables_def undo_lab_def)
  ultimately show ?thesis using Pair by (cases r) (auto simp: atomically_def intro: same_tables_ok)
qed

lemma reserve_ok:
  fixes s :: "'z lab_world_scheme"
  assumes "vmid_ok s"
  shows "vmid_ok (snd (reserve_clone_target i node vmid s))"
proof -
  let ?m = "andthen (lab_statement ''begin reservation transaction'') (\<lambda>_.
      andthen (lab_statement ''read provision'') (\<lambda>_.
      andthen (asks (\<lambda>s. provision_by_id i (lw_provisions s))) (\<lambda>found.
      case found of
        None \<Rightarrow> fail (''provision '' @ i @ '' not found'')
      | Some rec \<Rightarrow> reserve_checked rec i node vmid)))"
  have "vmid_ok (snd (andthen (asks (\<lambda>s. provision_by_id i (lw_provisions s))) (\<lambda>found.
      case found of
        None \<Rightarrow> fail (''provision '' @ i @ '' not found'')
      | Some rec \<Rightarrow> reserve_checked rec i node vmid) u))" if "vmid_ok u" for u :: "'z lab_world_scheme"
    using that by (cases "provision_by_id i (lw_provisions u)") (simp_all add: asks_then fail_def reserve_checked_ok)
  then have m: "vmid_ok (snd (?m s))"
    using assms by (intro statement_then) simp_all
  show ?thesis unfolding reserve_clone_target_def by (rule undo_lab_ok, rule assms, rule m)
qed


section \<open>Writes of other repositories\<close>

text \<open>The end of a pooled lease, \<open>release_lease\<close> of the pool, and the machine of a provision.\<close>

definition pool_release_record :: "string \<Rightarrow> ('z, unit) lab_act" where
  "pool_release_record i =
     andthen (lab_statement ''release lease'') (\<lambda>_.
     andthen (update_leases (\<lambda>r. row_id r = i \<and> le_state (lr_lease r) = LeaseReleasing)
       (\<lambda>l. l\<lparr>le_state := LeaseReleased, le_cleanup_next_at := None\<rparr>)) (\<lambda>n.
     if n \<noteq> 1 then fail (''the lease '' @ i @ '' is no longer releasing'') else ret ()))"

definition provision_bind_record :: "string \<Rightarrow> string \<Rightarrow> string \<Rightarrow> int \<Rightarrow> ('z, unit) lab_act" where
  "provision_bind_record i machine endpoint now =
     andthen (map_err (\<lambda>d. d) external) (\<lambda>_.
     andthen (update_provisions (\<lambda>p. pv_id p = i)
       (\<lambda>p. p\<lparr>pv_machine_id := Some machine, pv_endpoint_id := Some endpoint, pv_updated_at := now\<rparr>)) (\<lambda>_. ret ()))"

lemma pool_release_hold: "within no_new_hold (pool_release_record i)"
  unfolding pool_release_record_def by (intro holds.intros frames_hold update_leases_hold; force)

lemma provision_bind_hold: "within no_new_hold (provision_bind_record i machine endpoint now)"
  unfolding provision_bind_record_def
  by (intro holds.intros frame_hold [OF external_frame] update_provisions_within_hold; force)

section \<open>The claim of a pool member\<close>

text \<open>
  What the claim of a pool member writes into a provision, \<open>claim_member\<close> of
  \<open>crates/fleet-storage-sqlite/src/lab_pool.rs\<close>: the member's account, node and VMID. Unlike
  \<open>reserve_clone_target\<close> it does not look for a record that holds the VMID already.
\<close>

definition pool_claim_record :: "string \<Rightarrow> string \<Rightarrow> string \<Rightarrow> nat \<Rightarrow> int \<Rightarrow> ('z, unit) lab_act" where
  "pool_claim_record i account node vmid now =
     andthen (lab_statement ''record member on provision'') (\<lambda>_.
     andthen (update_provisions (\<lambda>p. pv_id p = i \<and> pv_state p = Provisioning \<and> pv_vmid p = None \<and> pv_clone_upid p = None)
       (\<lambda>p. p\<lparr>pv_account_id := Some account, pv_node := Some node, pv_vmid := Some vmid, pv_updated_at := now\<rparr>)) (\<lambda>n.
     if n \<noteq> 1 then fail (''the provision '' @ i @ '' changed during the claim'') else ret ()))"

definition vmid_free :: "'z lab_world_scheme \<Rightarrow> string \<Rightarrow> string \<Rightarrow> nat \<Rightarrow> bool" where
  "vmid_free s i account vmid \<longleftrightarrow>
     list_all (\<lambda>p. pv_id p \<noteq> i \<and> pv_vmid p = Some vmid \<and> holding (lw_leases s) p \<longrightarrow>
       \<not> same_cluster (pv_account_id p) (Some account)) (lw_provisions s)"

lemma pool_write_exclusive:
  assumes "vmid_exclusive s" and "vmid_free s i account vmid"
    and t: "lw_provisions t = map (\<lambda>p. if pv_id p = i \<and> pv_state p = Provisioning \<and> pv_vmid p = None \<and> pv_clone_upid p = None
        then p\<lparr>pv_account_id := Some account, pv_node := Some node, pv_vmid := Some vmid, pv_updated_at := now\<rparr> else p) (lw_provisions s)"
      "lw_leases t = lw_leases s"
  shows "vmid_exclusive t"
proof -
  let ?P = "\<lambda>p. pv_id p = i \<and> pv_state p = Provisioning \<and> pv_vmid p = None \<and> pv_clone_upid p = None"
  let ?g = "\<lambda>p. if ?P p then p\<lparr>pv_account_id := Some account, pv_node := Some node, pv_vmid := Some vmid, pv_updated_at := now\<rparr> else p"
  have same: "pv_id (?g x) = pv_id x" "holding rows (?g x) = holding rows x" for rows x
    by (auto simp: holding_def)
  have free: "\<not> same_cluster (pv_account_id y) (Some account)"
    if "y \<in> set (lw_provisions s)" "pv_id y \<noteq> i" "pv_vmid y = Some vmid" "holding (lw_leases s) y" for y
    using assms(2) that by (auto simp: vmid_free_def list_all_iff)
  have apart: "\<not> same_cluster (pv_account_id (?g x)) (pv_account_id (?g y))"
    if xy: "x \<in> set (lw_provisions s)" "y \<in> set (lw_provisions s)" "pv_id x \<noteq> pv_id y"
      "pv_vmid (?g x) \<noteq> None" "pv_vmid (?g x) = pv_vmid (?g y)" "holding (lw_leases s) x" "holding (lw_leases s) y" for x y
  proof (cases "?P x")
    case True
    then have y: "\<not> ?P y" using xy(3) by auto
    with True xy(5) have "pv_vmid y = Some vmid" "pv_id y \<noteq> i" using xy(3) by auto
    with free [OF xy(2)] xy(7) have "\<not> same_cluster (pv_account_id y) (Some account)" by simp
    with True y same_cluster_sym show ?thesis by auto
  next
    case x: False
    show ?thesis
    proof (cases "?P y")
      case True
      with x xy(5) have "pv_vmid x = Some vmid" "pv_id x \<noteq> i" using xy(3) by auto
      with free [OF xy(1)] xy(6) have "\<not> same_cluster (pv_account_id x) (Some account)" by simp
      with True x show ?thesis by auto
    next
      case False
      have "pv_vmid x \<noteq> None" "pv_vmid x = pv_vmid y" using xy(4,5) x False by simp_all
      with assms(1) xy x False show ?thesis unfolding vmid_exclusive_def by (simp only: if_False)
    qed
  qed
  show ?thesis unfolding vmid_exclusive_def
  proof (intro ballI impI)
    fix p q
    assume "p \<in> set (lw_provisions t)" "q \<in> set (lw_provisions t)" and h: "pv_id p \<noteq> pv_id q" "pv_vmid p \<noteq> None"
      "pv_vmid p = pv_vmid q" "holding (lw_leases t) p" "holding (lw_leases t) q"
    then obtain x y where x: "x \<in> set (lw_provisions s)" "p = ?g x" and y: "y \<in> set (lw_provisions s)" "q = ?g y"
      unfolding t by fastforce
    have "pv_id x \<noteq> pv_id y" "pv_vmid (?g x) \<noteq> None" "pv_vmid (?g x) = pv_vmid (?g y)"
      "holding (lw_leases s) x" "holding (lw_leases s) y"
      using h unfolding x(2) y(2) t(2) same by blast+
    from apart [OF x(1) y(1) this] show "\<not> same_cluster (pv_account_id p) (pv_account_id q)" unfolding x(2) y(2) .
  qed
qed

lemma pool_claim_ok:
  assumes "vmid_ok s" and "vmid_free s i account vmid"
  shows "vmid_ok (snd (pool_claim_record i account node vmid now s))"
  unfolding pool_claim_record_def using assms(1)
proof (rule statement_then)
  fix u :: "'a lab_world_scheme"
  assume u: "same_tables s u" "vmid_ok u"
  let ?P = "\<lambda>p. pv_id p = i \<and> pv_state p = Provisioning \<and> pv_vmid p = None \<and> pv_clone_upid p = None"
  let ?f = "\<lambda>p. p\<lparr>pv_account_id := Some account, pv_node := Some node, pv_vmid := Some vmid, pv_updated_at := now\<rparr>"
  obtain n t where up: "update_provisions ?P ?f u = (Inr n, t)" by (auto simp: update_provisions_def)
  then have t: "lw_provisions t = map (\<lambda>p. if ?P p then ?f p else p) (lw_provisions u)" "lw_leases t = lw_leases u"
    by (auto simp: update_provisions_def)
  have "vmid_free u i account vmid" using assms(2) u(1) by (simp add: vmid_free_def same_tables_def)
  then have "vmid_exclusive t" using u(2) by (intro pool_write_exclusive [OF _ _ t]) (simp_all add: vmid_ok_def)
  moreover have "map pv_id (lw_provisions t) = map pv_id (lw_provisions u)" by (simp add: t)
  then have "distinct (map pv_id (lw_provisions t))" using u(2) by (simp only: vmid_ok_def)
  ultimately have "vmid_ok t" by (simp add: vmid_ok_def)
  with up show "vmid_ok (snd (andthen (update_provisions ?P ?f)
      (\<lambda>n. if n \<noteq> 1 then fail (''the provision '' @ i @ '' changed during the claim'') else ret ()) u))"
    by (simp add: act_simps)
qed

section \<open>Steps\<close>

text \<open>
  The statements that write leases or provisions. A saved or completed record is a copy read
  before: it carries the VMID the store has for it. A lease written back is not one that has
  been released in the meantime, a new lease has an identifier no record names, and a pool
  member's VMID is held by no other record.
\<close>

inductive vmid_step :: "'z lab_world_scheme \<Rightarrow> 'z lab_world_scheme \<Rightarrow> bool" where
  vs_reserve: "vmid_step s (snd (reserve_clone_target i node vmid s))"
| vs_provision: "vmid_step s (snd (provision_create new now s))"
| vs_abandon: "vmid_step s (snd (provision_abandon i s))"
| vs_save: "record_current s rec \<Longrightarrow> vmid_step s (snd (provision_update rec s))"
| vs_complete: "record_current s rec \<Longrightarrow> vmid_step s (snd (complete_ready rec e s))"
| vs_lease: "unnamed s (w_uuid s (w_uuid_no s)) \<Longrightarrow> vmid_step s (snd (lease_create nl owner now s))"
| vs_lease_keyed: "unnamed s (w_uuid s (w_uuid_no s)) \<Longrightarrow>
    vmid_step s (snd (lease_create_keyed nl owner now key fingerprint s))"
| vs_pool: "vmid_free s i account vmid \<Longrightarrow> vmid_step s (snd (pool_claim_record i account node vmid now s))"
| vs_pool_release: "vmid_step s (snd (pool_release_record i s))"
| vs_bind: "vmid_step s (snd (provision_bind_record i machine endpoint now s))"
| vs_attach: "vmid_step s (snd (attach_provision i x s))"
| vs_extend: "vmid_step s (snd (extend_ready i e now e' s))"
| vs_expire: "st \<noteq> LeaseReleased \<Longrightarrow> vmid_step s (snd (claim_for_release i st e now s))"
| vs_compensate: "st \<noteq> LeaseReleased \<Longrightarrow> vmid_step s (snd (lease_transition i st p to s))"
| vs_rearm: "vmid_step s (snd (lease_rearm i m m' s))"
| vs_failed: "vmid_step s (snd (record_failed_cleanup m l s))"
| vs_write: "stays_released (lw_leases s) l \<Longrightarrow> vmid_step s (snd (lease_update l s))"

lemma hold_call: "within no_new_hold m \<Longrightarrow> vmid_ok s \<Longrightarrow> vmid_ok (snd (m s))"
  by (rule hold_ok, rule within_snd)

lemmas vmid_calls = guarded_leases_hold [THEN hold_call] abandon_hold [THEN hold_call]
  pool_release_hold [THEN hold_call] provision_bind_hold [THEN hold_call]
  create_provision_hold [THEN hold_call] provision_update_hold [THEN hold_ok]
  complete_ready_hold [THEN hold_ok] lease_create_hold [THEN hold_ok]
  lease_create_keyed_hold [THEN hold_ok] pool_claim_ok lease_update_hold [THEN hold_ok] reserve_ok

lemma vmid_step_ok: "vmid_step s t \<Longrightarrow> vmid_ok s \<Longrightarrow> vmid_ok t"
  by (induction rule: vmid_step.induct) (auto intro: vmid_calls)

lemma vmid_steps_ok: "vmid_step\<^sup>*\<^sup>* s t \<Longrightarrow> vmid_ok s \<Longrightarrow> vmid_ok t"
  by (induction rule: rtranclp_induct) (auto intro: vmid_step_ok)

end
