(* ===== verification/Lab_Contracts.thy ===== *)
theory Lab_Contracts
  imports Lab_Vmids
begin

text \<open>
  The contracts of the Lab use cases: cleanup rounds, the scope of a delegated credential, the
  search filter, keyed creation and publishing.
\<close>

section \<open>Cleanup rounds\<close>

lemma backoff_range: "60000 \<le> cleanup_backoff_millis n \<and> cleanup_backoff_millis n \<le> 3600000"
proof -
  have "(1::int) \<le> 2 ^ min (n - 1) 6" by simp
  then show ?thesis unfolding cleanup_backoff_millis_def by simp
qed

datatype cleanup_event = AttemptFailed int | OperatorRearm

text \<open>The keys of the attempts of a run, in order, and the lease it leaves.\<close>

fun cleanup_run :: "lab \<Rightarrow> lease \<Rightarrow> cleanup_event list \<Rightarrow> string option list \<times> lease" where
  "cleanup_run lb l [] = ([], l)"
| "cleanup_run lb l (AttemptFailed now # es) =
     (case cleanup_run lb (record_cleanup_failure l now) es of
        (ks, l') \<Rightarrow> (no_key (cleanup_operation lb l None) # ks, l'))"
| "cleanup_run lb l (OperatorRearm # es) =
     cleanup_run lb (if le_state l = LeaseCleanupFailed then rearm_cleanup l else l) es"

definition attempt_key :: "string \<Rightarrow> nat \<Rightarrow> string option" where
  "attempt_key i n = Some (''lab-cleanup:'' @ i @ '':'' @ decimal n)"

lemma attempt_key_inject: "attempt_key i m = attempt_key i n \<longleftrightarrow> m = n"
  by (simp add: attempt_key_def)

lemma failure_attempts: "le_cleanup_attempts (record_cleanup_failure l now) = u32_succ (le_cleanup_attempts l)"
  and failure_id: "le_id (record_cleanup_failure l now) = le_id l"
  by (simp_all add: record_cleanup_failure_def Let_def)

lemma next_multiple_bounds: "n \<le> next_multiple_of n k \<and> next_multiple_of n k \<le> n + k"
  by (simp add: next_multiple_of_def)

lemma rearm_attempts:
  "le_cleanup_attempts l \<le> le_cleanup_attempts (rearm_cleanup l) \<and>
   le_cleanup_attempts (rearm_cleanup l) \<le> le_cleanup_attempts l + 6"
  using next_multiple_bounds [of "max (le_cleanup_attempts l) 1" max_cleanup_attempts]
  by (auto simp: rearm_cleanup_def max_cleanup_attempts_def)

lemma rearm_id: "le_id (rearm_cleanup l) = le_id l"
  by (simp add: rearm_cleanup_def)

lemma cleanup_run_keys:
  "le_cleanup_attempts l + 6 * length es < u32_max \<Longrightarrow>
   \<exists>ns. fst (cleanup_run lb l es) = map (attempt_key (le_id l)) ns \<and> sorted_wrt (<) ns \<and>
     list_all (\<lambda>n. le_cleanup_attempts l \<le> n) ns"
proof (induction lb l es rule: cleanup_run.induct)
  case (1 lb l)
  then show ?case by (intro exI [of _ "[]"]) simp
next
  case (2 lb l now es)
  let ?l = "record_cleanup_failure l now"
  have a: "le_cleanup_attempts ?l = Suc (le_cleanup_attempts l)"
    using 2(2) by (simp add: failure_attempts u32_succ_def)
  then obtain ns where ns: "fst (cleanup_run lb ?l es) = map (attempt_key (le_id l)) ns" "sorted_wrt (<) ns"
    "list_all (\<lambda>n. Suc (le_cleanup_attempts l) \<le> n) ns"
    using 2 by (auto simp: failure_id)
  moreover have "no_key (cleanup_operation lb l None) = attempt_key (le_id l) (le_cleanup_attempts l)"
    by (simp add: cleanup_operation_def attempt_key_def)
  ultimately show ?case
    by (intro exI [of _ "le_cleanup_attempts l # ns"]) (auto simp: list_all_iff split: prod.splits)
next
  case (3 lb l es)
  let ?l = "if le_state l = LeaseCleanupFailed then rearm_cleanup l else l"
  have "le_cleanup_attempts ?l + 6 * length es < u32_max" "le_cleanup_attempts l \<le> le_cleanup_attempts ?l"
    "le_id ?l = le_id l"
    using 3(2) rearm_attempts [of l] by (auto simp: rearm_id)
  with 3(1) obtain ns where "fst (cleanup_run lb ?l es) = map (attempt_key (le_id l)) ns" "sorted_wrt (<) ns"
    "list_all (\<lambda>n. le_cleanup_attempts ?l \<le> n) ns" by auto
  with \<open>le_cleanup_attempts l \<le> le_cleanup_attempts ?l\<close> show ?case
    by (intro exI [of _ ns]) (auto simp: list_all_iff)
qed

lemma attempt_keys_distinct: "sorted_wrt (<) ns \<Longrightarrow> distinct (map (attempt_key i) ns)"
  by (simp add: distinct_map inj_on_def attempt_key_inject strict_sorted_iff)

section \<open>The scope of a delegated credential\<close>

text \<open>The store without one lease.\<close>

definition without_lease :: "string \<Rightarrow> 'z lab_world_scheme \<Rightarrow> 'z lab_world_scheme" where
  "without_lease i s = s\<lparr>lw_leases := filter (\<lambda>r. row_id r \<noteq> i) (lw_leases s)\<rparr>"

definition foreign_lease :: "string \<Rightarrow> string \<Rightarrow> 'z lab_world_scheme \<Rightarrow> bool" where
  "foreign_lease who i s \<longleftrightarrow>
     (\<exists>r. lease_by_id i (lw_leases s) = Some r \<and> \<not> owner_scope_permits who (le_owner (lr_lease r)))"

text \<open>A call that refuses as if there were no such lease, and changes no table.\<close>

definition sees_nothing :: "('z, 'a) lease_act \<Rightarrow> string \<Rightarrow> 'z lab_world_scheme \<Rightarrow> bool" where
  "sees_nothing m i s \<longleftrightarrow> isl (fst (m s)) \<and> fst (m s) = fst (m (without_lease i s)) \<and> world.more (snd (m s)) = world.more s \<and>
     w_ledger (snd (m s)) = w_ledger s"

lemma without_lookup: "lease_by_id i (lw_leases (without_lease i s)) = None"
  by (simp add: without_lease_def lease_by_id_def find_None_iff)

lemma external_without:
  "external (without_lease i s) = (case external s of (r, t) \<Rightarrow> (r, without_lease i t))"
  by (auto simp: external_def without_lease_def split: list.splits option.splits)

lemma statement_without:
  "lab_statement c (without_lease i s) = (case lab_statement c s of (r, t) \<Rightarrow> (r, without_lease i t))"
  by (auto simp: lab_statement_def map_err_def external_without split: prod.splits sum.splits)

lemma scoped_call_hidden:
  assumes "foreign_lease who i s"
  shows "sees_nothing (andthen (find_lease i) (\<lambda>l. andthen (lift (scope_lease who l)) (\<lambda>_. K l))) i s"
proof -
  obtain r where r: "lease_by_id i (lw_leases s) = Some r" "\<not> owner_scope_permits who (le_owner (lr_lease r))"
    using assms by (auto simp: foreign_lease_def)
  then have id_r: "row_id r = i" by (auto simp: lease_by_id_def dest: find_Some_in)
  obtain x t where st: "lab_statement ''get'' s = (x, t)" by fastforce
  note same = statement_run [OF st] withinD [OF lab_statement_frame st]
  have sl: "scope_lease who (row_to_lease r) = Inl (LabNotFound (''lease '' @ i))"
    using r(2) id_r by (simp add: scope_lease_def row_to_lease_def)
  have nf: "text_contains ''not found'' (''lease '' @ i @ '' not found'')"
    unfolding text_contains_iff by (intro exI [of _ "''lease '' @ i @ '' ''"] exI [of _ "[]"]) simp
  have wo: "lab_statement ''get'' (without_lease i s) = (x, without_lease i t)"
    using st by (simp add: statement_without)
  show ?thesis
  proof (cases x)
    case (Inl e)
    with st wo same show ?thesis
      by (simp add: sees_nothing_def find_lease_def lab_lookup_def lease_get_def act_simps world_frame_def)
  next
    case (Inr u)
    with st wo same r sl nf without_lookup [of i t] show ?thesis
      by (simp add: sees_nothing_def find_lease_def lab_lookup_def lease_get_def act_simps world_frame_def)
  qed
qed


lemma sees_nothing_lift: "sees_nothing m i s \<Longrightarrow> sees_nothing (andthen (lift x) (\<lambda>_. m)) i s"
  by (cases x) (auto simp: sees_nothing_def)

lemma sees_nothing_then: "sees_nothing m i s \<Longrightarrow> sees_nothing (andthen m f) i s"
  by (cases "m s"; cases "m (without_lease i s)") (auto simp: sees_nothing_def act_simps split: sum.splits)

lemma find_then_assoc: "andthen (andthen m f) g = andthen m (\<lambda>x. andthen (f x) g)"
  by (rule ext) (auto simp: act_simps split: prod.splits sum.splits)

lemmas hidden_rules = sees_nothing_lift scoped_call_hidden

lemma calls_hidden:
  assumes "foreign_lease who i s"
  shows "sees_nothing (get_lease az who i) i s" and "sees_nothing (release_lease az who i keep) i s"
    and "sees_nothing (extend_lease az who i n now) i s" and "sees_nothing (retry_cleanup az who i) i s"
    and "sees_nothing (exec_lease lb az who i script timeout session key now) i s"
    and "sees_nothing (start_lease_provision lb az who i key now) i s"
proof -
  show "sees_nothing (get_lease az who i) i s" unfolding get_lease_def
    by (intro hidden_rules assms)
  have "sees_nothing (release_check az who i keep) i s" unfolding release_check_def
    by (intro hidden_rules assms)
  then show "sees_nothing (release_lease az who i keep) i s" unfolding release_lease_def
    by (rule sees_nothing_then)
  show "sees_nothing (extend_lease az who i n now) i s" unfolding extend_lease_def
    by (intro hidden_rules assms)
  show "sees_nothing (retry_cleanup az who i) i s" unfolding retry_cleanup_def
    by (intro hidden_rules assms)
  show "sees_nothing (exec_lease lb az who i script timeout session key now) i s" unfolding exec_lease_def
    by (intro hidden_rules assms)
  show "sees_nothing (start_lease_provision lb az who i key now) i s" unfolding start_lease_provision_def
    by (intro hidden_rules assms)
qed

section \<open>Searching\<close>

text \<open>Well-formed UTF-8: every scalar value is a leading byte and the continuation bytes it announces.\<close>

definition scalar_width :: "char \<Rightarrow> nat" where
  "scalar_width c =
     (let b = (of_char c :: nat) in
      if b < 128 then 1 else if b < 194 then 0 else if b < 224 then 2 else if b < 240 then 3
      else if b < 245 then 4 else 0)"

function utf8 :: "string \<Rightarrow> bool" where
  "utf8 [] \<longleftrightarrow> True"
| "utf8 (c # cs) \<longleftrightarrow>
     scalar_width c \<noteq> 0 \<and> scalar_width c - 1 \<le> length cs \<and>
     list_all is_continuation (take (scalar_width c - 1) cs) \<and> utf8 (drop (scalar_width c - 1) cs)"
  by pat_completeness auto
termination by (relation "measure length") auto

lemma utf8_suffix: "utf8 p \<Longrightarrow> utf8 (p @ r) \<Longrightarrow> utf8 r"
proof (induction p rule: utf8.induct)
  case (2 c cs)
  then have "scalar_width c - Suc (length cs) = 0" by auto
  with 2 show ?case by simp
qed simp

lemma utf8_start: "utf8 r \<Longrightarrow> r = [] \<or> \<not> is_continuation (hd r)"
  by (cases r) (auto simp: scalar_width_def is_continuation_def Let_def split: if_splits)

lemma take_chars_prefix: "starts_with (take_chars n s) s"
proof (induction n s rule: take_chars.induct)
  case (2 n c cs)
  then show ?case by (cases n) (auto simp: starts_with_iff)
qed (simp add: starts_with_def)

lemma take_chars_append: "take_chars (char_count p) (p @ r) = p @ take_chars 0 r"
  by (induction p) (simp_all add: char_count_def)

lemma prefix_by_chars:
  assumes "utf8 s" and "utf8 p"
  shows "take_chars (char_count p) s = p \<longleftrightarrow> starts_with p s"
proof
  assume "take_chars (char_count p) s = p"
  then show "starts_with p s" using take_chars_prefix by metis
next
  assume "starts_with p s"
  then obtain r where r: "s = p @ r" by (auto simp: starts_with_iff)
  with assms have "r = [] \<or> \<not> is_continuation (hd r)" using utf8_suffix utf8_start by blast
  then have "take_chars 0 r = []" by (cases r) auto
  with r show "take_chars (char_count p) s = p" by (simp add: take_chars_append)
qed

lemma query_is_filter:
  assumes "utf8 (le_purpose l)" and "opt_all utf8 (lf_purpose_prefix f)"
  shows "query_matches f l \<longleftrightarrow> filter_lease f l"
proof -
  have "opt_all (\<lambda>p. take_chars (char_count p) (le_purpose l) = p) (lf_purpose_prefix f) \<longleftrightarrow>
      opt_all (\<lambda>p. starts_with p (le_purpose l)) (lf_purpose_prefix f)"
    using assms prefix_by_chars by (auto simp: opt_all_def split: option.splits)
  moreover have "lease_id_text (le_state l) \<in> set (map lease_id_text (lf_states f)) \<longleftrightarrow> le_state l \<in> set (lf_states f)"
    using lease_ids.text_of_eq by auto
  ultimately show ?thesis unfolding query_matches_def filter_lease_def by blast
qed

section \<open>A key names one lease\<close>

lemma follow_by_key:
  assumes "leases_follow s t" and "lease_by_key k (lw_leases s) = Some r"
  shows "\<exists>r'. lease_by_key k (lw_leases t) = Some r' \<and> lease_kept r r'"
proof -
  from assms(1) obtain olds new where t: "lw_leases t = olds @ new"
    "list_all2 lease_kept (lw_leases s) olds" by (auto simp: leases_follow_def)
  have "\<exists>r'. find (\<lambda>r. lr_idempotency_key r = Some k) (olds @ new) = Some r' \<and> lease_kept r r'"
    using t(2) assms(2) unfolding lease_by_key_def
    by (induction rule: list_all2_induct) (auto simp: lease_kept_def split: if_splits)
  with t(1) show ?thesis by (simp add: lease_by_key_def)
qed


lemma new_row_fields:
  "lr_idempotency_key (new_lease_row i new owner now m (Some (k, f))) = Some k"
  "lr_idempotency_fingerprint (new_lease_row i new owner now m (Some (k, f))) = Some f"
  by (simp_all add: new_lease_row_def)


lemma find_append: "find P (xs @ ys) = (case find P xs of None \<Rightarrow> find P ys | Some x \<Rightarrow> Some x)"
  by (induction xs) auto

lemma insert_row_Inr:
  assumes "insert_lease_row i new x u = (Inr (), t)"
  shows "nl_ttl_seconds new \<noteq> 0 \<and> t = u\<lparr>lw_leases := lw_leases u @ [x]\<rparr> \<and> lease_by_id i (lw_leases u) = None"
  using assms
  by (auto simp: insert_lease_row_def act_simps lease_insert_refused_def lease_by_id_def find_None_iff list_ex_iff
      split: if_splits)

lemma lease_get_Inr:
  assumes "lease_get i s = (Inr l, t)"
  shows "lw_leases t = lw_leases s \<and> (\<exists>r. lease_by_id i (lw_leases s) = Some r \<and> l = row_to_lease r)"
proof -
  obtain u where st: "lab_statement ''get'' s = (Inr (), u)"
    using assms by (auto simp: lease_get_def andthen_Inr)
  with assms statement_run [OF st] show ?thesis
    by (auto simp: lease_get_def act_simps split: option.splits)
qed

lemma create_keyed_steps:
  assumes "lease_create_keyed new owner now key fp s = (Inr (LeaseCreated l), t)"
  obtains i m u v where "lease_by_key key (lw_leases u) = None \<or> nl_ttl_seconds new = 0"
    and "insert_lease_row i new (new_lease_row i new owner now m (Some (key, fp))) u = (Inr (), v)"
    and "lease_get i v = (Inr l, t)"
  using assms
  apply (simp add: lease_create_keyed_def act_Inr andthen_Inr)
  apply (elim exE conjE)
  apply (simp add: act_simps split: if_splits option.splits sum.splits prod.splits)
  done

lemma create_keyed_created:
  assumes "lease_create_keyed new owner now key fp s = (Inr (LeaseCreated l), t)"
  shows "\<exists>r. lease_by_key key (lw_leases t) = Some r \<and> lr_idempotency_fingerprint r = Some fp \<and> l = row_to_lease r"
proof -
  obtain i m u v where u: "lease_by_key key (lw_leases u) = None \<or> nl_ttl_seconds new = 0"
    and ins: "insert_lease_row i new (new_lease_row i new owner now m (Some (key, fp))) u = (Inr (), v)"
    and g: "lease_get i v = (Inr l, t)"
    using assms by (rule create_keyed_steps)
  let ?x = "new_lease_row i new owner now m (Some (key, fp))"
  note v = insert_row_Inr [OF ins]
  note t = lease_get_Inr [OF g]
  have "find (\<lambda>r. lr_idempotency_key r = Some key) (lw_leases u) = None"
    using u v by (simp add: lease_by_key_def)
  with v have key: "lease_by_key key (lw_leases v) = Some ?x"
    by (auto simp: lease_by_key_def find_append new_row_fields)
  have "lease_by_id i (lw_leases v) = Some ?x"
    using v by (auto simp: lease_by_id_def find_append new_lease_row_def)
  with t key show ?thesis by (intro exI [of _ ?x]) (auto simp: new_row_fields)
qed

lemma created_under_key:
  assumes "create_lease_idempotent lb az who new (Some k) now s = (Inr (l, True), t)"
  shows "\<exists>scope fp r. lease_idempotency_scope lb who k new = Inr (scope, fp) \<and>
    lease_by_key scope (lw_leases t) = Some r \<and> lr_idempotency_fingerprint r = Some fp \<and> l = row_to_lease r"
proof -
  obtain scope fp u where sc: "lease_idempotency_scope lb who k new = Inr (scope, fp)"
    and c: "create_new_lease lb az who new (Some (scope, fp)) now u = (Inr (l, True), t)"
    using assms
    by (auto simp: create_lease_idempotent_def act_Inr lift_Inr replayed_lease_def split: option.splits if_splits)
  obtain v project w where i: "insert_lease who v (inherit_lease new v project) (Some (scope, fp)) now w = (Inr (l, True), t)"
    using c by (auto simp: create_new_lease_def act_Inr)
  have "lease_create_keyed (inherit_lease new v project) (resource_owner who) now scope fp w = (Inr (LeaseCreated l), t)"
  proof (cases "lease_create_keyed (inherit_lease new v project) (resource_owner who) now scope fp w")
    case (Pair y w')
    with i show ?thesis
      by (cases y; cases "projr y") (auto simp: insert_lease_def lab_backend_def andthen_def map_err_def ret_def
          lift_def replayed_lease_def split: prod.splits sum.splits if_splits)
  qed
  from create_keyed_created [OF this] sc show ?thesis by blast
qed

lemma replay_answer:
  assumes "lab_allow az who LabLease (Some (nl_template_version_id new)) = Inr ()"
    and "lease_idempotency_scope lb who k new = Inr (scope, fp)"
    and "lease_by_key scope (lw_leases s) = Some r" and "lr_idempotency_fingerprint r = Some stored"
    and "w_faults s = []"
  shows "create_lease_idempotent lb az who new (Some k) now s = (replayed_lease (row_to_lease r) stored fp, s)"
  using assms
  by (simp add: create_lease_idempotent_def lab_backend_def lease_find_key_def lab_statement_def external_def act_simps
      split: sum.splits)


section \<open>Publishing\<close>

text \<open>Published versions are only added: a version found once is found for ever.\<close>

definition version_by_id :: "string \<Rightarrow> template_version list \<Rightarrow> template_version option" where
  "version_by_id i vs = find (\<lambda>v. tv_id v = i) vs"

definition versions_kept :: "'z lab_world_scheme \<Rightarrow> 'z lab_world_scheme \<Rightarrow> bool" where
  "versions_kept s t \<longleftrightarrow> (\<forall>i v. version_by_id i (lw_versions s) = Some v \<longrightarrow> version_by_id i (lw_versions t) = Some v)"

interpretation frozen: effect_relation "versions_kept :: 'z lab_world_scheme \<Rightarrow> 'z lab_world_scheme \<Rightarrow> bool"
  by unfold_locales (auto simp: versions_kept_def)

lemma same_versions_kept: "lw_versions t = lw_versions s \<Longrightarrow> versions_kept s t"
  by (simp add: versions_kept_def)

lemma frame_frozen: "within world_frame m \<Longrightarrow> within (versions_kept :: 'z lab_world_scheme \<Rightarrow> _) m"
  by (rule withinI, rule same_versions_kept, rule frame_versions, rule within_snd)

lemma templates_frozen: "(\<And>s. lw_versions (f s) = lw_versions s) \<Longrightarrow> within versions_kept (modify f)"
  by (rule withinI, rule same_versions_kept) (simp add: modify_def)

lemma insert_version_frozen: "within versions_kept (modify (\<lambda>s. if b then s else s\<lparr>lw_versions := lw_versions s @ [v]\<rparr>))"
  by (rule withinI) (auto simp: versions_kept_def modify_def version_by_id_def find_append split: option.splits)

lemma template_get_frame: "within world_frame (template_get i)"
  unfolding template_get_def by (intro frame.intros lab_statement_frame)

lemma require_template_frame: "within world_frame (require_template i)"
  unfolding require_template_def lab_lookup_def by (intro frame.intros template_get_frame)

lemma undo_lab_frozen:
  fixes m :: "('z lab_world_scheme, 'e, 'a) act"
  assumes m: "within versions_kept m"
  shows "within versions_kept (atomically undo_lab m)"
proof (rule withinI)
  fix s
  obtain r t where mt: "m s = (r, t)" by fastforce
  show "versions_kept s (snd (atomically undo_lab m s))"
  proof (cases r)
    case (Inl e)
    with mt show ?thesis by (simp add: atomically_def undo_lab_def same_versions_kept)
  next
    case (Inr x)
    with mt withinD [OF m mt] show ?thesis by (simp add: atomically_def)
  qed
qed

lemmas frames_frozen = lab_statement_frame [THEN frame_frozen] fresh_uuid_frame [THEN frame_frozen]
  lab_audit_frame [THEN frame_frozen] template_get_frame [THEN frame_frozen]
  require_template_frame [THEN frame_frozen] version_get_frame [THEN frame_frozen]

lemma publish_tx_frozen: "within versions_kept (publish_tx i v)"
  unfolding publish_tx_def
  by (intro undo_lab_frozen frozen.intros frames_frozen templates_frozen insert_version_frozen) simp

lemma template_calls_frozen:
  "within versions_kept (publish_template lb az who i now)"
  "within versions_kept (update_template lb az who i c now)"
  "within versions_kept (create_template lb az who c now)"
  "within versions_kept (delete_template az who i)"
  unfolding publish_template_def update_template_def create_template_def delete_template_def version_publish_def
    template_update_def template_create_def template_delete_def lab_backend_def lab_lookup_def
  by ((intro frozen.intros frames_frozen templates_frozen publish_tx_frozen; simp)+)


lemma list_ex_version: "list_ex (\<lambda>x. tv_id x = i) vs \<longleftrightarrow> version_by_id i vs \<noteq> None"
  by (auto simp: version_by_id_def find_None_iff list_ex_iff)

lemma publish_tx_Inr:
  assumes "publish_tx i v s = (Inr b, t)"
  shows "b = (version_by_id (tv_id v) (lw_versions s) = None) \<and>
    lw_versions t = (if b then lw_versions s @ [v] else lw_versions s)"
  using assms
  by (auto simp: publish_tx_def atomically_Inr act_Inr list_ex_version split: if_splits dest!: statement_run)

lemma version_get_Inr:
  "version_get i s = (Inr v, t) \<Longrightarrow> version_by_id i (lw_versions s) = Some v \<and> lw_versions t = lw_versions s"
  by (auto simp: version_get_def version_by_id_def act_Inr dest!: statement_run)

text \<open>A publish answers the version of its id: the stored one when there is one.\<close>

lemma version_publish_Inr:
  assumes "version_publish i v s = (Inr w, t)"
  shows "version_by_id (tv_id v) (lw_versions t) = Some w \<and>
    w = (case version_by_id (tv_id v) (lw_versions s) of None \<Rightarrow> v | Some x \<Rightarrow> x)"
proof -
  obtain b u where tx: "publish_tx i v s = (Inr b, u)"
    and rest: "(if b then ret v else version_get (tv_id v)) u = (Inr w, t)"
    using assms by (auto simp: version_publish_def act_Inr)
  show ?thesis
  proof (cases b)
    case True
    with publish_tx_Inr [OF tx] rest show ?thesis
      by (auto simp: ret_def version_by_id_def find_append)
  next
    case False
    with publish_tx_Inr [OF tx] rest show ?thesis by (auto dest!: version_get_Inr)
  qed
qed

lemma publish_template_Inr:
  assumes "publish_template lb az who i now s = (Inr w, t)"
  shows "\<exists>x digest u. require_template i s = (Inr x, u) \<and>
    validate_pin lb (tc_image_version_id (lt_content x)) = Inr digest \<and>
    version_by_id (lt_id x @ ''@'' @ take 16 digest) (lw_versions t) = Some w \<and>
    w = (case version_by_id (lt_id x @ ''@'' @ take 16 digest) (lw_versions s) of
           None \<Rightarrow> frozen_version x digest who now | Some v \<Rightarrow> v)"
proof -
  obtain x u digest v where q: "require_template i s = (Inr x, u)"
    "validate_pin lb (tc_image_version_id (lt_content x)) = Inr digest"
    "lab_audit who LabConfig (Some i) ''lab_template_publishing'' (Some (''digest'', digest)) u = (Inr (), v)"
    "version_publish i (frozen_version x digest who now) v = (Inr w, t)"
    using assms by (auto simp: publish_template_def lab_backend_def act_Inr)
  have "lw_versions v = lw_versions s"
    using frame_versions [OF withinD [OF require_template_frame q(1)]]
      frame_versions [OF withinD [OF lab_audit_frame q(3)]] by simp
  with q version_publish_Inr [OF q(4)] show ?thesis by (auto simp: frozen_version_def)
qed

lemma require_template_id:
  assumes "require_template i s = (Inr x, u)"
  shows "lt_id x = i \<and> find (\<lambda>t. lt_id t = i) (lw_templates s) = Some x"
  using assms
  by (auto simp: require_template_def lab_lookup_def template_get_def act_Inr dest!: statement_run dest: find_Some_in)

text \<open>The content of a template after an update is the content given.\<close>

lemma update_template_content:
  assumes "update_template lb az who i c now s = (Inr x, t)"
  shows "lt_content x = c \<and> find (\<lambda>t. lt_id t = i) (lw_templates t) = Some x"
proof -
  have map_find: "find (\<lambda>t. lt_id t = i) (map (\<lambda>t. if lt_id t = i then t\<lparr>lt_content := c, lt_updated_at := now\<rparr> else t) ts)
      = map_option (\<lambda>t. t\<lparr>lt_content := c, lt_updated_at := now\<rparr>) (find (\<lambda>t. lt_id t = i) ts)" for ts
    by (induction ts) auto
  obtain u where "template_update i c now u = (Inr x, t)"
    using assms by (auto simp: update_template_def act_Inr)
  then show ?thesis
    by (auto simp: template_update_def template_get_def act_Inr map_find split: if_splits dest!: statement_run)
qed

lemma publish_ignores_edit:
  assumes first: "publish_template lb az who i now s = (Inr v, t)" and id_v: "tv_id v = i @ ''@'' @ take 16 digest"
    and edit: "update_template lb az' who' i c now' t = (Inr x, u)"
    and pin: "lb_promoted lb (tc_image_version_id c) = Inr (Some digest)"
    and again: "publish_template lb az'' who'' i now'' u = (Inr w, z)"
  shows "w = v \<and> lt_content x = c"
proof -
  obtain y d p where y: "require_template i s = (Inr y, p)"
      "version_by_id (lt_id y @ ''@'' @ take 16 d) (lw_versions t) = Some v"
    using publish_template_Inr [OF first] by blast
  then have "tv_id v = i @ ''@'' @ take 16 d"
    using require_template_id [OF y(1)] by (auto simp: version_by_id_def dest: find_Some_in)
  with id_v y require_template_id [OF y(1)]
  have "version_by_id (i @ ''@'' @ take 16 digest) (lw_versions t) = Some v" by simp
  then have stored: "version_by_id (i @ ''@'' @ take 16 digest) (lw_versions u) = Some v"
    using withinD [OF template_calls_frozen(2) edit] by (simp add: versions_kept_def)
  obtain x' d' p' where x': "require_template i u = (Inr x', p')"
      "validate_pin lb (tc_image_version_id (lt_content x')) = Inr d'"
      "w = (case version_by_id (lt_id x' @ ''@'' @ take 16 d') (lw_versions u) of
           None \<Rightarrow> frozen_version x' d' who'' now'' | Some v \<Rightarrow> v)"
    using publish_template_Inr [OF again] by blast
  have "lt_id x' = i" "lt_content x' = c"
    using require_template_id [OF x'(1)] update_template_content [OF edit] by auto
  moreover from this(2) pin x'(2) have "d' = digest" by (simp add: validate_pin_def)
  ultimately have "w = v" using x'(3) stored by simp
  with update_template_content [OF edit] show ?thesis by simp
qed

end
