(* ===== verification/Lab_Properties.thy ===== *)
theory Lab_Properties
  imports Lab_Contracts
begin

text \<open>
  The properties of the Lab, each with a concrete store or run that shows it.
\<close>

section \<open>Concrete stores\<close>

definition demo_lab :: "lease_row list \<Rightarrow> provision list \<Rightarrow> lab_template list \<Rightarrow> template_version list \<Rightarrow> lab_world" where
  "demo_lab leases provisions templates versions =
     \<lparr>w_now = 10, w_faults = [], w_uuid = (\<lambda>n. ''u'' @ decimal n), w_uuid_no = 0, w_ledger = [],
      w_pending_since = 0, ow_rows = [], ow_hub = hub_new ''e'' 4, lw_leases = leases,
      lw_provisions = provisions, lw_templates = templates, lw_versions = versions\<rparr>"

lemma demo_lab_sel [simp]:
  "w_faults (demo_lab a b c d) = []" "lw_leases (demo_lab a b c d) = a" "lw_provisions (demo_lab a b c d) = b"
  "lw_templates (demo_lab a b c d) = c" "lw_versions (demo_lab a b c d) = d" "w_now (demo_lab a b c d) = 10"
  by (simp_all add: demo_lab_def)

definition demo_lease :: "string \<Rightarrow> string \<Rightarrow> lease_state \<Rightarrow> string option \<Rightarrow> int option \<Rightarrow> lease_row" where
  "demo_lease i owner st p e =
     \<lparr>lr_lease = \<lparr>le_id = i, le_template_version_id = ''t@1'', le_owner = owner, le_purpose = ''ci run'',
        le_project_id = None, le_state = st, le_provision_id = p, le_cleanup = Destroy, le_ttl_seconds = 60,
        le_created_at = 0, le_max_lifetime_at = 2592000000, le_ready_at = None, le_expires_at = e,
        le_cleanup_attempts = 0, le_cleanup_next_at = None\<rparr>,
      lr_max_lifetime_at = Some 2592000000, lr_idempotency_key = None, lr_idempotency_fingerprint = None\<rparr>"

lemma demo_lease_sel [simp]:
  "row_id (demo_lease i w st p e) = i" "le_owner (lr_lease (demo_lease i w st p e)) = w"
  "le_state (lr_lease (demo_lease i w st p e)) = st" "le_expires_at (lr_lease (demo_lease i w st p e)) = e"
  "lr_max_lifetime_at (demo_lease i w st p e) = Some 2592000000" "le_id (lr_lease (demo_lease i w st p e)) = i"
  "row_cap (demo_lease i w st p e) = 2592000000" "le_created_at (lr_lease (demo_lease i w st p e)) = 0"
  by (simp_all add: demo_lease_def row_cap_def)

definition demo_provision :: "string \<Rightarrow> string \<Rightarrow> guest_state \<Rightarrow> nat option \<Rightarrow> string \<Rightarrow> provision" where
  "demo_provision i l st vmid account =
     (new_provision_row i \<lparr>np_template_version_id = ''t@1'', np_lease_id = Some l, np_idempotency_key = None,
        np_readiness_deadline_at = None\<rparr> 0)\<lparr>pv_state := st, pv_vmid := vmid, pv_account_id := Some account\<rparr>"

lemma demo_provision_sel [simp]:
  "pv_id (demo_provision i l st v a) = i" "pv_lease_id (demo_provision i l st v a) = Some l"
  "pv_state (demo_provision i l st v a) = st" "pv_vmid (demo_provision i l st v a) = v"
  "pv_account_id (demo_provision i l st v a) = Some a" "pv_clone_upid (demo_provision i l st v a) = None"
  "pv_created_at (demo_provision i l st v a) = 0"
  by (simp_all add: demo_provision_def new_provision_row_def)

section \<open>Properties\<close>

text \<open>
  C9. However Lab calls interleave, statements fail and copies read earlier are written back,
  no lease has a deadline later than thirty days after its creation, and no lease disappears
  or changes its owner, purpose, project, template version or creation key.
\<close>

theorem lease_lifetime_bounded:
  assumes "lab_step\<^sup>*\<^sup>* (s, {}) (t, C)"
    and "distinct (map row_id (lw_leases s))" and "list_all row_sound (lw_leases s)"
  shows "list_all (\<lambda>r. opt_all (\<lambda>e. e \<le> le_created_at (lr_lease r) + 30 * 24 * 3600 * 1000)
             (le_expires_at (lr_lease r))) (lw_leases t) \<and>
    list_all2 lease_kept (lw_leases s) (take (length (lw_leases s)) (lw_leases t))"
proof -
  have "lab_sound (s, {})" using assms(2,3) by (simp add: lab_sound_def)
  with steps_follow [OF assms(1)] have f: "leases_follow s t" and "lab_sound (t, C)" by auto
  then have "list_all row_sound (lw_leases t)" by (simp add: lab_sound_def)
  then have "list_all (\<lambda>r. opt_all (\<lambda>e. e \<le> le_created_at (lr_lease r) + 30 * 24 * 3600 * 1000)
             (le_expires_at (lr_lease r))) (lw_leases t)"
    by (rule list.pred_mono_strong)
       (auto simp: row_sound_def deadline_ok_def max_lab_lease_lifetime_millis_def opt_all_def split: option.splits)
  moreover have "list_all2 lease_kept (lw_leases s) (take (length (lw_leases s)) (lw_leases t))"
  proof -
    from f obtain olds new where "lw_leases t = olds @ new" "list_all2 lease_kept (lw_leases s) olds"
      by (auto simp: leases_follow_def)
    then show ?thesis using list_all2_lengthD by fastforce
  qed
  ultimately show ?thesis ..
qed

definition one_ready :: lab_world where
  "one_ready = demo_lab [demo_lease ''l1'' ''u'' LeaseReady None (Some 50)] [] [] []"

lemma plain_event:
  "lab_metadata ''lab_lease_extension_requested'' None = Inr [(''event'', ''lab_lease_extension_requested'')]"
  by code_simp

lemmas lease_call_defs = find_lease_def lab_lookup_def lease_get_def lab_statement_def act_simps external_def
  lab_allow_def authorize_def allow_all_def decision_allow_def lease_by_id_def scope_lease_def owner_scope_permits_def
  delegated_owner_identity_def strip_prefix_def starts_with_def delegated_principal_prefix_def row_to_lease_def
  lab_audit_def record_intent_ok lab_backend_def update_leases_def

lemma one_extended:
  "\<exists>t. snd (extend_lease allow_all ''u'' ''l1'' 60 10 one_ready) = t \<and>
     map (\<lambda>r. le_expires_at (lr_lease r)) (lw_leases t) = [Some 60050]"
  apply (intro exI conjI)
   apply (simp add: extend_lease_def one_ready_def lease_call_defs plain_event extend_ready_def extend_expiry_def
     checked_i64_def in_i64_def i64_min_def i64_max_def)
  apply simp
  done

lemma one_ready_sound: "distinct (map row_id (lw_leases one_ready)) \<and> list_all row_sound (lw_leases one_ready)"
  by (simp add: one_ready_def row_sound_def deadline_ok_def max_lab_lease_lifetime_millis_def opt_all_def)

theorem lease_lifetime_bounded_witness:
  "\<exists>t. lab_step\<^sup>*\<^sup>* (one_ready, {}) (t, {}) \<and>
     map (\<lambda>r. le_expires_at (lr_lease r)) (lw_leases t) = [Some 60050] \<and>
     list_all2 lease_kept (lw_leases one_ready) (take 1 (lw_leases t))"
proof -
  obtain t where t: "snd (extend_lease allow_all ''u'' ''l1'' 60 10 one_ready) = t"
    "map (\<lambda>r. le_expires_at (lr_lease r)) (lw_leases t) = [Some 60050]"
    using one_extended by (elim exE conjE) (rule that)
  have "lab_step (one_ready, {}) (snd (extend_lease allow_all ''u'' ''l1'' 60 10 one_ready), {})" by (rule step_extend)
  then have run: "lab_step\<^sup>*\<^sup>* (one_ready, {}) (t, {})" unfolding t(1) by (rule r_into_rtranclp)
  have "length (lw_leases one_ready) = 1" by (simp add: one_ready_def)
  with lease_lifetime_bounded [OF run] one_ready_sound
  have "list_all2 lease_kept (lw_leases one_ready) (take 1 (lw_leases t))" by simp
  with run t(2) show ?thesis by (intro exI conjI)
qed

text \<open>
  C13. However many extensions and expiry claims that observed the same deadline of a lease
  compete, and in whatever order the store runs them, at most one takes effect.
\<close>

theorem deadline_has_one_winner:
  assumes "distinct (map row_id (lw_leases s))"
    and "\<forall>m \<in> set moves. observed m = e \<and> move_target m \<noteq> (LeaseReady, Some e)"
  shows "winners (fst (cas_run deadline_cas i moves s)) \<le> 1"
  using assms by (intro deadline.at_most_one [where a = "(LeaseReady, Some e)"]) auto

theorem deadline_has_one_winner_witness:
  "fst (cas_run deadline_cas ''l1'' [ExtendTo 50 10 60, ExpireAt 50 60] one_ready) = [True, False] \<and>
   winners (fst (cas_run deadline_cas ''l1'' [ExtendTo 50 10 60, ExpireAt 50 60] one_ready)) \<le> 1"
proof
  show "fst (cas_run deadline_cas ''l1'' [ExtendTo 50 10 60, ExpireAt 50 60] one_ready) = [True, False]"
    by (simp add: deadline_cas_def, simp add: extend_ready_def claim_for_release_def,
        simp add: act_simps lab_statement_def, simp add: external_def one_ready_def, simp add: update_leases_def)
  show "winners (fst (cas_run deadline_cas ''l1'' [ExtendTo 50 10 60, ExpireAt 50 60] one_ready)) \<le> 1"
    by (rule deadline_has_one_winner [where e = 50]) (simp_all add: one_ready_def)
qed






text \<open>
  Whatever failures and re-arms a lease goes through, each cleanup attempt has an operation
  key of its own, and a failed attempt is due again one to eight minutes later, or its round of
  five has ended.
\<close>

theorem cleanup_rounds:
  assumes "le_cleanup_attempts l + 6 * length es < u32_max"
  shows "distinct (fst (cleanup_run lb l es)) \<and>
    le_cleanup_next_at (record_cleanup_failure l now) \<in>
      {None, Some (saturating_add now 60000), Some (saturating_add now 120000), Some (saturating_add now 240000),
       Some (saturating_add now 480000)} \<and>
    (le_cleanup_next_at (record_cleanup_failure l now) = None \<longleftrightarrow> Suc (le_cleanup_attempts l) mod 5 = 0)"
proof (intro conjI)
  show "distinct (fst (cleanup_run lb l es))"
    using cleanup_run_keys [OF assms] attempt_keys_distinct by metis
  have n: "u32_succ (le_cleanup_attempts l) = Suc (le_cleanup_attempts l)" using assms by (simp add: u32_succ_def)
  have "Suc (le_cleanup_attempts l) mod 5 \<in> {0, 1, 2, 3, 4}" using mod_less_divisor [of 5] by auto
  then show "le_cleanup_next_at (record_cleanup_failure l now) \<in>
      {None, Some (saturating_add now 60000), Some (saturating_add now 120000), Some (saturating_add now 240000),
       Some (saturating_add now 480000)}"
    by (auto simp: record_cleanup_failure_def Let_def n max_cleanup_attempts_def cleanup_backoff_millis_def)
  show "le_cleanup_next_at (record_cleanup_failure l now) = None \<longleftrightarrow> Suc (le_cleanup_attempts l) mod 5 = 0"
    by (simp add: record_cleanup_failure_def Let_def n max_cleanup_attempts_def)
qed

definition plain_lab :: lab where
  "plain_lab = \<lparr>lb_print = (\<lambda>_. ''{}''), lb_projects = (\<lambda>_. Inr ()),
     lb_promoted = (\<lambda>_. Inr (Some ''0123456789abcdef'')), lb_members = None\<rparr>"

theorem cleanup_rounds_witness:
  "distinct (fst (cleanup_run plain_lab (lr_lease (demo_lease ''l1'' ''u'' LeaseReleasing None None))
     [AttemptFailed 0, AttemptFailed 60000, OperatorRearm, AttemptFailed 180000]))"
  using cleanup_rounds [of "lr_lease (demo_lease ''l1'' ''u'' LeaseReleasing None None)"
      "[AttemptFailed 0, AttemptFailed 60000, OperatorRearm, AttemptFailed 180000]" plain_lab]
  by (simp add: demo_lease_def u32_max_def)

text \<open>
  C12. To a delegated credential a lease of another owner does not exist: reading, releasing,
  extending, retrying, executing and provisioning it answer exactly as in a store without the
  lease, and change no table and no audit record.
\<close>

theorem foreign_leases_hidden:
  assumes "foreign_lease who i s"
  shows "sees_nothing (get_lease az who i) i s \<and> sees_nothing (release_lease az who i keep) i s \<and>
    sees_nothing (extend_lease az who i n now) i s \<and> sees_nothing (retry_cleanup az who i) i s \<and>
    sees_nothing (exec_lease lb az who i script timeout session key now) i s \<and>
    sees_nothing (start_lease_provision lb az who i key now) i s"
  using calls_hidden [OF assms] by simp

theorem foreign_leases_hidden_witness:
  "sees_nothing (extend_lease allow_all ''credential:bob:c1'' ''l1'' 60 10) ''l1'' one_ready \<and>
   sees_nothing (get_lease allow_all ''credential:bob:c1'' ''l1'') ''l1'' one_ready"
proof -
  have "foreign_lease ''credential:bob:c1'' ''l1'' one_ready"
    by (simp add: foreign_lease_def one_ready_def lease_by_id_def owner_scope_permits_def) code_simp
  from foreign_leases_hidden [OF this] show ?thesis by blast
qed

text \<open>
  On purposes and prefixes in UTF-8 the columns of the search query select exactly the
  leases the filter of the interface describes.
\<close>

theorem search_query_exact:
  assumes "utf8 (le_purpose l)" and "opt_all utf8 (lf_purpose_prefix f)"
  shows "query_matches f l = filter_lease f l"
  using query_is_filter [OF assms] by simp

definition ci_filter :: lease_filter where
  "ci_filter = \<lparr>lf_project_id = None, lf_purpose = None, lf_purpose_prefix = Some ''ci'', lf_states = [LeaseReady],
     lf_owner = None\<rparr>"

theorem search_query_exact_witness:
  "query_matches ci_filter (lr_lease (demo_lease ''l1'' ''u'' LeaseReady None None)) =
   filter_lease ci_filter (lr_lease (demo_lease ''l1'' ''u'' LeaseReady None None))"
proof (rule search_query_exact)
  have "utf8 ''ci run''" "utf8 ''ci''" by code_simp+
  then show "utf8 (le_purpose (lr_lease (demo_lease ''l1'' ''u'' LeaseReady None None)))"
    "opt_all utf8 (lf_purpose_prefix ci_filter)" by (simp_all add: demo_lease_def ci_filter_def opt_all_def)
qed

text \<open>The answer to a second keyed request.\<close>

lemma second_answer:
  assumes "create_lease_idempotent lb az who new (Some k) now s = (Inr (l', made), v)"
    and "lease_idempotency_scope lb who k new = Inr (scope, fp)"
    and "lease_by_key scope (lw_leases s) = Some r" and "lr_idempotency_fingerprint r = Some stored"
  shows "\<not> made \<and> l' = row_to_lease r \<and> stored = fp \<and> lw_leases v = lw_leases s"
proof -
  obtain found where f: "lab_backend ''leases'' (lease_find_key scope) s = (Inr found, v)"
    and rest: "found = Some (row_to_lease r, stored) \<longrightarrow> replayed_lease (row_to_lease r) stored fp = Inr (l', made)"
    and "found = Some (row_to_lease r, stored)"
  proof -
    obtain found u where "lab_backend ''leases'' (lease_find_key scope) s = (Inr found, u)"
      and tail: "(case found of Some (l, stored) \<Rightarrow> lift (replayed_lease l stored fp)
         | None \<Rightarrow> create_new_lease lb az who new (Some (scope, fp)) now) u = (Inr (l', made), v)"
      using assms(1,2) by (auto simp: create_lease_idempotent_def act_Inr)
    moreover from this(1) have "found = Some (row_to_lease r, stored)"
      using assms(3,4) by (auto simp: lab_backend_def lease_find_key_def act_Inr dest!: statement_run)
    ultimately show ?thesis using that by (auto simp: lift_def)
  qed
  moreover from f have "lw_leases v = lw_leases s"
    by (auto simp: lab_backend_def lease_find_key_def act_Inr dest!: statement_run)
  ultimately show ?thesis by (auto simp: replayed_lease_def split: if_splits)
qed

text \<open>
  C11. An idempotency key names one lease: once a keyed creation has succeeded, then after any
  later Lab calls every answer to that key of that owner is the same lease, for the same
  request, and creates nothing.
\<close>

theorem key_names_one_lease:
  assumes "create_lease_idempotent lb az who new (Some k) now s = (Inr (l, True), t)"
    and "distinct (map row_id (lw_leases t))" and "list_all row_sound (lw_leases t)"
    and "lab_step\<^sup>*\<^sup>* (t, {}) (u, C)"
    and "resource_owner who' = resource_owner who"
    and "create_lease_idempotent lb az' who' new' (Some k) now' u = (Inr (l', made), v)"
  shows "\<not> made \<and> le_id l' = le_id l \<and> lw_leases v = lw_leases u \<and> lease_fingerprint lb new' = lease_fingerprint lb new"
proof -
  from created_under_key [OF assms(1)] obtain scope fp r where
    scope: "lease_idempotency_scope lb who k new = Inr (scope, fp)" and
    r: "lease_by_key scope (lw_leases t) = Some r" "lr_idempotency_fingerprint r = Some fp" "l = row_to_lease r" by blast
  have "lab_sound (t, {})" using assms(2,3) by (simp add: lab_sound_def)
  with steps_follow [OF assms(4)] have "leases_follow t u" by simp
  from follow_by_key [OF this r(1)] obtain r' where r': "lease_by_key scope (lw_leases u) = Some r'" "lease_kept r r'"
    by blast
  have scope': "lease_idempotency_scope lb who' k new' = Inr (scope, lease_fingerprint lb new')"
    and fp: "fp = lease_fingerprint lb new"
    using scope assms(5) by (auto simp: lease_idempotency_scope_def split: if_splits)
  have "lr_idempotency_fingerprint r' = Some fp" using r' r(2) by (simp add: lease_kept_def)
  from second_answer [OF assms(6) scope' r'(1) this] r'(2) r(3) fp show ?thesis
    by (simp add: row_to_lease_def lease_kept_def)
qed

text \<open>
  C28. Publishing an edited draft whose pinned image is unchanged succeeds without publishing
  it: the version id does not depend on the content, so the answer is the version published
  before the edit.
\<close>

theorem republish_returns_first_version:
  assumes "publish_template lb az who i now s = (Inr v, t)" and "tv_id v = i @ ''@'' @ take 16 digest"
    and "update_template lb az' who' i c now' t = (Inr x, u)"
    and "lb_promoted lb (tc_image_version_id c) = Inr (Some digest)"
    and "publish_template lb az'' who'' i now'' u = (Inr w, z)"
  shows "w = v \<and> lt_content x = c"
  using assms by (rule publish_ignores_edit)

text \<open>Calls without a failing statement.\<close>

lemma lab_statement_ok: "w_faults s = [] \<Longrightarrow> lab_statement c s = (Inr (), s)"
  by (simp add: lab_statement_def map_err_def external_def)

lemma audit_ok:
  assumes "lab_metadata event e = Inr m" and "w_faults s = []"
  obtains t where "lab_audit who a r event e s = (Inr (), t)" "world.more t = world.more s" "w_faults t = []" "w_now t = w_now s"
proof -
  have "lab_audit who a r event e s = (Inr (), snd (lab_audit who a r event e s)) \<and>
     world.more (snd (lab_audit who a r event e s)) = world.more s \<and> w_faults (snd (lab_audit who a r event e s)) = [] \<and>
     w_now (snd (lab_audit who a r event e s)) = w_now s"
    using assms by (simp add: lab_audit_def lab_backend_def act_simps record_intent_ok)
  with that show ?thesis by blast
qed

lemma world_more_tables:
  fixes s t :: "'z lab_world_scheme"
  assumes "world.more t = world.more s"
  shows "lw_leases t = lw_leases s" "lw_provisions t = lw_provisions s" "lw_templates t = lw_templates s"
    "lw_versions t = lw_versions s"
  using assms by (cases s; cases t; simp)+

lemma lab_allow_ok: "requires_resource p \<longrightarrow> r \<noteq> None \<Longrightarrow> lab_allow allow_all who p r = Inr ()"
  by (simp add: lab_allow_def authorize_def allow_all_def decision_allow_def)

definition draft_content :: "nat \<Rightarrow> template_content" where
  "draft_content cores = default_content\<lparr>tc_name := ''ci'', tc_image_version_id := ''img'', tc_cores := cores,
     tc_memory_mib := 2048, tc_disk_gib := 10, tc_readiness_deadline_seconds := 60, tc_ttl_seconds := 60\<rparr>"

definition draft_store :: lab_world where
  "draft_store = demo_lab [] [] [\<lparr>lt_id = ''t'', lt_content = draft_content 2, lt_published_from = None,
     lt_created_at = 0, lt_updated_at = 0\<rparr>] []"

lemma draft_checks:
  "content_ok (draft_content 4) = Inr ()" "validate_pin plain_lab (tc_image_version_id (draft_content n)) = Inr ''0123456789abcdef''"
  "lab_metadata ''lab_template_publishing'' (Some (''digest'', ''0123456789abcdef'')) =
     Inr [(''digest'', ''0123456789abcdef''), (''event'', ''lab_template_publishing'')]"
  "lab_metadata ''lab_template_updating'' None = Inr [(''event'', ''lab_template_updating'')]"
  subgoal by (simp add: content_ok_def content_validate_def draft_content_def default_content_def refuse_when_def
      validate_ssh_def validate_interactive_user_def validate_lab_hardware_def char_count_def first_char_in_def is_ascii_alnum_def is_ascii_lower_def is_ascii_upper_def is_ascii_digit_def
      is_continuation_def)
  subgoal by (simp add: validate_pin_def plain_lab_def draft_content_def)
  subgoal by code_simp
  subgoal by code_simp
  done

text \<open>Publishing template \<open>t\<close> in a store where it has the content given.\<close>

lemma publish_run:
  assumes "w_faults s = []" and "lw_templates s = [x]" and "lt_id x = ''t''" and "lt_content x = draft_content n"
  obtains t where "publish_template plain_lab allow_all who ''t'' now s =
      (Inr (case version_by_id ''t@0123456789abcdef'' (lw_versions s) of None \<Rightarrow> frozen_version x ''0123456789abcdef'' who now | Some v \<Rightarrow> v), t)"
    "w_faults t = []" "lw_templates t = [x\<lparr>lt_published_from := Some ''t@0123456789abcdef''\<rparr>]"
proof -
  obtain u where u: "lab_audit who LabConfig (Some ''t'') ''lab_template_publishing'' (Some (''digest'', ''0123456789abcdef'')) s = (Inr (), u)"
    "world.more u = world.more s" "w_faults u = []"
    using audit_ok [OF draft_checks(3) assms(1)] by metis
  note tables = world_more_tables [OF u(2)]
  have id: "tv_id (frozen_version x ''0123456789abcdef'' who now) = ''t@0123456789abcdef''"
    using assms(3) by (simp add: frozen_version_def)
  have r: "require_template ''t'' s = (Inr x, s)"
    using assms by (simp add: require_template_def lab_lookup_def template_get_def act_simps lab_statement_ok)
  let ?v = "frozen_version x ''0123456789abcdef'' who now"
  let ?s = "u\<lparr>lw_templates := [x\<lparr>lt_published_from := Some ''t@0123456789abcdef''\<rparr>]\<rparr>"
  have tx: "publish_tx ''t'' ?v u = (Inr (version_by_id ''t@0123456789abcdef'' (lw_versions s) = None),
      if version_by_id ''t@0123456789abcdef'' (lw_versions s) = None then ?s\<lparr>lw_versions := lw_versions s @ [?v]\<rparr> else ?s)"
    using assms(2,3) u(3) tables id
    by (simp add: publish_tx_def atomically_def act_simps lab_statement_ok list_ex_version)
  have p: "\<exists>t. version_publish ''t'' ?v u = (Inr (case version_by_id ''t@0123456789abcdef'' (lw_versions s) of None \<Rightarrow> ?v | Some v \<Rightarrow> v), t) \<and>
     w_faults t = [] \<and> lw_templates t = [x\<lparr>lt_published_from := Some ''t@0123456789abcdef''\<rparr>]"
  proof (cases "version_by_id ''t@0123456789abcdef'' (lw_versions s)")
    case None
    with tx u(3) show ?thesis by (simp add: version_publish_def act_simps)
  next
    case (Some v)
    then have "find (\<lambda>v. tv_id v = ''t@0123456789abcdef'') (lw_versions s) = Some v" by (simp add: version_by_id_def)
    with Some tx u(3) id tables show ?thesis by (simp add: version_publish_def act_simps version_get_def lab_statement_ok)
  qed
  then obtain t where t: "version_publish ''t'' ?v u = (Inr (case version_by_id ''t@0123456789abcdef'' (lw_versions s) of None \<Rightarrow> ?v | Some v \<Rightarrow> v), t)"
     "w_faults t = []" "lw_templates t = [x\<lparr>lt_published_from := Some ''t@0123456789abcdef''\<rparr>]" by blast
  have "publish_template plain_lab allow_all who ''t'' now s =
      (Inr (case version_by_id ''t@0123456789abcdef'' (lw_versions s) of None \<Rightarrow> ?v | Some v \<Rightarrow> v), t)"
    using t(1) by (simp add: publish_template_def act_simps lab_allow_ok r assms(4) draft_checks u(1) lab_backend_def)
  from this t(2,3) show ?thesis by (rule that)
qed

lemma update_run:
  assumes "w_faults s = []" and "lw_templates s = [x]" and "lt_id x = ''t''"
  obtains t where "update_template plain_lab allow_all who ''t'' (draft_content 4) now s =
      (Inr (x\<lparr>lt_content := draft_content 4, lt_updated_at := now\<rparr>), t)"
    "w_faults t = []" "lw_templates t = [x\<lparr>lt_content := draft_content 4, lt_updated_at := now\<rparr>]"
proof -
  obtain u where u: "lab_audit who LabConfig (Some ''t'') ''lab_template_updating'' None s = (Inr (), u)"
    "world.more u = world.more s" "w_faults u = []"
    using audit_ok [OF draft_checks(4) assms(1)] by metis
  have tables: "lw_templates u = [x]" using world_more_tables [OF u(2)] assms(2) by simp
  let ?x = "x\<lparr>lt_content := draft_content 4, lt_updated_at := now\<rparr>"
  have "template_update ''t'' (draft_content 4) now u = (Inr ?x, u\<lparr>lw_templates := [?x]\<rparr>)"
    using tables u(3) assms(3) by (simp add: template_update_def template_get_def act_simps lab_statement_ok)
  then have "update_template plain_lab allow_all who ''t'' (draft_content 4) now s = (Inr ?x, u\<lparr>lw_templates := [?x]\<rparr>)"
    by (simp add: update_template_def act_simps lab_allow_ok draft_checks u(1))
  then show ?thesis by (rule that) (simp_all add: u(3))
qed

theorem republish_returns_first_version_witness:
  "\<exists>v t x u z. publish_template plain_lab allow_all ''op'' ''t'' 5 draft_store = (Inr v, t) \<and>
     update_template plain_lab allow_all ''op'' ''t'' (draft_content 4) 6 t = (Inr x, u) \<and>
     publish_template plain_lab allow_all ''op'' ''t'' 7 u = (Inr v, z) \<and>
     tc_cores (lt_content x) = 4 \<and> tc_cores (tv_content v) = 2"
proof -
  let ?d = "\<lparr>lt_id = ''t'', lt_content = draft_content 2, lt_published_from = None, lt_created_at = 0, lt_updated_at = 0\<rparr>"
  let ?v = "frozen_version ?d ''0123456789abcdef'' ''op'' 5"
  have s: "w_faults draft_store = []" "lw_templates draft_store = [?d]" "lw_versions draft_store = []"
    by (simp_all add: draft_store_def)
  obtain t where t: "publish_template plain_lab allow_all ''op'' ''t'' 5 draft_store = (Inr ?v, t)" "w_faults t = []"
    "lw_templates t = [?d\<lparr>lt_published_from := Some ''t@0123456789abcdef''\<rparr>]"
    by (rule publish_run [OF s(1,2), of 2 "''op''" 5]) (simp_all add: s(3) version_by_id_def)
  obtain x u where u: "update_template plain_lab allow_all ''op'' ''t'' (draft_content 4) 6 t = (Inr x, u)" "w_faults u = []"
    "lw_templates u = [x]" "lt_id x = ''t''" "lt_content x = draft_content 4"
    by (rule update_run [OF t(2,3), of "''op''" 6]) simp_all
  obtain w z where z: "publish_template plain_lab allow_all ''op'' ''t'' 7 u = (Inr w, z)"
    by (rule publish_run [OF u(2-5), of "''op''" 7])
  have "w = ?v \<and> lt_content x = draft_content 4"
    by (rule republish_returns_first_version [OF t(1) _ u(1) _ z, of "''0123456789abcdef''"])
       (simp_all add: frozen_version_def plain_lab_def)
  moreover have "tc_cores (draft_content n) = n" for n by (simp add: draft_content_def)
  ultimately show ?thesis using t(1) u(1) z
    by (intro exI [of _ ?v] exI [of _ t] exI [of _ x] exI [of _ u] exI [of _ z]) (simp add: frozen_version_def)
qed

text \<open>
  Two requests under one key: the first creates the lease, the second answers it.
\<close>

definition ci_request :: new_lease where
  "ci_request = \<lparr>nl_template_version_id = ''t@1'', nl_purpose = ''ci'', nl_project_id = None, nl_cleanup = Destroy,
     nl_ttl_seconds = 60\<rparr>"

definition version_store :: lab_world where
  "version_store = demo_lab [] [] [] [\<lparr>tv_id = ''t@1'', tv_template_id = ''t'', tv_name = ''ci'',
     tv_content = draft_content 2, tv_image_digest = ''0123456789abcdef'', tv_published_by = ''op'', tv_published_at = 0\<rparr>]"

lemma version_store_sel [simp]:
  "w_faults version_store = []" "lw_leases version_store = []"
  "find (\<lambda>v. tv_id v = ''t@1'') (lw_versions version_store) = Some \<lparr>tv_id = ''t@1'', tv_template_id = ''t'', tv_name = ''ci'',
     tv_content = draft_content 2, tv_image_digest = ''0123456789abcdef'', tv_published_by = ''op'', tv_published_at = 0\<rparr>"
  by (simp_all add: version_store_def)

definition ci_scope :: string where
  "ci_scope = the (scoped_key ''lab-lease-create'' ''u'' [''k''])"

lemma request_checks:
  "lab_metadata ''lab_lease_creating'' None = Inr [(''event'', ''lab_lease_creating'')]"
  "lease_idempotency_scope plain_lab ''u'' ''k'' ci_request = Inr (ci_scope, ''{}'')"
  "\<not> is_delegated_principal ''u''" "resource_owner ''u'' = ''u''" "check_purpose ''ci'' = Inr ()"
  subgoal by code_simp
  subgoal by (simp add: ci_scope_def lease_idempotency_scope_def lease_fingerprint_def plain_lab_def
        max_lease_idempotency_key_chars_def) code_simp
  subgoal by code_simp
  subgoal by code_simp
  subgoal by (simp add: check_purpose_def refuse_when_def char_count_def is_continuation_def)
  done

lemma first_request:
  "\<exists>t l r. create_lease_idempotent plain_lab allow_all ''u'' ci_request (Some ''k'') 10 version_store = (Inr (l, True), t) \<and>
     w_faults t = [] \<and> lw_leases t = [r] \<and> row_sound r \<and> lr_idempotency_key r = Some ci_scope \<and>
     lr_idempotency_fingerprint r = Some ''{}''"
proof -
  obtain t where t: "lab_audit ''u'' LabLease (Some ''t@1'') ''lab_lease_creating'' None version_store = (Inr (), t)"
    "world.more t = world.more version_store" "w_faults t = []"
    using audit_ok [OF request_checks(1), of version_store] version_store_sel(1) by metis
  have tables: "lw_leases t = []" using world_more_tables(1) [OF t(2)] by simp
  let ?i = "w_uuid t (w_uuid_no t)"
  let ?r = "new_lease_row ?i ci_request ''u'' 10 2592000010 (Some (ci_scope, ''{}''))"
  let ?t = "t\<lparr>w_uuid_no := Suc (w_uuid_no t), lw_leases := [?r]\<rparr>"
  have cap: "creation_cap 10 = Inr 2592000010"
    by (simp add: creation_cap_def checked_i64_def in_i64_def i64_min_def i64_max_def max_lab_lease_lifetime_millis_def)
  have id: "row_id ?r = ?i" by (simp add: new_lease_row_def)
  have "lease_create_keyed ci_request ''u'' 10 ci_scope ''{}'' t = (Inr (LeaseCreated (row_to_lease ?r)), ?t)"
    using tables t(3) cap id
    by (simp add: lease_create_keyed_def fresh_uuid_def act_simps lab_statement_ok insert_lease_row_def lease_insert_refused_def
        lease_by_key_def attempt_def lease_get_def lease_by_id_def) (simp add: ci_request_def)
  moreover have "inherit_lease ci_request v None = ci_request" if "tv_content v = draft_content 2" for v
    using that by (simp add: inherit_lease_def ci_request_def draft_content_def default_content_def)
  ultimately have "create_lease_idempotent plain_lab allow_all ''u'' ci_request (Some ''k'') 10 version_store =
      (Inr (row_to_lease ?r, True), ?t)"
    using request_checks t(1)
    by (simp add: create_lease_idempotent_def create_new_lease_def lease_version_def version_get_def act_simps lab_allow_ok
        lab_backend_def lease_find_key_def lab_statement_ok lease_by_key_def ci_request_def refuse_when_def
        resolve_lease_project_def draft_content_def default_content_def insert_lease_def)
  moreover have "row_sound ?r"
    by (simp add: row_sound_def deadline_ok_def new_lease_row_def opt_all_def row_cap_def max_lab_lease_lifetime_millis_def)
  ultimately show ?thesis
    by (intro exI [of _ ?t] exI [of _ "row_to_lease ?r"] exI [of _ ?r]) (simp add: t(3) new_lease_row_def)
qed

theorem key_names_one_lease_witness:
  "\<exists>l t l' v. create_lease_idempotent plain_lab allow_all ''u'' ci_request (Some ''k'') 10 version_store = (Inr (l, True), t) \<and>
     create_lease_idempotent plain_lab allow_all ''u'' ci_request (Some ''k'') 20 t = (Inr (l', False), v) \<and>
     le_id l' = le_id l \<and> lw_leases v = lw_leases t"
proof -
  obtain t l r where t: "create_lease_idempotent plain_lab allow_all ''u'' ci_request (Some ''k'') 10 version_store = (Inr (l, True), t)"
    "w_faults t = []" "lw_leases t = [r]" "row_sound r" "lr_idempotency_key r = Some ci_scope"
    "lr_idempotency_fingerprint r = Some ''{}''" using first_request by blast
  have "lease_by_key ci_scope (lw_leases t) = Some r" using t(3,5) by (simp add: lease_by_key_def)
  from replay_answer [OF _ request_checks(2) this t(6,2), of allow_all 20]
  have again: "create_lease_idempotent plain_lab allow_all ''u'' ci_request (Some ''k'') 20 t = (Inr (row_to_lease r, False), t)"
    by (simp add: lab_allow_ok replayed_lease_def)
  have "\<not> False \<and> le_id (row_to_lease r) = le_id l \<and> lw_leases t = lw_leases t \<and>
      lease_fingerprint plain_lab ci_request = lease_fingerprint plain_lab ci_request"
    by (rule key_names_one_lease [OF t(1) _ _ _ _ again, where C = "{}"]) (simp_all add: t(3,4))
  with t(1) again show ?thesis by blast
qed

definition late_release_store :: lab_world where
  "late_release_store = demo_lab [demo_lease ''l1'' ''u'' LeaseReleasing (Some ''p1'') None, demo_lease ''l2'' ''u'' LeaseProvisioning (Some ''p2'') None]
     [demo_provision ''p1'' ''l1'' Ready (Some 100) ''a'', demo_provision ''p2'' ''l2'' Provisioning None ''a''] [] []"

text \<open>
  C27. A release writes back the copy of the lease it has read. When the cleanup of the lease
  completes in between, the lease becomes releasing again after its VMID was granted to another
  guest, and two records of one cluster hold the VMID.
\<close>

theorem late_release_revives_lease:
  "\<exists>l t u v w x. vmid_exclusive late_release_store \<and>
     release_check allow_all ''u'' ''l1'' False late_release_store = (Inr l, t) \<and>
     lease_update (l\<lparr>le_state := LeaseReleased, le_cleanup_next_at := None\<rparr>) t = (Inr (), u) \<and>
     reserve_clone_target ''p2'' ''node'' 100 u = (Inr (TargetReserved x), v) \<and>
     release_write l False v = (Inr (l\<lparr>le_state := LeaseReleasing\<rparr>), w) \<and>
     vmid_exclusive v \<and> \<not> vmid_exclusive w"
proof -
  let ?l1 = "demo_lease ''l1'' ''u'' LeaseReleasing (Some ''p1'') None"
  let ?l2 = "demo_lease ''l2'' ''u'' LeaseProvisioning (Some ''p2'') None"
  let ?p1 = "demo_provision ''p1'' ''l1'' Ready (Some 100) ''a''"
  let ?p2 = "demo_provision ''p2'' ''l2'' Provisioning None ''a''"
  let ?l = "row_to_lease ?l1"
  let ?r = "?l1\<lparr>lr_lease := (lr_lease ?l1)\<lparr>le_state := LeaseReleased\<rparr>\<rparr>"
  let ?q = "?p2\<lparr>pv_node := Some ''node'', pv_vmid := Some 100, pv_updated_at := 10\<rparr>"
  have m: "lab_metadata ''lab_lease_releasing'' None = Inr [(''event'', ''lab_lease_releasing'')]" by code_simp
  have s: "w_faults late_release_store = []" "lw_leases late_release_store = [?l1, ?l2]"
    "lw_provisions late_release_store = [?p1, ?p2]" "w_now late_release_store = 10"
    by (simp_all add: late_release_store_def)
  obtain t where t: "lab_audit ''u'' LabLease (Some ''l1'') ''lab_lease_releasing'' None late_release_store = (Inr (), t)"
    "world.more t = world.more late_release_store" "w_faults t = []" "w_now t = 10"
    using audit_ok [OF m s(1)] s(4) by metis
  note tables = world_more_tables [OF t(2)]
  have own: "owner_scope_permits ''u'' ''u''" by code_simp
  have check: "release_check allow_all ''u'' ''l1'' False late_release_store = (Inr ?l, t)"
    using s t(1) own
    by (simp add: release_check_def release_action_def find_lease_def lab_lookup_def lease_get_def lab_statement_ok
        act_simps lab_allow_ok lease_by_id_def scope_lease_def row_to_lease_def lease_terminal_def refuse_when_def)
  let ?u = "t\<lparr>lw_leases := [?r, ?l2]\<rparr>"
  have up: "lease_update (?l\<lparr>le_state := LeaseReleased, le_cleanup_next_at := None\<rparr>) t = (Inr (), ?u)"
    using s tables t(3)
    by (simp add: lease_update_def update_leases_def lab_statement_ok act_simps row_to_lease_def demo_lease_def)
  let ?v = "?u\<lparr>lw_provisions := [?p1, ?q]\<rparr>"
  have res: "reserve_clone_target ''p2'' ''node'' 100 ?u = (Inr (TargetReserved ?q), ?v)"
    using s tables t(3,4)
    by (simp add: reserve_clone_target_def reserve_checked_def reserve_for_def reserve_update_def read_reservation_def
      atomically_def lab_statement_ok act_simps vmid_holder_def same_cluster_def provision_by_id_def update_provisions_def holding_def)
  let ?w = "t\<lparr>lw_leases := [?l1, ?l2], lw_provisions := [?p1, ?q]\<rparr>"
  have wr: "release_write ?l False ?v = (Inr (?l\<lparr>le_state := LeaseReleasing\<rparr>), ?w)"
    using t(3)
    by (simp add: release_write_def Let_def lab_backend_def lease_update_def update_leases_def lab_statement_ok act_simps
        row_to_lease_def demo_lease_def)
  have "vmid_exclusive late_release_store" using s by (auto simp: vmid_exclusive_def)
  moreover have "vmid_exclusive ?v" by (auto simp: vmid_exclusive_def holding_def)
  moreover have "\<not> vmid_exclusive ?w"
    unfolding vmid_exclusive_def by (simp add: holding_def same_cluster_def)
  ultimately show ?thesis using check up res wr by blast
qed

end
