(* ===== verification/Drift.thy ===== *)
theory Drift
  imports Node_Facts "HOL-Library.List_Lexorder" "HOL-Library.Char_ord" "HOL-Library.Product_Lexorder"
    "HOL-Library.Multiset"
begin

text \<open>
  The drift of a machine: the difference vocabulary of \<open>crates/fleet-core/src/difference.rs\<close>,
  the normalization and comparison of \<open>crates/fleet-application/src/observed.rs\<close>, and the
  masking of credentials in identities (\<open>redact_schemeless_credentials\<close> of
  \<open>crates/fleet-core/src/redact.rs\<close>). A difference set is the list of its fields.
\<close>

section \<open>Differences\<close>

datatype difference_state = Missing | Extra | Changed | Unknown | Unsupported

definition difference_state_id :: "difference_state \<Rightarrow> string" where
  "difference_state_id s = (case s of Missing \<Rightarrow> ''missing'' | Extra \<Rightarrow> ''extra'' | Changed \<Rightarrow> ''changed''
     | Unknown \<Rightarrow> ''unknown'' | Unsupported \<Rightarrow> ''unsupported'')"

interpretation drift_ids: text_ids difference_state_id "[Missing, Extra, Changed, Unknown, Unsupported]"
proof unfold_locales
  fix x y :: difference_state
  show "x \<in> set [Missing, Extra, Changed, Unknown, Unsupported]" by (cases x) auto
qed (auto simp: difference_state_id_def)

definition state_actionable :: "difference_state \<Rightarrow> bool" where
  "state_actionable s \<longleftrightarrow> s \<in> {Missing, Extra, Changed}"

record field_difference =
  fd_identity :: string
  fd_state :: difference_state
  fd_desired :: "string option"
  fd_observed :: "string option"
  fd_reason :: "string option"

definition difference_missing :: "string \<Rightarrow> string \<Rightarrow> field_difference" where
  "difference_missing i d =
     \<lparr>fd_identity = i, fd_state = Missing, fd_desired = Some d, fd_observed = None, fd_reason = None\<rparr>"

definition difference_extra :: "string \<Rightarrow> string \<Rightarrow> field_difference" where
  "difference_extra i ob =
     \<lparr>fd_identity = i, fd_state = Extra, fd_desired = None, fd_observed = Some ob, fd_reason = None\<rparr>"

definition difference_changed :: "string \<Rightarrow> string \<Rightarrow> string \<Rightarrow> field_difference" where
  "difference_changed i d ob =
     \<lparr>fd_identity = i, fd_state = Changed, fd_desired = Some d, fd_observed = Some ob, fd_reason = None\<rparr>"

definition difference_unknown :: "string \<Rightarrow> string option \<Rightarrow> string \<Rightarrow> field_difference" where
  "difference_unknown i d why =
     \<lparr>fd_identity = i, fd_state = Unknown, fd_desired = d, fd_observed = None, fd_reason = Some why\<rparr>"

definition difference_unsupported :: "string \<Rightarrow> string option \<Rightarrow> string \<Rightarrow> field_difference" where
  "difference_unsupported i d why =
     \<lparr>fd_identity = i, fd_state = Unsupported, fd_desired = d, fd_observed = None, fd_reason = Some why\<rparr>"

lemmas difference_defs = difference_missing_def difference_extra_def difference_changed_def
  difference_unknown_def difference_unsupported_def

type_synonym difference_set = "field_difference list"

definition actionable :: "field_difference \<Rightarrow> bool" where
  "actionable d \<longleftrightarrow> state_actionable (fd_state d)"

definition set_actionable :: "difference_set \<Rightarrow> field_difference list" where
  "set_actionable fs = filter actionable fs"

definition state_precedence :: "difference_state \<Rightarrow> nat" where
  "state_precedence s = (case s of Unknown \<Rightarrow> 3 | Unsupported \<Rightarrow> 2 | _ \<Rightarrow> 1)"

text \<open>\<open>dedup_by\<close> with equal keys: of a run of neighbours the first stays.\<close>

fun dedup_by_key :: "('a \<Rightarrow> 'k) \<Rightarrow> 'a list \<Rightarrow> 'a list" where
  "dedup_by_key f [] = []"
| "dedup_by_key f [x] = [x]"
| "dedup_by_key f (x # y # zs) =
     (if f x = f y then dedup_by_key f (x # zs) else x # dedup_by_key f (y # zs))"

definition canonicalize :: "difference_set \<Rightarrow> difference_set" where
  "canonicalize fs =
     dedup_by_key fd_identity
       (sort_key (\<lambda>d. (fd_identity d, - int (state_precedence (fd_state d))))
         (sort_key fd_identity fs))"

definition converged :: "difference_set \<Rightarrow> bool" where
  "converged fs \<longleftrightarrow> list_all (\<lambda>d. case fd_state d of Unknown \<Rightarrow> False | _ \<Rightarrow> \<not> actionable d) fs"

definition compare_field :: "string \<Rightarrow> string option \<Rightarrow> string option \<Rightarrow> field_difference option" where
  "compare_field i desired observed =
     (case (desired, observed) of
        (Some d, Some ob) \<Rightarrow> if d = ob then None else Some (difference_changed i d ob)
      | (Some d, None) \<Rightarrow> Some (difference_missing i d)
      | (None, Some ob) \<Rightarrow> Some (difference_extra i ob)
      | (None, None) \<Rightarrow> None)"

subsection \<open>The canonical form\<close>

lemma dedup_subset: "set (dedup_by_key f xs) \<subseteq> set xs"
  by (induction f xs rule: dedup_by_key.induct) auto

lemma dedup_keys: "f ` set (dedup_by_key f xs) = f ` set xs"
  by (induction f xs rule: dedup_by_key.induct) auto

lemma dedup_hd: "dedup_by_key f (x # xs) = x # drop 1 (dedup_by_key f (x # xs))"
proof (induction xs arbitrary: x)
  case (Cons y ys)
  then show ?case by (cases "f x = f y") simp_all
qed simp

lemma dedup_strict:
  assumes "sorted (map f xs)"
  shows "sorted_wrt (<) (map f (dedup_by_key f xs))"
  using assms
proof (induction f xs rule: dedup_by_key.induct)
  case (3 f x y zs)
  show ?case
  proof (cases "f x = f y")
    case False
    with 3 have "\<forall>k \<in> f ` set (dedup_by_key f (y # zs)). f x < k"
      unfolding dedup_keys by fastforce
    with 3 False show ?thesis by auto
  qed (use 3 in auto)
qed auto

text \<open>An element that stays comes before every other of its key.\<close>

lemma dedup_first:
  fixes f :: "'a \<Rightarrow> 'k :: linorder" and g :: "'a \<Rightarrow> 'l :: linorder"
  assumes "sorted (map g xs)" and "x \<in> set (dedup_by_key f xs)" and "y \<in> set xs" and "f y = f x"
    and "\<forall>a b. g a \<le> g b \<longrightarrow> f a \<le> f b"
  shows "g x \<le> g y"
  using assms
proof (induction f xs arbitrary: x y rule: dedup_by_key.induct)
  case (3 f a b zs)
  have ab: "g a \<le> g b" using "3.prems"(1) by simp
  show ?case
  proof (cases "f a = f b")
    case True
    have sorted: "sorted (map g (a # zs))" using "3.prems"(1) by simp
    have x: "x \<in> set (dedup_by_key f (a # zs))" using "3.prems"(2) True by simp
    note IH = "3.IH"(1) [OF True sorted x]
    show ?thesis
    proof (cases "y = b")
      case True
      then have "f a = f x" using \<open>f a = f b\<close> "3.prems"(4) by simp
      then have "g x \<le> g a" using IH [of a] "3.prems"(5) by simp
      then show ?thesis using ab True by (meson order_trans)
    next
      case False
      then show ?thesis using IH [of y] "3.prems"(3,4,5) by simp
    qed
  next
    case False
    have sorted: "sorted (map g (b # zs))" using "3.prems"(1) by simp
    have later: "\<forall>z \<in> set (b # zs). g a \<le> g z" using "3.prems"(1) by simp
    from "3.prems"(2) False consider "x = a" | "x \<in> set (dedup_by_key f (b # zs))" by auto
    then show ?thesis
    proof cases
      case 1
      then show ?thesis using later "3.prems"(3) by auto
    next
      case 2
      show ?thesis
      proof (cases "y = a")
        case True
        have "f a < f b" using False ab "3.prems"(5) by (simp add: order.not_eq_order_implies_strict)
        moreover have "g b \<le> g x" using 2 dedup_subset [of f "b # zs"] sorted by auto
        then have "f b \<le> f x" using "3.prems"(5) by simp
        ultimately have "f a < f x" by simp
        then show ?thesis using "3.prems"(4) True by simp
      next
        case no: False
        show ?thesis using "3.IH"(2) [OF False sorted 2] "3.prems"(3,4,5) no by simp
      qed
    qed
  qed
qed auto

definition canonical_key :: "field_difference \<Rightarrow> string \<times> int" where
  "canonical_key d = (fd_identity d, - int (state_precedence (fd_state d)))"

lemma canonicalize_eq: "canonicalize fs = dedup_by_key fd_identity (sort_key canonical_key (sort_key fd_identity fs))"
  by (simp add: canonicalize_def canonical_key_def [abs_def])

lemma sorted_by_identity: "sorted (map canonical_key xs) \<Longrightarrow> sorted (map fd_identity xs)"
  by (auto simp: sorted_map canonical_key_def less_eq_prod_def elim!: sorted_wrt_mono_rel [rotated])

lemma canonicalize_strict: "sorted_wrt (<) (map fd_identity (canonicalize fs))"
  unfolding canonicalize_eq by (intro dedup_strict sorted_by_identity sorted_sort_key)

lemma canonicalize_subset: "set (canonicalize fs) \<subseteq> set fs"
  unfolding canonicalize_eq using dedup_subset by fastforce

lemma canonicalize_identities: "fd_identity ` set (canonicalize fs) = fd_identity ` set fs"
  unfolding canonicalize_eq by (simp add: dedup_keys)

lemma canonicalize_precedence:
  assumes "d \<in> set (canonicalize fs)" and "e \<in> set fs" and "fd_identity e = fd_identity d"
  shows "state_precedence (fd_state e) \<le> state_precedence (fd_state d)"
proof -
  have "canonical_key d \<le> canonical_key e"
    using assms unfolding canonicalize_eq
    by (intro dedup_first [where f = fd_identity and g = canonical_key
          and xs = "sort_key canonical_key (sort_key fd_identity fs)"] sorted_sort_key)
      (simp_all, auto simp: canonical_key_def less_eq_prod_def)
  then show ?thesis using assms(3) by (simp add: canonical_key_def less_eq_prod_def)
qed

lemma blocks_iff: "fd_state d = Unknown \<or> actionable d \<longleftrightarrow> fd_state d \<noteq> Unsupported"
  by (cases "fd_state d") (auto simp: actionable_def state_actionable_def)

lemma converged_iff: "converged fs \<longleftrightarrow> (\<forall>d \<in> set fs. fd_state d = Unsupported)"
  unfolding converged_def list_all_iff
  by (intro ball_cong refl) (auto simp: actionable_def state_actionable_def split: difference_state.splits)

section \<open>Masking of credentials in an identity\<close>

text \<open>
  The scan works on character positions; a text is the list of its scalar values.
\<close>

definition starts_token :: "string \<Rightarrow> bool" where
  "starts_token c \<longleftrightarrow> is_whitespace c \<or> c \<in> {''/'', [CHR 0x22], [CHR 0x27]}"

definition ends_credential :: "string \<Rightarrow> bool" where
  "ends_credential c \<longleftrightarrow> is_whitespace c \<or> c = [CHR 0x22] \<or> c = [CHR 0x27]"

text \<open>\<open>find\<close> and \<open>rfind\<close>: the first and the last position.\<close>

fun find_pos :: "('a \<Rightarrow> bool) \<Rightarrow> 'a list \<Rightarrow> nat option" where
  "find_pos P [] = None"
| "find_pos P (x # xs) = (if P x then Some 0 else map_option Suc (find_pos P xs))"

definition rfind_pos :: "('a \<Rightarrow> bool) \<Rightarrow> 'a list \<Rightarrow> nat option" where
  "rfind_pos P xs = map_option (\<lambda>i. length xs - Suc i) (find_pos P (rev xs))"

fun scan_token :: "nat \<Rightarrow> string list \<Rightarrow> nat \<times> nat option \<Rightarrow> nat \<times> nat option" where
  "scan_token i [] st = st"
| "scan_token i (c # cs) (token_start, colon) =
     scan_token (Suc i) cs
       (if starts_token c then (Suc i, None)
        else if c = '':'' \<and> colon = None then (token_start, Some i) else (token_start, colon))"

definition slice :: "nat \<Rightarrow> nat \<Rightarrow> 'a list \<Rightarrow> 'a list" where
  "slice a b xs = take (b - a) (drop a xs)"

definition credential_end :: "string list \<Rightarrow> nat \<Rightarrow> nat" where
  "credential_end ts p =
     (case find_pos ends_credential (drop p ts) of Some i \<Rightarrow> p + i | None \<Rightarrow> length ts)"

lemma find_pos_less: "find_pos P xs = Some i \<Longrightarrow> i < length xs \<and> P (xs ! i)"
  by (induction xs arbitrary: i) (auto split: if_splits)

lemma find_pos_first: "find_pos P xs = Some i \<Longrightarrow> j < i \<Longrightarrow> \<not> P (xs ! j)"
  by (induction xs arbitrary: i j) (auto split: if_splits simp: nth_Cons split: nat.splits)

lemma find_pos_None: "find_pos P xs = None \<longleftrightarrow> (\<forall>x \<in> set xs. \<not> P x)"
  by (induction xs) auto

lemma not_end_at: "\<not> ends_credential ''@''"
  by (simp add: ends_credential_def is_whitespace_def is_space_def)

lemma credential_end_bounds:
  assumes "p < length ts" and "ts ! p = ''@''"
  shows "p < credential_end ts p \<and> credential_end ts p \<le> length ts"
proof (cases "find_pos ends_credential (drop p ts)")
  case (Some i)
  then have i: "i < length (drop p ts)" "ends_credential (drop p ts ! i)"
    using find_pos_less by blast+
  moreover have "i \<noteq> 0" using i(2) assms not_end_at by (cases i) auto
  ultimately show ?thesis using Some by (simp add: credential_end_def)
qed (use assms in \<open>simp add: credential_end_def\<close>)

function redact_loop :: "string list \<Rightarrow> nat \<Rightarrow> nat \<Rightarrow> nat \<Rightarrow> nat option \<Rightarrow> string list \<Rightarrow> string list" where
  "redact_loop ts search scanned token_start colon result =
     (case find_pos (\<lambda>c. c = ''@'') (drop search ts) of
        None \<Rightarrow> result @ drop search ts
      | Some offset \<Rightarrow>
          let p = search + offset;
              (token_start', colon') =
                (if scanned < p then scan_token scanned (slice scanned p ts) (token_start, colon)
                 else (token_start, colon))
          in if (case colon' of Some c \<Rightarrow> token_start' < c \<and> c + 1 < p | None \<Rightarrow> False)
             then (let flush_start = min search token_start';
                       cend = credential_end ts p;
                       host = (case rfind_pos (\<lambda>c. c = ''@'') (slice search cend ts) of
                                 Some i \<Rightarrow> search + i | None \<Rightarrow> p)
                   in redact_loop ts cend cend cend None
                        (result @ slice flush_start token_start' ts @ [''***@'']
                           @ slice (host + 1) cend ts))
             else redact_loop ts (p + 1) (p + 1) token_start' colon' (result @ slice search (p + 1) ts))"
  by pat_completeness auto
termination
proof (relation "measure (\<lambda>(ts, search, scanned, token_start, colon, result). length ts - search)", simp_all)
  fix ts :: "string list" and search offset
  assume "find_pos (\<lambda>c. c = ''@'') (drop search ts) = Some offset"
  then have p: "search + offset < length ts" "ts ! (search + offset) = ''@''"
    using find_pos_less [of "\<lambda>c. c = ''@''" "drop search ts" offset] by auto
  then show "length ts - Suc (search + offset) < length ts - search" by simp
  show "length ts - credential_end ts (search + offset) < length ts - search"
    using credential_end_bounds [OF p] p(1) by linarith
qed

declare redact_loop.simps [simp del]

definition redact_schemeless_credentials :: "string \<Rightarrow> string" where
  "redact_schemeless_credentials t = concat (redact_loop (scalars t) 0 0 0 None [])"

section \<open>Observed and desired state\<close>

datatype tool_availability = ToolPresent | ToolAbsent | ToolUnknown

record observed_tool =
  ot_tool :: string
  ot_version :: "string option"
  ot_availability :: tool_availability

record observed_skill =
  os_skill :: string
  os_agent :: string

record observed_checkout =
  oc_root :: string
  oc_remote :: "string option"
  oc_branch :: "string option"

datatype skills_availability = SkillsAvailable | SkillsAbsent | SkillsUnsupported | SkillsStale | SkillsOffline

record observed_state =
  ob_tools :: "observed_tool list"
  ob_skills :: "observed_skill list"
  ob_catalog :: "(string \<times> string \<times> string) list"
  ob_catalog_answered :: "bool option"
  ob_checkouts :: "observed_checkout list"
  ob_mise_answered :: "bool option"
  ob_skills_answered :: "bool option"
  ob_skills_availability :: "skills_availability option"
  ob_checkouts_answered :: "bool option"

record desired_state =
  de_tools :: "(string \<times> string) list"
  de_skills :: "(string \<times> string) list"
  de_catalog :: "(string \<times> string \<times> string) list"
  de_checkouts :: "(string \<times> string) list"

definition availability_of :: "capability_status \<Rightarrow> tool_availability" where
  "availability_of s = (case s of FactKnown \<Rightarrow> ToolPresent | FactUnavailable \<Rightarrow> ToolAbsent
     | FactUnknown \<Rightarrow> ToolUnknown | FactStale \<Rightarrow> ToolUnknown)"

text \<open>\<open>rsplit(' ').next()\<close> is the text after the last space.\<close>

definition canonicalize_version :: "string \<Rightarrow> string" where
  "canonicalize_version raw =
     (let trimmed = text_trim raw;
          candidate = last (split_on (CHR '' '') trimmed);
          parts = split_on (CHR ''.'') candidate
      in if 2 \<le> length parts \<and> length parts \<le> 4 \<and>
            list_all (\<lambda>p. case p of [] \<Rightarrow> False | c # _ \<Rightarrow> is_ascii_digit c) parts
         then candidate else trimmed)"

text \<open>Updating the first entry of a tool, or adding one.\<close>

fun update_tool :: "string \<Rightarrow> (observed_tool \<Rightarrow> observed_tool) \<Rightarrow> observed_tool \<Rightarrow> observed_tool list \<Rightarrow> observed_tool list" where
  "update_tool name g new [] = [new]"
| "update_tool name g new (t # ts) =
     (if ot_tool t = name then g t # ts else t # update_tool name g new ts)"

fun collect_tool_facts ::
    "capability_fact list \<Rightarrow> observed_tool list \<Rightarrow> (string \<times> string) list \<Rightarrow>
     observed_tool list \<times> (string \<times> string) list" where
  "collect_tool_facts [] tools versions = (tools, versions)"
| "collect_tool_facts (f # fs) tools versions =
     (if cf_namespace f = ''tool'' then
        (let a = availability_of (cf_status f)
         in collect_tool_facts fs
              (update_tool (cf_name f) (\<lambda>t. t\<lparr>ot_availability := a\<rparr>)
                 \<lparr>ot_tool = cf_name f, ot_version = None, ot_availability = a\<rparr> tools) versions)
      else if cf_namespace f = ''tool-version'' then
        (case cf_value f of
           Some v \<Rightarrow> collect_tool_facts fs tools (versions @ [(cf_name f, canonicalize_version v)])
         | None \<Rightarrow> collect_tool_facts fs tools versions)
      else collect_tool_facts fs tools versions)"

definition normalize_tools :: "capability_fact list \<Rightarrow> observed_tool list" where
  "normalize_tools facts =
     (let (tools, versions) = collect_tool_facts facts [] []
      in fold (\<lambda>(name, v). update_tool name (\<lambda>t. t\<lparr>ot_version := Some v\<rparr>)
                 \<lparr>ot_tool = name, ot_version = Some v, ot_availability = ToolPresent\<rparr>) versions tools)"

record checkout_observation = observed_checkout +
  co_status :: string

definition normalize_checkouts :: "checkout_observation list \<Rightarrow> observed_checkout list" where
  "normalize_checkouts cs =
     map (\<lambda>c. \<lparr>oc_root = oc_root c, oc_remote = oc_remote c, oc_branch = oc_branch c\<rparr>)
       (filter (\<lambda>c. co_status c = ''known'') cs)"

definition normalize_skills :: "string \<Rightarrow> string list \<Rightarrow> observed_skill list" where
  "normalize_skills skill deployed_to = map (\<lambda>agent. \<lparr>os_skill = skill, os_agent = agent\<rparr>) deployed_to"

definition from_observations ::
    "observed_tool list \<Rightarrow> observed_skill list \<Rightarrow> observed_checkout list \<Rightarrow> bool \<Rightarrow> bool \<Rightarrow> bool \<Rightarrow> observed_state" where
  "from_observations tools skills checkouts mise_ran skills_ran checkouts_ran =
     \<lparr>ob_tools = tools, ob_skills = skills, ob_catalog = [], ob_catalog_answered = None,
      ob_checkouts = checkouts, ob_mise_answered = Some mise_ran, ob_skills_answered = Some skills_ran,
      ob_skills_availability = None, ob_checkouts_answered = Some checkouts_ran\<rparr>"

definition from_observations_with_catalog_versions ::
    "observed_tool list \<Rightarrow> observed_skill list \<Rightarrow> (string \<times> string \<times> string) list \<Rightarrow> observed_checkout list \<Rightarrow>
     bool \<Rightarrow> skills_availability \<Rightarrow> bool \<Rightarrow> bool \<Rightarrow> observed_state" where
  "from_observations_with_catalog_versions tools skills catalog checkouts mise_ran availability catalog_ran checkouts_ran =
     \<lparr>ob_tools = tools, ob_skills = skills, ob_catalog = catalog, ob_catalog_answered = Some catalog_ran,
      ob_checkouts = checkouts, ob_mise_answered = Some mise_ran,
      ob_skills_answered = Some (availability = SkillsAvailable),
      ob_skills_availability = Some availability, ob_checkouts_answered = Some checkouts_ran\<rparr>"

section \<open>Comparison\<close>

definition tool_identity :: "string \<Rightarrow> string" where
  "tool_identity tool = ''tool:'' @ redact_schemeless_credentials tool"

definition skill_identity :: "string \<Rightarrow> string \<Rightarrow> string" where
  "skill_identity skill agent =
     ''skill:'' @ redact_schemeless_credentials skill @ ''/'' @ redact_schemeless_credentials agent"

definition catalog_identity :: "string \<Rightarrow> string \<Rightarrow> string" where
  "catalog_identity catalog agent =
     ''catalog-skill:'' @ redact_schemeless_credentials catalog @ ''/'' @ redact_schemeless_credentials agent"

definition checkout_identity :: "string \<Rightarrow> string" where
  "checkout_identity remote = ''checkout:'' @ redact_schemeless_credentials remote"

definition opt_list :: "'a option \<Rightarrow> 'a list" where
  "opt_list x = (case x of None \<Rightarrow> [] | Some y \<Rightarrow> [y])"

definition tools_silent :: string where
  "tools_silent = ''the tool inventory did not answer; the machine's tool state is unknown''"

definition tool_fact_silent :: string where
  "tool_fact_silent = ''the tool's fact did not answer; its state is unknown''"

definition skills_silent :: string where
  "skills_silent = ''the deployment status did not answer; the machine's skill state is unknown''"

definition catalog_silent :: string where
  "catalog_silent = ''the deployment status did not answer; the machine's catalog skill state is unknown''"

definition checkouts_silent :: string where
  "checkouts_silent = ''the checkout discovery did not answer; the machine's checkout state is unknown''"

definition remote_unreadable :: string where
  "remote_unreadable = ''a known checkout has no readable remote; whether it matches is unknown''"

definition no_skills_cli :: string where
  "no_skills_cli =
     ''the machine has no supported Skills Manager CLI; managed skill changes are unavailable''"

definition compare_tool :: "observed_state \<Rightarrow> string \<times> string \<Rightarrow> field_difference list" where
  "compare_tool ob entry =
     (let (tool, version) = entry;
          found = find (\<lambda>t. ot_tool t = tool) (ob_tools ob)
      in if ob_mise_answered ob \<noteq> Some True then
           [difference_unknown (tool_identity tool) (Some version)
              tools_silent]
         else if map_option ot_availability found = Some ToolAbsent then
           [difference_missing (tool_identity tool) version]
         else if map_option ot_availability found = Some ToolUnknown then
           [difference_unknown (tool_identity tool) (Some version)
              tool_fact_silent]
         else opt_list (compare_field (tool_identity tool) (Some version) (Option.bind found ot_version)))"

definition skills_unavailable :: "observed_state \<Rightarrow> bool" where
  "skills_unavailable ob \<longleftrightarrow> ob_skills_availability ob \<in> {Some SkillsAbsent, Some SkillsUnsupported}"

definition skills_unanswered :: "observed_state \<Rightarrow> bool" where
  "skills_unanswered ob \<longleftrightarrow>
     ob_skills_availability ob \<in> {Some SkillsOffline, Some SkillsStale} \<or>
     ob_skills_availability ob = None \<and> ob_skills_answered ob \<noteq> Some True"

definition compare_skills :: "desired_state \<Rightarrow> observed_state \<Rightarrow> field_difference list" where
  "compare_skills de ob =
     (if skills_unavailable ob then
        map (\<lambda>(skill, agent). difference_unsupported (skill_identity skill agent) (Some ''deployed'') no_skills_cli)
          (de_skills de)
      else if skills_unanswered ob then
        map (\<lambda>(skill, agent). difference_unknown (skill_identity skill agent) (Some ''deployed'')
               skills_silent) (de_skills de)
      else
        concat (map (\<lambda>(skill, agent).
          if list_ex (\<lambda>s. os_skill s = skill \<and> os_agent s = agent) (ob_skills ob) then []
          else [difference_missing (skill_identity skill agent) ''deployed'']) (de_skills de)) @
        concat (map (\<lambda>s.
          if list_ex (\<lambda>(skill, agent). skill = os_skill s \<and> agent = os_agent s) (de_skills de) then []
          else [difference_extra (skill_identity (os_skill s) (os_agent s)) ''deployed'']) (ob_skills ob)))"

definition compare_catalog_skill :: "observed_state \<Rightarrow> string \<times> string \<times> string \<Rightarrow> field_difference list" where
  "compare_catalog_skill ob entry =
     (let (catalog, version, agent) = entry;
          i = catalog_identity catalog agent;
          unanswered = difference_unknown i (Some version)
            catalog_silent
      in if skills_unavailable ob then [difference_unsupported i (Some version) no_skills_cli]
         else if ob_skills_availability ob \<in> {Some SkillsOffline, Some SkillsStale} then [unanswered]
         else if ob_catalog_answered ob \<noteq> Some True then [unanswered]
         else (case find (\<lambda>(c, _, a). c = catalog \<and> a = agent) (ob_catalog ob) of
                 None \<Rightarrow> [difference_missing i version]
               | Some (_, seen, _) \<Rightarrow> opt_list (compare_field i (Some version) (Some seen))))"

definition extra_catalog_skills :: "desired_state \<Rightarrow> observed_state \<Rightarrow> field_difference list" where
  "extra_catalog_skills de ob =
     (if ob_catalog_answered ob = Some True \<and> ob_skills_availability ob = Some SkillsAvailable then
        concat (map (\<lambda>(catalog, version, agent).
          if list_ex (\<lambda>(c, _, a). c = catalog \<and> a = agent) (de_catalog de) then []
          else [difference_extra (catalog_identity catalog agent) version]) (ob_catalog ob))
      else [])"

definition compare_checkout :: "observed_state \<Rightarrow> string \<times> string \<Rightarrow> field_difference list" where
  "compare_checkout ob entry =
     (let (remote, root) = entry; i = checkout_identity remote
      in if ob_checkouts_answered ob \<noteq> Some True then
           [difference_unknown i (Some root)
              checkouts_silent]
         else (case find (\<lambda>c. oc_remote c = Some remote) (ob_checkouts ob) of
                 Some c \<Rightarrow> opt_list (compare_field i (Some root) (Some (oc_root c)))
               | None \<Rightarrow>
                   if list_ex (\<lambda>c. oc_remote c = None) (ob_checkouts ob) then
                     [difference_unknown i (Some root)
                        remote_unreadable]
                   else [difference_missing i root]))"

definition extra_checkouts :: "desired_state \<Rightarrow> observed_state \<Rightarrow> field_difference list" where
  "extra_checkouts de ob =
     (if ob_checkouts_answered ob = Some True then
        concat (map (\<lambda>c.
          case oc_remote c of
            None \<Rightarrow> []
          | Some remote \<Rightarrow>
              if list_ex (\<lambda>(d, _). d = remote) (de_checkouts de) then []
              else [difference_extra (checkout_identity remote) (oc_root c)]) (ob_checkouts ob))
      else [])"

definition raw_differences :: "desired_state \<Rightarrow> observed_state \<Rightarrow> difference_set" where
  "raw_differences de ob =
     concat (map (compare_tool ob) (de_tools de)) @ compare_skills de ob @
     concat (map (compare_catalog_skill ob) (de_catalog de)) @ extra_catalog_skills de ob @
     concat (map (compare_checkout ob) (de_checkouts de)) @ extra_checkouts de ob"

definition compare :: "desired_state \<Rightarrow> observed_state \<Rightarrow> difference_set" where
  "compare de ob = canonicalize (raw_differences de ob)"

subsection \<open>What a raw difference says\<close>

lemma opt_list_set [simp]: "x \<in> set (opt_list y) \<longleftrightarrow> y = Some x"
  by (auto simp: opt_list_def split: option.splits)

lemma opt_list_Nil [simp]: "opt_list y = [] \<longleftrightarrow> y = None"
  by (auto simp: opt_list_def split: option.splits)

lemma compare_field_desired:
  "compare_field i (Some d) ob = None \<longleftrightarrow> ob = Some d"
  "compare_field i (Some d) ob = Some x \<Longrightarrow> actionable x \<and> fd_identity x = i \<and> fd_desired x = Some d"
  by (auto simp: compare_field_def difference_defs actionable_def state_actionable_def
      split: option.splits if_splits)

text \<open>The kinds of identity are told apart by their first characters.\<close>

lemma identity_kinds:
  "tool_identity a \<noteq> skill_identity b c" "tool_identity a \<noteq> catalog_identity b c"
  "tool_identity a \<noteq> checkout_identity d" "skill_identity b c \<noteq> catalog_identity e f"
  "skill_identity b c \<noteq> checkout_identity d" "catalog_identity b c \<noteq> checkout_identity d"
  by (simp_all add: tool_identity_def skill_identity_def catalog_identity_def checkout_identity_def)

definition tool_in_sync :: "observed_state \<Rightarrow> string \<times> string \<Rightarrow> bool" where
  "tool_in_sync ob entry \<longleftrightarrow>
     ob_mise_answered ob = Some True \<and>
     (case find (\<lambda>t. ot_tool t = fst entry) (ob_tools ob) of
        None \<Rightarrow> False
      | Some t \<Rightarrow> ot_availability t = ToolPresent \<and> ot_version t = Some (snd entry))"

definition skills_in_sync :: "desired_state \<Rightarrow> observed_state \<Rightarrow> bool" where
  "skills_in_sync de ob \<longleftrightarrow>
     skills_unavailable ob \<or>
     (if skills_unanswered ob then de_skills de = []
      else set (de_skills de) = (\<lambda>s. (os_skill s, os_agent s)) ` set (ob_skills ob))"

definition catalog_answered :: "observed_state \<Rightarrow> bool" where
  "catalog_answered ob \<longleftrightarrow>
     ob_skills_availability ob \<notin> {Some SkillsOffline, Some SkillsStale} \<and> ob_catalog_answered ob = Some True"

definition catalog_in_sync :: "desired_state \<Rightarrow> observed_state \<Rightarrow> bool" where
  "catalog_in_sync de ob \<longleftrightarrow>
     skills_unavailable ob \<or>
     (\<forall>(c, v, a) \<in> set (de_catalog de). catalog_answered ob \<and>
        map_option (fst \<circ> snd) (find (\<lambda>(c', _, a'). c' = c \<and> a' = a) (ob_catalog ob)) = Some v) \<and>
     (ob_catalog_answered ob = Some True \<and> ob_skills_availability ob = Some SkillsAvailable \<longrightarrow>
        (\<forall>(c, v, a) \<in> set (ob_catalog ob). \<exists>v'. (c, v', a) \<in> set (de_catalog de)))"

definition checkouts_in_sync :: "desired_state \<Rightarrow> observed_state \<Rightarrow> bool" where
  "checkouts_in_sync de ob \<longleftrightarrow>
     (if ob_checkouts_answered ob = Some True then
        (\<forall>(remote, root) \<in> set (de_checkouts de).
           map_option oc_root (find (\<lambda>c. oc_remote c = Some remote) (ob_checkouts ob)) = Some root) \<and>
        (\<forall>c \<in> set (ob_checkouts ob). \<forall>remote. oc_remote c = Some remote \<longrightarrow> remote \<in> fst ` set (de_checkouts de))
      else de_checkouts de = [])"

definition in_sync :: "desired_state \<Rightarrow> observed_state \<Rightarrow> bool" where
  "in_sync de ob \<longleftrightarrow>
     (\<forall>entry \<in> set (de_tools de). tool_in_sync ob entry) \<and> skills_in_sync de ob \<and>
     catalog_in_sync de ob \<and> checkouts_in_sync de ob"

text \<open>A block is quiet when all it says is that a state is unsupported.\<close>

definition quiet :: "field_difference list \<Rightarrow> bool" where
  "quiet fs \<longleftrightarrow> (\<forall>d \<in> set fs. fd_state d = Unsupported)"

lemma quiet_simps [simp]:
  "quiet []" "quiet (fs @ gs) \<longleftrightarrow> quiet fs \<and> quiet gs" "quiet (d # fs) \<longleftrightarrow> fd_state d = Unsupported \<and> quiet fs"
  "quiet (concat (map f xs)) \<longleftrightarrow> (\<forall>x \<in> set xs. quiet (f x))" "quiet (opt_list (compare_field i (Some v) seen)) \<longleftrightarrow> seen = Some v"
  by (auto simp: quiet_def compare_field_def difference_defs opt_list_def split: option.splits if_splits)

lemma quiet_map [simp]: "quiet (map f xs) \<longleftrightarrow> (\<forall>x \<in> set xs. fd_state (f x) = Unsupported)"
  by (simp add: quiet_def)

lemma quiet_states [simp]:
  "fd_state (difference_unknown i d r) = Unknown" "fd_state (difference_unsupported i d r) = Unsupported"
  "fd_state (difference_missing i v) = Missing" "fd_state (difference_extra i v) = Extra"
  by (simp_all add: difference_defs)

lemma quiet_tool: "quiet (compare_tool ob entry) \<longleftrightarrow> tool_in_sync ob entry"
proof (cases entry)
  case (Pair tool version)
  show ?thesis
  proof (cases "find (\<lambda>t. ot_tool t = tool) (ob_tools ob)")
    case None
    with Pair show ?thesis by (simp add: compare_tool_def tool_in_sync_def Let_def)
  next
    case (Some t)
    with Pair show ?thesis
      by (cases "ot_availability t") (simp_all add: compare_tool_def tool_in_sync_def Let_def)
  qed
qed

lemma quiet_skills: "quiet (compare_skills de ob) \<longleftrightarrow> skills_in_sync de ob"
proof -
  let ?pairs = "(\<lambda>s. (os_skill s, os_agent s)) ` set (ob_skills ob)"
  have desired: "quiet (if list_ex (\<lambda>s. os_skill s = skill \<and> os_agent s = agent) (ob_skills ob) then []
      else [difference_missing i v]) \<longleftrightarrow> (skill, agent) \<in> ?pairs" for skill agent i v
    by (auto simp: list_ex_iff)
  have seen: "quiet (if list_ex (\<lambda>(skill, agent). skill = os_skill s \<and> agent = os_agent s) (de_skills de) then []
      else [difference_extra i v]) \<longleftrightarrow> (os_skill s, os_agent s) \<in> set (de_skills de)" for s i v
    by (auto simp: list_ex_iff)
  show ?thesis
  proof (cases "skills_unavailable ob \<or> skills_unanswered ob")
    case True
    then show ?thesis
      by (cases "de_skills de") (auto simp: compare_skills_def skills_in_sync_def)
  next
    case False
    then have "quiet (compare_skills de ob) \<longleftrightarrow>
        (\<forall>(skill, agent) \<in> set (de_skills de). (skill, agent) \<in> ?pairs) \<and>
        (\<forall>s \<in> set (ob_skills ob). (os_skill s, os_agent s) \<in> set (de_skills de))"
      by (simp add: compare_skills_def desired seen split_beta)
    with False show ?thesis by (auto simp: skills_in_sync_def)
  qed
qed

lemma quiet_catalog:
  "(\<forall>entry \<in> set (de_catalog de). quiet (compare_catalog_skill ob entry)) \<and> quiet (extra_catalog_skills de ob) \<longleftrightarrow>
   catalog_in_sync de ob"
proof -
  have one: "quiet (compare_catalog_skill ob (c, v, a)) \<longleftrightarrow> skills_unavailable ob \<or> catalog_answered ob \<and>
      map_option (fst \<circ> snd) (find (\<lambda>(c', _, a'). c' = c \<and> a' = a) (ob_catalog ob)) = Some v" for c v a
    by (auto simp: compare_catalog_skill_def catalog_answered_def skills_unavailable_def Let_def split: option.splits)
  have extra: "quiet (extra_catalog_skills de ob) \<longleftrightarrow>
      (ob_catalog_answered ob = Some True \<and> ob_skills_availability ob = Some SkillsAvailable \<longrightarrow>
        (\<forall>(c, v, a) \<in> set (ob_catalog ob). \<exists>v'. (c, v', a) \<in> set (de_catalog de)))"
    by (force simp: extra_catalog_skills_def list_ex_iff split: prod.splits)
  show ?thesis
    unfolding catalog_in_sync_def extra
    by (auto simp: one skills_unavailable_def split: prod.splits)
qed

lemma quiet_checkouts:
  "(\<forall>entry \<in> set (de_checkouts de). quiet (compare_checkout ob entry)) \<and> quiet (extra_checkouts de ob) \<longleftrightarrow>
   checkouts_in_sync de ob"
proof -
  have one: "quiet (compare_checkout ob (remote, root)) \<longleftrightarrow> ob_checkouts_answered ob = Some True \<and>
      map_option oc_root (find (\<lambda>c. oc_remote c = Some remote) (ob_checkouts ob)) = Some root" for remote root
    by (auto simp: compare_checkout_def Let_def split: option.splits)
  have extra: "quiet (extra_checkouts de ob) \<longleftrightarrow> (ob_checkouts_answered ob = Some True \<longrightarrow>
        (\<forall>c \<in> set (ob_checkouts ob). \<forall>remote. oc_remote c = Some remote \<longrightarrow> remote \<in> fst ` set (de_checkouts de)))"
    by (force simp: extra_checkouts_def list_ex_iff split: option.splits)
  show ?thesis
    unfolding checkouts_in_sync_def extra
    by (cases "de_checkouts de") (auto simp: one split: prod.splits)
qed

lemma quiet_raw: "quiet (raw_differences de ob) \<longleftrightarrow> in_sync de ob"
  using quiet_catalog [of de ob] quiet_checkouts [of de ob]
  by (auto simp: raw_differences_def in_sync_def quiet_tool quiet_skills)

text \<open>Where a raw difference comes from, and what its observation answered.\<close>

lemma raw_cases:
  assumes "d \<in> set (raw_differences de ob)"
  obtains (tool) entry where "entry \<in> set (de_tools de)" "d \<in> set (compare_tool ob entry)"
  | (skill) "d \<in> set (compare_skills de ob)"
  | (catalog) "\<exists>entry \<in> set (de_catalog de). d \<in> set (compare_catalog_skill ob entry)"
  | (extra_catalog) "d \<in> set (extra_catalog_skills de ob)"
  | (checkout) entry where "entry \<in> set (de_checkouts de)" "d \<in> set (compare_checkout ob entry)"
  | (extra_checkout) "d \<in> set (extra_checkouts de ob)"
  using assms by (auto simp: raw_differences_def)

lemma compare_field_identity:
  "compare_field i (Some v) seen = Some d \<Longrightarrow> fd_identity d = i \<and> actionable d \<and> fd_desired d = Some v"
  by (auto simp: compare_field_def difference_defs actionable_def state_actionable_def split: option.splits if_splits)

lemma built_identity [simp]:
  "fd_identity (difference_unknown i w r) = i" "fd_identity (difference_unsupported i w r) = i"
  "fd_identity (difference_missing i v) = i" "fd_identity (difference_extra i v) = i"
  by (simp_all add: difference_defs)

lemma built_actionable [simp]:
  "\<not> actionable (difference_unknown i w r)" "\<not> actionable (difference_unsupported i w r)"
  "actionable (difference_missing i v)" "actionable (difference_extra i v)"
  by (simp_all add: difference_defs actionable_def state_actionable_def)

lemma actionable_state: "actionable d \<Longrightarrow> fd_state d \<noteq> Unsupported \<and> fd_state d \<noteq> Unknown"
  by (auto simp: actionable_def state_actionable_def)

lemma built_desired [simp]:
  "fd_desired (difference_missing i v) = Some v" "difference_unknown i w r \<noteq> difference_missing j v"
  by (simp_all add: difference_defs)

lemma tool_difference:
  assumes "d \<in> set (compare_tool ob entry)"
  shows "fd_identity d = tool_identity (fst entry)" and "fd_state d \<noteq> Unsupported"
    and "actionable d \<Longrightarrow> ob_mise_answered ob = Some True \<and>
      (\<forall>t. find (\<lambda>t. ot_tool t = fst entry) (ob_tools ob) = Some t \<longrightarrow> ot_availability t \<noteq> ToolUnknown) \<and>
      fd_desired d = Some (snd entry)"
  using assms
  by (auto simp: compare_tool_def Let_def split: prod.splits if_splits
      dest!: compare_field_identity dest: actionable_state)

definition skill_kind :: "string \<Rightarrow> bool" where
  "skill_kind i \<longleftrightarrow> (\<exists>skill agent. i = skill_identity skill agent)"

definition catalog_kind :: "string \<Rightarrow> bool" where
  "catalog_kind i \<longleftrightarrow> (\<exists>catalog agent. i = catalog_identity catalog agent)"

definition checkout_kind :: "string \<Rightarrow> bool" where
  "checkout_kind i \<longleftrightarrow> (\<exists>remote. i = checkout_identity remote)"

lemma kinds [simp]:
  "skill_kind (skill_identity s a)" "catalog_kind (catalog_identity c a)" "checkout_kind (checkout_identity r)"
  "\<not> skill_kind (tool_identity t)" "\<not> catalog_kind (tool_identity t)" "\<not> checkout_kind (tool_identity t)"
  "\<not> catalog_kind (skill_identity s a)" "\<not> checkout_kind (skill_identity s a)"
  "\<not> skill_kind (catalog_identity c a)" "\<not> checkout_kind (catalog_identity c a)"
  "\<not> skill_kind (checkout_identity r)" "\<not> catalog_kind (checkout_identity r)"
  unfolding skill_kind_def catalog_kind_def checkout_kind_def
  using identity_kinds by (blast, blast, blast, metis+)

lemma skill_difference:
  assumes "d \<in> set (compare_skills de ob)"
  shows "skill_kind (fd_identity d)"
    and "fd_state d = Unsupported \<longleftrightarrow> skills_unavailable ob"
    and "actionable d \<Longrightarrow> \<not> skills_unavailable ob \<and> \<not> skills_unanswered ob"
  using assms by (auto simp: compare_skills_def split: prod.splits if_splits)

lemma catalog_difference:
  assumes "d \<in> set (compare_catalog_skill ob (c, v, a))"
  shows "fd_identity d = catalog_identity c a"
    and "fd_state d = Unsupported \<longleftrightarrow> skills_unavailable ob"
    and "actionable d \<Longrightarrow> \<not> skills_unavailable ob \<and> catalog_answered ob \<and> fd_desired d = Some v"
  using assms
  by (auto simp: compare_catalog_skill_def Let_def catalog_answered_def
      split: if_splits option.splits prod.splits dest!: compare_field_identity dest: actionable_state)

lemma extra_catalog_difference:
  assumes "d \<in> set (extra_catalog_skills de ob)"
  shows "catalog_kind (fd_identity d)" and "fd_state d = Extra"
    and "\<not> skills_unavailable ob \<and> catalog_answered ob"
  using assms
  by (auto simp: extra_catalog_skills_def catalog_answered_def skills_unavailable_def split: if_splits prod.splits)

lemma checkout_difference:
  assumes "d \<in> set (compare_checkout ob entry)"
  shows "fd_identity d = checkout_identity (fst entry)" and "fd_state d \<noteq> Unsupported"
    and "actionable d \<Longrightarrow> ob_checkouts_answered ob = Some True \<and> fd_desired d = Some (snd entry)"
  using assms
  by (auto simp: compare_checkout_def Let_def split: prod.splits if_splits option.splits
      dest!: compare_field_identity dest: actionable_state)

lemma extra_checkout_difference:
  assumes "d \<in> set (extra_checkouts de ob)"
  shows "checkout_kind (fd_identity d)" and "fd_state d = Extra"
    and "ob_checkouts_answered ob = Some True"
  using assms by (auto simp: extra_checkouts_def split: if_splits option.splits prod.splits)

lemma raw_kind:
  assumes "d \<in> set (raw_differences de ob)"
  shows "if skill_kind (fd_identity d) \<or> catalog_kind (fd_identity d)
    then fd_state d = Unsupported \<longleftrightarrow> skills_unavailable ob else fd_state d \<noteq> Unsupported"
  using assms
proof (cases rule: raw_cases)
  case (tool entry)
  then show ?thesis using tool_difference(1,2) by simp
next
  case skill
  then show ?thesis using skill_difference(1,2) by simp
next
  case catalog
  then obtain c v a where "d \<in> set (compare_catalog_skill ob (c, v, a))" by auto
  then show ?thesis using catalog_difference(1,2) by simp
next
  case extra_catalog
  then show ?thesis using extra_catalog_difference by simp
next
  case (checkout entry)
  then show ?thesis using checkout_difference(1,2) by simp
next
  case extra_checkout
  then show ?thesis using extra_checkout_difference by (metis checkout_kind_def difference_state.distinct(13) kinds(11,12))
qed

text \<open>
  The facts that justify an actionable difference, kind by kind: the source of its state answered,
  and the desired entry is the one the observation contradicts, or the observed entry is one that
  no desired entry names.
\<close>

definition tool_grounded :: "desired_state \<Rightarrow> observed_state \<Rightarrow> field_difference \<Rightarrow> bool" where
  "tool_grounded de ob d \<longleftrightarrow>
     ob_mise_answered ob = Some True \<and>
     (\<exists>(tool, version) \<in> set (de_tools de).
        case find (\<lambda>t. ot_tool t = tool) (ob_tools ob) of
          None \<Rightarrow> d = difference_missing (tool_identity tool) version
        | Some t \<Rightarrow>
            ot_availability t \<noteq> ToolUnknown \<and>
            (if ot_availability t = ToolPresent \<and> ot_version t \<noteq> None then
               version \<noteq> the (ot_version t) \<and>
               d = difference_changed (tool_identity tool) version (the (ot_version t))
             else d = difference_missing (tool_identity tool) version))"

definition skill_grounded :: "desired_state \<Rightarrow> observed_state \<Rightarrow> field_difference \<Rightarrow> bool" where
  "skill_grounded de ob d \<longleftrightarrow>
     \<not> skills_unavailable ob \<and> \<not> skills_unanswered ob \<and>
     (\<exists>skill agent. let wanted = (skill, agent) \<in> set (de_skills de);
         seen = (skill, agent) \<in> (\<lambda>s. (os_skill s, os_agent s)) ` set (ob_skills ob)
       in wanted \<and> \<not> seen \<and> d = difference_missing (skill_identity skill agent) ''deployed'' \<or>
          seen \<and> \<not> wanted \<and> d = difference_extra (skill_identity skill agent) ''deployed'')"

definition catalog_grounded :: "desired_state \<Rightarrow> observed_state \<Rightarrow> field_difference \<Rightarrow> bool" where
  "catalog_grounded de ob d \<longleftrightarrow>
     \<not> skills_unavailable ob \<and> catalog_answered ob \<and>
     ((\<exists>(c, v, a) \<in> set (de_catalog de).
         case find (\<lambda>(c', _, a'). c' = c \<and> a' = a) (ob_catalog ob) of
           None \<Rightarrow> d = difference_missing (catalog_identity c a) v
         | Some (_, seen, _) \<Rightarrow> v \<noteq> seen \<and> d = difference_changed (catalog_identity c a) v seen) \<or>
      (\<exists>(c, v, a) \<in> set (ob_catalog ob).
         (c, a) \<notin> (\<lambda>(c', _, a'). (c', a')) ` set (de_catalog de) \<and>
         d = difference_extra (catalog_identity c a) v))"

definition checkout_grounded :: "desired_state \<Rightarrow> observed_state \<Rightarrow> field_difference \<Rightarrow> bool" where
  "checkout_grounded de ob d \<longleftrightarrow>
     ob_checkouts_answered ob = Some True \<and>
     ((\<exists>(remote, root) \<in> set (de_checkouts de).
         case find (\<lambda>c. oc_remote c = Some remote) (ob_checkouts ob) of
           None \<Rightarrow> None \<notin> oc_remote ` set (ob_checkouts ob) \<and>
             d = difference_missing (checkout_identity remote) root
         | Some c \<Rightarrow> root \<noteq> oc_root c \<and>
             d = difference_changed (checkout_identity remote) root (oc_root c)) \<or>
      (\<exists>c \<in> set (ob_checkouts ob). \<exists>remote. oc_remote c = Some remote \<and>
         remote \<notin> fst ` set (de_checkouts de) \<and>
         d = difference_extra (checkout_identity remote) (oc_root c)))"

definition answered_for :: "desired_state \<Rightarrow> observed_state \<Rightarrow> field_difference \<Rightarrow> bool" where
  "answered_for de ob d \<longleftrightarrow>
     tool_grounded de ob d \<or> skill_grounded de ob d \<or> catalog_grounded de ob d \<or> checkout_grounded de ob d"

lemma opt_compare_field:
  assumes "compare_field i (Some v) seen = Some d"
  shows "case seen of None \<Rightarrow> d = difference_missing i v
    | Some w \<Rightarrow> v \<noteq> w \<and> d = difference_changed i v w"
  using assms by (auto simp: compare_field_def split: option.splits if_splits)

lemma find_None_ball: "find P xs = None \<longleftrightarrow> (\<forall>x \<in> set xs. \<not> P x)"
  by (auto simp: find_None_iff)

lemma tool_is_grounded:
  assumes "entry \<in> set (de_tools de)" and "d \<in> set (compare_tool ob entry)" and "actionable d"
  shows "tool_grounded de ob d"
proof (cases entry)
  case (Pair tool version)
  show ?thesis
  proof (cases "find (\<lambda>t. ot_tool t = tool) (ob_tools ob)")
    case None
    with assms Pair show ?thesis
      unfolding tool_grounded_def
      by (auto simp: compare_tool_def Let_def compare_field_def split: if_splits intro!: bexI [of _ entry])
  next
    case (Some t)
    then show ?thesis
      using assms Pair unfolding tool_grounded_def
      by (cases "ot_availability t")
        (auto simp: compare_tool_def Let_def split: if_splits option.splits
          dest!: opt_compare_field intro!: bexI [of _ entry])
  qed
qed

lemma skill_is_grounded:
  assumes "d \<in> set (compare_skills de ob)" and "actionable d"
  shows "skill_grounded de ob d"
proof -
  have answered: "\<not> skills_unavailable ob \<and> \<not> skills_unanswered ob"
    using skill_difference(3) assms by blast
  with assms(1) consider
      (missing) entry where "entry \<in> set (de_skills de)"
        "entry \<notin> (\<lambda>s. (os_skill s, os_agent s)) ` set (ob_skills ob)"
        "d = difference_missing (skill_identity (fst entry) (snd entry)) ''deployed''"
    | (extra) s where "s \<in> set (ob_skills ob)" "(os_skill s, os_agent s) \<notin> set (de_skills de)"
        "d = difference_extra (skill_identity (os_skill s) (os_agent s)) ''deployed''"
    by (fastforce simp: compare_skills_def list_ex_iff split: if_splits)
  then show ?thesis
  proof cases
    case missing
    then show ?thesis
      unfolding skill_grounded_def Let_def
      using answered by (intro conjI exI [of _ "fst entry"] exI [of _ "snd entry"]) auto
  next
    case extra
    then show ?thesis
      unfolding skill_grounded_def Let_def
      using answered by (intro conjI exI [of _ "os_skill s"] exI [of _ "os_agent s"]) auto
  qed
qed

lemma catalog_is_grounded:
  assumes "entry \<in> set (de_catalog de)" and "d \<in> set (compare_catalog_skill ob entry)" and "actionable d"
  shows "catalog_grounded de ob d"
proof -
  obtain c v a where entry: "entry = (c, v, a)" by (cases entry)
  with assms(2,3) have "case find (\<lambda>(c', _, a'). c' = c \<and> a' = a) (ob_catalog ob) of
      None \<Rightarrow> d = difference_missing (catalog_identity c a) v
    | Some (_, seen, _) \<Rightarrow> v \<noteq> seen \<and> d = difference_changed (catalog_identity c a) v seen"
    by (auto simp: compare_catalog_skill_def Let_def split: if_splits option.splits dest!: opt_compare_field)
  moreover have "\<not> skills_unavailable ob \<and> catalog_answered ob"
    using catalog_difference(3) assms(2,3) entry by blast
  ultimately show ?thesis
    using assms(1) entry unfolding catalog_grounded_def by fastforce
qed

lemma extra_catalog_is_grounded:
  assumes "d \<in> set (extra_catalog_skills de ob)"
  shows "catalog_grounded de ob d"
proof -
  obtain c v a where "(c, v, a) \<in> set (ob_catalog ob)"
      "\<not> list_ex (\<lambda>(c', _, a'). c' = c \<and> a' = a) (de_catalog de)"
      "d = difference_extra (catalog_identity c a) v"
    using assms by (auto simp: extra_catalog_skills_def split: if_splits prod.splits)
  then have "\<exists>(c, v, a) \<in> set (ob_catalog ob). (c, a) \<notin> (\<lambda>(c', _, a'). (c', a')) ` set (de_catalog de) \<and>
      d = difference_extra (catalog_identity c a) v"
    by (force simp: list_ex_iff)
  then show ?thesis using extra_catalog_difference(3) [OF assms] by (simp add: catalog_grounded_def)
qed

lemma checkout_is_grounded:
  assumes "entry \<in> set (de_checkouts de)" and "d \<in> set (compare_checkout ob entry)" and "actionable d"
  shows "checkout_grounded de ob d"
proof -
  obtain remote root where entry: "entry = (remote, root)" by (cases entry)
  with assms(2,3) have "case find (\<lambda>c. oc_remote c = Some remote) (ob_checkouts ob) of
      None \<Rightarrow> None \<notin> oc_remote ` set (ob_checkouts ob) \<and> d = difference_missing (checkout_identity remote) root
    | Some c \<Rightarrow> root \<noteq> oc_root c \<and> d = difference_changed (checkout_identity remote) root (oc_root c)"
    by (auto simp: compare_checkout_def Let_def list_ex_iff split: if_splits option.splits dest!: opt_compare_field)
  moreover have "ob_checkouts_answered ob = Some True"
    using checkout_difference(3) assms(2,3) by blast
  ultimately show ?thesis
    using assms(1) entry unfolding checkout_grounded_def by fastforce
qed

lemma extra_checkout_is_grounded:
  assumes "d \<in> set (extra_checkouts de ob)"
  shows "checkout_grounded de ob d"
proof -
  define extra where "extra c = (case oc_remote c of None \<Rightarrow> []
      | Some remote \<Rightarrow> if list_ex (\<lambda>(d, _). d = remote) (de_checkouts de) then []
          else [difference_extra (checkout_identity remote) (oc_root c)])" for c :: observed_checkout
  have "extra_checkouts de ob =
      (if ob_checkouts_answered ob = Some True then concat (map extra (ob_checkouts ob)) else [])"
    by (simp add: extra_checkouts_def extra_def [abs_def])
  with assms obtain c where c: "c \<in> set (ob_checkouts ob)" and d: "d \<in> set (extra c)"
    by (auto split: if_splits)
  from d obtain remote where "oc_remote c = Some remote" "\<not> list_ex (\<lambda>(d, _). d = remote) (de_checkouts de)"
      "d = difference_extra (checkout_identity remote) (oc_root c)"
    by (cases "oc_remote c") (auto simp: extra_def split: if_splits)
  then show ?thesis
    using c extra_checkout_difference(3) [OF assms] by (force simp: checkout_grounded_def list_ex_iff)
qed

lemma raw_answered:
  assumes "d \<in> set (raw_differences de ob)" and "actionable d"
  shows "answered_for de ob d"
  using assms(1) unfolding answered_for_def
proof (cases rule: raw_cases)
  case (tool entry)
  then show "tool_grounded de ob d \<or> skill_grounded de ob d \<or> catalog_grounded de ob d \<or> checkout_grounded de ob d"
    using tool_is_grounded assms(2) by blast
qed (use assms(2) skill_is_grounded catalog_is_grounded extra_catalog_is_grounded checkout_is_grounded
    extra_checkout_is_grounded in blast)+

text \<open>An unsupported difference and an actionable one never share an identity.\<close>

lemma unsupported_raw:
  assumes "d \<in> set (raw_differences de ob)" and "fd_state d = Unsupported"
    and "e \<in> set (raw_differences de ob)" and "fd_identity e = fd_identity d"
  shows "fd_state e = Unsupported"
  using raw_kind [OF assms(1)] raw_kind [OF assms(3)] assms(2,4) by (simp split: if_splits)

lemma converged_quiet: "converged (compare de ob) \<longleftrightarrow> quiet (raw_differences de ob)"
proof
  assume c: "converged (compare de ob)"
  show "quiet (raw_differences de ob)"
    unfolding quiet_def
  proof
    fix e assume e: "e \<in> set (raw_differences de ob)"
    then have "fd_identity e \<in> fd_identity ` set (compare de ob)"
      by (simp add: compare_def canonicalize_identities)
    then obtain d where d: "d \<in> set (compare de ob)" "fd_identity e = fd_identity d" by auto
    then have "d \<in> set (raw_differences de ob)" "fd_state d = Unsupported"
      using c canonicalize_subset by (auto simp: compare_def converged_iff)
    then show "fd_state e = Unsupported" using unsupported_raw e d by blast
  qed
next
  assume "quiet (raw_differences de ob)"
  then show "converged (compare de ob)"
    using canonicalize_subset unfolding quiet_def compare_def converged_iff by blast
qed

text \<open>C31. A machine counts as converged exactly when it is in sync: an answered inventory shows every
  desired tool present at its version, the deployed skills are exactly the desired ones, every
  desired catalog skill is observed at its version and no other catalog skill is, every desired
  checkout is found at its root and every checkout that names a remote is desired; for the two
  kinds of skill alone, it also counts when the machine has no supported manager of them. Tools are
  additive: a tool nobody desires, and a checkout without a remote, never stand against
  convergence.\<close>

theorem converged_is_in_sync: "converged (compare de ob) \<longleftrightarrow> in_sync de ob"
  by (simp add: converged_quiet quiet_raw)

end
