(* ===== verification/Planner.thy ===== *)
theory Planner
  imports Drift Authz
begin

text \<open>
  From a difference set to ordered actions: the planner of
  \<open>crates/fleet-application/src/planner.rs\<close>, and the approval gate, the compensations and the
  check after the apply of \<open>crates/fleet-application/src/apply.rs\<close>.
\<close>

section \<open>Planning\<close>

record planned_action =
  pa_order :: nat
  pa_kind :: string
  pa_difference :: field_difference
  pa_reason :: string

record plan =
  pl_actions :: "planned_action list"
  pl_unactionable :: "field_difference list"

definition plan_is_empty :: "plan \<Rightarrow> bool" where
  "plan_is_empty p \<longleftrightarrow> pl_actions p = []"

definition rank :: "string \<Rightarrow> nat" where
  "rank kind =
     (if kind = ''projects.clone'' then 0
      else if kind = ''mise.install'' then 1
      else if kind \<in> {''skills.deploy'', ''skills.catalog-rollout'', ''frogenv.setup''} then 2
      else if kind = ''mise.exec'' then 3
      else 4)"

definition resolving_kind :: "field_difference \<Rightarrow> string option" where
  "resolving_kind d =
     (if starts_with ''tool:'' (fd_identity d) then
        (if fd_state d \<in> {Missing, Changed} then Some ''mise.install'' else None)
      else if starts_with ''skill:'' (fd_identity d) then
        (case fd_state d of Missing \<Rightarrow> Some ''skills.deploy'' | Extra \<Rightarrow> Some ''skills.undeploy'' | _ \<Rightarrow> None)
      else if starts_with ''catalog-skill:'' (fd_identity d) then
        (if fd_state d \<in> {Missing, Changed} then Some ''skills.catalog-rollout'' else None)
      else if starts_with ''checkout:'' (fd_identity d) then
        (if fd_state d \<in> {Missing, Changed} then Some ''projects.clone'' else None)
      else None)"

definition reason_for :: "string \<Rightarrow> string" where
  "reason_for kind =
     (if kind = ''projects.clone'' then ''the checkout is the root every project-scoped step sits in''
      else if kind = ''mise.install'' then ''tools install before anything uses them''
      else if kind = ''skills.deploy'' then ''skills deploy after the tools they need exist''
      else if kind = ''skills.catalog-rollout'' then
        ''install or update the pinned catalog version, then deploy it''
      else if kind = ''skills.undeploy'' then
        ''a stale deployment is removed through the guarded undeploy path''
      else if kind = ''frogenv.setup'' then ''the environment configures independently of tools''
      else ''runs after its dependencies'')"

text \<open>The sort key: the rank, \<open>u8::MAX\<close> without a resolving kind, then the identity.\<close>

definition action_key :: "field_difference \<Rightarrow> nat \<times> string" where
  "action_key d = (case resolving_kind d of None \<Rightarrow> 255 | Some k \<Rightarrow> rank k, fd_identity d)"

definition no_bounded_operation :: string where
  "no_bounded_operation = ''no bounded operation resolves this difference''"

definition downgraded :: "field_difference \<Rightarrow> field_difference" where
  "downgraded d = d\<lparr>fd_state := Unsupported, fd_reason := Some no_bounded_operation\<rparr>"

fun plan_differences ::
    "field_difference list \<Rightarrow> planned_action list \<Rightarrow> field_difference list \<Rightarrow>
     planned_action list \<times> field_difference list" where
  "plan_differences [] actions unactionable = (actions, unactionable)"
| "plan_differences (d # ds) actions unactionable =
     (if fd_state d \<in> {Unknown, Unsupported} then plan_differences ds actions (unactionable @ [d])
      else case resolving_kind d of
             Some kind \<Rightarrow>
               plan_differences ds
                 (actions @ [\<lparr>pa_order = 0, pa_kind = kind, pa_difference = d, pa_reason = reason_for kind\<rparr>])
                 unactionable
           | None \<Rightarrow> plan_differences ds actions (unactionable @ [downgraded d]))"

definition u32_max :: nat where "u32_max = 2 ^ 32 - 1"

definition renumber :: "planned_action list \<Rightarrow> planned_action list" where
  "renumber actions =
     map (\<lambda>(position, a). a\<lparr>pa_order := min (position + 1) u32_max\<rparr>) (enumerate 0 actions)"

definition make_plan :: "difference_set \<Rightarrow> plan" where
  "make_plan fs =
     (let ordered = sort_key action_key (set_actionable fs);
          sorted_unactionable = sort_key fd_identity (filter (\<lambda>d. \<not> actionable d) fs);
          (actions, unactionable) = plan_differences ordered [] []
      in \<lparr>pl_actions = renumber actions, pl_unactionable = unactionable @ sorted_unactionable\<rparr>)"

section \<open>Applying: approvals, compensations, verification\<close>

record approval =
  ap_plan :: string
  ap_order :: nat
  ap_kind :: string

definition apply_kind_permission :: "string \<Rightarrow> permission option" where
  "apply_kind_permission kind =
     (if kind = ''mise.install'' then Some MiseOperate
      else if kind \<in> {''skills.deploy'', ''skills.undeploy'', ''skills.catalog-rollout'',
                       ''presets.deploy'', ''presets.undeploy''} then Some SkillsDeploy
      else if kind \<in> {''skills.install'', ''skills.update'', ''skills.check'', ''skills.remove'',
                       ''skills.adopt'', ''skills.set-source'', ''presets.create'', ''presets.update'',
                       ''presets.delete'', ''presets.add-skill'', ''presets.remove-skill''} then Some SkillsModify
      else if kind = ''projects.clone'' then Some ProjectsGitWrite
      else None)"

definition requires_approval :: "string \<Rightarrow> bool" where
  "requires_approval kind \<longleftrightarrow>
     (case apply_kind_permission kind of None \<Rightarrow> False | Some p \<Rightarrow> is_risky p)"

datatype compensation = Idempotent | Undeploy string string | NoCompensation

definition compensation_for_step :: "string \<Rightarrow> field_difference \<Rightarrow> compensation" where
  "compensation_for_step kind d =
     (if kind \<in> {''mise.install'', ''projects.clone''} then Idempotent
      else if kind = ''skills.deploy'' then
        (let rest = (case strip_prefix ''skill:'' (fd_identity d) of Some r \<Rightarrow> r | None \<Rightarrow> fd_identity d)
         in case split_once (CHR ''/'') rest of
              Some (skill, agent) \<Rightarrow> Undeploy skill agent
            | None \<Rightarrow> NoCompensation)
      else NoCompensation)"

definition unapproved_actions :: "string \<Rightarrow> planned_action list \<Rightarrow> approval list \<Rightarrow> planned_action list" where
  "unapproved_actions plan_id actions approvals =
     filter (\<lambda>a. \<not> list_ex (\<lambda>p. ap_plan p = plan_id \<and> ap_order p = pa_order a \<and> ap_kind p = pa_kind a) approvals)
       (filter (\<lambda>a. requires_approval (pa_kind a)) actions)"

definition verified :: "difference_set \<Rightarrow> string + unit" where
  "verified fs =
     (let blockers = filter (\<lambda>d. fd_state d = Unknown \<or> actionable d) (canonicalize fs)
      in if blockers = [] then Inr ()
         else Inl (join_text ''; ''
                (map (\<lambda>d. fd_identity d @ '' ('' @ difference_state_id (fd_state d) @ '')'') blockers)))"

section \<open>What a plan holds\<close>

lemma plan_differences_actions:
  "plan_differences ds actions unactionable = (acts, rest) \<Longrightarrow> list_all actionable ds \<Longrightarrow>
   map (\<lambda>a. (pa_kind a, pa_difference a)) acts =
     map (\<lambda>a. (pa_kind a, pa_difference a)) actions @
     concat (map (\<lambda>d. case resolving_kind d of None \<Rightarrow> [] | Some k \<Rightarrow> [(k, d)]) ds) \<and>
   rest = unactionable @ map downgraded (filter (\<lambda>d. resolving_kind d = None) ds)"
proof (induction ds arbitrary: actions unactionable)
  case (Cons d ds)
  then have st: "fd_state d \<noteq> Unknown" "fd_state d \<noteq> Unsupported" and ds: "list_all actionable ds"
    using actionable_state by auto
  show ?case
  proof (cases "resolving_kind d")
    case None
    with Cons.prems st have "plan_differences ds actions (unactionable @ [downgraded d]) = (acts, rest)" by simp
    from Cons.IH [OF this ds] None show ?thesis by simp
  next
    case (Some kind)
    let ?a = "\<lparr>pa_order = 0, pa_kind = kind, pa_difference = d, pa_reason = reason_for kind\<rparr>"
    from Cons.prems st Some have "plan_differences ds (actions @ [?a]) unactionable = (acts, rest)" by simp
    from Cons.IH [OF this ds] Some show ?thesis by simp
  qed
qed simp

lemma renumber_fields:
  "map (\<lambda>a. (pa_kind a, pa_difference a)) (renumber actions) = map (\<lambda>a. (pa_kind a, pa_difference a)) actions"
  by (rule nth_equalityI) (simp_all add: renumber_def nth_enumerate_eq)

lemma renumber_orders:
  "map pa_order (renumber actions) = map (\<lambda>n. min (n + 1) u32_max) [0..<length actions]"
  by (rule nth_equalityI) (simp_all add: renumber_def nth_enumerate_eq)

lemma renumber_length [simp]: "length (renumber actions) = length actions"
  by (simp add: renumber_def)

definition resolvable :: "field_difference \<Rightarrow> bool" where
  "resolvable d \<longleftrightarrow> actionable d \<and> resolving_kind d \<noteq> None"

lemma plan_actions:
  "map (\<lambda>a. (pa_kind a, pa_difference a)) (pl_actions (make_plan fs)) =
   map (\<lambda>d. (the (resolving_kind d), d)) (sort_key action_key (filter resolvable fs))"
proof -
  obtain acts rest where split: "plan_differences (sort_key action_key (set_actionable fs)) [] [] = (acts, rest)"
    by (cases "plan_differences (sort_key action_key (set_actionable fs)) [] []")
  have all: "list_all actionable (sort_key action_key (set_actionable fs))"
    by (simp add: list_all_iff set_actionable_def)
  have pieces: "concat (map (\<lambda>d. case resolving_kind d of None \<Rightarrow> [] | Some k \<Rightarrow> [(k, d)]) ds) =
      map (\<lambda>d. (the (resolving_kind d), d)) (filter (\<lambda>d. resolving_kind d \<noteq> None) ds)" for ds
    by (induction ds) (auto split: option.splits)
  have "filter (\<lambda>d. resolving_kind d \<noteq> None) (sort_key action_key (set_actionable fs)) =
      sort_key action_key (filter resolvable fs)"
    by (simp add: filter_sort set_actionable_def resolvable_def [abs_def] conj_commute)
  then show ?thesis
    using plan_differences_actions [OF split all]
    by (simp add: make_plan_def split renumber_fields pieces)
qed

lemma plan_unactionable:
  "pl_unactionable (make_plan fs) =
   map downgraded (sort_key action_key (filter (\<lambda>d. actionable d \<and> resolving_kind d = None) fs)) @
   sort_key fd_identity (filter (\<lambda>d. \<not> actionable d) fs)"
proof -
  obtain acts rest where split: "plan_differences (sort_key action_key (set_actionable fs)) [] [] = (acts, rest)"
    by (cases "plan_differences (sort_key action_key (set_actionable fs)) [] []")
  have all: "list_all actionable (sort_key action_key (set_actionable fs))"
    by (simp add: list_all_iff set_actionable_def)
  show ?thesis
    using plan_differences_actions [OF split all]
    by (simp add: make_plan_def split) (simp add: filter_sort set_actionable_def conj_commute)
qed

lemma plan_action_cases:
  assumes "a \<in> set (pl_actions (make_plan fs))"
  shows "pa_difference a \<in> set fs \<and> actionable (pa_difference a) \<and> resolving_kind (pa_difference a) = Some (pa_kind a)"
proof -
  have "(pa_kind a, pa_difference a) \<in> set (map (\<lambda>a. (pa_kind a, pa_difference a)) (pl_actions (make_plan fs)))"
    using assms by force
  then show ?thesis unfolding plan_actions by (auto simp: resolvable_def)
qed

lemma plan_orders:
  "map pa_order (pl_actions (make_plan fs)) = map (\<lambda>n. min (n + 1) u32_max) [0..<length (pl_actions (make_plan fs))]"
  by (simp add: make_plan_def Let_def renumber_orders split: prod.splits)

text \<open>C32. A plan is complete and ordered: its actions are exactly the differences an operation resolves,
  each once with its kind, in the order of the dependency ranks and numbered from one; every other
  difference is reported, the ones nothing resolves as unsupported.\<close>

theorem plan_complete_and_ordered:
  "mset (map pa_difference (pl_actions (make_plan fs))) = filter_mset resolvable (mset fs) \<and>
   mset (pl_unactionable (make_plan fs)) =
     image_mset (\<lambda>d. if actionable d then downgraded d else d) (filter_mset (\<lambda>d. \<not> resolvable d) (mset fs)) \<and>
   list_all (\<lambda>a. resolving_kind (pa_difference a) = Some (pa_kind a)) (pl_actions (make_plan fs)) \<and>
   sorted (map (\<lambda>a. (rank (pa_kind a), fd_identity (pa_difference a))) (pl_actions (make_plan fs))) \<and>
   map pa_order (pl_actions (make_plan fs)) =
     map (\<lambda>n. min (n + 1) u32_max) [0..<length (pl_actions (make_plan fs))]"
proof (intro conjI)
  let ?f = "\<lambda>a. (pa_kind a, pa_difference a)"
  let ?ds = "sort_key action_key (filter resolvable fs)"
  have "map pa_difference (pl_actions (make_plan fs)) = map snd (map ?f (pl_actions (make_plan fs)))" by simp
  also have "\<dots> = ?ds" unfolding plan_actions by (simp add: comp_def)
  finally show "mset (map pa_difference (pl_actions (make_plan fs))) = filter_mset resolvable (mset fs)"
    by simp
  let ?g = "\<lambda>d. if actionable d then downgraded d else d"
  have branch: "image_mset ?g (filter_mset (\<lambda>d. actionable d \<and> resolving_kind d = None) M) =
      image_mset downgraded (filter_mset (\<lambda>d. actionable d \<and> resolving_kind d = None) M)" for M
    by (rule image_mset_cong) simp
  have kept: "image_mset ?g (filter_mset (\<lambda>d. \<not> actionable d) M) = filter_mset (\<lambda>d. \<not> actionable d) M" for M
    by (induction M) simp_all
  have unresolved: "filter_mset (\<lambda>d. actionable d \<and> resolving_kind d = None) M + filter_mset (\<lambda>d. \<not> actionable d) M =
      filter_mset (\<lambda>d. \<not> resolvable d) M" for M
    by (induction M) (auto simp: resolvable_def)
  show "mset (pl_unactionable (make_plan fs)) =
      image_mset (\<lambda>d. if actionable d then downgraded d else d) (filter_mset (\<lambda>d. \<not> resolvable d) (mset fs))"
    unfolding plan_unactionable unresolved [symmetric]
    by (simp add: branch kept)
  show "list_all (\<lambda>a. resolving_kind (pa_difference a) = Some (pa_kind a)) (pl_actions (make_plan fs))"
    by (simp add: list_all_iff plan_action_cases)
  have "map (\<lambda>a. (rank (pa_kind a), fd_identity (pa_difference a))) (pl_actions (make_plan fs)) =
      map (\<lambda>(k, d). (rank k, fd_identity d)) (map ?f (pl_actions (make_plan fs)))"
    by simp
  also have "\<dots> = map action_key ?ds"
    unfolding plan_actions by (auto simp: action_key_def resolvable_def)
  finally show "sorted (map (\<lambda>a. (rank (pa_kind a), fd_identity (pa_difference a))) (pl_actions (make_plan fs)))"
    by simp
  show "map pa_order (pl_actions (make_plan fs)) =
      map (\<lambda>n. min (n + 1) u32_max) [0..<length (pl_actions (make_plan fs))]"
    by (rule plan_orders)
qed

text \<open>What each kind of action may rest on.\<close>

definition justified :: "desired_state \<Rightarrow> observed_state \<Rightarrow> planned_action \<Rightarrow> bool" where
  "justified de ob a \<longleftrightarrow>
     (let d = pa_difference a in
        pa_kind a = ''mise.install'' \<and> tool_grounded de ob d \<or>
        pa_kind a = ''skills.deploy'' \<and> skill_grounded de ob d \<and> fd_state d = Missing \<or>
        pa_kind a = ''skills.undeploy'' \<and> skill_grounded de ob d \<and> fd_state d = Extra \<or>
        pa_kind a = ''skills.catalog-rollout'' \<and> catalog_grounded de ob d \<and> fd_state d \<in> {Missing, Changed} \<or>
        pa_kind a = ''projects.clone'' \<and> checkout_grounded de ob d \<and> fd_state d \<in> {Missing, Changed})"

lemma grounded_kinds:
  "tool_grounded de ob d \<Longrightarrow> starts_with ''tool:'' (fd_identity d)"
  "skill_grounded de ob d \<Longrightarrow> starts_with ''skill:'' (fd_identity d)"
  "catalog_grounded de ob d \<Longrightarrow> starts_with ''catalog-skill:'' (fd_identity d)"
  "checkout_grounded de ob d \<Longrightarrow> starts_with ''checkout:'' (fd_identity d)"
  by (auto simp: tool_grounded_def skill_grounded_def catalog_grounded_def checkout_grounded_def Let_def
      difference_defs tool_identity_def skill_identity_def catalog_identity_def checkout_identity_def
      starts_with_def split: option.splits if_splits)

lemma shared_prefix:
  assumes "starts_with q s" and "starts_with p s" and "length p \<le> length q"
  shows "starts_with p q"
  using assms unfolding starts_with_def by (metis min.absorb1 take_take)

lemma other_prefix: "starts_with q s \<Longrightarrow> length p \<le> length q \<Longrightarrow> \<not> starts_with p q \<Longrightarrow> \<not> starts_with p s"
  using shared_prefix by blast

lemma one_prefix:
  "starts_with ''skill:'' s \<Longrightarrow> \<not> starts_with ''tool:'' s"
  "starts_with ''catalog-skill:'' s \<Longrightarrow> \<not> starts_with ''tool:'' s"
  "starts_with ''catalog-skill:'' s \<Longrightarrow> \<not> starts_with ''skill:'' s"
  "starts_with ''checkout:'' s \<Longrightarrow> \<not> starts_with ''tool:'' s"
  "starts_with ''checkout:'' s \<Longrightarrow> \<not> starts_with ''skill:'' s"
  by (erule other_prefix; simp add: starts_with_def)+

lemma starts_with_nth: "starts_with p s \<Longrightarrow> i < length p \<Longrightarrow> s ! i = p ! i"
  unfolding starts_with_def by (metis nth_take)

lemma checkout_prefix: "starts_with ''checkout:'' s \<Longrightarrow> \<not> starts_with ''catalog-skill:'' s"
  using starts_with_nth [of "''checkout:''" s 1] starts_with_nth [of "''catalog-skill:''" s 1] by auto

lemma answered_justified:
  assumes "answered_for de ob (pa_difference a)" and "resolving_kind (pa_difference a) = Some (pa_kind a)"
  shows "justified de ob a"
  using assms(1) unfolding answered_for_def
proof (elim disjE)
  assume g: "tool_grounded de ob (pa_difference a)"
  then show ?thesis
    using assms(2) grounded_kinds(1) [OF g] by (auto simp: justified_def resolving_kind_def Let_def split: if_splits)
next
  assume g: "skill_grounded de ob (pa_difference a)"
  then show ?thesis
    using assms(2) grounded_kinds(2) [OF g] one_prefix
    by (auto simp: justified_def resolving_kind_def Let_def split: if_splits difference_state.splits)
next
  assume g: "catalog_grounded de ob (pa_difference a)"
  then show ?thesis
    using assms(2) grounded_kinds(3) [OF g] one_prefix
    by (auto simp: justified_def resolving_kind_def Let_def split: if_splits)
next
  assume g: "checkout_grounded de ob (pa_difference a)"
  then show ?thesis
    using assms(2) grounded_kinds(4) [OF g] one_prefix checkout_prefix
    by (auto simp: justified_def resolving_kind_def Let_def split: if_splits)
qed

text \<open>C33. The planner never acts on a guess: every action resolves a difference that an answered
  observation shows. An install is of a desired tool that is absent, without a version or at
  another one; a deployment is of a desired skill that is not deployed and an undeployment of a
  deployed one that is not desired; a rollout is of a desired catalog skill that is missing or at
  another version; a clone is of a desired checkout that no observed checkout can be, or that is at
  another root. And no observation of the same identity, however the identities collide, was left
  unknown.\<close>

theorem plan_acts_on_answers:
  assumes "a \<in> set (pl_actions (make_plan (compare de ob)))"
  shows "justified de ob a \<and>
    (\<nexists>d. d \<in> set (raw_differences de ob) \<and> fd_identity d = fd_identity (pa_difference a) \<and> fd_state d = Unknown)"
proof -
  from plan_action_cases [OF assms] have d: "pa_difference a \<in> set (compare de ob)" "actionable (pa_difference a)"
      "resolving_kind (pa_difference a) = Some (pa_kind a)"
    by simp_all
  have "state_precedence (fd_state (pa_difference a)) = 1"
    using d(2) by (auto simp: actionable_def state_actionable_def state_precedence_def)
  then have "\<nexists>e. e \<in> set (raw_differences de ob) \<and> fd_identity e = fd_identity (pa_difference a) \<and> fd_state e = Unknown"
    using canonicalize_precedence [OF d(1) [unfolded compare_def]] by (fastforce simp: state_precedence_def)
  moreover have "pa_difference a \<in> set (raw_differences de ob)"
    using d(1) canonicalize_subset by (auto simp: compare_def)
  ultimately show ?thesis using raw_answered d(2) answered_justified [OF _ d(3)] by blast
qed

lemma verified_is_converged: "verified fs = Inr () \<longleftrightarrow> converged (canonicalize fs)"
  by (auto simp: verified_def Let_def converged_iff blocks_iff filter_empty_conv)

lemma approvals_cover_risk:
  assumes "unapproved_actions plan_id actions approvals = []" and "a \<in> set actions"
    and "apply_kind_permission (pa_kind a) = Some p" and "is_risky p"
  shows "\<lparr>ap_plan = plan_id, ap_order = pa_order a, ap_kind = pa_kind a\<rparr> \<in> set approvals"
proof -
  have "requires_approval (pa_kind a)" using assms(3,4) by (simp add: requires_approval_def)
  then have "list_ex (\<lambda>p. ap_plan p = plan_id \<and> ap_order p = pa_order a \<and> ap_kind p = pa_kind a) approvals"
    using assms(1,2) by (auto simp: unapproved_actions_def filter_empty_conv)
  then obtain p where "p \<in> set approvals" "ap_plan p = plan_id" "ap_order p = pa_order a" "ap_kind p = pa_kind a"
    by (auto simp: list_ex_iff)
  moreover from this have "p = \<lparr>ap_plan = plan_id, ap_order = pa_order a, ap_kind = pa_kind a\<rparr>" by simp
  ultimately show ?thesis by simp
qed

text \<open>A machine that reports one skill too many.\<close>

definition seen_stray :: observed_state where
  "seen_stray = from_observations [] [\<lparr>os_skill = ''old'', os_agent = ''codex''\<rparr>] [] True True True"

definition wants_nothing :: desired_state where
  "wants_nothing = \<lparr>de_tools = [], de_skills = [], de_catalog = [], de_checkouts = []\<rparr>"

definition undeploy_stray :: planned_action where
  "undeploy_stray =
     \<lparr>pa_order = 1, pa_kind = ''skills.undeploy'',
      pa_difference = difference_extra (skill_identity ''old'' ''codex'') ''deployed'',
      pa_reason = reason_for ''skills.undeploy''\<rparr>"

lemma plan_stray: "pl_actions (make_plan (compare wants_nothing seen_stray)) = [undeploy_stray]"
  by (simp add: seen_stray_def wants_nothing_def undeploy_stray_def from_observations_def compare_def
      raw_differences_def compare_skills_def skills_unavailable_def skills_unanswered_def extra_catalog_skills_def
      extra_checkouts_def canonicalize_def make_plan_def set_actionable_def skill_identity_def
      resolving_kind_def starts_with_def renumber_def u32_max_def enumerate_eq_zip
      difference_extra_def actionable_def state_actionable_def Let_def)

theorem plan_acts_on_answers_witness:
  "undeploy_stray \<in> set (pl_actions (make_plan (compare wants_nothing seen_stray))) \<and>
   justified wants_nothing seen_stray undeploy_stray"
  using plan_acts_on_answers [of undeploy_stray wants_nothing seen_stray] by (simp add: plan_stray)

end
