(* ===== verification/Drift_Observation.thy ===== *)
theory Drift_Observation
  imports Drift
begin

text \<open>
  The observed state of a machine as the controller assembles it from its stores,
  \<open>crates/fleet-application/src/observed_assembly.rs\<close>: the freshness of tool facts, Skills
  Manager snapshots and checkouts, and the catalog installations a snapshot confirms
  (\<open>catalog_installs.rs\<close>). Of a machine only the fields it reads are modelled.
\<close>

section \<open>Records\<close>

datatype gateway_state = GwConnected | GwStale | GwOffline
datatype node_status = NodeActive | NodeRevoked

record node_link =
  nl_gateway :: gateway_state
  nl_identity :: node_status
  nl_last_seen :: "int option"

datatype machine_status = MachineConnected | MachineStale | MachineOffline | MachineAgentless

definition machine_status_of :: "node_link option \<Rightarrow> machine_status" where
  "machine_status_of node =
     (case node of
        None \<Rightarrow> MachineAgentless
      | Some link \<Rightarrow>
          (case nl_identity link of
             NodeRevoked \<Rightarrow> MachineOffline
           | NodeActive \<Rightarrow>
               (case nl_gateway link of GwConnected \<Rightarrow> MachineConnected | GwStale \<Rightarrow> MachineStale
                | GwOffline \<Rightarrow> MachineOffline)))"

record fleet_machine =
  fm_id :: string
  fm_name :: string
  fm_tags :: "string list"
  fm_groups :: "string list"
  fm_capabilities :: "capability_fact list"
  fm_node :: "node_link option"

datatype manager_availability = ManagerAvailable | ManagerAbsent | ManagerUnsupported

record skills_snapshot =
  sn_machine :: string
  sn_availability :: manager_availability
  sn_data :: json
  sn_observed :: int

record catalog_install =
  ci_machine :: string
  ci_catalog :: string
  ci_version :: string
  ci_agent :: string
  ci_skill :: string
  ci_installed :: int

record checkout_input =
  cp_root :: string
  cp_branch :: "string option"
  cp_observed :: int
  cp_remote :: string

definition capability_freshness_ms :: int where "capability_freshness_ms = 24 * 60 * 60 * 1000"
definition skills_freshness_ms :: int where "skills_freshness_ms = 24 * 60 * 60 * 1000"
definition checkout_freshness_ms :: int where "checkout_freshness_ms = 24 * 60 * 60 * 1000"

section \<open>Assembly\<close>

text \<open>\<open>get(key).and_then(as_array).into_iter().flatten()\<close>.\<close>

definition json_items :: "string \<Rightarrow> json \<Rightarrow> json list" where
  "json_items key v = (case Option.bind (json_get key v) json_array of None \<Rightarrow> [] | Some xs \<Rightarrow> xs)"

definition install_holds :: "catalog_install \<Rightarrow> skills_snapshot \<Rightarrow> bool" where
  "install_holds install snapshot \<longleftrightarrow>
     (if sn_observed snapshot < ci_installed install then True
      else case sn_availability snapshot of
             ManagerUnsupported \<Rightarrow> True
           | ManagerAbsent \<Rightarrow> False
           | ManagerAvailable \<Rightarrow>
               list_ex (\<lambda>agent. json_str agent = Some (ci_agent install))
                 (concat (map (json_items ''deployedTo'')
                    (filter (\<lambda>skill. Option.bind (json_get ''id'' skill) json_str = Some (ci_skill install))
                      (json_items ''skills'' (sn_data snapshot))))))"

definition catalog_observation ::
    "catalog_install list option \<Rightarrow> skills_snapshot option \<Rightarrow> skills_availability \<Rightarrow>
     (string \<times> string \<times> string) list \<times> bool" where
  "catalog_observation installs snapshot availability =
     (case (installs, snapshot, availability) of
        (Some is, Some sn, SkillsAvailable) \<Rightarrow>
          (map (\<lambda>i. (ci_catalog i, ci_version i, ci_agent i)) (filter (\<lambda>i. install_holds i sn) is), True)
      | _ \<Rightarrow> ([], False))"

definition is_tool_fact :: "capability_fact \<Rightarrow> bool" where
  "is_tool_fact f \<longleftrightarrow> cf_namespace f \<in> {''tool'', ''tool-version''}"

text \<open>
  The loop over the facts collects the stale names, as the sorted set the code keeps, and
  whether one fact answered.
\<close>

definition stale_names :: "int \<Rightarrow> capability_fact list \<Rightarrow> string list" where
  "stale_names now facts =
     remdups (sort (map cf_name (filter (\<lambda>f. is_tool_fact f \<and>
       effective_status now capability_freshness_ms f = FactStale) facts)))"

definition tools_answered :: "int \<Rightarrow> capability_fact list \<Rightarrow> bool" where
  "tools_answered now facts \<longleftrightarrow>
     list_ex (\<lambda>f. is_tool_fact f \<and>
       effective_status now capability_freshness_ms f \<notin> {FactStale, FactUnknown}) facts"

definition tool_facts :: "int \<Rightarrow> capability_fact list \<Rightarrow> capability_fact list \<times> bool" where
  "tool_facts now facts =
     (let stale = stale_names now facts in
      (filter (\<lambda>f. is_tool_fact f \<and> cf_name f \<notin> set stale) facts @
       map (\<lambda>name. \<lparr>cf_namespace = ''tool'', cf_name = name, cf_value = None, cf_status = FactStale,
                     cf_observed = now, cf_source = ''assembly''\<rparr>) stale,
       tools_answered now facts))"

definition skills_observation ::
    "fleet_machine \<Rightarrow> skills_snapshot option \<Rightarrow> int \<Rightarrow> observed_skill list \<times> skills_availability" where
  "skills_observation machine snapshot now =
     (if machine_status_of (fm_node machine) = MachineOffline then ([], SkillsOffline)
      else case snapshot of
             None \<Rightarrow> ([], SkillsStale)
           | Some sn \<Rightarrow>
               if saturating_sub now (sn_observed sn) > skills_freshness_ms then ([], SkillsStale)
               else (case sn_availability sn of
                       ManagerAbsent \<Rightarrow> ([], SkillsAbsent)
                     | ManagerUnsupported \<Rightarrow> ([], SkillsUnsupported)
                     | ManagerAvailable \<Rightarrow>
                         (concat (map (\<lambda>skill.
                            case Option.bind (json_get ''id'' skill) json_str of
                              None \<Rightarrow> []
                            | Some i \<Rightarrow> normalize_skills i (List.map_filter json_str (json_items ''deployedTo'' skill)))
                            (json_items ''skills'' (sn_data sn))), SkillsAvailable)))"

definition checkout_observations ::
    "checkout_input list option \<Rightarrow> int \<Rightarrow> observed_checkout list \<times> bool" where
  "checkout_observations checkouts now =
     (case checkouts of
        None \<Rightarrow> ([], False)
      | Some cs \<Rightarrow>
          (let observations = map (\<lambda>c. \<lparr>oc_root = cp_root c, oc_remote = Some (cp_remote c),
                                         oc_branch = cp_branch c, co_status = ''known''\<rparr>)
                 (filter (\<lambda>c. saturating_sub now (cp_observed c) \<le> checkout_freshness_ms) cs)
           in (normalize_checkouts observations, observations \<noteq> [])))"

definition assemble_observed_state ::
    "fleet_machine \<Rightarrow> skills_snapshot option \<Rightarrow> checkout_input list option \<Rightarrow>
     catalog_install list option \<Rightarrow> int \<Rightarrow> observed_state" where
  "assemble_observed_state machine skills checkouts installs now =
     (let (facts, mise_ran) = tool_facts now (fm_capabilities machine);
          (skill_pairs, availability) = skills_observation machine skills now;
          (observed_checkouts, checkouts_ran) = checkout_observations checkouts now;
          (catalog_skills, catalog_ran) = catalog_observation installs skills availability
      in from_observations_with_catalog_versions (normalize_tools facts) skill_pairs catalog_skills
           observed_checkouts mise_ran availability catalog_ran checkouts_ran)"

section \<open>What a tool reads as\<close>

definition lookup_tool :: "observed_tool list \<Rightarrow> string \<Rightarrow> observed_tool option" where
  "lookup_tool ts name = find (\<lambda>t. ot_tool t = name) ts"

lemma lookup_update:
  assumes "ot_tool new = name" and "\<And>t. ot_tool (g t) = ot_tool t"
  shows "lookup_tool (update_tool name g new ts) n =
    (if n = name then Some (case lookup_tool ts name of None \<Rightarrow> new | Some t \<Rightarrow> g t) else lookup_tool ts n)"
  using assms by (induction ts) (auto simp: lookup_tool_def)

definition tool_step :: "capability_fact \<Rightarrow> observed_tool list \<Rightarrow> observed_tool list" where
  "tool_step f = update_tool (cf_name f) (\<lambda>t. t\<lparr>ot_availability := availability_of (cf_status f)\<rparr>)
     \<lparr>ot_tool = cf_name f, ot_version = None, ot_availability = availability_of (cf_status f)\<rparr>"

definition version_of :: "capability_fact \<Rightarrow> (string \<times> string) option" where
  "version_of f = (if cf_namespace f = ''tool-version''
     then map_option (\<lambda>v. (cf_name f, canonicalize_version v)) (cf_value f) else None)"

lemma collect_eq:
  "collect_tool_facts facts tools versions =
   (fold tool_step (filter (\<lambda>f. cf_namespace f = ''tool'') facts) tools,
    versions @ List.map_filter version_of facts)"
proof (induction facts arbitrary: tools versions)
  case (Cons f fs)
  show ?case
    by (cases "cf_value f")
      (simp_all add: Cons.IH tool_step_def version_of_def map_filter_simps Let_def)
qed (simp add: map_filter_simps)

lemma lookup_step:
  "lookup_tool (tool_step f ts) n =
   (if n = cf_name f
    then Some (case lookup_tool ts n of
        None \<Rightarrow> \<lparr>ot_tool = n, ot_version = None, ot_availability = availability_of (cf_status f)\<rparr>
      | Some t \<Rightarrow> t\<lparr>ot_availability := availability_of (cf_status f)\<rparr>)
    else lookup_tool ts n)"
  by (cases "n = cf_name f") (simp_all add: tool_step_def lookup_update split: option.split)

lemma lookup_steps:
  assumes "\<forall>f \<in> set fs. cf_name f = n \<longrightarrow> availability_of (cf_status f) = a"
  shows "lookup_tool (fold tool_step fs ts) n =
   (if n \<in> cf_name ` set fs
    then Some (case lookup_tool ts n of
        None \<Rightarrow> \<lparr>ot_tool = n, ot_version = None, ot_availability = a\<rparr>
      | Some t \<Rightarrow> t\<lparr>ot_availability := a\<rparr>)
    else lookup_tool ts n)"
  using assms
  by (induction fs arbitrary: ts) (auto simp: lookup_step split: option.splits)

lemma lookup_versions:
  assumes "n \<notin> fst ` set vs"
  shows "lookup_tool (fold (\<lambda>(name, v). update_tool name (\<lambda>t. t\<lparr>ot_version := Some v\<rparr>)
            \<lparr>ot_tool = name, ot_version = Some v, ot_availability = ToolPresent\<rparr>) vs ts) n = lookup_tool ts n"
  using assms by (induction vs arbitrary: ts) (auto simp: lookup_update)

lemma lookup_normalize:
  assumes "\<forall>f \<in> set facts. cf_name f = n \<longrightarrow> cf_namespace f \<noteq> ''tool-version''"
    and "\<forall>f \<in> set facts. cf_name f = n \<and> cf_namespace f = ''tool'' \<longrightarrow> cf_status f = FactKnown"
    and "\<exists>f \<in> set facts. cf_name f = n \<and> cf_namespace f = ''tool''"
  shows "lookup_tool (normalize_tools facts) n = Some \<lparr>ot_tool = n, ot_version = None, ot_availability = ToolPresent\<rparr>"
proof -
  have "n \<notin> fst ` set (List.map_filter version_of facts)"
    using assms(1) by (auto simp: map_filter_def version_of_def split: if_splits)
  moreover have "n \<in> cf_name ` set (filter (\<lambda>f. cf_namespace f = ''tool'') facts)" using assms(3) by auto
  moreover have "lookup_tool (fold tool_step (filter (\<lambda>f. cf_namespace f = ''tool'') facts) []) n =
      Some \<lparr>ot_tool = n, ot_version = None, ot_availability = ToolPresent\<rparr>"
    using assms(2) calculation(2)
    by (subst lookup_steps [where a = ToolPresent]) (auto simp: availability_of_def lookup_tool_def)
  ultimately show ?thesis
    by (simp add: normalize_tools_def collect_eq lookup_versions)
qed

section \<open>The probe of a tool on a node\<close>

text \<open>
  What \<open>ToolProbe::collect\<close> of \<open>crates/fleetd/src/probes.rs\<close> reports, given what running the
  tool with \<open>--version\<close> came to: an error, no answer, or the first line of its output.
\<close>

definition tool_probe_collect :: "string \<Rightarrow> string + string option \<Rightarrow> string + capability_fact list" where
  "tool_probe_collect tool answer =
     (case answer of
        Inl e \<Rightarrow> Inl e
      | Inr (Some version) \<Rightarrow>
          Inr [\<lparr>cf_namespace = ''tool'', cf_name = tool, cf_value = Some version, cf_status = FactKnown,
                cf_observed = 0, cf_source = []\<rparr>]
      | Inr None \<Rightarrow>
          Inr [\<lparr>cf_namespace = ''tool'', cf_name = tool, cf_value = None, cf_status = FactUnavailable,
                cf_observed = 0, cf_source = []\<rparr>])"

lemma fresh_tool_facts:
  assumes "f \<in> set facts" and "cf_namespace f = ''tool''" and "cf_name f = tool" and "cf_status f = FactKnown"
    and fresh: "effective_status now capability_freshness_ms f = FactKnown"
    and only: "\<forall>g \<in> set facts. cf_name g = tool \<and> is_tool_fact g \<longrightarrow> g = f"
  shows "lookup_tool (normalize_tools (fst (tool_facts now facts))) tool =
      Some \<lparr>ot_tool = tool, ot_version = None, ot_availability = ToolPresent\<rparr>"
    and "snd (tool_facts now facts)"
proof -
  have f: "is_tool_fact f" using assms(2) by (simp add: is_tool_fact_def)
  have stale: "tool \<notin> set (stale_names now facts)"
    using only fresh assms(3) by (auto simp: stale_names_def)
  show "lookup_tool (normalize_tools (fst (tool_facts now facts))) tool =
      Some \<lparr>ot_tool = tool, ot_version = None, ot_availability = ToolPresent\<rparr>"
  proof (rule lookup_normalize)
    have named: "g = f" if "g \<in> set (fst (tool_facts now facts))" "cf_name g = tool" for g
      using that only stale by (auto simp: tool_facts_def Let_def)
    show "\<forall>g \<in> set (fst (tool_facts now facts)). cf_name g = tool \<longrightarrow> cf_namespace g \<noteq> ''tool-version''"
      using named assms(2) by fastforce
    show "\<forall>g \<in> set (fst (tool_facts now facts)). cf_name g = tool \<and> cf_namespace g = ''tool'' \<longrightarrow> cf_status g = FactKnown"
      using named assms(4) by fastforce
    have "f \<in> set (fst (tool_facts now facts))"
      using assms(1,3) f stale by (simp add: tool_facts_def Let_def)
    then show "\<exists>g \<in> set (fst (tool_facts now facts)). cf_name g = tool \<and> cf_namespace g = ''tool''"
      using assms(2,3) by blast
  qed
  show "snd (tool_facts now facts)"
    using assms(1) f fresh by (auto simp: tool_facts_def Let_def tools_answered_def list_ex_iff)
qed

text \<open>C34. A node reports the version of a tool inside the fact of the tool itself, where the
  comparison does not look: whatever version the tool answered, the desired one included, a tool
  that only a node has observed reads as missing, and the machine never counts as converged.\<close>

theorem node_observed_tool_reads_missing:
  assumes "tool_probe_collect tool (Inr (Some raw)) = Inr [f]"
    and "stamp_fact probe schema at f \<in> set (fm_capabilities m)"
    and "\<forall>g \<in> set (fm_capabilities m). cf_name g = tool \<and> is_tool_fact g \<longrightarrow> g = stamp_fact probe schema at f"
    and "saturating_sub now at \<le> capability_freshness_ms"
    and "(tool, version) \<in> set (de_tools de)"
  shows "difference_missing (tool_identity tool) version \<in>
      set (raw_differences de (assemble_observed_state m skills checkouts installs now)) \<and>
    \<not> converged (compare de (assemble_observed_state m skills checkouts installs now))"
proof -
  let ?f = "stamp_fact probe schema at f"
  let ?ob = "assemble_observed_state m skills checkouts installs now"
  have f: "cf_namespace ?f = ''tool''" "cf_name ?f = tool" "cf_status ?f = FactKnown"
    "effective_status now capability_freshness_ms ?f = FactKnown"
    using assms(1,4) by (auto simp: tool_probe_collect_def stamp_fact_def effective_status_def)
  note reads = fresh_tool_facts [OF assms(2) f assms(3)]
  have "find (\<lambda>t. ot_tool t = tool) (ob_tools ?ob) = Some \<lparr>ot_tool = tool, ot_version = None, ot_availability = ToolPresent\<rparr>"
    using reads(1)
    by (simp add: assemble_observed_state_def from_observations_with_catalog_versions_def lookup_tool_def split_beta)
  moreover have "ob_mise_answered ?ob = Some True"
    using reads(2)
    by (simp add: assemble_observed_state_def from_observations_with_catalog_versions_def split_beta)
  ultimately have "compare_tool ?ob (tool, version) = [difference_missing (tool_identity tool) version]"
    by (simp add: compare_tool_def Let_def compare_field_def opt_list_def)
  then have "difference_missing (tool_identity tool) version \<in> set (raw_differences de ?ob)"
    using assms(5) by (force simp: raw_differences_def)
  moreover from this have "\<not> converged (compare de ?ob)"
    unfolding converged_quiet quiet_def using quiet_states(3) by (metis difference_state.distinct(7))
  ultimately show ?thesis by simp
qed

definition git_fact :: capability_fact where
  "git_fact = \<lparr>cf_namespace = ''tool'', cf_name = ''git'', cf_value = Some ''git version 2.43.0'',
     cf_status = FactKnown, cf_observed = 0, cf_source = []\<rparr>"

definition git_machine :: fleet_machine where
  "git_machine = \<lparr>fm_id = ''m1'', fm_name = ''box'', fm_tags = [], fm_groups = [],
     fm_capabilities = [stamp_fact ''git'' 1 1000 git_fact], fm_node = None\<rparr>"

definition git_desired :: desired_state where
  "git_desired = \<lparr>de_tools = [(''git'', ''2.43.0'')], de_skills = [], de_catalog = [], de_checkouts = []\<rparr>"

theorem node_observed_tool_reads_missing_witness:
  "canonicalize_version ''git version 2.43.0'' = ''2.43.0'' \<and>
   \<not> converged (compare git_desired (assemble_observed_state git_machine None None None 2000))"
proof
  show "canonicalize_version ''git version 2.43.0'' = ''2.43.0''" by code_simp
  show "\<not> converged (compare git_desired (assemble_observed_state git_machine None None None 2000))"
    by (rule node_observed_tool_reads_missing [THEN conjunct2, of "''git''" "''git version 2.43.0''" git_fact
          "''git''" 1 1000 git_machine 2000 "''2.43.0''" git_desired])
      (simp_all add: tool_probe_collect_def git_fact_def git_machine_def git_desired_def saturating_sub_def
        sat_i64_def i64_min_def i64_max_def capability_freshness_ms_def)
qed

end
