(* ===== verification/Composition.thy ===== *)
theory Composition
  imports Prelude "HOL-Library.List_Lexorder" "HOL-Library.Char_ord" "HOL-Library.Product_Lexorder"
begin

text \<open>
  Composition of desired state, \<open>crates/fleet-application/src/composition.rs\<close>: profiles with
  their \<open>extends\<close> chains and denials, the bindings of a machine, and the skill assignments.
  A \<open>BTreeMap\<close> is an association list kept in key order.
\<close>

section \<open>Ordered maps\<close>

fun tree_insert :: "'k :: linorder \<Rightarrow> 'v \<Rightarrow> ('k \<times> 'v) list \<Rightarrow> ('k \<times> 'v) list" where
  "tree_insert k v [] = [(k, v)]"
| "tree_insert k v ((k', v') # m) =
     (if k < k' then (k, v) # (k', v') # m
      else if k = k' then (k, v) # m else (k', v') # tree_insert k v m)"

lemma map_of_tree_insert [simp]: "map_of (tree_insert k v m) = (map_of m)(k \<mapsto> v)"
  by (induction k v m rule: tree_insert.induct) (auto simp: fun_upd_twist)

lemma tree_insert_keys [simp]: "fst ` set (tree_insert k v m) = insert k (fst ` set m)"
  by (induction k v m rule: tree_insert.induct) auto

lemma tree_insert_sorted [simp]:
  "sorted_wrt (<) (map fst m) \<Longrightarrow> sorted_wrt (<) (map fst (tree_insert k v m))"
proof (induction k v m rule: tree_insert.induct)
  case (2 k v k' v' m)
  have "fst ` set (tree_insert k v m) = insert k (fst ` set m)" by simp
  with 2 show ?case by fastforce
qed simp

lemma sorted_keys_distinct: "sorted_wrt (<) (map fst m) \<Longrightarrow> distinct (map fst (m :: ('k :: linorder \<times> 'v) list))"
  by (rule strict_sorted_iff [THEN iffD1, THEN conjunct2])

section \<open>Requirements and profiles\<close>

datatype requirement =
    ToolRequirement string string
  | SkillRequirement string "string list"
  | CapabilityRequirement string string

definition escape_identity :: "string \<Rightarrow> string" where
  "escape_identity c =
     concat (map (\<lambda>x. if x = CHR ''%'' then ''%25'' else if x = CHR '':'' then ''%3A''
                      else if x = CHR ''/'' then ''%2F'' else [x]) c)"

fun requirement_identity :: "requirement \<Rightarrow> string" where
  "requirement_identity (ToolRequirement tool version) = ''tool:'' @ escape_identity tool"
| "requirement_identity (SkillRequirement skill agents) = ''skill:'' @ escape_identity skill"
| "requirement_identity (CapabilityRequirement namespace name) =
     ''capability:'' @ escape_identity namespace @ ''%2F'' @ escape_identity name"

fun canonical_requirement :: "requirement \<Rightarrow> requirement" where
  "canonical_requirement (SkillRequirement skill agents) = SkillRequirement skill (dedup (sort agents))"
| "canonical_requirement r = r"

record provenance_record =
  pv_id :: string
  pv_name :: string
  pv_path :: string

record composed_requirement =
  cr_requirement :: requirement
  cr_provenance :: provenance_record

record profile_resource =
  pr_id :: string
  pr_name :: string
  pr_extends :: "string list"
  pr_requirements :: "requirement list"
  pr_deny :: "string list"

datatype composition_error =
    CeCycle "string list"
  | CeUnknownProfile string "string option"
  | CeUnknownProject string
  | CeConflict string string string

type_synonym profile_map = "(string \<times> profile_resource) list"
type_synonym composed_profile = "(string \<times> composed_requirement) list"

section \<open>Composing a profile\<close>

text \<open>A profile's own requirements, from position \<open>index\<close> on.\<close>

fun compose_own ::
    "profile_resource \<Rightarrow> string set \<Rightarrow> nat \<Rightarrow> requirement list \<Rightarrow> composed_profile \<Rightarrow>
     composition_error + composed_profile" where
  "compose_own p denied index [] composed = Inr composed"
| "compose_own p denied index (r # rs) composed =
     (let r' = canonical_requirement r; i = requirement_identity r'
      in if i \<in> denied then compose_own p denied (index + 1) rs composed
         else case map_of composed i of
                Some e \<Rightarrow>
                  if cr_requirement e \<noteq> r' then Inl (CeConflict i (pv_name (cr_provenance e)) (pr_name p))
                  else compose_own p denied (index + 1) rs composed
              | None \<Rightarrow>
                  compose_own p denied (index + 1) rs
                    (tree_insert i \<lparr>cr_requirement = r', cr_provenance =
                       \<lparr>pv_id = pr_id p, pv_name = pr_name p,
                        pv_path = ''/spec/requirements/'' @ decimal index\<rparr>\<rparr> composed))"

function (sequential)
  compose_into ::
    "profile_map \<Rightarrow> string \<Rightarrow> composed_profile \<times> string set \<Rightarrow> string list \<Rightarrow>
     composition_error + composed_profile \<times> string set" and
  compose_all ::
    "profile_map \<Rightarrow> string list \<Rightarrow> composed_profile \<times> string set \<Rightarrow> string list \<Rightarrow>
     composition_error + composed_profile \<times> string set" where
  "compose_into P name st visiting =
     (if name \<in> set visiting then
        Inl (CeCycle (dropWhile (\<lambda>entry. entry \<noteq> name) (visiting @ [name])))
      else case map_of P name of
             None \<Rightarrow> Inl (CeUnknownProfile name (if visiting = [] then None else Some (last visiting)))
           | Some p \<Rightarrow>
               (case compose_all P (pr_extends p) st (visiting @ [name]) of
                  Inl e \<Rightarrow> Inl e
                | Inr (composed, denied) \<Rightarrow>
                    (let denied' = denied \<union> set (pr_deny p)
                     in case compose_own p denied' 0 (pr_requirements p) composed of
                          Inl e \<Rightarrow> Inl e
                        | Inr composed' \<Rightarrow> Inr (filter (\<lambda>(i, _). i \<notin> denied') composed', denied'))))"
| "compose_all P [] st visiting = Inr st"
| "compose_all P (parent # parents) st visiting =
     (case compose_into P parent st visiting of
        Inl e \<Rightarrow> Inl e
      | Inr st' \<Rightarrow> compose_all P parents st' visiting)"
  by pat_completeness auto
termination
proof (relation "measures
    [\<lambda>x. case x of Inl (P, name, st, visiting) \<Rightarrow> card (fst ` set P - set visiting)
       | Inr (P, names, st, visiting) \<Rightarrow> card (fst ` set P - set visiting),
     \<lambda>x. case x of Inl _ \<Rightarrow> 0 | Inr (P, names, st, visiting) \<Rightarrow> Suc (length names)]",
    simp_all)
  fix P :: profile_map and name p and visiting :: "string list"
  assume "name \<notin> set visiting" and "map_of P name = Some p"
  then have "name \<in> fst ` set P - set visiting" by (auto dest: map_of_SomeD intro: rev_image_eqI)
  then show "card (fst ` set P - insert name (set visiting)) < card (fst ` set P - set visiting)"
    by (intro psubset_card_mono) auto
qed

definition compose_profile :: "string \<Rightarrow> profile_map \<Rightarrow> composition_error + composed_profile" where
  "compose_profile name P =
     (case compose_into P name ([], {}) [] of Inl e \<Rightarrow> Inl e | Inr (composed, _) \<Rightarrow> Inr composed)"


section \<open>What a composition holds\<close>

lemma canonical_identity [simp]: "requirement_identity (canonical_requirement r) = requirement_identity r"
  by (cases r) auto

lemma map_of_filter_keys: "map_of (filter (\<lambda>(i, _). i \<notin> D) m) i = (if i \<in> D then None else map_of m i)"
  by (induction m) auto

definition made :: "profile_resource \<Rightarrow> nat \<Rightarrow> requirement \<Rightarrow> composed_requirement" where
  "made p k r = \<lparr>cr_requirement = canonical_requirement r, cr_provenance =
     \<lparr>pv_id = pr_id p, pv_name = pr_name p, pv_path = ''/spec/requirements/'' @ decimal k\<rparr>\<rparr>"

lemma made_requirement [simp]: "cr_requirement (made p k r) = canonical_requirement r"
  by (simp add: made_def)

definition offers :: "profile_resource \<Rightarrow> string set \<Rightarrow> nat \<Rightarrow> requirement list \<Rightarrow> string \<Rightarrow> composed_requirement \<Rightarrow> bool" where
  "offers p dn k rs i e \<longleftrightarrow>
     (\<exists>j < length rs. i = requirement_identity (rs ! j) \<and> i \<notin> dn \<and> e = made p (k + j) (rs ! j))"

lemma offers_simps [simp]:
  "\<not> offers p dn k [] i e"
  "offers p dn k (r # rs) i e \<longleftrightarrow>
     i = requirement_identity r \<and> i \<notin> dn \<and> e = made p k r \<or> offers p dn (Suc k) rs i e"
  by (auto simp: offers_def less_Suc_eq_0_disj)

definition keeps_entries :: "composed_profile \<Rightarrow> composed_profile \<Rightarrow> bool" where
  "keeps_entries c c' \<longleftrightarrow> (\<forall>i e. map_of c i = Some e \<longrightarrow> map_of c' i = Some e)"

definition holds_requirement :: "composed_profile \<Rightarrow> requirement \<Rightarrow> bool" where
  "holds_requirement c r \<longleftrightarrow>
     (\<exists>e. map_of c (requirement_identity r) = Some e \<and> cr_requirement e = canonical_requirement r)"

lemma keeps_holds: "keeps_entries c c' \<Longrightarrow> holds_requirement c r \<Longrightarrow> holds_requirement c' r"
  by (auto simp: keeps_entries_def holds_requirement_def)

lemma compose_own_Cons:
  "compose_own p dn k (r # rs) c =
     (if requirement_identity r \<in> dn then compose_own p dn (Suc k) rs c
      else case map_of c (requirement_identity r) of
             Some e \<Rightarrow>
               if cr_requirement e \<noteq> canonical_requirement r
               then Inl (CeConflict (requirement_identity r) (pv_name (cr_provenance e)) (pr_name p))
               else compose_own p dn (Suc k) rs c
           | None \<Rightarrow> compose_own p dn (Suc k) rs (tree_insert (requirement_identity r) (made p k r) c))"
  by (cases "map_of c (requirement_identity r)") (simp_all add: Let_def made_def)

declare compose_own.simps(2) [simp del]

lemma own_results:
  "compose_own p dn k rs c = Inr c' \<Longrightarrow>
   keeps_entries c c' \<and>
   (\<forall>i e. map_of c' i = Some e \<longrightarrow> map_of c i = Some e \<or> offers p dn k rs i e) \<and>
   (\<forall>r \<in> set rs. requirement_identity r \<notin> dn \<longrightarrow> holds_requirement c' r)"
proof (induction rs arbitrary: k c)
  case (Cons r rs)
  let ?i = "requirement_identity r"
  obtain d where d: "compose_own p dn (Suc k) rs d = Inr c'" "keeps_entries c d"
    "\<forall>i e. map_of d i = Some e \<longrightarrow> map_of c i = Some e \<or> i = ?i \<and> ?i \<notin> dn \<and> e = made p k r"
    "?i \<notin> dn \<longrightarrow> holds_requirement d r"
  proof (cases "?i \<in> dn")
    case True
    with Cons.prems that [of c] show ?thesis by (simp add: compose_own_Cons keeps_entries_def)
  next
    case False
    show ?thesis
    proof (cases "map_of c ?i")
      case None
      with Cons.prems False that [of "tree_insert ?i (made p k r) c"] show ?thesis
        by (auto simp: compose_own_Cons keeps_entries_def holds_requirement_def)
    next
      case (Some e)
      with Cons.prems False that [of c] show ?thesis
        by (auto simp: compose_own_Cons keeps_entries_def holds_requirement_def split: if_splits)
    qed
  qed
  note IH = Cons.IH [OF d(1)]
  have "keeps_entries c c'" using d(2) IH by (simp add: keeps_entries_def)
  moreover have "?i \<notin> dn \<longrightarrow> holds_requirement c' r" using d(4) IH keeps_holds by blast
  ultimately show ?case using IH d(3) by auto
qed (simp add: keeps_entries_def)

lemmas own_result = own_results [THEN conjunct1] own_results [THEN conjunct2, THEN conjunct1]
  own_results [THEN conjunct2, THEN conjunct2]

definition extends_edge :: "profile_map \<Rightarrow> string \<Rightarrow> string \<Rightarrow> bool" where
  "extends_edge P a b \<longleftrightarrow> (\<exists>p. map_of P a = Some p \<and> b \<in> set (pr_extends p))"

definition reaches :: "profile_map \<Rightarrow> string \<Rightarrow> string \<Rightarrow> bool" where
  "reaches P = (extends_edge P)\<^sup>*\<^sup>*"

definition denied_in :: "profile_map \<Rightarrow> string set \<Rightarrow> string set" where
  "denied_in P R = {i. \<exists>q \<in> R. \<exists>p. map_of P q = Some p \<and> i \<in> set (pr_deny p)}"

definition requires_in :: "profile_map \<Rightarrow> string set \<Rightarrow> requirement \<Rightarrow> bool" where
  "requires_in P R r \<longleftrightarrow> (\<exists>q \<in> R. \<exists>p. map_of P q = Some p \<and> r \<in> set (pr_requirements p))"

definition offered_in :: "profile_map \<Rightarrow> string set \<Rightarrow> string \<Rightarrow> composed_requirement \<Rightarrow> bool" where
  "offered_in P R i e \<longleftrightarrow>
     (\<exists>q \<in> R. \<exists>p. map_of P q = Some p \<and> offers p {} 0 (pr_requirements p) i e)"

text \<open>What one stretch of the traversal, over the profiles \<open>R\<close>, does to the state.\<close>

definition composes :: "profile_map \<Rightarrow> string set \<Rightarrow> composed_profile \<times> string set \<Rightarrow>
    composed_profile \<times> string set \<Rightarrow> bool" where
  "composes P R st st' \<longleftrightarrow>
     snd st' = snd st \<union> denied_in P R \<and>
     (\<forall>i \<in> snd st'. map_of (fst st') i = None) \<and>
     (\<forall>i e. i \<notin> snd st' \<longrightarrow> map_of (fst st) i = Some e \<longrightarrow> map_of (fst st') i = Some e) \<and>
     (\<forall>i e. map_of (fst st') i = Some e \<longrightarrow> map_of (fst st) i = Some e \<or> offered_in P R i e) \<and>
     (\<forall>r. requires_in P R r \<longrightarrow> requirement_identity r \<notin> snd st' \<longrightarrow> holds_requirement (fst st') r) \<and>
     R \<subseteq> dom (map_of P)"

lemma in_Un:
  "denied_in P (R \<union> S) = denied_in P R \<union> denied_in P S"
  "requires_in P (R \<union> S) r \<longleftrightarrow> requires_in P R r \<or> requires_in P S r"
  "offered_in P (R \<union> S) i e \<longleftrightarrow> offered_in P R i e \<or> offered_in P S i e"
  by (auto simp: denied_in_def requires_in_def offered_in_def)

lemma composes_trans:
  assumes "composes P R st st1" and "composes P S st1 st2"
  shows "composes P (R \<union> S) st st2"
proof -
  have "holds_requirement (fst st2) r"
    if "holds_requirement (fst st1) r" "requirement_identity r \<notin> snd st2" for r
    using that assms(2) unfolding holds_requirement_def composes_def by blast
  then show ?thesis
    using assms unfolding composes_def in_Un by (auto; blast)
qed

lemma composes_refl: "\<forall>i \<in> snd st. map_of (fst st) i = None \<Longrightarrow> composes P {} st st"
  by (auto simp: composes_def denied_in_def requires_in_def)

lemma composes_own:
  assumes p: "map_of P name = Some p" and own: "compose_own p (dn \<union> set (pr_deny p)) 0 (pr_requirements p) c = Inr c'"
  shows "composes P {name} (c, dn)
    (filter (\<lambda>(i, _). i \<notin> dn \<union> set (pr_deny p)) c', dn \<union> set (pr_deny p))"
  unfolding composes_def fst_conv snd_conv map_of_filter_keys
proof (intro conjI)
  let ?dn = "dn \<union> set (pr_deny p)"
  note r = own_result [OF own]
  show "?dn = dn \<union> denied_in P {name}" using p by (auto simp: denied_in_def)
  show "\<forall>i \<in> ?dn. (if i \<in> ?dn then None else map_of c' i) = None" by simp
  show "\<forall>i e. i \<notin> ?dn \<longrightarrow> map_of c i = Some e \<longrightarrow> (if i \<in> ?dn then None else map_of c' i) = Some e"
    using r(1) by (auto simp: keeps_entries_def)
  show "\<forall>i e. (if i \<in> ?dn then None else map_of c' i) = Some e \<longrightarrow> map_of c i = Some e \<or> offered_in P {name} i e"
  proof (intro allI impI)
    fix i e
    assume "(if i \<in> ?dn then None else map_of c' i) = Some e"
    then have "map_of c i = Some e \<or> offers p ?dn 0 (pr_requirements p) i e" using r(2) by (simp split: if_splits)
    then show "map_of c i = Some e \<or> offered_in P {name} i e"
      using p by (auto simp: offered_in_def offers_def)
  qed
  show "\<forall>r. requires_in P {name} r \<longrightarrow> requirement_identity r \<notin> ?dn \<longrightarrow>
      holds_requirement (filter (\<lambda>(i, _). i \<notin> ?dn) c') r"
    unfolding holds_requirement_def map_of_filter_keys
    using r(3) p by (auto simp: requires_in_def holds_requirement_def)
  show "{name} \<subseteq> dom (map_of P)" using p by auto
qed

lemma reaches_refl [simp]: "reaches P n n"
  by (simp add: reaches_def)

lemma reaches_unfold:
  assumes "map_of P n = Some p"
  shows "{q. reaches P n q} = {q. \<exists>m \<in> set (pr_extends p). reaches P m q} \<union> {n}"
proof -
  have "reaches P n q \<longleftrightarrow> n = q \<or> (\<exists>m \<in> set (pr_extends p). reaches P m q)" for q
  proof
    assume "reaches P n q"
    then show "n = q \<or> (\<exists>m \<in> set (pr_extends p). reaches P m q)"
      unfolding reaches_def using assms by (cases rule: converse_rtranclpE) (auto simp: extends_edge_def)
  next
    assume "n = q \<or> (\<exists>m \<in> set (pr_extends p). reaches P m q)"
    then show "reaches P n q"
      unfolding reaches_def using assms by (auto simp: extends_edge_def intro: converse_rtranclp_into_rtranclp)
  qed
  then show ?thesis by auto
qed

lemma traversal_composes:
  "compose_into P n st v = Inr st' \<Longrightarrow> \<forall>i \<in> snd st. map_of (fst st) i = None \<Longrightarrow>
   composes P {q. reaches P n q} st st'"
  "compose_all P ns st v = Inr st' \<Longrightarrow> \<forall>i \<in> snd st. map_of (fst st) i = None \<Longrightarrow>
   composes P {q. \<exists>n \<in> set ns. reaches P n q} st st'"
proof (induction P n st v and P ns st v arbitrary: st' and st' rule: compose_into_compose_all.induct)
  case (1 P name st visiting)
  then obtain p c dn c' where p: "name \<notin> set visiting" "map_of P name = Some p"
    and parents: "compose_all P (pr_extends p) st (visiting @ [name]) = Inr (c, dn)"
    and own: "compose_own p (dn \<union> set (pr_deny p)) 0 (pr_requirements p) c = Inr c'"
    and st': "st' = (filter (\<lambda>(i, _). i \<notin> dn \<union> set (pr_deny p)) c', dn \<union> set (pr_deny p))"
    by (auto simp: Let_def split: if_splits option.splits sum.splits prod.splits)
  have "composes P {q. \<exists>n \<in> set (pr_extends p). reaches P n q} st (c, dn)"
    using "1.IH" [OF p parents] "1.prems"(2) .
  from composes_trans [OF this composes_own [OF p(2) own]]
  show ?case by (simp add: reaches_unfold [OF p(2)] st')
next
  case (2 P st v)
  then show ?case using composes_refl [of st] by simp
next
  case (3 P n ns st v)
  then obtain st1 where s1: "compose_into P n st v = Inr st1" and s2: "compose_all P ns st1 v = Inr st'"
    by (auto split: sum.splits)
  have c1: "composes P {q. reaches P n q} st st1" using "3.IH"(1) [OF s1] "3.prems"(2) .
  then have "\<forall>i \<in> snd st1. map_of (fst st1) i = None" by (simp add: composes_def)
  from composes_trans [OF c1 "3.IH"(2) [OF s1 s2 this]]
  show ?case by (simp add: Un_def)
qed

text \<open>Why a composition fails.\<close>

definition walks :: "profile_map \<Rightarrow> string \<Rightarrow> string list \<Rightarrow> bool" where
  "walks P root ns \<longleftrightarrow> ns \<noteq> [] \<and> hd ns = root \<and> successively (extends_edge P) ns"

definition honest_error :: "profile_map \<Rightarrow> string \<Rightarrow> composition_error \<Rightarrow> bool" where
  "honest_error P root e \<longleftrightarrow>
     (case e of
        CeCycle chain \<Rightarrow>
          2 \<le> length chain \<and> hd chain = last chain \<and> successively (extends_edge P) chain \<and> reaches P root (hd chain)
      | CeUnknownProfile name by \<Rightarrow>
          reaches P root name \<and> map_of P name = None \<and>
          (case by of None \<Rightarrow> name = root | Some q \<Rightarrow> reaches P root q \<and> extends_edge P q name)
      | CeUnknownProject name \<Rightarrow> False
      | CeConflict i first second \<Rightarrow>
          (\<exists>q q' p p' r r'. reaches P root q \<and> reaches P root q' \<and> map_of P q = Some p \<and> map_of P q' = Some p' \<and>
             pr_name p = first \<and> pr_name p' = second \<and> r \<in> set (pr_requirements p) \<and> r' \<in> set (pr_requirements p') \<and>
             requirement_identity r = i \<and> requirement_identity r' = i \<and>
             canonical_requirement r \<noteq> canonical_requirement r'))"

lemma walks_reaches: "walks P root (ns @ [n]) \<Longrightarrow> reaches P root n \<and> (ns \<noteq> [] \<longrightarrow> reaches P root (last ns) \<and> extends_edge P (last ns) n)"
proof (induction ns arbitrary: n rule: rev_induct)
  case (snoc m ns)
  then have w: "walks P root (ns @ [m])" and e: "extends_edge P m n"
    by (auto simp: walks_def successively_append_iff hd_append split: if_splits)
  have "reaches P root m" using snoc.IH [OF w] by simp
  with e show ?case by (auto simp: reaches_def)
qed (simp add: walks_def)

lemma cycle_honest:
  assumes w: "walks P root (v @ [n])" and n: "n \<in> set v"
  shows "honest_error P root (CeCycle (dropWhile (\<lambda>entry. entry \<noteq> n) (v @ [n])))"
proof -
  obtain a b where v: "v = a @ n # b" "n \<notin> set a" using n by (auto dest: split_list_first)
  have drop: "dropWhile (\<lambda>entry. entry \<noteq> n) (v @ [n]) = n # b @ [n]"
    using v by (auto simp: dropWhile_append)
  have "successively (extends_edge P) (n # b @ [n])"
    using w by (simp add: v walks_def successively_append_iff)
  then show ?thesis using walks_reaches [OF w] by (simp add: honest_error_def drop)
qed

definition entries_from :: "profile_map \<Rightarrow> string \<Rightarrow> composed_profile \<Rightarrow> bool" where
  "entries_from P root c \<longleftrightarrow> (\<forall>i e. map_of c i = Some e \<longrightarrow> offered_in P {q. reaches P root q} i e)"

lemma own_error:
  assumes "compose_own p dn k rs c = Inl e" and "entries_from P root c" and "map_of P name = Some p"
    and "reaches P root name" and "\<forall>j < length rs. k + j < length (pr_requirements p) \<and> rs ! j = pr_requirements p ! (k + j)"
  shows "honest_error P root e"
  using assms
proof (induction rs arbitrary: k c)
  case (Cons r rs)
  let ?i = "requirement_identity r"
  from Cons.prems(5) have k: "k < length (pr_requirements p)" "r = pr_requirements p ! k" by fastforce+
  have rest: "\<forall>j < length rs. Suc k + j < length (pr_requirements p) \<and> rs ! j = pr_requirements p ! (Suc k + j)"
  proof (intro allI impI)
    fix j assume "j < length rs"
    then show "Suc k + j < length (pr_requirements p) \<and> rs ! j = pr_requirements p ! (Suc k + j)"
      using Cons.prems(5) [rule_format, of "Suc j"] by simp
  qed
  note IH = Cons.IH [OF _ _ Cons.prems(3,4) rest]
  show ?case
  proof (cases "?i \<in> dn")
    case True
    with Cons.prems(1,2) show ?thesis by (intro IH [of c]) (simp_all add: compose_own_Cons)
  next
    case False
    show ?thesis
    proof (cases "map_of c ?i")
      case None
      have "offers p {} 0 (pr_requirements p) ?i (made p k r)" using k by (auto simp: offers_def)
      then have "entries_from P root (tree_insert ?i (made p k r) c)"
        using Cons.prems(2,3,4) by (auto simp: entries_from_def offered_in_def)
      with Cons.prems(1) False None show ?thesis by (intro IH) (simp_all add: compose_own_Cons)
    next
      case (Some e')
      then have "offered_in P {q. reaches P root q} ?i e'" using Cons.prems(2) by (simp add: entries_from_def)
      then obtain q p' j where q: "reaches P root q" "map_of P q = Some p'" "j < length (pr_requirements p')"
        "?i = requirement_identity (pr_requirements p' ! j)" "e' = made p' j (pr_requirements p' ! j)"
        by (auto simp: offered_in_def offers_def)
      show ?thesis
      proof (cases "cr_requirement e' = canonical_requirement r")
        case True
        with Cons.prems(1,2) False Some show ?thesis by (intro IH [of c]) (simp_all add: compose_own_Cons)
      next
        case differ: False
        with Cons.prems(1) False Some have e: "e = CeConflict ?i (pr_name p') (pr_name p)"
          using q(5) by (simp add: compose_own_Cons made_def)
        have "r \<in> set (pr_requirements p)" "pr_requirements p' ! j \<in> set (pr_requirements p')" using k q(3) by auto
        then show ?thesis
          unfolding honest_error_def e composition_error.case
          using q Cons.prems(3,4) differ by (metis made_requirement)
      qed
    qed
  qed
qed simp

lemma compose_own_error:
  assumes "compose_own p dn 0 (pr_requirements p) c = Inl e" and "entries_from P root c"
    and "map_of P name = Some p" and "reaches P root name"
  shows "honest_error P root e"
  using own_error [OF assms] by simp

lemma composes_entries:
  assumes "composes P R st st'" and "entries_from P root (fst st)" and "R \<subseteq> {q. reaches P root q}"
  shows "entries_from P root (fst st')"
proof -
  have "offered_in P R i e \<Longrightarrow> offered_in P {q. reaches P root q} i e" for i e
    using assms(3) by (auto simp: offered_in_def)
  then show ?thesis using assms(1,2) unfolding composes_def entries_from_def by blast
qed

lemma reaches_trans: "reaches P a b \<Longrightarrow> reaches P b c \<Longrightarrow> reaches P a c"
  by (simp add: reaches_def)

lemma reaches_edge: "reaches P a b \<Longrightarrow> extends_edge P b c \<Longrightarrow> reaches P a c"
  by (simp add: reaches_def)

lemma traversal_error:
  "compose_into P n st v = Inl e \<Longrightarrow> \<forall>i \<in> snd st. map_of (fst st) i = None \<Longrightarrow>
   entries_from P root (fst st) \<Longrightarrow> walks P root (v @ [n]) \<Longrightarrow> honest_error P root e"
  "compose_all P ns st v = Inl e \<Longrightarrow> \<forall>i \<in> snd st. map_of (fst st) i = None \<Longrightarrow>
   entries_from P root (fst st) \<Longrightarrow> \<forall>n \<in> set ns. walks P root (v @ [n]) \<Longrightarrow> honest_error P root e"
proof (induction P n st v and P ns st v rule: compose_into_compose_all.induct)
  case (1 P name st visiting)
  note w = walks_reaches [OF "1.prems"(4)]
  show ?case
  proof (cases "name \<in> set visiting")
    case True
    with 1 show ?thesis using cycle_honest by auto
  next
    case new: False
    show ?thesis
    proof (cases "map_of P name")
      case None
      with 1 new w show ?thesis by (auto simp: honest_error_def walks_def)
    next
      case (Some p)
      have walks: "\<forall>m \<in> set (pr_extends p). walks P root ((visiting @ [name]) @ [m])"
        using "1.prems"(4) Some by (auto simp: walks_def successively_append_iff extends_edge_def hd_append)
      show ?thesis
      proof (cases "compose_all P (pr_extends p) st (visiting @ [name])")
        case (Inl e')
        with 1 new Some walks show ?thesis by simp
      next
        case (Inr st1)
        obtain c dn where st1: "st1 = (c, dn)" by (cases st1)
        have "{q. \<exists>m \<in> set (pr_extends p). reaches P m q} \<subseteq> {q. reaches P root q}"
        proof (clarify)
          fix q m assume m: "m \<in> set (pr_extends p)" "reaches P m q"
          have "extends_edge P name m" using Some m(1) by (auto simp: extends_edge_def)
          then have "reaches P root m" using w reaches_edge by blast
          then show "reaches P root q" using m(2) reaches_trans by blast
        qed
        then have "entries_from P root c"
          using composes_entries [OF traversal_composes(2) [OF Inr "1.prems"(2)] "1.prems"(3)] by (simp add: st1)
        moreover have "compose_own p (dn \<union> set (pr_deny p)) 0 (pr_requirements p) c = Inl e"
          using "1.prems"(1) new Some Inr by (auto simp: st1 Let_def split: sum.splits)
        ultimately show ?thesis using compose_own_error Some w by blast
      qed
    qed
  qed
next
  case (3 P n ns st v)
  show ?case
  proof (cases "compose_into P n st v")
    case (Inl e')
    with 3 show ?thesis by simp
  next
    case (Inr st1)
    note c = traversal_composes(1) [OF Inr "3.prems"(2)]
    have "reaches P root n" using walks_reaches "3.prems"(4) by auto
    then have "{q. reaches P n q} \<subseteq> {q. reaches P root q}" by (auto intro: reaches_trans)
    then have "entries_from P root (fst st1)" using composes_entries [OF c "3.prems"(3)] by simp
    moreover have "\<forall>i \<in> snd st1. map_of (fst st1) i = None" using c by (simp add: composes_def)
    ultimately show ?thesis using "3.IH"(2) [OF Inr] "3.prems" Inr by simp
  qed
qed simp

text \<open>The result is kept in key order, each entry under its own identity.\<close>

lemma own_sorted:
  "compose_own p dn k rs c = Inr c' \<Longrightarrow> sorted_wrt (<) (map fst c) \<Longrightarrow> sorted_wrt (<) (map fst c')"
  by (induction rs arbitrary: k c) (auto simp: compose_own_Cons split: if_splits option.splits)

lemma sorted_filter_keys: "sorted_wrt (<) (map fst c) \<Longrightarrow> sorted_wrt (<) (map fst (filter F c))"
  by (simp add: sorted_wrt_map sorted_wrt_filter)

lemma traversal_sorted:
  "compose_into P n st v = Inr st' \<Longrightarrow> sorted_wrt (<) (map fst (fst st)) \<Longrightarrow> sorted_wrt (<) (map fst (fst st'))"
  "compose_all P ns st v = Inr st' \<Longrightarrow> sorted_wrt (<) (map fst (fst st)) \<Longrightarrow> sorted_wrt (<) (map fst (fst st'))"
proof (induction P n st v and P ns st v arbitrary: st' and st' rule: compose_into_compose_all.induct)
  case (1 P name st visiting)
  then obtain p c dn c' where p: "name \<notin> set visiting" "map_of P name = Some p"
    and parents: "compose_all P (pr_extends p) st (visiting @ [name]) = Inr (c, dn)"
    and own: "compose_own p (dn \<union> set (pr_deny p)) 0 (pr_requirements p) c = Inr c'"
    and st': "st' = (filter (\<lambda>(i, _). i \<notin> dn \<union> set (pr_deny p)) c', dn \<union> set (pr_deny p))"
    by (auto simp: Let_def split: if_splits option.splits sum.splits prod.splits)
  have "sorted_wrt (<) (map fst c)" using "1.IH" [OF p parents "1.prems"(2)] by simp
  then show ?case using own_sorted [OF own] by (simp add: st' sorted_filter_keys del: Un_iff)
next
  case (3 P n ns st v)
  then show ?case by (auto split: sum.splits)
qed simp

lemma profile_sorted:
  assumes "compose_profile n P = Inr c"
  shows "sorted_wrt (<) (map fst c)"
proof -
  obtain st where st: "compose_into P n ([], {}) [] = Inr st" "c = fst st"
    using assms by (auto simp: compose_profile_def simp del: compose_into.simps split: sum.splits)
  show ?thesis using traversal_sorted(1) [OF st(1)] st(2) by simp
qed

lemma offered_identity: "offered_in P R i e \<Longrightarrow> requirement_identity (cr_requirement e) = i"
  by (auto simp: offered_in_def offers_def)

definition denied_under :: "profile_map \<Rightarrow> string \<Rightarrow> string set" where
  "denied_under P n = denied_in P {q. reaches P n q}"

text \<open>C35. Composition is exact and its refusals are honest: a composed profile holds precisely the
  requirements of the profiles it extends, directly or not, less the identities any of them denies,
  each with the one value they all agree on; otherwise a cycle, an unresolved name or two different
  values really exist.\<close>

theorem composition_exact:
  "case compose_profile n P of
     Inr c \<Rightarrow>
       (\<forall>q. reaches P n q \<longrightarrow> map_of P q \<noteq> None) \<and>
       (\<forall>i. map_of c i \<noteq> None \<longleftrightarrow>
          i \<notin> denied_under P n \<and> (\<exists>r. requires_in P {q. reaches P n q} r \<and> requirement_identity r = i)) \<and>
       (\<forall>r e. requires_in P {q. reaches P n q} r \<longrightarrow> map_of c (requirement_identity r) = Some e \<longrightarrow>
          cr_requirement e = canonical_requirement r) \<and>
       (\<forall>i e. map_of c i = Some e \<longrightarrow> offered_in P {q. reaches P n q} i e)
   | Inl e \<Rightarrow> honest_error P n e"
proof (cases "compose_into P n ([], {}) []")
  case (Inl e)
  have "honest_error P n e"
    by (rule traversal_error(1) [OF Inl]) (simp_all add: entries_from_def walks_def)
  then show ?thesis by (simp add: compose_profile_def Inl del: compose_into.simps)
next
  case (Inr st)
  obtain c dn where st: "st = (c, dn)" by (cases st)
  have comp: "composes P {q. reaches P n q} ([], {}) (c, dn)"
    using traversal_composes(1) [OF Inr] by (simp add: st)
  have result: "compose_profile n P = Inr c"
    by (simp add: compose_profile_def Inr st del: compose_into.simps)
  from comp have dn: "dn = denied_under P n" by (simp add: composes_def denied_under_def)
  have none: "\<forall>i \<in> dn. map_of c i = None"
    and offered: "\<forall>i e. map_of c i = Some e \<longrightarrow> offered_in P {q. reaches P n q} i e"
    and held: "\<forall>r. requires_in P {q. reaches P n q} r \<longrightarrow> requirement_identity r \<notin> dn \<longrightarrow> holds_requirement c r"
    and known: "{q. reaches P n q} \<subseteq> dom (map_of P)"
    using comp by (simp_all add: composes_def)
  have "\<exists>r. requires_in P {q. reaches P n q} r \<and> requirement_identity r = i" if "map_of c i = Some e" for i e
    using offered that unfolding offered_in_def offers_def requires_in_def by (metis nth_mem)
  moreover have "map_of c (requirement_identity r) \<noteq> None"
    if "requires_in P {q. reaches P n q} r" "requirement_identity r \<notin> dn" for r
    using held that by (auto simp: holds_requirement_def)
  moreover have "cr_requirement e = canonical_requirement r"
    if "requires_in P {q. reaches P n q} r" "map_of c (requirement_identity r) = Some e" for r e
  proof -
    have "requirement_identity r \<notin> dn" using none that(2) by auto
    then show ?thesis using held that by (auto simp: holds_requirement_def)
  qed
  ultimately show ?thesis
    using none offered known by (auto simp: result dn)
qed

definition demo_profile :: "string \<Rightarrow> requirement list \<Rightarrow> string list \<Rightarrow> profile_resource" where
  "demo_profile name rs deny = \<lparr>pr_id = name, pr_name = name, pr_extends = [], pr_requirements = rs, pr_deny = deny\<rparr>"

definition demo_profiles :: profile_map where
  "demo_profiles =
     [(''new'', demo_profile ''new'' [ToolRequirement ''node'' ''22''] []),
      (''none'', demo_profile ''none'' [] [''tool:node'']),
      (''old'', demo_profile ''old'' [ToolRequirement ''node'' ''20''] [])]"

theorem composition_exact_witness:
  "case compose_profile ''new'' demo_profiles of Inr c \<Rightarrow> map_of c ''tool:node'' \<noteq> None | Inl e \<Rightarrow> False"
proof -
  have only: "{q. reaches demo_profiles ''new'' q} = {''new''}"
    by (subst reaches_unfold [where p = "demo_profile ''new'' [ToolRequirement ''node'' ''22''] []"])
      (simp_all add: demo_profiles_def demo_profile_def)
  have "requires_in demo_profiles {''new''} (ToolRequirement ''node'' ''22'')" "denied_in demo_profiles {''new''} = {}"
    by (auto simp: requires_in_def denied_in_def demo_profiles_def demo_profile_def)
  moreover have "requirement_identity (ToolRequirement ''node'' ''22'') = ''tool:node''"
    by (simp add: escape_identity_def)
  ultimately have named: "''tool:node'' \<notin> denied_under demo_profiles ''new'' \<and>
      (\<exists>r. requires_in demo_profiles {q. reaches demo_profiles ''new'' q} r \<and> requirement_identity r = ''tool:node'')"
    unfolding denied_under_def only by blast
  have "\<exists>c. compose_profile ''new'' demo_profiles = Inr c"
    by (simp add: compose_profile_def demo_profiles_def demo_profile_def compose_own_Cons)
  then obtain c where c: "compose_profile ''new'' demo_profiles = Inr c" ..
  have "map_of c ''tool:node'' \<noteq> None"
    using composition_exact [of demo_profiles "''new''", unfolded c sum.case, THEN conjunct2, THEN conjunct1] named
    by blast
  then show ?thesis by (simp add: c)
qed

end
