(* ===== verification/Bindings.thy ===== *)
theory Bindings
  imports Composition
begin

text \<open>
  What a machine is asked for: the composition of its bound profiles and projects, and of the
  skill assignments that apply to it (\<open>compose_binding\<close>, \<open>with_builtin_assignments\<close> and
  \<open>compose_skill_assignments\<close> of \<open>crates/fleet-application/src/composition.rs\<close>).
\<close>

section \<open>Bound profiles and projects\<close>

record project_resource =
  pj_id :: string
  pj_name :: string
  pj_remote :: string
  pj_root :: "string option"
  pj_tools :: "(string \<times> string) list"

record bound_desired =
  bd_tools :: "(string \<times> string) list"
  bd_skills :: "(string \<times> string list) list"
  bd_checkouts :: "(string \<times> string) list"
  bd_capabilities :: "(string \<times> string) list"
  bd_provenance :: "(string \<times> provenance_record) list"

definition bound_default :: bound_desired where
  "bound_default = \<lparr>bd_tools = [], bd_skills = [], bd_checkouts = [], bd_capabilities = [], bd_provenance = []\<rparr>"

text \<open>The maps the composition of a binding fills.\<close>

record binding =
  bi_tools :: "(string \<times> string \<times> string) list"
  bi_skills :: "(string \<times> string list) list"
  bi_capabilities :: "(string \<times> string) list"
  bi_roots :: "(string \<times> string \<times> string) list"
  bi_checkouts :: "(string \<times> string \<times> string) list"
  bi_provenance :: "(string \<times> provenance_record) list"

definition binding_empty :: binding where
  "binding_empty = \<lparr>bi_tools = [], bi_skills = [], bi_capabilities = [], bi_roots = [], bi_checkouts = [],
     bi_provenance = []\<rparr>"

definition binding_root :: string where "binding_root = CHR 0x00 # ''machine-bindings''"

definition add_composed :: "string \<times> composed_requirement \<Rightarrow> binding \<Rightarrow> binding" where
  "add_composed entry b =
     (let (i, e) = entry;
          b = (case cr_requirement e of
                 ToolRequirement tool version \<Rightarrow>
                   b\<lparr>bi_tools := tree_insert tool (version, pv_name (cr_provenance e)) (bi_tools b)\<rparr>
               | SkillRequirement skill agents \<Rightarrow> b\<lparr>bi_skills := tree_insert skill agents (bi_skills b)\<rparr>
               | CapabilityRequirement namespace name \<Rightarrow>
                   b\<lparr>bi_capabilities := bi_capabilities b @ [(namespace, name)]\<rparr>)
      in b\<lparr>bi_provenance := tree_insert i (cr_provenance e) (bi_provenance b)\<rparr>)"

definition bind_profiles :: "string list \<Rightarrow> profile_map \<Rightarrow> composition_error + binding" where
  "bind_profiles names profiles =
     (if names = [] then Inr binding_empty
      else case compose_profile binding_root
             (tree_insert binding_root
                \<lparr>pr_id = [], pr_name = binding_root, pr_extends = names, pr_requirements = [], pr_deny = []\<rparr> profiles) of
             Inl e \<Rightarrow> Inl e
           | Inr composed \<Rightarrow> Inr (fold add_composed composed binding_empty))"

definition project_provenance :: "project_resource \<Rightarrow> string \<Rightarrow> provenance_record" where
  "project_provenance p path = \<lparr>pv_id = pj_id p, pv_name = pj_name p, pv_path = path\<rparr>"

fun bind_tools :: "project_resource \<Rightarrow> nat \<Rightarrow> (string \<times> string) list \<Rightarrow> binding \<Rightarrow> composition_error + binding" where
  "bind_tools p index [] b = Inr b"
| "bind_tools p index ((tool, version) # ts) b =
     (case map_of (bi_tools b) tool of
        Some (existing, owner) \<Rightarrow>
          if existing \<noteq> version
          then Inl (CeConflict (''tool:'' @ escape_identity tool) owner (pj_name p))
          else bind_tools p (index + 1) ts b
      | None \<Rightarrow>
          bind_tools p (index + 1) ts
            (b\<lparr>bi_tools := tree_insert tool (version, pj_name p) (bi_tools b),
               bi_provenance := tree_insert (''tool:'' @ escape_identity tool)
                 (project_provenance p (''/spec/tools/'' @ decimal index)) (bi_provenance b)\<rparr>))"

definition bind_checkout :: "project_resource \<Rightarrow> binding \<Rightarrow> composition_error + binding" where
  "bind_checkout p b =
     (case pj_root p of
        None \<Rightarrow> Inr b
      | Some root \<Rightarrow>
          (let i = ''checkout:'' @ pj_remote p;
               fresh = (case map_of (bi_roots b) root of
                   Some (other, owner) \<Rightarrow>
                     if other \<noteq> pj_remote p
                     then Inl (CeConflict (''checkout-root:'' @ root) owner (pj_name p)) else Inr ()
                 | None \<Rightarrow> Inr ())
           in case map_of (bi_checkouts b) (pj_remote p) of
                Some (existing, owner) \<Rightarrow>
                  if existing \<noteq> root then Inl (CeConflict i owner (pj_name p)) else Inr b
              | None \<Rightarrow>
                  check_then fresh (\<lambda>_.
                    Inr (b\<lparr>bi_checkouts := tree_insert (pj_remote p) (root, pj_name p) (bi_checkouts b),
                           bi_roots := tree_insert root (pj_remote p, pj_name p) (bi_roots b),
                           bi_provenance := tree_insert i (project_provenance p ''/spec/root'') (bi_provenance b)\<rparr>))))"

fun bind_projects :: "(string \<times> project_resource) list \<Rightarrow> string list \<Rightarrow> binding \<Rightarrow> composition_error + binding" where
  "bind_projects projects [] b = Inr b"
| "bind_projects projects (name # names) b =
     (case map_of projects name of
        None \<Rightarrow> Inl (CeUnknownProject name)
      | Some p \<Rightarrow>
          check_then (bind_tools p 0 (pj_tools p) b) (\<lambda>b.
            check_then (bind_checkout p b) (\<lambda>b. bind_projects projects names b)))"

definition compose_binding ::
    "string list \<Rightarrow> string list \<Rightarrow> profile_map \<Rightarrow> (string \<times> project_resource) list \<Rightarrow>
     composition_error + bound_desired" where
  "compose_binding profile_names project_names profiles projects =
     check_then (bind_profiles profile_names profiles) (\<lambda>b.
       check_then (bind_projects projects (dedup (sort project_names)) b) (\<lambda>b.
         Inr \<lparr>bd_tools = map (\<lambda>(tool, version, _). (tool, version)) (bi_tools b),
              bd_skills = bi_skills b,
              bd_checkouts = map (\<lambda>(remote, root, _). (remote, root)) (bi_checkouts b),
              bd_capabilities = sort (bi_capabilities b),
              bd_provenance = bi_provenance b\<rparr>))"

subsection \<open>What a binding promises\<close>

definition binding_ok :: "binding \<Rightarrow> bool" where
  "binding_ok b \<longleftrightarrow>
     sorted_wrt (<) (map fst (bi_tools b)) \<and> sorted_wrt (<) (map fst (bi_checkouts b)) \<and>
     (\<forall>remote root. (\<exists>owner. map_of (bi_checkouts b) remote = Some (root, owner)) \<longleftrightarrow>
        (\<exists>owner. map_of (bi_roots b) root = Some (remote, owner)))"

definition promises_tool :: "binding \<Rightarrow> string \<Rightarrow> string \<Rightarrow> bool" where
  "promises_tool b tool version \<longleftrightarrow> (\<exists>owner. map_of (bi_tools b) tool = Some (version, owner))"

definition promises_checkout :: "binding \<Rightarrow> string \<Rightarrow> string \<Rightarrow> bool" where
  "promises_checkout b remote root \<longleftrightarrow> (\<exists>owner. map_of (bi_checkouts b) remote = Some (root, owner))"

definition binding_grows :: "binding \<Rightarrow> binding \<Rightarrow> bool" where
  "binding_grows b b' \<longleftrightarrow> (binding_ok b \<longrightarrow> binding_ok b') \<and>
     (\<forall>t v. promises_tool b t v \<longrightarrow> promises_tool b' t v) \<and>
     (\<forall>r d. promises_checkout b r d \<longrightarrow> promises_checkout b' r d)"

lemma binding_grows_refl: "binding_grows b b"
  by (simp add: binding_grows_def)

lemma binding_grows_trans: "binding_grows a b \<Longrightarrow> binding_grows b c \<Longrightarrow> binding_grows a c"
  by (auto simp: binding_grows_def)

lemma bind_tools_grows:
  "bind_tools p k ts b = Inr b' \<Longrightarrow> binding_grows b b' \<and> (\<forall>(t, v) \<in> set ts. promises_tool b' t v)"
proof (induction p k ts b rule: bind_tools.induct)
  case (2 p k tool version ts b)
  show ?case
  proof (cases "map_of (bi_tools b) tool")
    case None
    let ?b = "b\<lparr>bi_tools := tree_insert tool (version, pj_name p) (bi_tools b),
               bi_provenance := tree_insert (''tool:'' @ escape_identity tool)
                 (project_provenance p (''/spec/tools/'' @ decimal k)) (bi_provenance b)\<rparr>"
    have "binding_grows b ?b" "promises_tool ?b tool version"
      using None by (auto simp: binding_grows_def binding_ok_def promises_tool_def promises_checkout_def)
    moreover have "binding_grows ?b b' \<and> (\<forall>(t, v) \<in> set ts. promises_tool b' t v)"
      using 2 None by simp
    ultimately show ?thesis using binding_grows_trans by (auto simp: binding_grows_def)
  next
    case (Some e)
    obtain existing owner where e: "e = (existing, owner)" by (cases e)
    with "2.prems" Some have same: "existing = version" and run: "bind_tools p (k + 1) ts b = Inr b'"
      by (auto split: if_splits)
    from "2.IH"(2) [OF Some e [symmetric]] same run e
    have "fst e = version" "binding_grows b b' \<and> (\<forall>(t, v) \<in> set ts. promises_tool b' t v)" by simp_all
    moreover have "promises_tool b tool (fst e)" using Some by (cases e) (simp add: promises_tool_def)
    ultimately show ?thesis by (auto simp: binding_grows_def)
  qed
qed (simp add: binding_grows_refl)

lemma bind_checkout_grows:
  assumes "bind_checkout p b = Inr b'" and ok: "binding_ok b"
  shows "binding_grows b b' \<and> (\<forall>root. pj_root p = Some root \<longrightarrow> promises_checkout b' (pj_remote p) root)"
proof (cases "pj_root p")
  case None
  with assms show ?thesis by (simp add: bind_checkout_def binding_grows_refl)
next
  case (Some root)
  show ?thesis
  proof (cases "map_of (bi_checkouts b) (pj_remote p)")
    case known: (Some e)
    with assms(1) Some have "b' = b" "fst e = root"
      by (auto simp: bind_checkout_def Let_def split: prod.splits if_splits)
    with known Some show ?thesis by (cases e) (simp add: binding_grows_refl promises_checkout_def)
  next
    case fresh: None
    then have "map_of (bi_roots b) root = None \<or> (\<exists>r owner. map_of (bi_roots b) root = Some (r, owner) \<and> r \<noteq> pj_remote p)"
      using ok unfolding binding_ok_def by (metis not_None_eq option.distinct(1) surj_pair)
    with assms(1) Some fresh have free: "map_of (bi_roots b) root = None"
      and b': "b' = b\<lparr>bi_checkouts := tree_insert (pj_remote p) (root, pj_name p) (bi_checkouts b),
                   bi_roots := tree_insert root (pj_remote p, pj_name p) (bi_roots b),
                   bi_provenance := tree_insert (''checkout:'' @ pj_remote p)
                     (project_provenance p ''/spec/root'') (bi_provenance b)\<rparr>"
      by (auto simp: bind_checkout_def Let_def check_then_def)
    have no: "map_of (bi_roots b) d \<noteq> Some (pj_remote p, owner)" for d owner
      using ok fresh unfolding binding_ok_def by (metis option.distinct(1))
    have "map_of (bi_checkouts b) r \<noteq> Some (root, owner)" for r owner
      using ok free unfolding binding_ok_def by (metis option.distinct(1))
    then have "binding_ok b'"
      using ok no free unfolding b' binding_ok_def by simp
    then show ?thesis
      using Some fresh by (auto simp: b' binding_grows_def promises_tool_def promises_checkout_def)
  qed
qed

lemma bind_projects_grows:
  assumes "bind_projects projects names b = Inr b'" and "binding_ok b"
  shows "binding_grows b b' \<and> (\<forall>name \<in> set names. \<exists>p. map_of projects name = Some p \<and>
    (\<forall>(t, v) \<in> set (pj_tools p). promises_tool b' t v) \<and>
    (\<forall>root. pj_root p = Some root \<longrightarrow> promises_checkout b' (pj_remote p) root))"
  using assms
proof (induction names arbitrary: b)
  case (Cons name names)
  then obtain p b1 b2 where p: "map_of projects name = Some p" and t: "bind_tools p 0 (pj_tools p) b = Inr b1"
    and c: "bind_checkout p b1 = Inr b2" and rest: "bind_projects projects names b2 = Inr b'"
    by (auto simp: check_then_Inr split: option.splits)
  note t = bind_tools_grows [OF t]
  then have ok1: "binding_ok b1" using Cons.prems(2) by (simp add: binding_grows_def)
  note c = bind_checkout_grows [OF c ok1]
  then have "binding_ok b2" using ok1 by (simp add: binding_grows_def)
  note r = Cons.IH [OF rest this]
  have g: "binding_grows b b'" using t c r binding_grows_trans by meson
  have "binding_grows b1 b'" using c r binding_grows_trans by meson
  with t have tools: "\<forall>(t, v) \<in> set (pj_tools p). promises_tool b' t v" by (auto simp: binding_grows_def)
  have checkout: "\<forall>root. pj_root p = Some root \<longrightarrow> promises_checkout b' (pj_remote p) root"
    using c r by (simp add: binding_grows_def)
  show ?case using g r p tools checkout by auto
qed (simp add: binding_grows_refl)

lemma add_composed_fields:
  "bi_checkouts (fold add_composed c b) = bi_checkouts b" "bi_roots (fold add_composed c b) = bi_roots b"
  "sorted_wrt (<) (map fst (bi_tools b)) \<Longrightarrow> sorted_wrt (<) (map fst (bi_tools (fold add_composed c b)))"
  by (induction c arbitrary: b) (auto simp: add_composed_def Let_def split: requirement.splits)

lemma add_composed_tool:
  assumes "\<forall>(i, e) \<in> set c. requirement_identity (cr_requirement e) = i" and "distinct (map fst c)"
    and "(i, e) \<in> set c" and "cr_requirement e = ToolRequirement t v"
  shows "promises_tool (fold add_composed c b) t v"
  using assms
proof (induction c arbitrary: b)
  case (Cons x c)
  have later: "promises_tool (fold add_composed c b') t v"
    if "promises_tool b' t v" "''tool:'' @ escape_identity t \<notin> fst ` set c"
      "\<forall>(i, e) \<in> set c. requirement_identity (cr_requirement e) = i" for b' c
    using that
  proof (induction c arbitrary: b')
    case (Cons y c)
    then have "promises_tool (add_composed y b') t v"
      by (cases y) (auto simp: add_composed_def promises_tool_def Let_def split: requirement.splits)
    with Cons show ?case by simp
  qed simp
  show ?case
  proof (cases "x = (i, e)")
    case True
    then have "promises_tool (add_composed x b) t v"
      using Cons.prems(4) by (simp add: add_composed_def promises_tool_def)
    moreover have "''tool:'' @ escape_identity t = i" using Cons.prems(1,3,4) by fastforce
    ultimately show ?thesis using later [of _ c] Cons.prems(1,2) True by auto
  qed (use Cons in auto)
qed simp

lemma bind_profiles_ok: "bind_profiles names profiles = Inr b \<Longrightarrow> binding_ok b"
  by (auto simp: bind_profiles_def binding_ok_def binding_empty_def add_composed_fields split: if_splits sum.splits)

text \<open>The profiles of a machine with its binding as one more profile.\<close>

definition with_binding :: "string list \<Rightarrow> profile_map \<Rightarrow> profile_map" where
  "with_binding names profiles = tree_insert binding_root
     \<lparr>pr_id = [], pr_name = binding_root, pr_extends = names, pr_requirements = [], pr_deny = []\<rparr> profiles"

lemma bind_profiles_tools:
  assumes "bind_profiles names profiles = Inr b" and "names \<noteq> []"
    and "requires_in (with_binding names profiles) {q. reaches (with_binding names profiles) binding_root q} (ToolRequirement t v)"
    and "''tool:'' @ escape_identity t \<notin> denied_under (with_binding names profiles) binding_root"
  shows "promises_tool b t v"
proof -
  let ?P = "with_binding names profiles"
  obtain c where c: "compose_profile binding_root ?P = Inr c" and b: "b = fold add_composed c binding_empty"
    using assms(1,2) by (auto simp: bind_profiles_def with_binding_def split: sum.splits)
  note exact = composition_exact [of ?P binding_root, unfolded c sum.case]
  have d: "distinct (map fst c)" using profile_sorted [OF c] by (rule sorted_keys_distinct)
  have ids: "\<forall>(i, e) \<in> set c. requirement_identity (cr_requirement e) = i"
    using exact offered_identity d by (fastforce simp: map_of_eq_Some_iff)
  obtain e where e: "map_of c (''tool:'' @ escape_identity t) = Some e"
    using exact assms(3,4) by (metis not_None_eq requirement_identity.simps(1))
  then have "cr_requirement e = ToolRequirement t v" using exact assms(3) by fastforce
  then show ?thesis unfolding b using add_composed_tool [OF ids d] e d by (auto simp: map_of_eq_Some_iff)
qed

text \<open>C37. What a binding composes keeps every promise and contradicts none: each bound project's tools at
  their versions and its checkout at its root, each tool the bound profiles require and none denies,
  one version per tool, one root per remote and one remote per root.\<close>

theorem binding_keeps_promises:
  assumes "compose_binding profile_names project_names profiles projects = Inr out"
  shows "(\<forall>name \<in> set project_names. \<exists>p. map_of projects name = Some p \<and>
       set (pj_tools p) \<subseteq> set (bd_tools out) \<and>
       (\<forall>root. pj_root p = Some root \<longrightarrow> (pj_remote p, root) \<in> set (bd_checkouts out))) \<and>
    (\<forall>t v. profile_names \<noteq> [] \<longrightarrow>
       requires_in (with_binding profile_names profiles)
         {q. reaches (with_binding profile_names profiles) binding_root q} (ToolRequirement t v) \<longrightarrow>
       ''tool:'' @ escape_identity t \<notin> denied_under (with_binding profile_names profiles) binding_root \<longrightarrow>
       (t, v) \<in> set (bd_tools out)) \<and>
    distinct (map fst (bd_tools out)) \<and> distinct (map fst (bd_checkouts out)) \<and>
    distinct (map snd (bd_checkouts out))"
proof -
  obtain b b' where b: "bind_profiles profile_names profiles = Inr b"
    and b': "bind_projects projects (dedup (sort project_names)) b = Inr b'"
    and tools: "bd_tools out = map (\<lambda>(tool, version, _). (tool, version)) (bi_tools b')"
    and checkouts: "bd_checkouts out = map (\<lambda>(remote, root, _). (remote, root)) (bi_checkouts b')"
    using assms by (auto simp: compose_binding_def check_then_Inr)
  note grows = bind_projects_grows [OF b' bind_profiles_ok [OF b]]
  have ok: "binding_ok b'" using grows bind_profiles_ok [OF b] by (simp add: binding_grows_def)
  have t_in: "promises_tool b' t v \<Longrightarrow> (t, v) \<in> set (bd_tools out)" for t v
    by (auto simp: tools promises_tool_def dest!: map_of_SomeD intro: rev_image_eqI)
  have c_in: "promises_checkout b' r d \<Longrightarrow> (r, d) \<in> set (bd_checkouts out)" for r d
    by (auto simp: checkouts promises_checkout_def dest!: map_of_SomeD intro: rev_image_eqI)
  have dt: "distinct (map fst (bi_tools b'))" and dc: "distinct (map fst (bi_checkouts b'))"
    using ok sorted_keys_distinct by (auto simp: binding_ok_def)
  have roots: "distinct (map (fst \<circ> snd) (bi_checkouts b'))"
  proof -
    have "inj_on (fst \<circ> snd) (set (bi_checkouts b'))"
    proof (rule inj_onI, clarsimp)
      fix r1 d o1 r2 o2 assume "(r1, d, o1) \<in> set (bi_checkouts b')" "(r2, d, o2) \<in> set (bi_checkouts b')"
      then have m: "map_of (bi_checkouts b') r1 = Some (d, o1)" "map_of (bi_checkouts b') r2 = Some (d, o2)"
        using dc by simp_all
      then have "r1 = r2" using ok unfolding binding_ok_def by (metis option.inject prod.inject)
      with m show "r1 = r2 \<and> o1 = o2" by simp
    qed
    then show ?thesis using dc by (simp add: distinct_map)
  qed
  have "map fst (bd_tools out) = map fst (bi_tools b')" "map fst (bd_checkouts out) = map fst (bi_checkouts b')"
    "map snd (bd_checkouts out) = map (fst \<circ> snd) (bi_checkouts b')"
    by (auto simp: tools checkouts)
  then have "distinct (map fst (bd_tools out)) \<and> distinct (map fst (bd_checkouts out)) \<and> distinct (map snd (bd_checkouts out))"
    using dt dc roots by simp
  moreover have "\<forall>name \<in> set project_names. \<exists>p. map_of projects name = Some p \<and>
      set (pj_tools p) \<subseteq> set (bd_tools out) \<and>
      (\<forall>root. pj_root p = Some root \<longrightarrow> (pj_remote p, root) \<in> set (bd_checkouts out))"
    using grows t_in c_in by (fastforce simp: dedup_def)
  moreover have "(t, v) \<in> set (bd_tools out)"
    if "profile_names \<noteq> []" "requires_in (with_binding profile_names profiles)
         {q. reaches (with_binding profile_names profiles) binding_root q} (ToolRequirement t v)"
      "''tool:'' @ escape_identity t \<notin> denied_under (with_binding profile_names profiles) binding_root" for t v
    using bind_profiles_tools [OF b that] grows t_in by (auto simp: binding_grows_def)
  ultimately show ?thesis by blast
qed

section \<open>Skill assignments\<close>

datatype assignment_scope = ScopeAll | ScopeGroup string | ScopeTag string | ScopeMachine string

record skill_target =
  tg_machine :: string
  tg_groups :: "string list"
  tg_tags :: "string list"

record skill_assignment =
  sa_skill :: string
  sa_deploy :: "string list"
  sa_deny :: "string list"
  sa_catalog :: "(string \<times> string) option"
  sa_scope :: assignment_scope
  sa_provenance :: provenance_record

record builtin_assignment =
  bu_skill :: string
  bu_catalog :: string
  bu_version :: string
  bu_deploy :: "string list"

record composed_assignments =
  cs_skills :: "(string \<times> string) list"
  cs_catalog :: "(string \<times> string \<times> string) list"
  cs_provenance :: "(string \<times> provenance_record) list"

datatype assignment_error =
    InvalidIdentityComponent string
  | ConflictingCatalogVersions string string string

definition default_builtin_skill_agents :: "string list" where
  "default_builtin_skill_agents = [''claude_code'', ''codex'']"

definition with_builtin_assignments ::
    "skill_assignment list \<Rightarrow> builtin_assignment list \<Rightarrow> skill_assignment list" where
  "with_builtin_assignments assignments builtins =
     assignments @
     map (\<lambda>u. \<lparr>sa_skill = bu_skill u, sa_deploy = bu_deploy u, sa_deny = [],
               sa_catalog = Some (bu_catalog u, bu_version u), sa_scope = ScopeAll,
               sa_provenance = \<lparr>pv_id = ''builtin:'' @ bu_catalog u, pv_name = bu_skill u,
                                pv_path = ''controller release default''\<rparr>\<rparr>)
       (filter (\<lambda>u. \<not> list_ex (\<lambda>a. sa_skill a = bu_skill u \<or>
                     (case sa_catalog a of None \<Rightarrow> False | Some (c, _) \<Rightarrow> c = bu_catalog u)) assignments)
         builtins)"

fun scope_applies :: "skill_target \<Rightarrow> assignment_scope \<Rightarrow> bool" where
  "scope_applies t ScopeAll \<longleftrightarrow> True"
| "scope_applies t (ScopeGroup g) \<longleftrightarrow> g \<in> set (tg_groups t)"
| "scope_applies t (ScopeTag g) \<longleftrightarrow> g \<in> set (tg_tags t)"
| "scope_applies t (ScopeMachine m) \<longleftrightarrow> m = tg_machine t"

type_synonym resolved_assignment = "string \<times> string \<times> provenance_record \<times> (string \<times> string) option"

definition provenance_key :: "provenance_record \<Rightarrow> string \<times> string \<times> string" where
  "provenance_key p = (pv_name p, pv_id p, pv_path p)"

definition has_slash :: "string \<Rightarrow> bool" where
  "has_slash s \<longleftrightarrow> CHR ''/'' \<in> set s"

definition assignment_identity :: "skill_assignment \<Rightarrow> string \<Rightarrow> string" where
  "assignment_identity a agent =
     (case sa_catalog a of
        None \<Rightarrow> ''skill:'' @ sa_skill a @ ''/'' @ agent
      | Some (catalog, _) \<Rightarrow> ''catalog-skill:'' @ catalog @ ''/'' @ agent)"

definition denied_pairs :: "skill_assignment list \<Rightarrow> (string \<times> string) set" where
  "denied_pairs as = set (concat (map (\<lambda>a. map (\<lambda>agent. (sa_skill a, agent)) (sa_deny a)) as))"

definition resolve_agent ::
    "(string \<times> string) set \<Rightarrow> skill_assignment \<Rightarrow> string \<Rightarrow> (string \<times> resolved_assignment) list \<Rightarrow>
     assignment_error + (string \<times> resolved_assignment) list" where
  "resolve_agent denied a agent resolved =
     (if has_slash agent then Inl (InvalidIdentityComponent ''agent id'')
      else if (case sa_catalog a of None \<Rightarrow> False | Some (c, v) \<Rightarrow> has_slash c \<or> has_slash v)
      then Inl (InvalidIdentityComponent ''catalog or version id'')
      else if (sa_skill a, agent) \<in> denied then Inr resolved
      else
        (let i = assignment_identity a agent;
             candidate = (sa_skill a, agent, sa_provenance a, sa_catalog a)
         in case map_of resolved i of
              None \<Rightarrow> Inr (tree_insert i candidate resolved)
            | Some (_, _, provenance, catalog) \<Rightarrow>
                (let replace = (if provenance_key (sa_provenance a) < provenance_key provenance
                                then Inr (tree_insert i candidate resolved) else Inr resolved)
                 in case (catalog, sa_catalog a) of
                      (Some (_, first), Some (_, second)) \<Rightarrow>
                        if first \<noteq> second then Inl (ConflictingCatalogVersions i first second) else replace
                    | _ \<Rightarrow> replace)))"

fun resolve_agents ::
    "(string \<times> string) set \<Rightarrow> skill_assignment \<Rightarrow> string list \<Rightarrow> (string \<times> resolved_assignment) list \<Rightarrow>
     assignment_error + (string \<times> resolved_assignment) list" where
  "resolve_agents denied a [] resolved = Inr resolved"
| "resolve_agents denied a (agent # agents) resolved =
     check_then (resolve_agent denied a agent resolved) (resolve_agents denied a agents)"

fun resolve_assignments ::
    "(string \<times> string) set \<Rightarrow> skill_assignment list \<Rightarrow> (string \<times> resolved_assignment) list \<Rightarrow>
     assignment_error + (string \<times> resolved_assignment) list" where
  "resolve_assignments denied [] resolved = Inr resolved"
| "resolve_assignments denied (a # as) resolved =
     (if has_slash (sa_skill a) then Inl (InvalidIdentityComponent ''skill id'')
      else check_then (resolve_agents denied a (sa_deploy a) resolved) (resolve_assignments denied as))"

definition add_resolved ::
    "(string \<times> string) set \<Rightarrow> string \<times> resolved_assignment \<Rightarrow> composed_assignments \<Rightarrow> composed_assignments" where
  "add_resolved denied entry out =
     (let (i, skill, agent, provenance, catalog) = entry
      in if (skill, agent) \<in> denied then out
         else
           (let out = (case catalog of
                Some (_, version) \<Rightarrow>
                  out\<lparr>cs_catalog := cs_catalog out @
                    [(case Option.bind (strip_prefix ''catalog-skill:'' i) (split_once (CHR ''/'')) of
                        None \<Rightarrow> [] | Some (c, _) \<Rightarrow> c, version, agent)]\<rparr>
              | None \<Rightarrow> out\<lparr>cs_skills := cs_skills out @ [(skill, agent)]\<rparr>)
            in out\<lparr>cs_provenance := tree_insert i provenance (cs_provenance out)\<rparr>))"

definition compose_skill_assignments ::
    "skill_target \<Rightarrow> skill_assignment list \<Rightarrow> assignment_error + composed_assignments" where
  "compose_skill_assignments target assignments =
     (let applicable = filter (\<lambda>a. scope_applies target (sa_scope a)) assignments;
          denied = denied_pairs applicable
      in check_then (resolve_assignments denied applicable []) (\<lambda>resolved.
           Inr (fold (add_resolved denied) resolved
             \<lparr>cs_skills = [], cs_catalog = [], cs_provenance = []\<rparr>)))"


subsection \<open>What the assignments resolve to\<close>

lemma identity_catalog:
  assumes "assignment_identity a g = assignment_identity b h" and "\<not> has_slash g" "\<not> has_slash h"
    "\<not> has_slash (sa_skill a)" "\<not> has_slash (sa_skill b)"
    "\<forall>c v. sa_catalog a = Some (c, v) \<longrightarrow> \<not> has_slash c" "\<forall>c v. sa_catalog b = Some (c, v) \<longrightarrow> \<not> has_slash c"
  shows "g = h \<and> map_option fst (sa_catalog a) = map_option fst (sa_catalog b) \<and>
    (sa_catalog a = None \<longrightarrow> sa_skill a = sa_skill b)"
proof -
  have cut: "x = y \<and> g = h" if "x @ CHR ''/'' # g = y @ CHR ''/'' # h" "\<not> has_slash x" "\<not> has_slash y" for x y
  proof -
    have "split_once (CHR ''/'') (x @ CHR ''/'' # g) = Some (x, g)"
      using that(2) by (simp add: split_once_append has_slash_def)
    moreover have "split_once (CHR ''/'') (y @ CHR ''/'' # h) = Some (y, h)"
      using that(3) by (simp add: split_once_append has_slash_def)
    ultimately show ?thesis using that(1) by (metis option.inject prod.inject)
  qed
  show ?thesis
  proof (cases "sa_catalog a")
    case None
    with assms(1) have b: "sa_catalog b = None" by (auto simp: assignment_identity_def split: option.splits)
    with None assms(1) have "sa_skill a @ CHR ''/'' # g = sa_skill b @ CHR ''/'' # h"
      by (simp add: assignment_identity_def)
    from cut [OF this assms(4,5)] None b show ?thesis by simp
  next
    case (Some p)
    obtain c v where p: "p = (c, v)" by (cases p)
    from Some p assms(1) obtain d w where b: "sa_catalog b = Some (d, w)"
      by (auto simp: assignment_identity_def split: option.splits)
    with Some p assms(1) have "c @ CHR ''/'' # g = d @ CHR ''/'' # h"
      by (simp add: assignment_identity_def)
    from cut [OF this] assms(6,7) Some p b show ?thesis by simp
  qed
qed

text \<open>An assignment and an agent it deploys to.\<close>

type_synonym deployment = "skill_assignment \<times> string"

definition plain :: "deployment \<Rightarrow> bool" where
  "plain d \<longleftrightarrow> \<not> has_slash (sa_skill (fst d)) \<and> \<not> has_slash (snd d) \<and>
     (\<forall>c v. sa_catalog (fst d) = Some (c, v) \<longrightarrow> \<not> has_slash c)"

definition identity_of :: "deployment \<Rightarrow> string" where
  "identity_of d = assignment_identity (fst d) (snd d)"

definition allowed :: "(string \<times> string) set \<Rightarrow> deployment \<Rightarrow> bool" where
  "allowed denied d \<longleftrightarrow> (sa_skill (fst d), snd d) \<notin> denied"

lemma plain_identity:
  assumes "plain d" and "plain e" and "identity_of d = identity_of e"
  shows "snd d = snd e \<and> map_option fst (sa_catalog (fst d)) = map_option fst (sa_catalog (fst e)) \<and>
    (sa_catalog (fst d) = None \<longrightarrow> sa_skill (fst d) = sa_skill (fst e))"
  using identity_catalog [of "fst d" "snd d" "fst e" "snd e"] assms by (auto simp: plain_def identity_of_def)

definition resolves :: "(string \<times> string) set \<Rightarrow> deployment set \<Rightarrow> (string \<times> resolved_assignment) list \<Rightarrow> bool" where
  "resolves denied D m \<longleftrightarrow>
     sorted_wrt (<) (map fst m) \<and> (\<forall>d \<in> D. plain d) \<and>
     (\<forall>d \<in> D. allowed denied d \<longrightarrow>
        (\<exists>s g p c. map_of m (identity_of d) = Some (s, g, p, c) \<and> map_option snd c = map_option snd (sa_catalog (fst d)))) \<and>
     (\<forall>i s g p c. map_of m i = Some (s, g, p, c) \<longrightarrow>
        (\<exists>d \<in> D. allowed denied d \<and> identity_of d = i \<and> s = sa_skill (fst d) \<and> g = snd d \<and> c = sa_catalog (fst d)))"

lemma resolves_insert:
  assumes r: "resolves denied D m" and d: "plain (a, g)" "allowed denied (a, g)"
    and agree: "\<forall>s h p c. map_of m (identity_of (a, g)) = Some (s, h, p, c) \<longrightarrow> map_option snd c = map_option snd (sa_catalog a)"
  shows "resolves denied (insert (a, g) D) (tree_insert (identity_of (a, g)) (sa_skill a, g, pv, sa_catalog a) m)"
  unfolding resolves_def
proof (intro conjI ballI allI impI)
  let ?i = "identity_of (a, g)"
  let ?m = "tree_insert ?i (sa_skill a, g, pv, sa_catalog a) m"
  show "sorted_wrt (<) (map fst ?m)" using r by (simp add: resolves_def)
  fix d assume dD: "d \<in> insert (a, g) D"
  then show "plain d" using r d(1) by (auto simp: resolves_def)
  assume al: "allowed denied d"
  show "\<exists>s g p c. map_of ?m (identity_of d) = Some (s, g, p, c) \<and> map_option snd c = map_option snd (sa_catalog (fst d))"
  proof (cases "d = (a, g)")
    case False
    with dD al r obtain s h p c where old: "map_of m (identity_of d) = Some (s, h, p, c)"
      "map_option snd c = map_option snd (sa_catalog (fst d))" by (auto simp: resolves_def)
    show ?thesis
    proof (cases "identity_of d = ?i")
      case True
      then show ?thesis using agree old by simp
    next
      case False
      then show ?thesis using old by simp
    qed
  qed simp
next
  let ?i = "identity_of (a, g)"
  let ?m = "tree_insert ?i (sa_skill a, g, pv, sa_catalog a) m"
  fix i s h p c assume e: "map_of ?m i = Some (s, h, p, c)"
  show "\<exists>d \<in> insert (a, g) D. allowed denied d \<and> identity_of d = i \<and> s = sa_skill (fst d) \<and> h = snd d \<and> c = sa_catalog (fst d)"
  proof (cases "i = ?i")
    case True
    with e d(2) show ?thesis by simp
  next
    case False
    with e have "map_of m i = Some (s, h, p, c)" by simp
    then show ?thesis using r unfolding resolves_def by blast
  qed
qed

lemma resolves_more:
  assumes r: "resolves denied D m" and "plain (a, g)"
    and "allowed denied (a, g) \<Longrightarrow> \<exists>s h p c. map_of m (identity_of (a, g)) = Some (s, h, p, c) \<and>
      map_option snd c = map_option snd (sa_catalog a)"
  shows "resolves denied (insert (a, g) D) m"
proof -
  have "\<forall>d \<in> insert (a, g) D. plain d" using assms(1,2) by (simp add: resolves_def)
  moreover have "\<forall>d \<in> insert (a, g) D. allowed denied d \<longrightarrow>
      (\<exists>s g p c. map_of m (identity_of d) = Some (s, g, p, c) \<and> map_option snd c = map_option snd (sa_catalog (fst d)))"
    using assms by (auto simp: resolves_def)
  moreover have "\<forall>i s h p c. map_of m i = Some (s, h, p, c) \<longrightarrow>
      (\<exists>d \<in> insert (a, g) D. allowed denied d \<and> identity_of d = i \<and> s = sa_skill (fst d) \<and> h = snd d \<and> c = sa_catalog (fst d))"
    using r unfolding resolves_def by blast
  ultimately show ?thesis using r unfolding resolves_def by blast
qed

lemma resolve_agent_resolves:
  assumes "resolve_agent denied a g m = Inr m'" and r: "resolves denied D m" and "\<not> has_slash (sa_skill a)"
  shows "resolves denied (insert (a, g) D) m'"
proof -
  have plain: "plain (a, g)"
    using assms(1,3) by (auto simp: resolve_agent_def plain_def split: if_splits option.splits prod.splits)
  let ?i = "identity_of (a, g)"
  show ?thesis
  proof (cases "allowed denied (a, g)")
    case False
    with assms(1) have "m' = m" by (auto simp: resolve_agent_def allowed_def split: if_splits)
    then show ?thesis using resolves_more [OF r plain] False by simp
  next
    case True
    then have nd: "(sa_skill a, g) \<notin> denied" by (simp add: allowed_def)
    show ?thesis
    proof (cases "map_of m ?i")
      case None
      with assms(1) nd have "m' = tree_insert ?i (sa_skill a, g, sa_provenance a, sa_catalog a) m"
        by (auto simp: resolve_agent_def identity_of_def Let_def split: if_splits option.splits)
      then show ?thesis using resolves_insert [OF r plain True] None by simp
    next
      case (Some entry)
      obtain s h p c where entry: "entry = (s, h, p, c)" by (cases entry)
      obtain d where d: "d \<in> D" "identity_of d = ?i" "c = sa_catalog (fst d)"
        using r Some unfolding resolves_def entry by blast
      have "plain d" using r d(1) by (simp add: resolves_def)
      from plain_identity [OF this plain d(2)] have both: "c = None \<longleftrightarrow> sa_catalog a = None"
        unfolding d(3) by (cases "sa_catalog (fst d)"; cases "sa_catalog a") auto
      have agree: "map_option snd c = map_option snd (sa_catalog a)"
        using assms(1) nd Some both
        by (auto simp: resolve_agent_def identity_of_def entry Let_def split: if_splits option.splits prod.splits)
      have "m' = m \<or> m' = tree_insert ?i (sa_skill a, g, sa_provenance a, sa_catalog a) m"
        using assms(1) nd Some
        by (auto simp: resolve_agent_def identity_of_def entry Let_def split: if_splits option.splits prod.splits)
      then show ?thesis
        using resolves_more [OF r plain] resolves_insert [OF r plain True] agree Some entry by fastforce
    qed
  qed
qed

lemma resolve_agents_resolves:
  assumes "resolve_agents denied a gs m = Inr m'" and "resolves denied D m" and "\<not> has_slash (sa_skill a)"
  shows "resolves denied (Pair a ` set gs \<union> D) m'"
  using assms
proof (induction gs arbitrary: m D)
  case (Cons g gs)
  then obtain m1 where "resolve_agent denied a g m = Inr m1" "resolve_agents denied a gs m1 = Inr m'"
    by (auto simp: check_then_Inr)
  from Cons.IH [OF this(2) resolve_agent_resolves [OF this(1)]] Cons.prems show ?case by simp
qed simp

definition deployments :: "skill_assignment list \<Rightarrow> deployment set" where
  "deployments as = {(a, g). a \<in> set as \<and> g \<in> set (sa_deploy a)}"

lemma resolve_assignments_resolves:
  assumes "resolve_assignments denied as m = Inr m'" and "resolves denied D m"
  shows "resolves denied (deployments as \<union> D) m'"
  using assms
proof (induction as arbitrary: m D)
  case (Cons a as)
  then obtain m1 where slash: "\<not> has_slash (sa_skill a)"
    and m1: "resolve_agents denied a (sa_deploy a) m = Inr m1" and rest: "resolve_assignments denied as m1 = Inr m'"
    by (auto simp: check_then_Inr split: if_splits)
  have "deployments (a # as) \<union> D = deployments as \<union> (Pair a ` set (sa_deploy a) \<union> D)"
    by (auto simp: deployments_def)
  with Cons.IH [OF rest resolve_agents_resolves [OF m1 Cons.prems(2) slash]] show ?case by simp
qed (simp add: deployments_def)

definition entry_catalog :: "string \<Rightarrow> string" where
  "entry_catalog i = (case Option.bind (strip_prefix ''catalog-skill:'' i) (split_once (CHR ''/'')) of
     None \<Rightarrow> [] | Some (c, _) \<Rightarrow> c)"

lemma entry_catalog_identity:
  assumes "plain d" and "sa_catalog (fst d) = Some (c, v)"
  shows "entry_catalog (identity_of d) = c"
proof -
  have i: "identity_of d = ''catalog-skill:'' @ (c @ CHR ''/'' # snd d)"
    using assms(2) by (simp add: identity_of_def assignment_identity_def)
  have "CHR ''/'' \<notin> set c" using assms by (simp add: plain_def has_slash_def)
  then show ?thesis unfolding entry_catalog_def i strip_prefix_append by (simp add: split_once_append)
qed

lemma add_resolved_lists:
  assumes "(s, g) \<notin> denied"
  shows "cs_skills (add_resolved denied (i, s, g, p, c) out) = cs_skills out @ (if c = None then [(s, g)] else [])"
    and "cs_catalog (add_resolved denied (i, s, g, p, c) out) =
      cs_catalog out @ (case c of None \<Rightarrow> [] | Some (_, v) \<Rightarrow> [(entry_catalog i, v, g)])"
  using assms by (cases c; simp add: add_resolved_def Let_def entry_catalog_def split: prod.splits)+

lemma fold_resolved:
  assumes "\<forall>e \<in> set m. (fst (snd e), fst (snd (snd e))) \<notin> denied"
  shows "cs_skills (fold (add_resolved denied) m out) =
      cs_skills out @ concat (map (\<lambda>(i, s, g, p, c). if c = None then [(s, g)] else []) m)"
    and "cs_catalog (fold (add_resolved denied) m out) =
      cs_catalog out @ concat (map (\<lambda>(i, s, g, p, c). case c of None \<Rightarrow> [] | Some (_, v) \<Rightarrow> [(entry_catalog i, v, g)]) m)"
  using assms by (induction m arbitrary: out) (auto simp: add_resolved_lists)

text \<open>C36. A machine is asked for exactly the skills its assignments name: a pair of a skill and an agent
  is in the list without versions if and only if an assignment that applies deploys it without a
  catalog version and no assignment that applies denies it; the pairs of the assignments with a
  catalog version are, under the same rule, exactly the entries of the list with versions, which never
  holds two versions of one catalog entry for one agent. The two lists are independent: a pair that
  one assignment deploys with a catalog version and another without one is in both.\<close>

theorem assignments_exact:
  assumes "compose_skill_assignments target assignments = Inr out"
  defines "applicable \<equiv> filter (\<lambda>a. scope_applies target (sa_scope a)) assignments"
  shows "(\<forall>s g. (s, g) \<in> set (cs_skills out) \<longleftrightarrow>
       (s, g) \<notin> denied_pairs applicable \<and>
       (\<exists>a \<in> set applicable. sa_catalog a = None \<and> sa_skill a = s \<and> g \<in> set (sa_deploy a))) \<and>
    (\<forall>c v g. (c, v, g) \<in> set (cs_catalog out) \<longleftrightarrow>
       (\<exists>a \<in> set applicable. sa_catalog a = Some (c, v) \<and> g \<in> set (sa_deploy a) \<and>
          (sa_skill a, g) \<notin> denied_pairs applicable)) \<and>
    (\<forall>c v w g. (c, v, g) \<in> set (cs_catalog out) \<longrightarrow> (c, w, g) \<in> set (cs_catalog out) \<longrightarrow> v = w)"
proof -
  let ?dn = "denied_pairs applicable"
  obtain m where run: "resolve_assignments ?dn applicable [] = Inr m"
    and out: "out = fold (add_resolved ?dn) m \<lparr>cs_skills = [], cs_catalog = [], cs_provenance = []\<rparr>"
    using assms by (auto simp: compose_skill_assignments_def Let_def check_then_Inr applicable_def)
  have r: "resolves ?dn (deployments applicable) m"
    using resolve_assignments_resolves [OF run, of "{}"] by (simp add: resolves_def)
  have entry: "(i, e) \<in> set m \<longleftrightarrow> map_of m i = Some e" for i e
    using r sorted_keys_distinct unfolding resolves_def by (metis map_of_eq_Some_iff)
  have origin: "\<exists>d \<in> deployments applicable. allowed ?dn d \<and> identity_of d = i \<and> s = sa_skill (fst d) \<and> g = snd d \<and> c = sa_catalog (fst d)"
    if "(i, s, g, p, c) \<in> set m" for i s g p c
    using that r unfolding entry resolves_def by blast
  have into: "\<exists>s p c. (identity_of d, s, snd d, p, c) \<in> set m \<and> map_option snd c = map_option snd (sa_catalog (fst d)) \<and>
      (sa_catalog (fst d) = None \<longrightarrow> s = sa_skill (fst d))"
    if d: "d \<in> deployments applicable" "allowed ?dn d" for d
  proof -
    obtain s g p c where e: "(identity_of d, s, g, p, c) \<in> set m" "map_option snd c = map_option snd (sa_catalog (fst d))"
      using d r unfolding entry resolves_def by blast
    from origin [OF e(1)] obtain d' where d': "d' \<in> deployments applicable" "identity_of d' = identity_of d"
      "s = sa_skill (fst d')" "g = snd d'" "c = sa_catalog (fst d')" by blast
    have "plain d" "plain d'" using r d(1) d'(1) by (auto simp: resolves_def)
    from plain_identity [OF this(2,1) d'(2)] d' e show ?thesis by (metis option.map_disc_iff)
  qed
  have "\<forall>e \<in> set m. (fst (snd e), fst (snd (snd e))) \<notin> ?dn"
  proof clarify
    fix i s g p c assume "(i, s, g, p, c) \<in> set m" "(fst (snd (i, s, g, p, c)), fst (snd (snd (i, s, g, p, c)))) \<in> ?dn"
    then show False using origin by (fastforce simp: allowed_def)
  qed
  note lists = fold_resolved [OF this, of "\<lparr>cs_skills = [], cs_catalog = [], cs_provenance = []\<rparr>", folded out]
  have skills: "(s, g) \<in> set (cs_skills out) \<longleftrightarrow> (\<exists>i p. (i, s, g, p, None) \<in> set m)" for s g
    by (auto simp: lists split: if_splits)
  have catalog: "(c, v, g) \<in> set (cs_catalog out) \<longleftrightarrow> (\<exists>i s p c'. (i, s, g, p, Some (c', v)) \<in> set m \<and> c = entry_catalog i)" for c v g
    by (fastforce simp: lists split: option.splits)
  have plain: "plain d" if "d \<in> deployments applicable" for d using r that by (simp add: resolves_def)
  have skills_exact: "(s, g) \<in> set (cs_skills out) \<longleftrightarrow> (s, g) \<notin> ?dn \<and>
      (\<exists>a \<in> set applicable. sa_catalog a = None \<and> sa_skill a = s \<and> g \<in> set (sa_deploy a))" for s g
  proof
    assume "(s, g) \<in> set (cs_skills out)"
    then obtain i p where "(i, s, g, p, None) \<in> set m" using skills by blast
    from origin [OF this] obtain d where "d \<in> deployments applicable" "allowed ?dn d" "s = sa_skill (fst d)"
      "g = snd d" "sa_catalog (fst d) = None" by auto
    then show "(s, g) \<notin> ?dn \<and> (\<exists>a \<in> set applicable. sa_catalog a = None \<and> sa_skill a = s \<and> g \<in> set (sa_deploy a))"
      by (auto simp: allowed_def deployments_def)
  next
    assume "(s, g) \<notin> ?dn \<and> (\<exists>a \<in> set applicable. sa_catalog a = None \<and> sa_skill a = s \<and> g \<in> set (sa_deploy a))"
    then obtain a where "(a, g) \<in> deployments applicable" "allowed ?dn (a, g)" "sa_catalog a = None" "sa_skill a = s"
      by (auto simp: allowed_def deployments_def)
    then show "(s, g) \<in> set (cs_skills out)" using into [of "(a, g)"] skills by auto
  qed
  have catalog_exact: "(c, v, g) \<in> set (cs_catalog out) \<longleftrightarrow>
      (\<exists>a \<in> set applicable. sa_catalog a = Some (c, v) \<and> g \<in> set (sa_deploy a) \<and> (sa_skill a, g) \<notin> ?dn)" for c v g
  proof
    assume "(c, v, g) \<in> set (cs_catalog out)"
    then obtain i s p c' where m: "(i, s, g, p, Some (c', v)) \<in> set m" "c = entry_catalog i" using catalog by blast
    from origin [OF m(1)] obtain d where d: "d \<in> deployments applicable" "allowed ?dn d" "identity_of d = i"
      "g = snd d" "sa_catalog (fst d) = Some (c', v)" by auto
    have "c = c'" using entry_catalog_identity [OF plain [OF d(1)] d(5)] d(3) m(2) by simp
    with d show "\<exists>a \<in> set applicable. sa_catalog a = Some (c, v) \<and> g \<in> set (sa_deploy a) \<and> (sa_skill a, g) \<notin> ?dn"
      by (auto simp: deployments_def allowed_def)
  next
    assume "\<exists>a \<in> set applicable. sa_catalog a = Some (c, v) \<and> g \<in> set (sa_deploy a) \<and> (sa_skill a, g) \<notin> ?dn"
    then obtain a where a: "(a, g) \<in> deployments applicable" "allowed ?dn (a, g)" "sa_catalog a = Some (c, v)"
      by (auto simp: allowed_def deployments_def)
    from into [OF a(1,2)] obtain s p e where "(identity_of (a, g), s, g, p, e) \<in> set m" "map_option snd e = Some v"
      using a(3) by auto
    moreover have "entry_catalog (identity_of (a, g)) = c"
      using entry_catalog_identity [OF plain [OF a(1)]] a(3) by simp
    ultimately show "(c, v, g) \<in> set (cs_catalog out)" unfolding catalog by (cases e) fastforce+
  qed
  have one: "v = w" if "(c, v, g) \<in> set (cs_catalog out)" "(c, w, g) \<in> set (cs_catalog out)" for c v w g
  proof -
    have *: "\<exists>s p c'. map_of m (''catalog-skill:'' @ c @ ''/'' @ g) = Some (s, g, p, Some (c', u))"
      if "(c, u, g) \<in> set (cs_catalog out)" for u
    proof -
      from that obtain i s p c' where m: "(i, s, g, p, Some (c', u)) \<in> set m" "c = entry_catalog i" using catalog by blast
      from origin [OF m(1)] obtain d where d: "d \<in> deployments applicable" "identity_of d = i"
        "g = snd d" "sa_catalog (fst d) = Some (c', u)" by auto
      have "c = c'" using entry_catalog_identity [OF plain [OF d(1)] d(4)] d(2) m(2) by simp
      then have "i = ''catalog-skill:'' @ c @ ''/'' @ g"
        using d by (auto simp: identity_of_def assignment_identity_def)
      with m(1) show ?thesis unfolding entry by blast
    qed
    show ?thesis using * [OF that(1)] * [OF that(2)] by auto
  qed
  show ?thesis using skills_exact catalog_exact one by blast
qed

definition demo_provenance :: provenance_record where
  "demo_provenance = \<lparr>pv_id = ''p1'', pv_name = ''p1'', pv_path = ''/spec''\<rparr>"

definition demo_target :: skill_target where
  "demo_target = \<lparr>tg_machine = ''m1'', tg_groups = [''lab''], tg_tags = []\<rparr>"

definition demo_assignment :: "string list \<Rightarrow> string list \<Rightarrow> skill_assignment" where
  "demo_assignment deploy deny = \<lparr>sa_skill = ''db'', sa_deploy = deploy, sa_deny = deny, sa_catalog = None,
     sa_scope = ScopeGroup ''lab'', sa_provenance = demo_provenance\<rparr>"

theorem assignments_exact_witness:
  "\<exists>out. compose_skill_assignments demo_target
      [demo_assignment [''codex'', ''claude_code''] [], demo_assignment [] [''codex'']] = Inr out \<and>
    (''db'', ''claude_code'') \<in> set (cs_skills out) \<and> (''db'', ''codex'') \<notin> set (cs_skills out)"
proof -
  let ?as = "[demo_assignment [''codex'', ''claude_code''] [], demo_assignment [] [''codex'']]"
  have "\<exists>out. compose_skill_assignments demo_target ?as = Inr out"
    by (simp add: compose_skill_assignments_def demo_target_def demo_assignment_def denied_pairs_def
        has_slash_def check_then_def resolve_agent_def Let_def)
  then obtain out where out: "compose_skill_assignments demo_target ?as = Inr out" ..
  have "(''db'', ''claude_code'') \<in> set (cs_skills out) \<and> (''db'', ''codex'') \<notin> set (cs_skills out)"
    using assignments_exact [OF out, THEN conjunct1]
    by (simp add: demo_target_def demo_assignment_def denied_pairs_def)
  with out show ?thesis by blast
qed

definition demo_project :: project_resource where
  "demo_project = \<lparr>pj_id = ''r1'', pj_name = ''app'', pj_remote = ''github.com/acme/app'',
     pj_root = Some ''/srv/app'', pj_tools = [(''go'', ''1.22'')]\<rparr>"

theorem binding_keeps_promises_witness:
  "\<exists>out. compose_binding [''new''] [''app''] demo_profiles [(''app'', demo_project)] = Inr out \<and>
    (''go'', ''1.22'') \<in> set (bd_tools out) \<and> (''github.com/acme/app'', ''/srv/app'') \<in> set (bd_checkouts out)"
proof -
  have "(case compose_binding [''new''] [''app''] demo_profiles [(''app'', demo_project)] of Inl e \<Rightarrow> False | Inr out \<Rightarrow> True)"
    by code_simp
  then obtain out where out: "compose_binding [''new''] [''app''] demo_profiles [(''app'', demo_project)] = Inr out"
    by (auto split: sum.splits)
  have "(''go'', ''1.22'') \<in> set (bd_tools out) \<and> (''github.com/acme/app'', ''/srv/app'') \<in> set (bd_checkouts out)"
    using binding_keeps_promises [OF out, THEN conjunct1] by (simp add: demo_project_def)
  with out show ?thesis by blast
qed

text \<open>The order in which a machine binds its profiles decides whether it can be composed at all: two
  profiles that disagree on a tool are refused when the profile that denies the tool is bound after
  them, and accepted when it is bound first.\<close>

theorem binding_order_decides:
  "set [''new'', ''old'', ''none''] = set [''none'', ''new'', ''old''] \<and>
   compose_binding [''new'', ''old'', ''none''] [] demo_profiles [] = Inl (CeConflict ''tool:node'' ''new'' ''old'') \<and>
   compose_binding [''none'', ''new'', ''old''] [] demo_profiles [] = Inr bound_default"
proof (intro conjI)
  show "set [''new'', ''old'', ''none''] = set [''none'', ''new'', ''old'']" by auto
  show "compose_binding [''new'', ''old'', ''none''] [] demo_profiles [] = Inl (CeConflict ''tool:node'' ''new'' ''old'')"
    by code_simp
  show "compose_binding [''none'', ''new'', ''old''] [] demo_profiles [] = Inr bound_default" by code_simp
qed

end
