(* ===== verification/Project_Remote.thy ===== *)
theory Project_Remote
  imports Prelude
begin

text \<open>
  The identity of a project, \<open>crates/fleet-core/src/project.rs\<close>: the normalization of a Git
  remote, its fetch form, and the URL a clone uses, with the reading of a stored remote of
  \<open>crates/fleet-controller/src/ready.rs\<close>.
\<close>

section \<open>Fetch forms\<close>

datatype fetch_scheme = FetchHttps | FetchHttp | FetchSsh | FetchScp

record remote_fetch =
  rf_scheme :: fetch_scheme
  rf_user :: "string option"

definition fetch_default :: remote_fetch where
  "fetch_default = \<lparr>rf_scheme = FetchHttps, rf_user = None\<rparr>"

definition fetch_scheme_text :: "fetch_scheme \<Rightarrow> string" where
  "fetch_scheme_text s = (case s of FetchHttps \<Rightarrow> ''https'' | FetchHttp \<Rightarrow> ''http'' | FetchSsh \<Rightarrow> ''ssh''
     | FetchScp \<Rightarrow> ''scp'')"

definition fetch_scheme_of :: "string \<Rightarrow> fetch_scheme option" where
  "fetch_scheme_of t =
     (if t = ''https'' then Some FetchHttps else if t = ''http'' then Some FetchHttp
      else if t = ''ssh'' then Some FetchSsh else if t = ''scp'' then Some FetchScp else None)"

definition valid_login :: "string \<Rightarrow> bool" where
  "valid_login user \<longleftrightarrow>
     length user \<le> 32 \<and>
     (case user of [] \<Rightarrow> False | c # _ \<Rightarrow> is_ascii_alnum c) \<and>
     list_all (\<lambda>c. is_ascii_alnum c \<or> c \<in> {CHR ''.'', CHR ''_'', CHR ''-''}) user"

definition fetch_validate :: "remote_fetch \<Rightarrow> string + unit" where
  "fetch_validate f =
     (case (rf_scheme f, rf_user f) of
        (FetchHttps, Some _) \<Rightarrow> Inl ''an http(s) fetch form carries no user''
      | (FetchHttp, Some _) \<Rightarrow> Inl ''an http(s) fetch form carries no user''
      | (FetchScp, None) \<Rightarrow> Inl ''an scp fetch form needs a login user''
      | (_, Some user) \<Rightarrow> if valid_login user then Inr () else Inl ''the login user is not a plain login name''
      | _ \<Rightarrow> Inr ())"

definition eq_ignore_case :: "string \<Rightarrow> string \<Rightarrow> bool" where
  "eq_ignore_case a b \<longleftrightarrow> to_ascii_lowercase a = to_ascii_lowercase b"

definition has_whitespace :: "string \<Rightarrow> bool" where
  "has_whitespace s \<longleftrightarrow> list_ex is_whitespace (scalars s)"

text \<open>\<open>rsplit_once('@')\<close>: the text before and after the last at sign.\<close>

definition login_of :: "string \<Rightarrow> string option" where
  "login_of authority = map_option fst (rsplit_once (CHR ''@'') authority)"

definition after_login :: "string \<Rightarrow> string" where
  "after_login host = (case rsplit_once (CHR ''@'') host of None \<Rightarrow> host | Some (_, h) \<Rightarrow> h)"

definition fetchable_host :: "string \<Rightarrow> bool" where
  "fetchable_host host \<longleftrightarrow>
     \<not> starts_with ''-'' host \<and> \<not> has_whitespace host \<and> \<not> has_control host \<and>
     (case rsplit_once (CHR '':'') host of
        None \<Rightarrow> True
      | Some (_, port) \<Rightarrow> 1 \<le> length port \<and> length port \<le> 5 \<and> list_all is_ascii_digit port)"

definition check_bounds :: "string \<Rightarrow> string \<Rightarrow> string + unit" where
  "check_bounds host path =
     first_error
       [refuse_when (length path > 400 \<or> length host > 253) ''the host or path exceeds the bounds'',
        refuse_when (has_whitespace path \<or> CHR 0x00 \<in> set path) ''the path carries whitespace or NUL'']"

definition fetch_form :: "string option \<Rightarrow> string \<Rightarrow> bool \<Rightarrow> string + remote_fetch" where
  "fetch_form scheme authority strict =
     (let user = login_of authority;
          scheme' = (case scheme of
              Some s \<Rightarrow>
                if eq_ignore_case s ''http'' then FetchHttp
                else if eq_ignore_case s ''ssh'' then FetchSsh else FetchHttps
            | None \<Rightarrow> if user \<noteq> None then FetchScp else FetchHttps);
          user' = (if scheme' \<in> {FetchSsh, FetchScp} then user else None)
      in if (case user' of None \<Rightarrow> False | Some u \<Rightarrow> \<not> valid_login u) then
           (if strict then Inl ''the login user is not a plain login name'' else Inr fetch_default)
         else Inr \<lparr>rf_scheme = scheme', rf_user = user'\<rparr>)"

section \<open>Normalization\<close>

definition split_scheme :: "string \<Rightarrow> string + string option \<times> string" where
  "split_scheme raw =
     (case split_once_text ''://'' raw of
        Some (scheme, rest) \<Rightarrow>
          if list_ex (eq_ignore_case scheme) [''https'', ''http'', ''ssh'', ''git'']
          then Inr (Some scheme, rest) else Inl ''it carries an unrecognized scheme''
      | None \<Rightarrow> Inr (None, raw))"

text \<open>The text before the first slash, and the position after its last at sign.\<close>

definition before_slash :: "string \<Rightarrow> string" where
  "before_slash s = takeWhile (\<lambda>c. c \<noteq> CHR ''/'') s"

definition authority_end :: "string \<Rightarrow> nat" where
  "authority_end rest =
     (case login_of (before_slash rest) of None \<Rightarrow> 0 | Some user \<Rightarrow> length user + 1)"

definition split_authority :: "string option \<Rightarrow> string \<Rightarrow> string + string \<times> string" where
  "split_authority scheme rest =
     (case scheme of
        None \<Rightarrow>
          (let e = authority_end rest in
           case split_once (CHR '':'') (drop e rest) of
             Some (host, path) \<Rightarrow> Inr (take (e + length host) rest, path)
           | None \<Rightarrow>
               (case split_once (CHR ''/'') rest of
                  Some (authority, path) \<Rightarrow> Inr (authority, path)
                | None \<Rightarrow> Inl ''it carries no path separator''))
      | Some _ \<Rightarrow>
          (case split_once (CHR ''/'') rest of
             Some (authority, path) \<Rightarrow> Inr (authority, path)
           | None \<Rightarrow> Inl ''it carries no path after the host''))"

definition credential_bearing :: "string option \<Rightarrow> string \<Rightarrow> bool" where
  "credential_bearing scheme authority \<longleftrightarrow>
     (if (case scheme of None \<Rightarrow> False | Some s \<Rightarrow> eq_ignore_case s ''https'' \<or> eq_ignore_case s ''http'')
      then CHR ''@'' \<in> set authority
      else (case login_of authority of None \<Rightarrow> False | Some user \<Rightarrow> CHR '':'' \<in> set user))"

definition host_and_path :: "string option \<Rightarrow> string \<Rightarrow> string \<Rightarrow> string \<times> string" where
  "host_and_path scheme authority path =
     (case scheme of
        Some _ \<Rightarrow> (authority, path)
      | None \<Rightarrow> (case split_once (CHR '':'') authority of Some (h, p) \<Rightarrow> (h, p) | None \<Rightarrow> (authority, path)))"

definition trim_end_slashes :: "string \<Rightarrow> string" where
  "trim_end_slashes s = rev (dropWhile (\<lambda>c. c = CHR ''/'') (rev s))"

text \<open>\<open>split_at\<close> panics off a character boundary, which is \<open>None\<close>.\<close>

definition strip_git :: "string \<Rightarrow> string option" where
  "strip_git path =
     (if length path < 4 then Some path
      else if \<not> is_char_boundary path (length path - 4) then None
      else if eq_ignore_case (drop (length path - 4) path) ''.git''
      then Some (take (length path - 4) path) else Some path)"

text \<open>A panic of the parser is \<open>None\<close>, an error or an answer \<open>Some\<close>.\<close>

definition parse_inner :: "string \<Rightarrow> bool \<Rightarrow> (string + string \<times> remote_fetch) option" where
  "parse_inner raw strict =
     (let error = (\<lambda>detail. Some (Inl (''the remote is malformed: '' @ detail)));
          raw = text_trim raw
      in if raw = [] then error ''it is empty''
         else if length raw > 512 then error ''it exceeds 512 characters''
         else case split_scheme raw of
           Inl d \<Rightarrow> error d
         | Inr (scheme, rest) \<Rightarrow>
             (case split_authority scheme rest of
                Inl d \<Rightarrow> error d
              | Inr (authority, path) \<Rightarrow>
                  if credential_bearing scheme authority
                  then error ''it carries embedded credentials; use a remote without userinfo''
                  else (case fetch_form scheme authority strict of
                    Inl d \<Rightarrow> error d
                  | Inr fetch \<Rightarrow>
                      (let (host, path) = host_and_path scheme authority path
                       in if host = [] \<or> path = [] then error ''the host or path is empty''
                          else if after_login host = [] then error ''the host is empty''
                          else
                            (let host = to_ascii_lowercase (after_login host)
                             in if strict \<and> \<not> fetchable_host host
                                then error ''the host cannot be fetched from (an option-like or non-numeric port)''
                                else (case strip_git (trim_end_slashes path) of
                                  None \<Rightarrow> None
                                | Some stem \<Rightarrow>
                                    (let path = trim_end_slashes stem
                                     in if path = [] then error ''the path is empty after normalization''
                                        else (case check_bounds host path of
                                            Inl d \<Rightarrow> error d
                                          | Inr _ \<Rightarrow> Some (Inr (host @ ''/'' @ path, fetch))))))))))"

definition parse_remote :: "string \<Rightarrow> (string + string) option" where
  "parse_remote raw = map_option (map_sum id fst) (parse_inner raw False)"

definition parse_with_fetch :: "string \<Rightarrow> (string + string \<times> remote_fetch) option" where
  "parse_with_fetch raw = parse_inner raw True"

definition clone_url :: "string \<Rightarrow> remote_fetch \<Rightarrow> string" where
  "clone_url remote fetch =
     (let user = (case rf_user fetch of None \<Rightarrow> [] | Some u \<Rightarrow> u @ ''@'')
      in case rf_scheme fetch of
           FetchHttps \<Rightarrow> ''https://'' @ remote
         | FetchHttp \<Rightarrow> ''http://'' @ remote
         | FetchSsh \<Rightarrow> ''ssh://'' @ user @ remote
         | FetchScp \<Rightarrow>
             (case split_once (CHR ''/'') remote of
                Some (host, path) \<Rightarrow> user @ host @ '':'' @ path
              | None \<Rightarrow> ''https://'' @ remote))"

section \<open>The remote of a clone step\<close>

definition parse_payload_remote :: "string \<Rightarrow> (string + string) option" where
  "parse_payload_remote remote =
     (if text_contains ''://'' remote \<or> CHR ''@'' \<in> set (before_slash remote)
      then parse_remote remote else parse_remote (''https://'' @ remote))"

definition clone_remote :: "string \<Rightarrow> remote_fetch \<Rightarrow> (string + string) option" where
  "clone_remote remote fetch =
     (let error = (\<lambda>d. Some (Inl (''invalid_project_remote: '' @ d))) in
      case fetch_validate fetch of
        Inl d \<Rightarrow> error d
      | Inr _ \<Rightarrow>
          (case parse_payload_remote remote of
             None \<Rightarrow> None
           | Some (Inl d) \<Rightarrow> error d
           | Some (Inr normalized) \<Rightarrow>
               if CHR ''?'' \<in> set normalized \<or> CHR ''#'' \<in> set normalized
               then error ''the remote path carries a query or fragment''
               else Some (Inr (clone_url normalized fetch))))"

section \<open>What a remote is registered as\<close>

lemma rsplit_once_Some: "rsplit_once c s = Some (a, b) \<longleftrightarrow> s = a @ c # b \<and> c \<notin> set b"
  unfolding rsplit_once_def using split_once_Some [of c "rev s"]
  by (auto simp: rev_swap)

lemma rsplit_once_None: "rsplit_once c s = None \<longleftrightarrow> c \<notin> set s"
  by (simp add: rsplit_once_def split_once_None)

lemma after_login_no_at: "CHR ''@'' \<notin> set (after_login h)"
  by (auto simp: after_login_def rsplit_once_None rsplit_once_Some split: option.splits)

lemma lowercase_at: "CHR ''@'' \<notin> set s \<Longrightarrow> CHR ''@'' \<notin> set (to_ascii_lowercase s)"
proof -
  have "ascii_lower c = CHR ''@'' \<longleftrightarrow> c = CHR ''@''" for c
  proof (cases "is_ascii_upper c")
    case True
    then have n: "65 \<le> (of_char c :: nat)" "(of_char c :: nat) \<le> 90" by (simp_all add: is_ascii_upper_def)
    then have "(of_char (ascii_lower c) :: nat) = of_char c + 32" "97 \<le> (of_char c :: nat) + 32"
      using True by (simp_all add: ascii_lower_def)
    have "ascii_lower c \<noteq> CHR ''@''"
    proof
      assume "ascii_lower c = CHR ''@''"
      then have "(of_char (ascii_lower c) :: nat) = 64" by simp
      with \<open>(of_char (ascii_lower c) :: nat) = of_char c + 32\<close> \<open>97 \<le> (of_char c :: nat) + 32\<close> show False by linarith
    qed
    moreover have "c \<noteq> CHR ''@''" using n(1) by (rule contrapos_pn) simp
    ultimately show ?thesis by simp
  qed (simp add: ascii_lower_def)
  then show "CHR ''@'' \<notin> set s \<Longrightarrow> CHR ''@'' \<notin> set (to_ascii_lowercase s)"
    by (metis (no_types, lifting) imageE list.set_map to_ascii_lowercase_def)
qed

lemma fetch_form_valid: "fetch_form scheme authority True = Inr f \<Longrightarrow> fetch_validate f = Inr ()"
  by (cases "rf_scheme f"; cases "rf_user f")
    (auto simp: fetch_form_def fetch_validate_def Let_def split: if_splits option.splits)

subsection \<open>White space and trimming\<close>

lemma hd_scalars: "s \<noteq> [] \<Longrightarrow> scalars s \<noteq> [] \<and> hd (hd (scalars s)) = hd s"
  by (cases s) (auto split: list.splits)

lemma scalar_tails: "p \<in> set (scalars s) \<Longrightarrow> c \<in> set (tl p) \<Longrightarrow> is_continuation c"
proof (induction s arbitrary: p)
  case (Cons x s)
  show ?case
  proof (cases "scalars s")
    case (Cons q qs)
    have q: "q \<noteq> []" using Cons scalars_not_Nil [of q s] by simp
    from Cons.prems Cons show ?thesis
    proof (cases "is_continuation (hd q) \<and> p = x # q")
      case True
      then have "c = hd q \<or> c \<in> set (tl q)" using Cons.prems(2) q by (cases q) auto
      then show ?thesis using True Cons.IH [of q] Cons by auto
    next
      case False
      then have "p = [x] \<or> p \<in> set (scalars s)" using Cons.prems(1) Cons by (auto split: if_splits)
      then show ?thesis using Cons.IH [of p] Cons.prems(2) by auto
    qed
  qed (use Cons.prems in simp)
qed simp

lemma scalars_append:
  assumes "s \<noteq> []" and "\<not> is_continuation (hd s)"
  shows "scalars (a @ s) = scalars a @ scalars s"
proof (induction a)
  case (Cons c a)
  obtain p ps where s: "scalars s = p # ps" "hd p = hd s"
    using hd_scalars [OF assms(1)] by (cases "scalars s") auto
  with Cons assms(2) show ?case by (cases "scalars a") auto
qed simp

lemma whitespace_head:
  "is_whitespace p \<Longrightarrow> is_space (hd p) \<or> hd p \<in> {CHR 0xC2, CHR 0xE1, CHR 0xE2, CHR 0xE3}"
  by (auto simp: is_whitespace_def split: list.splits)

lemma no_whitespace_head: "p \<noteq> [] \<Longrightarrow> is_continuation (hd p) \<or> is_ascii_graphic (hd p) \<Longrightarrow> \<not> is_whitespace p"
  by (auto dest!: whitespace_head simp: is_continuation_def is_ascii_graphic_def is_space_def)

lemma slash_scalars:
  "scalars (CHR ''/'' # b) =
     (case scalars b of [] \<Rightarrow> [''/''] | p # ps \<Rightarrow> if is_continuation (hd p) then (CHR ''/'' # p) # ps else ''/'' # p # ps)"
  by simp

lemma whitespace_slash: "has_whitespace (a @ CHR ''/'' # b) \<longleftrightarrow> has_whitespace a \<or> has_whitespace b"
proof -
  have start: "\<not> is_continuation (CHR ''/'')" "\<not> is_whitespace (CHR ''/'' # p)" for p
    using no_whitespace_head [of "CHR ''/'' # p"] by (simp_all add: is_continuation_def is_ascii_graphic_def)
  have "has_whitespace (CHR ''/'' # b) \<longleftrightarrow> has_whitespace b"
  proof (cases "scalars b")
    case (Cons p ps)
    then have "p \<noteq> []" using scalars_not_Nil [of p b] by simp
    then show ?thesis
      using Cons start no_whitespace_head [of p] unfolding has_whitespace_def slash_scalars by auto
  qed (use start in \<open>simp add: has_whitespace_def\<close>)
  then show ?thesis
    using scalars_append [of "CHR ''/'' # b" a] start by (auto simp: has_whitespace_def)
qed

lemma trim_ends:
  assumes "s \<noteq> []" "\<not> is_whitespace (hd (scalars s))" "\<not> is_whitespace (last (scalars s))"
  shows "text_trim s = s"
proof -
  have ne: "scalars s \<noteq> []" using hd_scalars [OF assms(1)] by simp
  then have "dropWhile is_whitespace (scalars s) = scalars s"
    using assms(2) by (cases "scalars s") auto
  moreover have "dropWhile is_whitespace (rev (scalars s)) = rev (scalars s)"
    using assms(3) ne by (cases "scalars s" rule: rev_cases) auto
  ultimately show ?thesis by (simp add: text_trim_def)
qed

lemma trim_url:
  assumes "u \<noteq> []" "is_ascii_graphic (hd u)" "\<not> has_whitespace p" "p \<noteq> []"
  shows "text_trim (u @ CHR ''/'' # p) = u @ CHR ''/'' # p"
proof (rule trim_ends)
  have head: "hd (hd (scalars (u @ CHR ''/'' # p))) = hd u" "scalars (u @ CHR ''/'' # p) \<noteq> []"
    using hd_scalars [of "u @ CHR ''/'' # p"] assms(1) by simp_all
  then have "hd (scalars (u @ CHR ''/'' # p)) \<in> set (scalars (u @ CHR ''/'' # p))" by simp
  then show "\<not> is_whitespace (hd (scalars (u @ CHR ''/'' # p)))"
    using head assms(2) no_whitespace_head scalars_not_Nil by metis
  have start: "\<not> is_continuation (CHR ''/'')" "\<not> is_whitespace (CHR ''/'' # q)" for q
    using no_whitespace_head [of "CHR ''/'' # q"] by (simp_all add: is_continuation_def is_ascii_graphic_def)
  obtain q qs where q: "scalars p = q # qs" using hd_scalars [OF assms(4)] by (cases "scalars p") auto
  then have "\<forall>x \<in> set (q # qs). \<not> is_whitespace x" using assms(3) by (simp add: has_whitespace_def list_ex_iff)
  then have "\<not> is_whitespace (last (scalars (CHR ''/'' # p)))"
    using q start by (auto simp: last_in_set)
  moreover have "scalars (CHR ''/'' # p) \<noteq> []" using hd_scalars [of "CHR ''/'' # p"] by simp
  ultimately show "\<not> is_whitespace (last (scalars (u @ CHR ''/'' # p)))"
    using scalars_append [of "CHR ''/'' # p" u] start by simp
qed simp

subsection \<open>Reading a stored remote again\<close>

lemma lower_idem: "list_all (\<lambda>c. \<not> is_ascii_upper c) (to_ascii_lowercase s)"
proof -
  have "\<not> is_ascii_upper (ascii_lower c)" for c
  proof (cases "is_ascii_upper c")
    case True
    then have "(of_char c :: nat) + 32 < 256" "97 \<le> (of_char c :: nat) + 32" by (simp_all add: is_ascii_upper_def)
    then show ?thesis using True by (simp add: ascii_lower_def is_ascii_upper_def)
  qed (simp add: ascii_lower_def)
  then show ?thesis by (simp add: to_ascii_lowercase_def list_all_iff)
qed

lemma lower_keeps: "list_all (\<lambda>c. \<not> is_ascii_upper c) s \<Longrightarrow> to_ascii_lowercase s = s"
  by (induction s) (auto simp: to_ascii_lowercase_def ascii_lower_def)

lemma trim_end_last: "trim_end_slashes s \<noteq> [] \<Longrightarrow> last (trim_end_slashes s) \<noteq> CHR ''/''"
  unfolding trim_end_slashes_def
  by (metis (mono_tags, lifting) hd_dropWhile last_rev rev.simps(1))

lemma trim_end_plain: "last p \<noteq> CHR ''/'' \<Longrightarrow> trim_end_slashes p = p"
  by (cases p rule: rev_cases) (simp_all add: trim_end_slashes_def)

lemma parse_inner_result:
  assumes "parse_inner raw strict = Some (Inr (r, f))"
  obtains scheme authority host path where "r = host @ ''/'' @ path" and "path \<noteq> []" and "CHR ''@'' \<notin> set host"
    and "strict \<Longrightarrow> fetchable_host host" and "fetch_form scheme authority strict = Inr f"
    and "list_all (\<lambda>c. \<not> is_ascii_upper c) host" and "last path \<noteq> CHR ''/''"
    and "\<not> has_whitespace path" and "CHR 0x00 \<notin> set path" and "length host \<le> 253"
  using assms that lowercase_at [OF after_login_no_at] lower_idem trim_end_last
  by (auto simp: parse_inner_def Let_def check_bounds_def first_error_Inr refuse_when_def
      split: if_splits sum.splits prod.splits option.splits)

lemma split_slash: "CHR ''/'' \<notin> set a \<Longrightarrow> split_once (CHR ''/'') (a @ CHR ''/'' # q) = Some (a, q)"
  by (simp add: split_once_Some)

lemma url_scheme: "split_scheme (''https://'' @ x) = Inr (Some ''https'', x)"
  "split_scheme (''http://'' @ x) = Inr (Some ''http'', x)" "split_scheme (''ssh://'' @ x) = Inr (Some ''ssh'', x)"
  by (simp_all add: split_scheme_def split_once_text.simps [where s = "_ # _"] starts_with_def eq_ignore_case_def)

lemma login_of_none: "CHR ''@'' \<notin> set a \<Longrightarrow> login_of a = None \<and> after_login a = a"
  by (simp add: login_of_def after_login_def rsplit_once_None [THEN iffD2])

lemma before_append: "CHR ''/'' \<notin> set a \<Longrightarrow> before_slash (a @ b) = a @ before_slash b"
  by (induction a) (auto simp: before_slash_def)

text \<open>An https remote of a host without a login, up to the search for the suffix.\<close>

lemma https_reads:
  assumes host: "host \<noteq> []" "CHR ''/'' \<notin> set host" "CHR ''@'' \<notin> set host"
      "list_all (\<lambda>c. \<not> is_ascii_upper c) host" "length host \<le> 253" "strict \<Longrightarrow> fetchable_host host"
    and path: "path \<noteq> []" "\<not> has_whitespace path" "last path \<noteq> CHR ''/''" "length (host @ path) \<le> 503"
  shows "parse_inner (''https://'' @ host @ CHR ''/'' # path) strict =
    (case strip_git path of
       None \<Rightarrow> None
     | Some stem \<Rightarrow>
         (let path = trim_end_slashes stem in
          if path = [] then Some (Inl ''the remote is malformed: the path is empty after normalization'')
          else case check_bounds host path of
            Inl d \<Rightarrow> Some (Inl (''the remote is malformed: '' @ d))
          | Inr _ \<Rightarrow> Some (Inr (host @ ''/'' @ path, fetch_default))))"
proof -
  have raw: "text_trim (''https://'' @ host @ CHR ''/'' # path) = ''https://'' @ host @ CHR ''/'' # path"
    using trim_url [of "''https://'' @ host" path] path(1,2) by (simp add: is_ascii_graphic_def)
  have "fetch_form (Some ''https'') host strict = Inr fetch_default"
    by (simp add: fetch_form_def Let_def eq_ignore_case_def to_ascii_lowercase_def ascii_lower_def
        is_ascii_upper_def fetch_default_def)
  moreover have "\<not> credential_bearing (Some ''https'') host"
    using host(3) by (simp add: credential_bearing_def login_of_none)
  moreover have "split_authority (Some ''https'') (host @ CHR ''/'' # path) = Inr (host, path)"
    by (simp add: split_authority_def split_slash [OF host(2)])
  moreover have "after_login host = host" using host(3) by (simp add: login_of_none)
  moreover have "\<not> (strict \<and> \<not> fetchable_host host)" using host(6) by blast
  moreover have "length (''https://'' @ host @ CHR ''/'' # path) \<le> 512" using path(4) by simp
  ultimately show ?thesis
    unfolding parse_inner_def raw
    using url_scheme(1) [of "host @ CHR ''/'' # path"] host(1) path(1)
      lower_keeps [OF host(4)] trim_end_plain [OF path(3)]
    by (auto simp: host_and_path_def Let_def split: option.split sum.split)
qed

text \<open>
  A stored remote the clone step reads as it stands: a host and a path short enough for the second
  reading, no scheme separator, and a path in which the second search for the suffix finds nothing.
\<close>

definition settled :: "string \<Rightarrow> bool" where
  "settled r \<longleftrightarrow>
     \<not> text_contains ''://'' r \<and> length r \<le> 504 \<and>
     (case split_once (CHR ''/'') r of
        None \<Rightarrow> False
      | Some (host, path) \<Rightarrow> host \<noteq> [] \<and> length path \<le> 400 \<and> strip_git path = Some path)"

lemma registered_form:
  assumes "parse_with_fetch raw = Some (Inr (r, f))"
  obtains host path where "r = host @ CHR ''/'' # path" "path \<noteq> []" "CHR ''@'' \<notin> set host" "fetchable_host host"
    "list_all (\<lambda>c. \<not> is_ascii_upper c) host" "last path \<noteq> CHR ''/''"
    "\<not> has_whitespace path" "CHR 0x00 \<notin> set path" "length host \<le> 253"
    "fetch_validate f = Inr ()" "case rf_user f of None \<Rightarrow> True | Some u \<Rightarrow> valid_login u"
proof -
  from assms obtain scheme authority host path where
      r: "r = host @ CHR ''/'' # path" "path \<noteq> []" "CHR ''@'' \<notin> set host" "fetchable_host host"
      "list_all (\<lambda>c. \<not> is_ascii_upper c) host" "last path \<noteq> CHR ''/''"
      "\<not> has_whitespace path" "CHR 0x00 \<notin> set path" "length host \<le> 253"
    and form: "fetch_form scheme authority True = Inr f"
    unfolding parse_with_fetch_def by (rule parse_inner_result) simp
  have "case rf_user f of None \<Rightarrow> True | Some u \<Rightarrow> valid_login u"
    using form by (auto simp: fetch_form_def Let_def split: if_splits option.splits)
  with r fetch_form_valid [OF form] show ?thesis using that by blast
qed

lemma control_NUL: "CHR 0x00 \<in> set s \<Longrightarrow> has_control s"
  by (induction s) auto

text \<open>The second reading of a settled remote.\<close>

lemma settled_reads:
  assumes "parse_with_fetch raw = Some (Inr (r, f))" and "settled r"
  shows "parse_payload_remote r = Some (Inr r)"
proof -
  obtain host path where r: "r = host @ CHR ''/'' # path" and path: "path \<noteq> []" "last path \<noteq> CHR ''/''"
      "\<not> has_whitespace path" "CHR 0x00 \<notin> set path"
    and host: "CHR ''@'' \<notin> set host" "fetchable_host host" "list_all (\<lambda>c. \<not> is_ascii_upper c) host" "length host \<le> 253"
    using assms(1) by (rule registered_form)
  obtain a q where aq: "split_once (CHR ''/'') r = Some (a, q)" "a \<noteq> []" "length q \<le> 400" "strip_git q = Some q"
    using assms(2) by (auto simp: settled_def split: option.splits)
  then have cut: "r = a @ CHR ''/'' # q" "CHR ''/'' \<notin> set a" by (simp_all add: split_once_Some)
  obtain tail where tail: "host = a @ tail" "(tail = [] \<and> q = path) \<or> (\<exists>t. tail = CHR ''/'' # t \<and> q = t @ CHR ''/'' # path)"
    using r cut by (auto simp: append_eq_append_conv2 Cons_eq_append_conv append_eq_Cons_conv)
  have white: "\<not> has_whitespace host" using host(2) by (simp add: fetchable_host_def)
  have q: "q \<noteq> []" "last q \<noteq> CHR ''/''" using tail(2) path(1,2) by auto
  have "\<not> has_whitespace q"
    using tail white path(3) whitespace_slash [of a] whitespace_slash [of _ path] by auto
  moreover have "CHR 0x00 \<notin> set q"
    using tail path(4) host(2) control_NUL [of host] by (auto simp: fetchable_host_def)
  ultimately have bounds: "check_bounds a q = Inr ()"
    using aq(3) host(4) tail(1) by (simp add: check_bounds_def first_error_Inr refuse_when_def)
  have short: "length (a @ q) \<le> 503" using assms(2) cut(1) by (simp add: settled_def)
  have "parse_inner (''https://'' @ a @ CHR ''/'' # q) False = Some (Inr (a @ ''/'' @ q, fetch_default))"
    using https_reads [of a False q] aq(2,4) cut(2) host tail(1) q \<open>\<not> has_whitespace q\<close> short bounds
      trim_end_plain [OF q(2)]
    by simp
  moreover have "before_slash r = a" using before_append [OF cut(2), of "CHR ''/'' # q"] cut(1) by (simp add: before_slash_def)
  ultimately show ?thesis
    using assms(2) cut(1) host(1) tail(1) by (simp add: parse_payload_remote_def parse_remote_def settled_def)
qed

lemma parse_remote_reads: "parse_remote x = Some (Inr n) \<Longrightarrow> \<exists>g. parse_inner x False = Some (Inr (n, g))"
  by (cases "parse_inner x False"; cases "the (parse_inner x False)") (auto simp: parse_remote_def)

lemma plain_login: "valid_login u \<Longrightarrow> \<exists>c cs. u = c # cs \<and> c \<noteq> CHR ''-''"
  by (cases u) (auto simp: valid_login_def is_ascii_alnum_def is_ascii_lower_def is_ascii_upper_def is_ascii_digit_def)

lemma clone_url_no_option:
  assumes "fetch_validate f = Inr ()"
  shows "\<not> starts_with ''-'' (clone_url r f)"
proof (cases "rf_scheme f")
  case FetchScp
  then obtain u where u: "rf_user f = Some u" "valid_login u"
    using assms by (auto simp: fetch_validate_def split: option.splits if_splits)
  from plain_login [OF u(2)] obtain c cs where "u = c # cs" "c \<noteq> CHR ''-''" by blast
  then show ?thesis using FetchScp u by (auto simp: clone_url_def starts_with_def split: option.split)
qed (simp_all add: clone_url_def starts_with_def)

text \<open>C38. What a project is registered with is what the clone step hands to git: its stored form is
  accepted and its login a plain name; a settled remote is refused exactly for a query or fragment, and
  else gives the clone URL of the stored remote itself; and for any registered remote, whatever URL
  comes out is the one of the remote read again, whose host carries no login, with neither query nor
  fragment, and is no option of git.\<close>

theorem registered_remote_clones_safely:
  assumes "parse_with_fetch raw = Some (Inr (r, f))"
  shows "fetch_validate f = Inr () \<and> (case rf_user f of None \<Rightarrow> True | Some u \<Rightarrow> valid_login u) \<and>
    (settled r \<longrightarrow> clone_remote r f =
       Some (if CHR ''?'' \<in> set r \<or> CHR ''#'' \<in> set r
             then Inl ''invalid_project_remote: the remote path carries a query or fragment''
             else Inr (clone_url r f))) \<and>
    (\<forall>url. clone_remote r f = Some (Inr url) \<longrightarrow>
       (\<exists>host path. parse_payload_remote r = Some (Inr (host @ ''/'' @ path)) \<and> path \<noteq> [] \<and>
          url = clone_url (host @ ''/'' @ path) f \<and> CHR ''@'' \<notin> set host \<and>
          CHR ''?'' \<notin> set (host @ path) \<and> CHR ''#'' \<notin> set (host @ path)) \<and>
       \<not> starts_with ''-'' url)"
proof -
  from assms have valid: "fetch_validate f = Inr ()" "case rf_user f of None \<Rightarrow> True | Some u \<Rightarrow> valid_login u"
    by (auto elim: registered_form)
  moreover have "settled r \<longrightarrow> clone_remote r f =
       Some (if CHR ''?'' \<in> set r \<or> CHR ''#'' \<in> set r
             then Inl ''invalid_project_remote: the remote path carries a query or fragment''
             else Inr (clone_url r f))"
    using settled_reads [OF assms] valid(1) by (simp add: clone_remote_def)
  moreover have "(\<exists>host path. parse_payload_remote r = Some (Inr (host @ ''/'' @ path)) \<and> path \<noteq> [] \<and>
          url = clone_url (host @ ''/'' @ path) f \<and> CHR ''@'' \<notin> set host \<and>
          CHR ''?'' \<notin> set (host @ path) \<and> CHR ''#'' \<notin> set (host @ path)) \<and> \<not> starts_with ''-'' url"
    if "clone_remote r f = Some (Inr url)" for url
  proof -
    from that obtain n where n: "parse_payload_remote r = Some (Inr n)" "url = clone_url n f"
        "CHR ''?'' \<notin> set n" "CHR ''#'' \<notin> set n"
      by (auto simp: clone_remote_def Let_def split: sum.splits option.splits if_splits)
    then obtain raw' g where "parse_inner raw' False = Some (Inr (n, g))"
      by (auto simp: parse_payload_remote_def split: if_splits dest!: parse_remote_reads)
    then obtain host path where "n = host @ ''/'' @ path" "path \<noteq> []" "CHR ''@'' \<notin> set host"
      by (rule parse_inner_result) blast
    with n show ?thesis using clone_url_no_option [OF valid(1)] by auto
  qed
  ultimately show ?thesis by blast
qed

theorem registered_remote_clones_safely_witness:
  "clone_remote ''github.com/acme/app'' \<lparr>rf_scheme = FetchScp, rf_user = Some ''git''\<rparr> =
     Some (Inr ''git@github.com:acme/app'') \<and>
   clone_remote ''github.com/a/b?x'' fetch_default =
     Some (Inl ''invalid_project_remote: the remote path carries a query or fragment'')"
proof
  have "parse_with_fetch ''git@github.com:acme/app.git'' =
      Some (Inr (''github.com/acme/app'', \<lparr>rf_scheme = FetchScp, rf_user = Some ''git''\<rparr>))"
    by code_simp
  moreover have "settled ''github.com/acme/app''" by code_simp
  moreover have "clone_url ''github.com/acme/app'' \<lparr>rf_scheme = FetchScp, rf_user = Some ''git''\<rparr> = ''git@github.com:acme/app''"
    by code_simp
  ultimately show "clone_remote ''github.com/acme/app'' \<lparr>rf_scheme = FetchScp, rf_user = Some ''git''\<rparr> =
      Some (Inr ''git@github.com:acme/app'')"
    using registered_remote_clones_safely by auto
  have "parse_with_fetch ''https://github.com/a/b?x'' = Some (Inr (''github.com/a/b?x'', fetch_default))"
    by code_simp
  moreover have "settled ''github.com/a/b?x''" by code_simp
  ultimately show "clone_remote ''github.com/a/b?x'' fetch_default =
      Some (Inl ''invalid_project_remote: the remote path carries a query or fragment'')"
    using registered_remote_clones_safely by auto
qed

section \<open>Spellings of one remote\<close>

text \<open>A host name in lower case, and a path of graphic ASCII in its normal form, short enough that every
  spelling keeps the length bound.\<close>

definition plain_host :: "string \<Rightarrow> bool" where
  "plain_host h \<longleftrightarrow> h \<noteq> [] \<and> length h \<le> 80 \<and>
     list_all (\<lambda>c. is_ascii_lower c \<or> is_ascii_digit c \<or> c = CHR ''.'') h"

definition plain_path :: "string \<Rightarrow> bool" where
  "plain_path p \<longleftrightarrow> p \<noteq> [] \<and> length p \<le> 380 \<and>
     list_all (\<lambda>c. is_ascii_graphic c \<and> c \<notin> {CHR '':'', CHR ''@''}) p \<and>
     hd p \<noteq> CHR ''/'' \<and> last p \<noteq> CHR ''/'' \<and> \<not> eq_ignore_case (drop (length p - 4) p) ''.git''"

lemma ascii_scalars: "list_all is_ascii_graphic s \<Longrightarrow> scalars s = map (\<lambda>c. [c]) s"
  by (induction s) (auto simp: is_ascii_graphic_def is_continuation_def split: list.splits)

lemma graphic_whitespace: "is_ascii_graphic c \<Longrightarrow> \<not> is_whitespace [c]"
  by (auto simp: is_whitespace_def is_space_def is_ascii_graphic_def)

lemma ascii_no_whitespace: "list_all is_ascii_graphic s \<Longrightarrow> \<not> has_whitespace s"
  by (auto simp: has_whitespace_def list_ex_iff ascii_scalars list_all_iff dest: graphic_whitespace)

lemma ascii_boundary:
  assumes "list_all is_ascii_graphic s" "i \<le> length s"
  shows "is_char_boundary s i"
proof (cases "i = length s")
  case False
  with assms have "is_ascii_graphic (s ! i)" by (simp add: list_all_length)
  then have "\<not> is_continuation (s ! i)" by (simp add: is_ascii_graphic_def is_continuation_def)
  with False assms(2) show ?thesis by (simp add: is_char_boundary_def)
qed (simp add: is_char_boundary_def)

lemma ascii_no_control: "list_all is_ascii_graphic s \<Longrightarrow> \<not> has_control s"
  by (induction s) (auto simp: is_ascii_graphic_def)

lemma trim_graphic: "list_all is_ascii_graphic s \<Longrightarrow> text_trim s = s"
proof -
  assume s: "list_all is_ascii_graphic s"
  have "\<not> is_whitespace x" if "x \<in> set (scalars s)" for x
    using s that by (auto simp: ascii_scalars list_all_iff dest: graphic_whitespace)
  then have "dropWhile is_whitespace (scalars s) = scalars s" "dropWhile is_whitespace (rev (scalars s)) = rev (scalars s)"
    by (metis dropWhile_eq_self_iff hd_in_set, metis dropWhile_eq_self_iff hd_in_set set_rev)
  then show "text_trim s = s" by (simp add: text_trim_def)
qed

lemma plain_path_graphic: "plain_path p \<Longrightarrow> list_all is_ascii_graphic p"
  by (simp add: plain_path_def list_all_iff)

lemma plain_host_graphic: "plain_host h \<Longrightarrow> list_all is_ascii_graphic h"
  by (auto simp: plain_host_def list_all_iff is_ascii_graphic_def is_ascii_lower_def is_ascii_digit_def)

lemma plain_path_chars: "plain_path p \<Longrightarrow> CHR '':'' \<notin> set p \<and> CHR ''@'' \<notin> set p \<and> CHR 0x00 \<notin> set p"
proof -
  assume "plain_path p"
  then have c: "is_ascii_graphic c \<and> c \<notin> {CHR '':'', CHR ''@''}" if "c \<in> set p" for c
    using that by (simp add: plain_path_def list_all_iff)
  have "\<not> is_ascii_graphic (CHR 0x00)" by (simp add: is_ascii_graphic_def)
  with c show ?thesis by blast
qed

lemma plain_host_chars:
  assumes "plain_host h"
  shows "CHR ''/'' \<notin> set h" "CHR '':'' \<notin> set h" "CHR ''@'' \<notin> set h" "CHR ''-'' \<notin> set h"
    "list_all (\<lambda>c. \<not> is_ascii_upper c) h"
proof -
  have c: "is_ascii_lower c \<or> is_ascii_digit c \<or> c = CHR ''.''" if "c \<in> set h" for c
    using assms that by (simp add: plain_host_def list_all_iff)
  then show "CHR ''/'' \<notin> set h" "CHR '':'' \<notin> set h" "CHR ''@'' \<notin> set h" "CHR ''-'' \<notin> set h"
    using c [of "CHR ''/''"] c [of "CHR '':''"] c [of "CHR ''@''"] c [of "CHR ''-''"]
    by (auto simp: is_ascii_lower_def is_ascii_digit_def)
  show "list_all (\<lambda>c. \<not> is_ascii_upper c) h"
    unfolding list_all_iff
  proof
    fix x assume "x \<in> set h"
    with c have "is_ascii_lower x \<or> is_ascii_digit x \<or> x = CHR ''.''" by blast
    then show "\<not> is_ascii_upper x" by (elim disjE) (auto simp: is_ascii_lower_def is_ascii_digit_def is_ascii_upper_def)
  qed
qed

lemma plain_fetchable: "plain_host h \<Longrightarrow> fetchable_host h"
proof -
  assume h: "plain_host h"
  have "\<not> starts_with ''-'' h" using plain_host_chars(4) [OF h] by (cases h) (auto simp: starts_with_def)
  moreover have "rsplit_once (CHR '':'') h = None" using plain_host_chars(2) [OF h] by (simp add: rsplit_once_None)
  ultimately show ?thesis
    using ascii_no_whitespace [OF plain_host_graphic [OF h]] ascii_no_control [OF plain_host_graphic [OF h]]
    by (simp add: fetchable_host_def)
qed

text \<open>The byte four before the end of a path lies inside a character.\<close>

definition cut_inside :: "string \<Rightarrow> bool" where
  "cut_inside path \<longleftrightarrow> 4 \<le> length path \<and> \<not> is_char_boundary path (length path - 4)"

lemma whitespace_git: "has_whitespace (p @ ''.git'') \<longleftrightarrow> has_whitespace p"
proof -
  have "\<not> has_whitespace ''.git''" by (rule ascii_no_whitespace) (simp add: is_ascii_graphic_def)
  then show ?thesis
    using scalars_append [of "''.git''" p] by (simp add: has_whitespace_def is_continuation_def)
qed

text \<open>C40. Two ways a path in other than ASCII text stops the program: for every plain host and every path
  whose fourth byte from the end is inside a character, reading the remote panics; and the same path
  with the git suffix registers without it, so that the clone step panics on the stored remote.\<close>

theorem non_ascii_path_panics:
  assumes "plain_host h" and "cut_inside p" and "length p \<le> 380" and "last p \<noteq> CHR ''/''"
    and "CHR '':'' \<notin> set p" and "CHR 0x00 \<notin> set p" and "\<not> has_whitespace p"
  shows "parse_remote (''https://'' @ h @ ''/'' @ p) = None \<and>
    parse_with_fetch (''https://'' @ h @ ''/'' @ p @ ''.git'') = Some (Inr (h @ ''/'' @ p, fetch_default)) \<and>
    clone_remote (h @ ''/'' @ p) fetch_default = None"
proof (intro conjI)
  have h: "h \<noteq> []" "length h \<le> 80" using assms(1) by (simp_all add: plain_host_def)
  note free = plain_host_chars [OF assms(1)]
  have p: "p \<noteq> []" "strip_git p = None" using assms(2) by (auto simp: cut_inside_def strip_git_def)
  have read: "parse_inner (''https://'' @ h @ CHR ''/'' # p) False = None"
    using https_reads [of h False p] h free p assms(3,4,7) by simp
  then show "parse_remote (''https://'' @ h @ ''/'' @ p) = None" by (simp add: parse_remote_def)
  have "CHR '':'' \<notin> set (h @ CHR ''/'' # p)" using free(2) assms(5) by simp
  then have "\<not> text_contains ''://'' (h @ CHR ''/'' # p)"
    unfolding text_contains_iff by (metis Un_iff list.set_intros(1) set_append)
  moreover have "before_slash (h @ CHR ''/'' # p) = h" using before_append [OF free(1)] by (simp add: before_slash_def)
  ultimately show "clone_remote (h @ ''/'' @ p) fetch_default = None"
    using read free(3) by (simp add: clone_remote_def parse_payload_remote_def parse_remote_def fetch_validate_def fetch_default_def)
  have "is_char_boundary (p @ ''.git'') (length p)" by (simp add: is_char_boundary_def is_continuation_def)
  then have "strip_git (p @ ''.git'') = Some p" by (simp add: strip_git_def eq_ignore_case_def)
  moreover have "check_bounds h p = Inr ()"
    using h assms(3,6,7) by (simp add: check_bounds_def first_error_Inr refuse_when_def)
  moreover have "\<not> has_whitespace (p @ ''.git'')" using assms(7) whitespace_git by blast
  ultimately show "parse_with_fetch (''https://'' @ h @ ''/'' @ p @ ''.git'') = Some (Inr (h @ ''/'' @ p, fetch_default))"
    using https_reads [of h True "p @ ''.git''"] h free p(1) assms(3) trim_end_plain [OF assms(4)] plain_fetchable [OF assms(1)]
    by (simp add: parse_with_fetch_def)
qed

text \<open>A path of the two characters U+65E5 and U+672C.\<close>

definition nihon :: string where
  "nihon = map char_of [0xE6, 0x97, 0xA5, 0xE6, 0x9C, 0xAC :: nat]"

theorem non_ascii_path_panics_witness:
  "parse_remote (''https://github.com/'' @ nihon) = None \<and>
   clone_remote (''github.com/'' @ nihon) fetch_default = None"
proof -
  have "plain_host ''github.com''" "cut_inside nihon" "last nihon \<noteq> CHR ''/''"
      "\<not> has_whitespace nihon" "CHR '':'' \<notin> set nihon" "CHR 0x00 \<notin> set nihon"
      "length nihon \<le> 380"
    by code_simp+
  then show ?thesis using non_ascii_path_panics [of "''github.com''" nihon] by simp
qed

text \<open>A path is named with or without its suffix.\<close>

definition names_path :: "string \<Rightarrow> string \<Rightarrow> bool" where
  "names_path q p \<longleftrightarrow> q = p \<or> q = p @ ''.git''"

lemma strip_named:
  assumes p: "plain_path p" and q: "names_path q p"
  shows "strip_git (trim_end_slashes q) = Some p"
  using q unfolding names_path_def
proof
  assume "q = p"
  moreover have "trim_end_slashes p = p" using p by (intro trim_end_plain) (simp add: plain_path_def)
  ultimately show ?thesis
    using p ascii_boundary [OF plain_path_graphic [OF p], of "length p - 4"] by (simp add: strip_git_def plain_path_def)
next
  assume "q = p @ ''.git''"
  moreover have "trim_end_slashes (p @ ''.git'') = p @ ''.git''" by (rule trim_end_plain) simp
  moreover have "list_all is_ascii_graphic (p @ ''.git'')"
    using plain_path_graphic [OF p] by (simp add: is_ascii_graphic_def)
  then have "is_char_boundary (p @ ''.git'') (length p)" by (rule ascii_boundary) simp
  ultimately show ?thesis by (simp add: strip_git_def eq_ignore_case_def)
qed

lemma parse_plain:
  assumes "plain_host h" and p: "plain_path p" and q: "names_path q p"
    and raw: "list_all is_ascii_graphic raw" "raw \<noteq> []" "length raw \<le> 512"
    and scheme: "split_scheme raw = Inr (scheme, rest)"
    and authority: "split_authority scheme rest = Inr (authority, q)" "authority \<noteq> []"
    and login: "\<not> credential_bearing scheme authority" "fetch_form scheme authority True = Inr f"
    and host: "host_and_path scheme authority q = (authority, q)" "after_login authority = h"
  shows "parse_with_fetch raw = Some (Inr (h @ ''/'' @ p, f))"
proof -
  have "q \<noteq> []" using p q by (auto simp: plain_path_def names_path_def)
  moreover have "check_bounds h p = Inr ()"
    using assms(1) p plain_path_chars [OF p] ascii_no_whitespace [OF plain_path_graphic [OF p]]
    by (simp add: check_bounds_def first_error_Inr refuse_when_def plain_host_def plain_path_def)
  moreover have "trim_end_slashes p = p" "p \<noteq> []" using p by (simp_all add: trim_end_plain plain_path_def)
  moreover have "h \<noteq> []" using assms(1) by (simp add: plain_host_def)
  ultimately show ?thesis
    using raw trim_graphic [OF raw(1)] scheme authority login host plain_fetchable [OF assms(1)] strip_named [OF p q]
      lower_keeps [OF plain_host_chars(5) [OF assms(1)]]
    by (simp add: parse_with_fetch_def parse_inner_def)
qed

lemma no_separator: "CHR '':'' \<notin> set s \<Longrightarrow> split_once_text ''://'' s = None"
  by (induction s) (subst split_once_text.simps, auto simp: starts_with_def)+

lemma no_scheme:
  "CHR '':'' \<notin> set a \<Longrightarrow> CHR '':'' \<notin> set q \<Longrightarrow> take 2 q \<noteq> ''//'' \<Longrightarrow> split_once_text ''://'' (a @ CHR '':'' # q) = None"
proof (induction a)
  case Nil
  then show ?case
    by (subst split_once_text.simps) (simp add: starts_with_def no_separator numeral_2_eq_2)
next
  case (Cons c a)
  then show ?case by (subst split_once_text.simps) (auto simp: starts_with_def)
qed

lemma login_chars:
  assumes "valid_login u"
  shows "u \<noteq> []" "CHR ''@'' \<notin> set u" "CHR '':'' \<notin> set u" "CHR ''/'' \<notin> set u" "list_all is_ascii_graphic u" "length u \<le> 32"
proof -
  have c: "is_ascii_alnum c \<or> c \<in> {CHR ''.'', CHR ''_'', CHR ''-''}" if "c \<in> set u" for c
    using assms that by (simp add: valid_login_def list_all_iff)
  then show "CHR ''@'' \<notin> set u" "CHR '':'' \<notin> set u" "CHR ''/'' \<notin> set u"
    using c [of "CHR ''@''"] c [of "CHR '':''"] c [of "CHR ''/''"]
    by (auto simp: is_ascii_alnum_def is_ascii_lower_def is_ascii_upper_def is_ascii_digit_def)
  show "list_all is_ascii_graphic u" unfolding list_all_iff
  proof
    fix x assume "x \<in> set u"
    with c have "is_ascii_alnum x \<or> x \<in> {CHR ''.'', CHR ''_'', CHR ''-''}" by blast
    then show "is_ascii_graphic x"
      by (elim disjE) (auto simp: is_ascii_alnum_def is_ascii_lower_def is_ascii_upper_def is_ascii_digit_def is_ascii_graphic_def)
  qed
  show "u \<noteq> []" "length u \<le> 32" using assms by (auto simp: valid_login_def)
qed

lemma login_of_some: "CHR ''@'' \<notin> set h \<Longrightarrow> login_of (u @ CHR ''@'' # h) = Some u \<and> after_login (u @ CHR ''@'' # h) = h"
  by (simp add: login_of_def after_login_def rsplit_once_Some [THEN iffD2])

lemma graphic_suffix: "plain_path p \<Longrightarrow> names_path q p \<Longrightarrow> list_all is_ascii_graphic q \<and> length q \<le> 384"
  using plain_path_graphic [of p] by (auto simp: names_path_def plain_path_def is_ascii_graphic_def)

lemma reads_https:
  assumes h: "plain_host h" and p: "plain_path p" and q: "names_path q p" and s: "s = ''https'' \<or> s = ''http''"
  shows "parse_with_fetch (s @ ''://'' @ h @ ''/'' @ q) =
    Some (Inr (h @ ''/'' @ p, \<lparr>rf_scheme = (if s = ''https'' then FetchHttps else FetchHttp), rf_user = None\<rparr>))"
proof -
  note graphic = graphic_suffix [OF p q] plain_host_graphic [OF h]
  have scheme: "split_scheme (s @ ''://'' @ h @ ''/'' @ q) = Inr (Some s, h @ CHR ''/'' # q)"
    using s url_scheme by auto
  have short: "length h \<le> 80" "h \<noteq> []" using h by (simp_all add: plain_host_def)
  note free = plain_host_chars [OF h]
  show ?thesis
  proof (rule parse_plain [OF h p q _ _ _ scheme])
    show "list_all is_ascii_graphic (s @ ''://'' @ h @ ''/'' @ q)"
      using s graphic by (auto simp: is_ascii_graphic_def)
    show "split_authority (Some s) (h @ CHR ''/'' # q) = Inr (h, q)"
      by (simp add: split_authority_def split_slash [OF free(1)])
    show "\<not> credential_bearing (Some s) h"
      using free(3) by (simp add: credential_bearing_def login_of_none)
    show "fetch_form (Some s) h True =
        Inr \<lparr>rf_scheme = (if s = ''https'' then FetchHttps else FetchHttp), rf_user = None\<rparr>"
      using s by (auto simp: fetch_form_def eq_ignore_case_def to_ascii_lowercase_def ascii_lower_def is_ascii_upper_def)
  qed (use s short graphic login_of_none [OF free(3)] in \<open>auto simp: host_and_path_def\<close>)
qed

lemma reads_ssh:
  assumes h: "plain_host h" and p: "plain_path p" and q: "names_path q p"
    and u: "case user of None \<Rightarrow> True | Some u \<Rightarrow> valid_login u"
  shows "parse_with_fetch (''ssh://'' @ (case user of None \<Rightarrow> [] | Some u \<Rightarrow> u @ ''@'') @ h @ ''/'' @ q) =
    Some (Inr (h @ ''/'' @ p, \<lparr>rf_scheme = FetchSsh, rf_user = user\<rparr>))"
proof -
  let ?login = "case user of None \<Rightarrow> [] | Some u \<Rightarrow> u @ ''@''"
  note graphic = graphic_suffix [OF p q] plain_host_graphic [OF h]
  note free = plain_host_chars [OF h]
  have short: "length h \<le> 80" "h \<noteq> []" using h by (simp_all add: plain_host_def)
  have login: "CHR ''/'' \<notin> set ?login" "list_all is_ascii_graphic ?login" "length ?login \<le> 33"
    using u login_chars by (auto simp: is_ascii_graphic_def split: option.splits)
  have at: "login_of (?login @ h) = user" "after_login (?login @ h) = h"
    using login_of_none [OF free(3)] login_of_some [OF free(3)] by (simp_all split: option.split)
  show ?thesis
  proof (rule parse_plain [OF h p q, where scheme = "Some ''ssh''" and authority = "?login @ h" and rest = "(?login @ h) @ CHR ''/'' # q"])
    show "split_scheme (''ssh://'' @ ?login @ h @ ''/'' @ q) = Inr (Some ''ssh'', (?login @ h) @ CHR ''/'' # q)"
      using url_scheme(3) [of "?login @ h @ CHR ''/'' # q"] by simp
    show "list_all is_ascii_graphic (''ssh://'' @ ?login @ h @ ''/'' @ q)"
      using login graphic by (simp add: is_ascii_graphic_def)
    show "split_authority (Some ''ssh'') ((?login @ h) @ CHR ''/'' # q) = Inr (?login @ h, q)"
      unfolding split_authority_def using split_slash [of "?login @ h" q] free(1) login(1) by simp
    show "\<not> credential_bearing (Some ''ssh'') (?login @ h)"
      using u login_chars(3) by (auto simp: credential_bearing_def eq_ignore_case_def to_ascii_lowercase_def ascii_lower_def
          is_ascii_upper_def at split: option.splits)
    show "fetch_form (Some ''ssh'') (?login @ h) True = Inr \<lparr>rf_scheme = FetchSsh, rf_user = user\<rparr>"
      using u by (auto simp: fetch_form_def eq_ignore_case_def to_ascii_lowercase_def ascii_lower_def
          is_ascii_upper_def at split: option.splits)
  qed (use short graphic login at in \<open>auto simp: host_and_path_def\<close>)
qed

lemma reads_scp:
  assumes h: "plain_host h" and p: "plain_path p" and q: "names_path q p" and u: "valid_login u"
  shows "parse_with_fetch (u @ ''@'' @ h @ '':'' @ q) = Some (Inr (h @ ''/'' @ p, \<lparr>rf_scheme = FetchScp, rf_user = Some u\<rparr>))"
proof -
  note graphic = graphic_suffix [OF p q] plain_host_graphic [OF h]
  note free = plain_host_chars [OF h] and login = login_chars [OF u]
  have short: "length h \<le> 80" "h \<noteq> []" using h by (simp_all add: plain_host_def)
  have at: "login_of (u @ CHR ''@'' # h) = Some u" "after_login (u @ CHR ''@'' # h) = h"
    using login_of_some [OF free(3)] by simp_all
  let ?raw = "u @ CHR ''@'' # h @ CHR '':'' # q"
  have qs: "CHR '':'' \<notin> set q" "take 2 q \<noteq> ''//''" "CHR ''@'' \<notin> set q"
    using plain_path_chars [OF p] p q by (auto simp: names_path_def plain_path_def take_Cons' numeral_2_eq_2 split: nat.splits) (cases p; auto)+
  have before: "before_slash ?raw = u @ CHR ''@'' # h @ CHR '':'' # before_slash q"
    using before_append [of "u @ CHR ''@'' # h @ '':''" q] login(4) free(1) by simp
  have seg: "CHR ''@'' \<notin> set (before_slash q)"
    using qs(3) by (auto simp: before_slash_def dest: set_takeWhileD)
  have auth: "authority_end ?raw = length u + 1"
    using login_of_some [of "h @ CHR '':'' # before_slash q" u] free(3) seg
    by (simp add: authority_end_def before)
  have parts: "split_authority None ?raw = Inr (u @ CHR ''@'' # h, q)"
    using free(2) by (simp add: split_authority_def auth split_once_Some [THEN iffD2])
  show ?thesis
  proof (rule parse_plain [OF h p q, where scheme = None and authority = "u @ CHR ''@'' # h" and rest = ?raw])
    show "split_scheme (u @ ''@'' @ h @ '':'' @ q) = Inr (None, ?raw)"
      using no_scheme [of "u @ CHR ''@'' # h" q] login(3) free(2) qs by (simp add: split_scheme_def)
    show "list_all is_ascii_graphic (u @ ''@'' @ h @ '':'' @ q)"
      using login graphic by (simp add: is_ascii_graphic_def)
    show "split_authority None ?raw = Inr (u @ CHR ''@'' # h, q)" by (rule parts)
    show "\<not> credential_bearing None (u @ CHR ''@'' # h)"
      using login(3) by (simp add: credential_bearing_def at)
    show "fetch_form None (u @ CHR ''@'' # h) True = Inr \<lparr>rf_scheme = FetchScp, rf_user = Some u\<rparr>"
      using u by (simp add: fetch_form_def at)
  qed (use short graphic login free at in \<open>auto simp: host_and_path_def split_once_None [THEN iffD2]\<close>)
qed

text \<open>C39. The stored form of a remote reads back: for a plain host and path and a stored form that is
  accepted, the clone URL parses, with and without the suffix, to the identity and the form it was
  made from, so all spellings of one remote register as one project.\<close>

theorem clone_url_reads_back:
  assumes h: "plain_host h" and p: "plain_path p" and f: "fetch_validate f = Inr ()"
  shows "parse_with_fetch (clone_url (h @ ''/'' @ p) f) = Some (Inr (h @ ''/'' @ p, f)) \<and>
    parse_with_fetch (clone_url (h @ ''/'' @ p) f @ ''.git'') = Some (Inr (h @ ''/'' @ p, f))"
proof -
  have q: "parse_with_fetch (clone_url (h @ ''/'' @ p) f @ drop (length p) q) = Some (Inr (h @ ''/'' @ p, f))"
    if "names_path q p" for q
  proof -
    have whole: "p @ drop (length p) q = q" using that by (auto simp: names_path_def)
    obtain s u where fu: "f = \<lparr>rf_scheme = s, rf_user = u\<rparr>" by (cases f)
    show ?thesis
    proof (cases s)
      case FetchHttps
      then show ?thesis using f fu reads_https [OF h p that, of "''https''"] whole
        by (cases u) (simp_all add: clone_url_def fetch_validate_def)
    next
      case FetchHttp
      then show ?thesis using f fu reads_https [OF h p that, of "''http''"] whole
        by (cases u) (simp_all add: clone_url_def fetch_validate_def)
    next
      case FetchSsh
      then show ?thesis using f fu reads_ssh [OF h p that, of u] whole
        by (cases u) (simp_all add: clone_url_def fetch_validate_def split: if_splits)
    next
      case FetchScp
      then show ?thesis using f fu reads_scp [OF h p that] whole split_slash [OF plain_host_chars(1) [OF h], of p]
        by (cases u) (simp_all add: clone_url_def fetch_validate_def split: if_splits)
    qed
  qed
  from q [of p] q [of "p @ ''.git''"] show ?thesis by (simp add: names_path_def)
qed

theorem clone_url_reads_back_witness:
  "parse_with_fetch ''git@github.com:acme/app.git'' =
     Some (Inr (''github.com/acme/app'', \<lparr>rf_scheme = FetchScp, rf_user = Some ''git''\<rparr>))"
proof -
  have "plain_host ''github.com''" "plain_path ''acme/app''"
    "fetch_validate \<lparr>rf_scheme = FetchScp, rf_user = Some ''git''\<rparr> = Inr ()"
    by code_simp+
  from clone_url_reads_back [OF this] show ?thesis by (simp add: clone_url_def)
qed

end
