(* ===== verification/Spec2Isabelle.thy ===== *)
theory Spec2Isabelle
  imports Caller_Auth Operation_Interleaving Worker Broker Node_Commands Lab_Properties Planner Drift_Observation Bindings Project_Remote
begin

text \<open>
  A model of the controller of a machine fleet, and of the node agent it talks to, with the
  properties that make them correct.

  \<^bold>\<open>The program.\<close> The controller (\<open>crates/fleet-controller\<close>) serves an HTTP API over a set of
  use cases (\<open>crates/fleet-application\<close>), which rest on pure domain types
  (\<open>crates/fleet-core\<close>) and on a SQLite store (\<open>crates/fleet-storage-sqlite\<close>). Every change to
  a machine is a durable \<^emph>\<open>operation\<close>: a caller creates it after authorization, a worker
  claims and executes it, and its state only moves along the legal transitions. Every change
  also writes an \<^emph>\<open>audit\<close> intent before and an outcome after. An agent that holds a delegated
  credential may only use the part of the API its grant names; what it may not do itself it
  asks the \<^emph>\<open>action broker\<close> for, and a person decides. The \<^emph>\<open>Lab\<close> leases short-lived
  guests and cleans them up. On a node, \<open>crates/fleetd\<close> executes commands under a \<^emph>\<open>journal\<close>
  that must make redelivery harmless, and reports its \<^emph>\<open>inventory\<close>.

  \<^bold>\<open>How state is modelled.\<close> The store is one record that grows with the components: \<open>world\<close>
  (clock, faults, identifier source, audit ledger), then \<open>op_world\<close> (operations, event hub),
  \<open>req_world\<close> (action requests), \<open>cred_world\<close> (credentials) and \<open>lab_world\<close> (the Lab tables);
  each operation is stated over the extensible record, so calls of one component run on the
  state of another. An operation is a function from the state to an answer (an error or a
  result) and the next state; \<open>Prelude\<close> has the combinators. One SQL statement is one atomic
  step. It may fail: the list \<open>w_faults\<close> of the state says which of the next external calls do,
  and the properties quantify over it. A read and a write that the code issues as two
  statements are two definitions where their interleaving matters. The clock and the
  identifier source are fields of the state. Rust's \<open>i64\<close> is an \<open>int\<close> with the saturating or checked
  addition written out; hashes and bit operations are machine words; strings are lists of
  bytes.

  \<^bold>\<open>Theories, in the order they build on each other.\<close>
  \<^item> \<open>Prelude\<close>: text operations, saturating arithmetic, effects and their rules.
  \<^item> \<open>Interfaces\<close>: the contracts as locales. \<open>text_ids\<close> and \<open>text_enum\<close> (enumerations with a
    stable id: ids are distinct, parsing inverts printing), \<open>lifecycle\<close> (a terminal state is
    never left and every run ends), \<open>effect_relation\<close> (a reflexive and transitive relation that
    a composed effect stays within when its parts do) and \<open>compare_and_set\<close> (of competing
    updates of one entry exactly one wins). They are interpreted where the model provides them:
    ids of permissions, reasons, outcomes, states, risks, probes; the life cycles of operations
    and requests; the relations of the ledger, the stores, the broker, the credentials, the Lab
    and the journal; claims, decisions and lease deadlines.
  \<^item> \<open>Values\<close>: \<open>fleet-core/src/time.rs\<close>, \<open>value.rs\<close> and \<open>fleet-application/src/idempotency.rs\<close>.
  \<^item> \<open>Authz\<close>: the permission catalog and \<open>authorize\<close> of \<open>authz.rs\<close>.
  \<^item> \<open>Audit_Ledger\<close>: \<open>audit.rs\<close> and its table; the ledger only grows, an intent is completed at
    most once, and paging reads it exactly.
  \<^item> \<open>Events\<close>: the event hub of \<open>events.rs\<close>; a resumed client misses nothing or is told so.
  \<^item> \<open>Operation_State\<close>, \<open>Operation_Store\<close>: the life cycle of \<open>fleet-core/src/operation.rs\<close> and the
    fourteen statements of \<open>fleet-storage-sqlite/src/operations.rs\<close>, with the invariant of every
    history and the exclusive claim.
  \<^item> \<open>Credentials\<close>, \<open>Caller_Auth\<close>: issuing, authenticating and revoking delegated credentials
    (\<open>credentials.rs\<close>, its table, \<open>fleet-auth/src/delegated.rs\<close>), the resolvers and authorizers of
    \<open>fleet-auth\<close> and the gate of \<open>fleet-api/src/auth.rs\<close>, in the order the controller layers them.
  \<^item> \<open>Json\<close>, \<open>Installer_Layout\<close>: JSON values; the installer's variables of \<open>fleetd_layout.rs\<close>.
  \<^item> \<open>Operation_Admission\<close>, \<open>Operation_Service\<close>: what \<open>operation.rs\<close> checks before an operation is
    stored, and its use cases.
  \<^item> \<open>Operation_Interleaving\<close>: the same table under concurrent callers. The repository reads a row,
    validates the move in the process and then updates by id alone, so its statements are the
    steps there, and a write that was checked earlier is part of the state and may land late. A
    finished operation is final against every caller that reads it finished; a write checked
    before can still overwrite it, which a property shows.
  \<^item> \<open>Worker\<close>: \<open>worker.rs\<close>, call by call. An executor is any action on the world; what
    only runs repository statements stays within the statements above.
  \<^item> \<open>Action_Request\<close>, \<open>Broker_Policy\<close>, \<open>Broker\<close>: \<open>fleet-core/src/action_request.rs\<close>, its table and
    \<open>broker.rs\<close>; the calls refine an abstract book of requests.
  \<^item> \<open>Node_Facts\<close>, \<open>Node_Journal\<close>, \<open>Node_Inventory\<close>, \<open>Node_Commands\<close>: \<open>probes.rs\<close>, \<open>journal.rs\<close>,
    \<open>inventory.rs\<close> and \<open>commands.rs\<close> of \<open>fleetd\<close>, with the ingestion of \<open>gateway.rs\<close> in the
    controller. What the journal acknowledges refines a map; an inventory operation collects at
    most once over any sequence of deliveries.
  \<^item> \<open>Lab_Template\<close>, \<open>Lab_Store\<close>, \<open>Lab_Lease\<close>: \<open>lab.rs\<close> of \<open>fleet-core\<close>, of the SQLite store and of
    the application. \<open>Lab_Invariants\<close>, \<open>Lab_Vmids\<close> and \<open>Lab_Contracts\<close> hold what any sequence of
    calls keeps (the facts of a lease, its absolute lifetime, one holder per VMID, the scope of
    a credential, keyed creation), the writes of the pool to leases and provisions included;
    \<open>Lab_Properties\<close> states the properties on concrete stores.

  \<^bold>\<open>Bounds and termination.\<close> No definition runs out of fuel. Recursion that is not structural has a
  measure: the scan for mail addresses the length of the text that is left, the growing pages of
  a delegated listing their distance to the largest page. Loops that the code bounds keep the code's bound:
  a delegated listing asks the store at most four times, a cleanup round makes at most five attempts,
  the hub keeps its capacity, the journal compacts when its index holds more than its threshold,
  a collection keeps at most 256 facts. Sequences of calls are lists, of any length.

  \<^bold>\<open>Parameters.\<close> Code that is not in the repository is an argument: SHA-256, base64, JSON printing
  and parsing, UUID parsing, the executors, the provider actions of the broker and their
  guards, and the readings of the probes. The masking rules of \<open>redact.rs\<close> are an argument too, with
  no law assumed of them except where a property names it.

  \<^bold>\<open>Desired state.\<close> \<open>Drift\<close> (\<open>difference.rs\<close>, \<open>observed.rs\<close>) compares what a machine should have with what
  was observed, \<open>Drift_Observation\<close> (\<open>observed_assembly.rs\<close>) assembles the observation from stored facts,
  \<open>Planner\<close> (\<open>planner.rs\<close>, \<open>apply.rs\<close>) turns differences into ordered actions with their approvals,
  \<open>Composition\<close> and \<open>Bindings\<close> (\<open>composition.rs\<close>) compose profiles, projects and skill assignments, and
  \<open>Project_Remote\<close> (\<open>fleet-core/src/project.rs\<close>, \<open>ready.rs\<close>) reads and prints Git remotes. The lemmas give
  each of them an exact meaning: convergence is being in sync, every planned action is justified by an
  answered observation, a composition holds what its profiles require and none denies, a clone URL
  reads back, and a registered remote is what the clone step takes or refuses. The masking loop is measured by the text that is
  left, the composition of profiles by the names not yet on the chain. A panic of the parser of
  remotes is \<open>None\<close>.

  \<^bold>\<open>Not modelled.\<close> HTTP routing and decoding (\<open>fleet-api\<close>), the command line (\<open>fleetctl\<close>), the
  web client and the protobuf frames hold no rules of their own beyond forms. The executors of
  the controller and the provider crates call Proxmox, SSH, Packer, Coolify, DNS and Git services,
  whose answers drive them; the worker sees them as arguments. Core logic outside this model:
  persistent machines, hardware reservations, image recipes, the machine registry with
  onboarding, projects with planning and apply, and skill catalogues. In a partly modelled component the manifest names the operations left
  out, among them the concrete probes, which read files of the host, and the guest bootstrap of
  a lease.
\<close>

end
